(* ===== verification/Opifex_Prelude.thy ===== *)
theory Opifex_Prelude
  imports Complex_Main "HOL-Library.List_Lexorder" "HOL-Library.Char_ord" "HOL-Library.Multiset"
begin

text \<open>
  Shared vocabulary of the development: the JavaScript primitives the modelled
  TypeScript uses (stable sorting with a comparator, \<open>Math.round\<close>, string prefixes and
  lower-casing, the default string order), type synonyms, and the generic lemmas the
  component theories rely on.

  Conventions used by every theory:
  \<^item> a TypeScript interface is a record, a union of string literals a datatype;
  \<^item> \<open>T | null\<close> and an optional field are \<open>'a option\<close>;
  \<^item> an instant (\<open>Date\<close>) is its millisecond count, an \<open>int\<close>;
  \<^item> an amount of money (\<open>number\<close> of dollars) is a \<open>rat\<close>: the arithmetic is exact, IEEE
    rounding and \<open>NaN\<close> are not modelled;
  \<^item> strings are lists of characters; label names, keys and identities are ASCII in this
    program, so character order is the UTF-16 code unit order of JavaScript's default sort;
  \<^item> a message for a human (a \<open>reason\<close> field) is a datatype with one constructor per
    template of the source, whose arguments are the values the template interpolates.
\<close>

type_synonym usd = rat
type_synonym instant = int

named_theorems decide_simps \<open>unfolding rules of the decision functions\<close>

section \<open>Strings\<close>

text \<open>\<open>s.startsWith(p)\<close>\<close>

definition starts_with :: "string \<Rightarrow> string \<Rightarrow> bool" where
  "starts_with p s \<longleftrightarrow> take (length p) s = p"

lemma starts_with_iff: "starts_with p s \<longleftrightarrow> (\<exists>t. s = p @ t)"
  by (auto simp: starts_with_def) (metis append_take_drop_id)

lemma starts_with_append [simp]: "starts_with p (p @ t)"
  by (simp add: starts_with_def)

text \<open>\<open>s.toLowerCase()\<close> on ASCII\<close>

definition lower_char :: "char \<Rightarrow> char" where
  "lower_char c = (let n = of_char c :: nat in if 65 \<le> n \<and> n \<le> 90 then char_of (n + 32) else c)"

definition to_lower :: "string \<Rightarrow> string" where
  "to_lower s = map lower_char s"

lemma lower_char_idem [simp]: "lower_char (lower_char c) = lower_char c"
  by (auto simp: lower_char_def Let_def)

lemma to_lower_idem [simp]: "to_lower (to_lower s) = to_lower s"
  by (simp add: to_lower_def)

section \<open>JSON values\<close>

text \<open>A JSON value, an object with its members in order.\<close>

datatype json =
    Json_null
  | Json_bool bool
  | Json_number rat
  | Json_string string
  | Json_array "json list"
  | Json_object "(string \<times> json) list"

section \<open>Numbers\<close>

text \<open>\<open>Math.round\<close> rounds half up, towards plus infinity.\<close>

definition math_round :: "rat \<Rightarrow> int" where
  "math_round x = \<lfloor>x + 1 / 2\<rfloor>"

lemma math_round_bounds:
  "x - 1 / 2 < of_int (math_round x)" "of_int (math_round x) \<le> x + 1 / 2"
  unfolding math_round_def by linarith+

lemma math_round_mono: "x \<le> y \<Longrightarrow> math_round x \<le> math_round y"
  unfolding math_round_def by (intro floor_mono) simp

lemma math_round_of_int [simp]: "math_round (of_int n) = n"
  unfolding math_round_def by linarith

text \<open>\<open>Math.round(v * 100) / 100\<close>: to cents, the rounding every money figure uses.\<close>

definition to_cents :: "usd \<Rightarrow> usd" where
  "to_cents v = of_int (math_round (v * 100)) / 100"

lemma to_cents_bounds:
  "v - 1 / 200 < to_cents v" "to_cents v \<le> v + 1 / 200"
  using math_round_bounds[of "v * 100"] by (auto simp: to_cents_def field_simps)

lemma to_cents_mono: "v \<le> w \<Longrightarrow> to_cents v \<le> to_cents w"
  by (simp add: to_cents_def divide_right_mono math_round_mono)

text \<open>A figure that is a whole number of cents is its own rounding.\<close>

definition whole_cents :: "usd \<Rightarrow> bool" where
  "whole_cents v \<longleftrightarrow> v * 100 = of_int \<lfloor>v * 100\<rfloor>"

lemma to_cents_whole: "whole_cents v \<Longrightarrow> to_cents v = v"
proof -
  assume "whole_cents v"
  then obtain n where n: "v * 100 = of_int n" by (auto simp: whole_cents_def)
  then have "to_cents v = of_int n / 100" by (simp add: to_cents_def)
  with n show ?thesis by (simp add: field_simps)
qed

lemma whole_cents_to_cents [simp]: "whole_cents (to_cents v)"
  by (simp add: whole_cents_def to_cents_def)

lemma whole_cents_iff: "whole_cents v \<longleftrightarrow> (\<exists>n. v * 100 = of_int n)"
  by (auto simp: whole_cents_def)

lemma whole_cents_add: "whole_cents v \<Longrightarrow> whole_cents w \<Longrightarrow> whole_cents (v + w)"
  by (auto simp: whole_cents_iff distrib_right simp flip: of_int_add)

text \<open>
  A \<open>number\<close> that may be \<open>NaN\<close> or infinite is a \<open>js_number\<close>, \<open>None\<close> standing for "not finite".
  Arithmetic on it is strict, and a comparison with it is false, as with \<open>NaN\<close>; where the code
  meets an infinity it has tested \<open>Number.isFinite\<close> first.
\<close>

type_synonym js_number = "rat option"

fun num_op :: "(rat \<Rightarrow> rat \<Rightarrow> rat) \<Rightarrow> js_number \<Rightarrow> js_number \<Rightarrow> js_number" where
  "num_op f (Some x) (Some y) = Some (f x y)"
| "num_op f _ _ = None"

fun num_cmp :: "(rat \<Rightarrow> rat \<Rightarrow> bool) \<Rightarrow> js_number \<Rightarrow> js_number \<Rightarrow> bool" where
  "num_cmp P (Some x) (Some y) \<longleftrightarrow> P x y"
| "num_cmp P _ _ \<longleftrightarrow> False"

definition is_integer :: "js_number \<Rightarrow> bool" where
  "is_integer n = (case n of Some v \<Rightarrow> v = of_int \<lfloor>v\<rfloor> | None \<Rightarrow> False)"

lemma num_op_Some_iff: "num_op f a b = Some v \<longleftrightarrow> (\<exists>x y. a = Some x \<and> b = Some y \<and> v = f x y)"
  by (cases a; cases b) auto

lemma num_cmp_iff: "num_cmp P a b \<longleftrightarrow> (\<exists>x y. a = Some x \<and> b = Some y \<and> P x y)"
  by (cases a; cases b) auto

section \<open>Stable sorting with a comparator\<close>

text \<open>
  \<open>xs.sort(cmp)\<close>: the language specifies a stable sort, so for a consistent comparator the
  result is determined; insertion sort computes it.
\<close>

fun js_insort :: "('a \<Rightarrow> 'a \<Rightarrow> int) \<Rightarrow> 'a \<Rightarrow> 'a list \<Rightarrow> 'a list" where
  "js_insort cmp x [] = [x]"
| "js_insort cmp x (y # ys) = (if cmp x y \<le> 0 then x # y # ys else y # js_insort cmp x ys)"

definition js_sort :: "('a \<Rightarrow> 'a \<Rightarrow> int) \<Rightarrow> 'a list \<Rightarrow> 'a list" where
  "js_sort cmp xs = foldr (js_insort cmp) xs []"

lemma js_sort_simps [simp]:
  "js_sort cmp [] = []" "js_sort cmp (x # xs) = js_insort cmp x (js_sort cmp xs)"
  by (simp_all add: js_sort_def)

lemma mset_js_insort [simp]: "mset (js_insort cmp x xs) = add_mset x (mset xs)"
  by (induction xs) auto

lemma mset_js_sort [simp]: "mset (js_sort cmp xs) = mset xs"
  by (induction xs) auto

lemma set_js_sort [simp]: "set (js_sort cmp xs) = set xs"
  by (metis mset_js_sort set_mset_mset)

lemma length_js_sort [simp]: "length (js_sort cmp xs) = length xs"
  by (metis mset_js_sort size_mset)

lemma js_sort_eq_Nil [simp]: "js_sort cmp xs = [] \<longleftrightarrow> xs = []"
  by (metis length_0_conv length_js_sort)

lemma distinct_js_sort [simp]: "distinct (js_sort cmp xs) \<longleftrightarrow> distinct xs"
  by (metis mset_eq_imp_distinct_iff mset_js_sort)

text \<open>
  The contract of a comparator (a consistent comparison function in the language
  standard), and what sorting by one gives.
\<close>

locale js_comparator =
  fixes cmp :: "'a \<Rightarrow> 'a \<Rightarrow> int"
  assumes cmp_total: "cmp x y \<le> 0 \<or> cmp y x \<le> 0"
    and cmp_trans: "cmp x y \<le> 0 \<Longrightarrow> cmp y z \<le> 0 \<Longrightarrow> cmp x z \<le> 0"
begin

lemma refl: "cmp x x \<le> 0"
  using cmp_total[of x x] by simp

lemma sorted_insort:
  "sorted_wrt (\<lambda>x y. cmp x y \<le> 0) xs \<Longrightarrow> sorted_wrt (\<lambda>x y. cmp x y \<le> 0) (js_insort cmp x xs)"
proof (induction xs)
  case (Cons y ys)
  have "set (js_insort cmp x ys) = insert x (set ys)"
    by (metis mset_js_insort set_mset_add_mset_insert set_mset_mset)
  with Cons show ?case
    using cmp_total[of x y] by (auto intro: cmp_trans)
qed simp

lemma sorted_sort: "sorted_wrt (\<lambda>x y. cmp x y \<le> 0) (js_sort cmp xs)"
  by (induction xs) (auto intro: sorted_insort)

lemma sort_head_min: "js_sort cmp xs = y # ys \<Longrightarrow> z \<in> set xs \<Longrightarrow> cmp y z \<le> 0"
proof -
  assume eq: "js_sort cmp xs = y # ys" and z: "z \<in> set xs"
  from eq z have "z \<in> set (y # ys)" by (metis set_js_sort)
  with sorted_sort[of xs] eq refl show "cmp y z \<le> 0" by auto
qed

text \<open>The last element of the sorted list, \<open>xs.sort(cmp).pop()\<close>, is a greatest one.\<close>

lemma sort_last_max: "z \<in> set xs \<Longrightarrow> cmp z (last (js_sort cmp xs)) \<le> 0"
proof -
  assume z: "z \<in> set xs"
  then have ne: "js_sort cmp xs \<noteq> []" by auto
  then have split: "js_sort cmp xs = butlast (js_sort cmp xs) @ [last (js_sort cmp xs)]" by simp
  from sorted_sort[of xs] have
    "\<forall>x \<in> set (butlast (js_sort cmp xs)). cmp x (last (js_sort cmp xs)) \<le> 0"
    by (subst (asm) split) (simp add: sorted_wrt_append)
  moreover from z have "z \<in> set (js_sort cmp xs)" by simp
  ultimately show ?thesis
    by (subst (asm) split) (auto simp: refl)
qed

text \<open>Inserting before an equal element keeps the input's order: the sort is stable.\<close>

lemma insort_filter_equal:
  "sorted_wrt (\<lambda>x y. cmp x y \<le> 0) xs \<Longrightarrow>
   filter (\<lambda>y. cmp x y \<le> 0 \<and> cmp y x \<le> 0) (js_insort cmp x xs) =
   x # filter (\<lambda>y. cmp x y \<le> 0 \<and> cmp y x \<le> 0) xs"
  by (induction xs) (auto simp: refl)

lemma insort_filter_other:
  "\<not> (cmp z x \<le> 0 \<and> cmp x z \<le> 0) \<Longrightarrow>
   filter (\<lambda>y. cmp z y \<le> 0 \<and> cmp y z \<le> 0) (js_insort cmp x xs) =
   filter (\<lambda>y. cmp z y \<le> 0 \<and> cmp y z \<le> 0) xs"
  by (induction xs) auto

lemma insort_filter_class:
  assumes "cmp z x \<le> 0" "cmp x z \<le> 0" "sorted_wrt (\<lambda>x y. cmp x y \<le> 0) xs"
  shows "filter (\<lambda>y. cmp z y \<le> 0 \<and> cmp y z \<le> 0) (js_insort cmp x xs) =
   x # filter (\<lambda>y. cmp z y \<le> 0 \<and> cmp y z \<le> 0) xs"
proof -
  have "(cmp z y \<le> 0 \<and> cmp y z \<le> 0) \<longleftrightarrow> (cmp x y \<le> 0 \<and> cmp y x \<le> 0)" for y
    using assms cmp_trans by blast
  then show ?thesis using insort_filter_equal[OF assms(3), of x] by simp
qed

lemma sort_stable:
  "filter (\<lambda>y. cmp z y \<le> 0 \<and> cmp y z \<le> 0) (js_sort cmp xs) =
   filter (\<lambda>y. cmp z y \<le> 0 \<and> cmp y z \<le> 0) xs"
  by (induction xs) (auto simp: insort_filter_class insort_filter_other sorted_sort)

text \<open>
  A comparator that tells the elements of a list apart sorts every permutation of it to
  the same list.
\<close>

lemma sorted_unique:
  assumes "sorted_wrt (\<lambda>x y. cmp x y \<le> 0) xs" "sorted_wrt (\<lambda>x y. cmp x y \<le> 0) ys"
    "mset xs = mset ys"
    "\<And>a b. a \<in> set xs \<Longrightarrow> b \<in> set xs \<Longrightarrow> cmp a b \<le> 0 \<Longrightarrow> cmp b a \<le> 0 \<Longrightarrow> a = b"
  shows "xs = ys"
  using assms
proof (induction xs arbitrary: ys)
  case (Cons x xs)
  then obtain y ys' where ys: "ys = y # ys'" by (cases ys) auto
  have mem: "set (x # xs) = set (y # ys')" using Cons.prems(3) ys by (metis set_mset_mset)
  have "cmp x y \<le> 0" using Cons.prems(1) mem refl by (metis list.set_intros(1) set_ConsD sorted_wrt.simps(2))
  moreover have "cmp y x \<le> 0"
    using Cons.prems(2) ys mem refl by (metis list.set_intros(1) set_ConsD sorted_wrt.simps(2))
  moreover have "y \<in> set (x # xs)" using mem by simp
  ultimately have "x = y" using Cons.prems(4)[of x y] by simp
  with Cons ys show ?case by auto
qed simp

lemma sort_permutation:
  assumes "mset xs = mset ys"
    "\<And>a b. a \<in> set xs \<Longrightarrow> b \<in> set xs \<Longrightarrow> cmp a b \<le> 0 \<Longrightarrow> cmp b a \<le> 0 \<Longrightarrow> a = b"
  shows "js_sort cmp xs = js_sort cmp ys"
  using assms by (intro sorted_unique) (auto simp: sorted_sort)

text \<open>
  The head of the sorted list, \<open>xs.sort(cmp)[0]\<close>, is what a loop keeping the best element
  so far and replacing it only by a strictly better one arrives at.
\<close>

lemma hd_insort: "hd (js_insort cmp x ys) = (if ys = [] \<or> cmp x (hd ys) \<le> 0 then x else hd ys)"
  by (cases ys) auto

lemma hd_sort_snoc:
  "hd (js_sort cmp (xs @ [x])) =
   (if xs = [] \<or> \<not> cmp (hd (js_sort cmp xs)) x \<le> 0 then x else hd (js_sort cmp xs))"
proof (induction xs)
  case (Cons a xs)
  then show ?case
    using cmp_total[of a x] cmp_total[of "hd (js_sort cmp xs)" x]
    by (auto simp: hd_insort intro: cmp_trans)
qed simp

end

text \<open>Comparators of the shape \<open>f(a) - f(b)\<close>.\<close>

definition by_key :: "('a \<Rightarrow> int) \<Rightarrow> 'a \<Rightarrow> 'a \<Rightarrow> int" where
  "by_key f a b = f a - f b"

interpretation key_order: js_comparator "by_key f" for f :: "'a \<Rightarrow> int"
  by unfold_locales (auto simp: by_key_def)

lemma key_sort_sorted: "sorted (map f (js_sort (by_key f) xs))"
  using key_order.sorted_sort[of f xs] by (simp add: by_key_def sorted_wrt_map)

section \<open>Options\<close>

text \<open>\<open>x ?? d\<close>\<close>

fun or_else :: "'a option \<Rightarrow> 'a option \<Rightarrow> 'a option" where
  "or_else None d = d"
| "or_else (Some x) d = Some x"

fun get_or :: "'a \<Rightarrow> 'a option \<Rightarrow> 'a" where
  "get_or d None = d"
| "get_or d (Some x) = x"

lemma or_else_None_iff [simp]: "or_else a b = None \<longleftrightarrow> a = None \<and> b = None"
  by (cases a) auto

section \<open>Lists as the code searches them\<close>

text \<open>\<open>xs.find(p)\<close> on a list sorted so that the elements satisfying \<open>p\<close> come first.\<close>

lemma find_Some_iff_mem: "find P xs = Some x \<Longrightarrow> x \<in> set xs \<and> P x"
  by (auto simp: find_Some_iff)

lemma find_Some_append: "find P xs = Some x \<Longrightarrow> \<exists>us vs. xs = us @ x # vs \<and> (\<forall>u \<in> set us. \<not> P u)"
proof (induction xs)
  case (Cons a xs)
  show ?case
  proof (cases "P a")
    case True
    with Cons.prems show ?thesis by (metis append_Nil empty_iff empty_set find.simps(2) option.inject)
  next
    case False
    with Cons obtain us vs where "xs = us @ x # vs" "\<forall>u \<in> set us. \<not> P u" by auto
    with False show ?thesis by (metis append_Cons set_ConsD)
  qed
qed simp

lemma map_filter_eq_Nil [simp]: "map f (filter P xs) = [] \<longleftrightarrow> (\<forall>x \<in> set xs. \<not> P x)"
  by (auto simp: filter_empty_conv)

lemma distinct_map_eqD:
  "distinct (map f xs) \<Longrightarrow> x \<in> set xs \<Longrightarrow> y \<in> set xs \<Longrightarrow> f x = f y \<Longrightarrow> x = y"
  by (meson distinct_map inj_onD)

section \<open>Collation\<close>

text \<open>What the language promises of \<open>localeCompare\<close>.\<close>

locale collation =
  fixes lc :: "string \<Rightarrow> string \<Rightarrow> int"
  assumes lc_total: "lc a b \<le> 0 \<or> lc b a \<le> 0"
    and lc_trans: "lc a b \<le> 0 \<Longrightarrow> lc b c \<le> 0 \<Longrightarrow> lc a c \<le> 0"

text \<open>A collation that tells different keys apart.\<close>

locale strict_collation = collation +
  assumes lc_antisym: "lc a b \<le> 0 \<Longrightarrow> lc b a \<le> 0 \<Longrightarrow> a = b"

text \<open>
  The code unit order, which is the root collation on the lower-case, hyphenated keys the
  manifest schema allows.
\<close>

definition code_unit_compare :: "string \<Rightarrow> string \<Rightarrow> int" where
  "code_unit_compare a b = (if a = b then 0 else if a < b then -1 else 1)"

interpretation code_units: strict_collation code_unit_compare
  by unfold_locales (auto simp: code_unit_compare_def split: if_splits)

end
