(* ===== verification/Runner_Types.thy ===== *)
theory Runner_Types
  imports Opifex_Prelude
begin

text \<open>
  The vocabulary of the runner seam (\<open>runners/runner.types.ts\<close>): what a work order may
  need of a runner, the model tier it may ask for, and the capability manifest a runner
  declares. Constructors carry the source's string literals in their names. The raw
  manifest a runner sent is kept as the JSON value it was.
\<close>

datatype model_tier = Tier_small | Tier_standard | Tier_large

datatype runner_need =
    Need_full_streaming
  | Need_cost_reporting
  | Need_structured_rate_limits
  | Need_own_infrastructure

text \<open>The literals of the needs and the tiers, and a literal read back.\<close>

fun need_literal :: "runner_need \<Rightarrow> string" where
  "need_literal Need_full_streaming = ''full-streaming''"
| "need_literal Need_cost_reporting = ''cost-reporting''"
| "need_literal Need_structured_rate_limits = ''structured-rate-limits''"
| "need_literal Need_own_infrastructure = ''own-infrastructure''"

fun tier_literal :: "model_tier \<Rightarrow> string" where
  "tier_literal Tier_small = ''small''"
| "tier_literal Tier_standard = ''standard''"
| "tier_literal Tier_large = ''large''"

definition KNOWN_NEEDS :: "runner_need list" where
  "KNOWN_NEEDS = [Need_full_streaming, Need_cost_reporting, Need_structured_rate_limits, Need_own_infrastructure]"

definition KNOWN_MODEL_TIERS :: "model_tier list" where
  "KNOWN_MODEL_TIERS = [Tier_small, Tier_standard, Tier_large]"

definition need_named :: "string \<Rightarrow> runner_need option" where
  "need_named s = find (\<lambda>n. need_literal n = s) KNOWN_NEEDS"

definition tier_named :: "string \<Rightarrow> model_tier option" where
  "tier_named s = find (\<lambda>t. tier_literal t = s) KNOWN_MODEL_TIERS"

lemma need_named_iff: "need_named s = Some n \<longleftrightarrow> s = need_literal n"
  by (cases n) (auto simp: need_named_def KNOWN_NEEDS_def)

lemma tier_named_iff: "tier_named s = Some t \<longleftrightarrow> s = tier_literal t"
  by (cases t) (auto simp: tier_named_def KNOWN_MODEL_TIERS_def)

datatype invocation_model = Process | Http_api | Hosted_job

datatype execution_locus = Own_infrastructure | Vendor_cloud

datatype streaming_fidelity = Fidelity_full | Fidelity_partial | Fidelity_none

datatype rate_limit_signal = Signal_structured | Signal_heuristic | Signal_none

datatype stability_tier = Experimental | Beta | Stable

record runner_capabilities =
  rc_key :: string
  displayName :: string
  rc_version :: string
  schemaVersion :: string
  invocationModel :: invocation_model
  executionLocus :: execution_locus
  streamingFidelity :: streaming_fidelity
  rateLimitSignal :: rate_limit_signal
  stabilityTier :: stability_tier
  reportsCost :: bool
  resumable :: bool
  maxConcurrency :: int
  branchPatterns :: "string list"
  modelTiers :: "model_tier list option"
  rc_available :: "bool option"
  unavailableReason :: "string option"
  manifest :: json

text \<open>What the control plane hands a runner: the work order with its run id.\<close>

record repo_ref =
  repo_owner :: string
  repo_name :: string

record work_order_spec =
  wos_identity :: string
  wos_runId :: string
  wos_repository :: repo_ref
  baseCommit :: string
  branch :: string
  taskSpec :: string
  acceptanceCriteria :: "string list"
  pathConstraints :: "string list"
  wos_budgetCeilingUsd :: "usd option"
  wallClockTimeoutMinutes :: "rat option"
  wos_needs :: "runner_need list"
  wos_modelTier :: "model_tier option"

text \<open>The vendor's description of its own rate-limit position, ordered worst-last.\<close>

datatype quota_pressure = Pressure_unknown | Pressure_allowed | Pressure_warning | Pressure_exhausted

definition QUOTA_PRESSURE_ORDER :: "quota_pressure list" where
  "QUOTA_PRESSURE_ORDER = [Pressure_unknown, Pressure_allowed, Pressure_warning, Pressure_exhausted]"

text \<open>\<open>QUOTA_PRESSURE_ORDER.indexOf(p)\<close>: the order of the pressures is their index in it.\<close>

fun pressure_index :: "quota_pressure \<Rightarrow> nat" where
  "pressure_index Pressure_unknown = 0"
| "pressure_index Pressure_allowed = 1"
| "pressure_index Pressure_warning = 2"
| "pressure_index Pressure_exhausted = 3"

lemma pressure_index_order: "QUOTA_PRESSURE_ORDER ! pressure_index p = p"
  by (cases p) (simp_all add: QUOTA_PRESSURE_ORDER_def numeral_eq_Suc)

lemma pressure_index_inj [simp]: "pressure_index p = pressure_index q \<longleftrightarrow> p = q"
  by (cases p; cases q) simp_all

instantiation quota_pressure :: linorder
begin

definition less_eq_quota_pressure :: "quota_pressure \<Rightarrow> quota_pressure \<Rightarrow> bool" where
  "p \<le> q \<longleftrightarrow> pressure_index p \<le> pressure_index q"

definition less_quota_pressure :: "quota_pressure \<Rightarrow> quota_pressure \<Rightarrow> bool" where
  "p < q \<longleftrightarrow> pressure_index p < pressure_index q"

instance
  by standard
    (auto simp: less_eq_quota_pressure_def less_quota_pressure_def simp flip: pressure_index_inj)

end

record runner_quota_observation =
  obs_runnerKey :: string
  obs_kind :: string
  obs_resetsAt :: instant
  obs_pressure :: quota_pressure
  obs_observedAt :: instant

end
