(* ===== verification/Labels.thy ===== *)
theory Labels
  imports Runner_Types
begin

text \<open>
  The label vocabulary (\<open>github/labels/factory-labels.ts\<close>,
  \<open>github/labels/ignored-labels.ts\<close>) and the read boundary that classifies an issue's
  labels (\<open>toNormalizedIssue\<close> of \<open>github/read/github-read.service.ts\<close>). Input labels
  carry human intent; mirror labels are written by the control plane and never read as
  truth; every other routing label that is not understood is reported as ignored.
\<close>

section \<open>The vocabulary\<close>

definition INPUT_LABEL_PREFIX :: string where
  "INPUT_LABEL_PREFIX = ''factory:''"

definition MIRROR_LABEL_PREFIX :: string where
  "MIRROR_LABEL_PREFIX = ''factory/''"

definition INPUT_HOLD :: string where "INPUT_HOLD = ''factory:hold''"
definition INPUT_READY :: string where "INPUT_READY = ''factory:ready''"
definition INPUT_CLEAR_QUARANTINE :: string where
  "INPUT_CLEAR_QUARANTINE = ''factory:clear-quarantine''"

definition ALL_INPUT_LABELS :: "string list" where
  "ALL_INPUT_LABELS = [INPUT_HOLD, INPUT_READY, INPUT_CLEAR_QUARANTINE]"

definition MIRROR_DISPATCHED :: string where "MIRROR_DISPATCHED = ''factory/dispatched''"
definition MIRROR_BLOCKED :: string where "MIRROR_BLOCKED = ''factory/blocked''"
definition MIRROR_REVIEW :: string where "MIRROR_REVIEW = ''factory/review''"
definition MIRROR_QUARANTINE :: string where "MIRROR_QUARANTINE = ''factory/quarantine''"
definition MIRROR_LABEL_IGNORED :: string where "MIRROR_LABEL_IGNORED = ''factory/label-ignored''"

definition ALL_MIRROR_LABELS :: "string list" where
  "ALL_MIRROR_LABELS =
     [MIRROR_DISPATCHED, MIRROR_BLOCKED, MIRROR_REVIEW, MIRROR_QUARANTINE, MIRROR_LABEL_IGNORED]"

lemmas input_label_defs = INPUT_HOLD_def INPUT_READY_def INPUT_CLEAR_QUARANTINE_def
lemmas mirror_label_defs = MIRROR_DISPATCHED_def MIRROR_BLOCKED_def MIRROR_REVIEW_def
  MIRROR_QUARANTINE_def MIRROR_LABEL_IGNORED_def

definition isMirrorLabel :: "string \<Rightarrow> bool" where
  "isMirrorLabel name \<longleftrightarrow> starts_with MIRROR_LABEL_PREFIX name"

definition isInputLabel :: "string \<Rightarrow> bool" where
  "isInputLabel name \<longleftrightarrow> name \<in> set ALL_INPUT_LABELS"

definition isUnknownInputLabel :: "string \<Rightarrow> bool" where
  "isUnknownInputLabel name \<longleftrightarrow> starts_with INPUT_LABEL_PREFIX name \<and> \<not> isInputLabel name"

lemma input_not_mirror: "isInputLabel l \<Longrightarrow> \<not> isMirrorLabel l"
  by (auto simp: isInputLabel_def isMirrorLabel_def ALL_INPUT_LABELS_def input_label_defs
      MIRROR_LABEL_PREFIX_def starts_with_def)

lemma all_mirror_labels_mirror: "l \<in> set ALL_MIRROR_LABELS \<Longrightarrow> isMirrorLabel l"
  by (auto simp: isMirrorLabel_def ALL_MIRROR_LABELS_def mirror_label_defs MIRROR_LABEL_PREFIX_def
      starts_with_def)

lemma input_labels_distinct [simp]:
  "INPUT_HOLD \<noteq> INPUT_READY" "INPUT_READY \<noteq> INPUT_HOLD"
  "INPUT_HOLD \<noteq> INPUT_CLEAR_QUARANTINE" "INPUT_CLEAR_QUARANTINE \<noteq> INPUT_HOLD"
  "INPUT_READY \<noteq> INPUT_CLEAR_QUARANTINE" "INPUT_CLEAR_QUARANTINE \<noteq> INPUT_READY"
  by (simp_all add: input_label_defs)

lemma mirror_labels_distinct: "distinct ALL_MIRROR_LABELS"
  by (simp add: ALL_MIRROR_LABELS_def mirror_label_defs)

section \<open>Routing labels that are ignored\<close>

definition NEEDS_LABEL_PREFIX :: string where "NEEDS_LABEL_PREFIX = ''needs:''"
definition TIER_LABEL_PREFIX :: string where "TIER_LABEL_PREFIX = ''tier:''"

definition NEEDS_BY_LABEL :: "string \<Rightarrow> runner_need option" where
  "NEEDS_BY_LABEL = map_of
     [(''needs:full-streaming'', Need_full_streaming),
      (''needs:cost-reporting'', Need_cost_reporting),
      (''needs:structured-rate-limits'', Need_structured_rate_limits),
      (''needs:own-infrastructure'', Need_own_infrastructure)]"

definition MODEL_TIER_BY_LABEL :: "string \<Rightarrow> model_tier option" where
  "MODEL_TIER_BY_LABEL = map_of
     [(''tier:small'', Tier_small), (''tier:standard'', Tier_standard), (''tier:large'', Tier_large)]"

datatype ignored_label_kind = Unrecognised | Contradiction

record ignored_label =
  il_prefix :: string
  il_kind :: ignored_label_kind
  il_labels :: "string list"

definition unrecognised :: "string \<Rightarrow> string list \<Rightarrow> ignored_label" where
  "unrecognised p labels = \<lparr>il_prefix = p, il_kind = Unrecognised, il_labels = sort labels\<rparr>"

definition tier_label :: "string \<Rightarrow> bool" where
  "tier_label name \<longleftrightarrow> starts_with TIER_LABEL_PREFIX (to_lower name)"

definition classifyIgnoredLabels :: "string list \<Rightarrow> ignored_label list" where
  "classifyIgnoredLabels labelNames =
    (let unknownFactory = filter (\<lambda>name. starts_with INPUT_LABEL_PREFIX name \<and> \<not> isInputLabel name) labelNames;
         unknownNeeds = filter (\<lambda>name. starts_with NEEDS_LABEL_PREFIX (to_lower name) \<and>
                                       NEEDS_BY_LABEL (to_lower name) = None) labelNames;
         tierLabels = filter tier_label labelNames;
         unknownTiers = filter (\<lambda>name. MODEL_TIER_BY_LABEL (to_lower name) = None) tierLabels;
         declaredTiers = filter (\<lambda>name. MODEL_TIER_BY_LABEL (to_lower name) \<noteq> None) tierLabels;
         distinctTiers = remdups (map (\<lambda>name. MODEL_TIER_BY_LABEL (to_lower name)) declaredTiers)
     in (if unknownFactory \<noteq> [] then [unrecognised INPUT_LABEL_PREFIX unknownFactory] else [])
      @ (if unknownNeeds \<noteq> [] then [unrecognised NEEDS_LABEL_PREFIX unknownNeeds] else [])
      @ (if unknownTiers \<noteq> [] then [unrecognised TIER_LABEL_PREFIX unknownTiers] else [])
      @ (if length distinctTiers > 1
         then [\<lparr>il_prefix = TIER_LABEL_PREFIX, il_kind = Contradiction, il_labels = sort declaredTiers\<rparr>]
         else []))"

text \<open>The findings as clauses, one per finding, as \<open>describeIgnoredLabels\<close> joins them.\<close>

datatype ignored_clause =
    Clause_contradict "string list"
  | Clause_not_recognised "string list" bool string
    \<comment> \<open>the labels, whether the verb is plural, the family\<close>

definition describeIgnoredLabels :: "ignored_label list \<Rightarrow> ignored_clause list" where
  "describeIgnoredLabels ignored = map (\<lambda>f.
     if il_kind f = Contradiction then Clause_contradict (il_labels f)
     else Clause_not_recognised (il_labels f) (length (il_labels f) > 1) (il_prefix f)) ignored"

section \<open>The read boundary\<close>

record normalized_label =
  nl_name :: string
  nl_color :: string
  nl_description :: "string option"

datatype issue_state = Issue_open | Issue_closed

record normalized_issue =
  ni_number :: int
  ni_title :: string
  ni_body :: "string option"
  ni_state :: issue_state
  ni_author :: "string option"
  ni_labels :: "normalized_label list"
  inputLabels :: "string list"
  unknownInputLabels :: "string list"
  ignoredLabels :: "ignored_label list"
  observedMirrorLabels :: "string list"
  isPullRequest :: bool
  ni_url :: string
  ni_createdAt :: instant
  ni_updatedAt :: instant

text \<open>
  GitHub's payload. A key that may be absent or null is an option; \<open>pull_request\<close> is read
  only for its presence; the two timestamps are already instants.
\<close>

record raw_label =
  rl_name :: string
  rl_color :: string
  rl_description :: "string option"

record raw_issue =
  ri_number :: int
  ri_title :: string
  ri_body :: "string option"
  ri_state :: string
  ri_user :: "string option"
  ri_labels :: "raw_label list option"
  ri_pull_request :: bool
  ri_html_url :: string
  ri_created_at :: instant
  ri_updated_at :: instant

definition toNormalizedLabel :: "raw_label \<Rightarrow> normalized_label" where
  "toNormalizedLabel r =
     \<lparr>nl_name = rl_name r, nl_color = rl_color r, nl_description = rl_description r\<rparr>"

definition toNormalizedIssue :: "raw_issue \<Rightarrow> normalized_issue" where
  "toNormalizedIssue raw =
    (let all = get_or [] (ri_labels raw);
         visible = filter (\<lambda>l. \<not> isMirrorLabel (rl_name l)) all
     in \<lparr>ni_number = ri_number raw,
         ni_title = ri_title raw,
         ni_body = ri_body raw,
         ni_state = (if ri_state raw = ''closed'' then Issue_closed else Issue_open),
         ni_author = ri_user raw,
         ni_labels = map toNormalizedLabel visible,
         inputLabels = filter isInputLabel (map rl_name visible),
         unknownInputLabels = filter isUnknownInputLabel (map rl_name visible),
         ignoredLabels = classifyIgnoredLabels (map rl_name visible),
         observedMirrorLabels = map rl_name (filter (\<lambda>l. isMirrorLabel (rl_name l)) all),
         isPullRequest = ri_pull_request raw,
         ni_url = ri_html_url raw,
         ni_createdAt = ri_created_at raw,
         ni_updatedAt = ri_updated_at raw\<rparr>)"

section \<open>Who applied a label\<close>

datatype label_event_kind = Labeled | Unlabeled

record normalized_label_event =
  le_event :: label_event_kind
  le_label :: string
  le_actor :: "string option"
  actorIsBot :: bool
  le_occurredAt :: instant

text \<open>
  \<open>wasLabelAppliedByHuman\<close> over the label events of the timeline, oldest first: the loop
  keeps the last event of this label.
\<close>

fun last_event_of :: "string \<Rightarrow> normalized_label_event option \<Rightarrow> normalized_label_event list
    \<Rightarrow> normalized_label_event option" where
  "last_event_of label acc [] = acc"
| "last_event_of label acc (e # es) =
     last_event_of label (if le_label e = label then Some e else acc) es"

definition wasLabelAppliedByHuman :: "normalized_label_event list \<Rightarrow> string \<Rightarrow> bool" where
  "wasLabelAppliedByHuman events label =
     (case last_event_of label None events of
        None \<Rightarrow> False
      | Some e \<Rightarrow> le_event e = Labeled \<and> \<not> actorIsBot e)"


section \<open>Lemmas\<close>

text \<open>What it takes for a routing label to be understood.\<close>

definition understood :: "string \<Rightarrow> bool" where
  "understood name \<longleftrightarrow>
     (starts_with INPUT_LABEL_PREFIX name \<longrightarrow> isInputLabel name) \<and>
     (starts_with NEEDS_LABEL_PREFIX (to_lower name) \<longrightarrow> NEEDS_BY_LABEL (to_lower name) \<noteq> None) \<and>
     (tier_label name \<longrightarrow> MODEL_TIER_BY_LABEL (to_lower name) \<noteq> None)"

definition tiers_agree :: "string list \<Rightarrow> bool" where
  "tiers_agree names \<longleftrightarrow> (\<forall>a \<in> set names. \<forall>b \<in> set names.
     tier_label a \<longrightarrow> tier_label b \<longrightarrow>
     MODEL_TIER_BY_LABEL (to_lower a) \<noteq> None \<longrightarrow> MODEL_TIER_BY_LABEL (to_lower b) \<noteq> None \<longrightarrow>
     MODEL_TIER_BY_LABEL (to_lower a) = MODEL_TIER_BY_LABEL (to_lower b))"

lemma remdups_at_most_one:
  "length (remdups xs) \<le> 1 \<longleftrightarrow> (\<forall>a \<in> set xs. \<forall>b \<in> set xs. a = b)"
proof -
  have "length (remdups xs) = card (set xs)" by (simp add: length_remdups_card_conv)
  moreover have "card (set xs) \<le> 1 \<longleftrightarrow> (\<forall>a \<in> set xs. \<forall>b \<in> set xs. a = b)"
    using card_le_Suc0_iff_eq[of "set xs"] by auto
  ultimately show ?thesis by simp
qed

lemma tiers_agree_remdups:
  "length (remdups (map (\<lambda>n. MODEL_TIER_BY_LABEL (to_lower n))
     (filter (\<lambda>n. MODEL_TIER_BY_LABEL (to_lower n) \<noteq> None) (filter tier_label names)))) \<le> 1
   \<longleftrightarrow> tiers_agree names"
  unfolding remdups_at_most_one tiers_agree_def by auto

lemma classify_Nil_iff:
  "classifyIgnoredLabels names = [] \<longleftrightarrow> list_all understood names \<and> tiers_agree names"
  unfolding tiers_agree_remdups[symmetric] list_all_iff understood_def
  by (auto simp: classifyIgnoredLabels_def Let_def filter_empty_conv)

lemma sort_cong_mset: "mset xs = mset ys \<Longrightarrow> sort xs = sort (ys :: 'a::linorder list)"
  by (metis mset_sort properties_for_sort sorted_sort)

lemma filter_cong_mset: "mset xs = mset ys \<Longrightarrow> mset (filter P xs) = mset (filter P ys)"
  by (simp add: mset_filter)

lemma filter_Nil_cong_mset: "mset xs = mset ys \<Longrightarrow> filter P xs = [] \<longleftrightarrow> filter P ys = []"
  by (metis filter_cong_mset mset_zero_iff)

lemma classify_permutation:
  assumes "mset xs = mset ys"
  shows "classifyIgnoredLabels xs = classifyIgnoredLabels ys"
proof -
  have sorted: "sort (filter P xs) = sort (filter P ys)"
    and empty: "filter P xs = [] \<longleftrightarrow> filter P ys = []" for P
    using assms by (auto intro: sort_cong_mset simp: mset_filter filter_Nil_cong_mset[OF assms])
  have len: "length (remdups (map f (filter P xs))) = length (remdups (map f (filter P ys)))"
    for f :: "string \<Rightarrow> model_tier option" and P
    unfolding length_remdups_card_conv using assms by (metis mset_eq_setD mset_filter mset_map)
  show ?thesis
    by (simp only: classifyIgnoredLabels_def Let_def unrecognised_def sorted empty len filter_filter)
qed

lemma last_event_of_append:
  "last_event_of label acc (xs @ ys) = last_event_of label (last_event_of label acc xs) ys"
  by (induction xs arbitrary: acc) auto

lemma last_event_of_none: "\<forall>e \<in> set es. le_label e \<noteq> label \<Longrightarrow> last_event_of label acc es = acc"
  by (induction es arbitrary: acc) auto

lemma last_event_of_Some:
  "last_event_of label None es = Some e \<longleftrightarrow>
   (\<exists>us vs. es = us @ e # vs \<and> le_label e = label \<and> (\<forall>v \<in> set vs. le_label v \<noteq> label))"
proof (induction es rule: rev_induct)
  case (snoc x es)
  show ?case
  proof (cases "le_label x = label")
    case True
    then show ?thesis
      by (auto simp: last_event_of_append append_eq_append_conv2 append_eq_Cons_conv
          Cons_eq_append_conv)
         (metis append_Cons append_Nil append_is_Nil_conv in_set_conv_decomp last_appendR
          last_snoc list.discI list.set_intros(1))
  next
    case False
    then have "last_event_of label None (es @ [x]) = last_event_of label None es"
      by (simp add: last_event_of_append)
    also have "\<dots> = Some e \<longleftrightarrow>
      (\<exists>us vs. es = us @ e # vs \<and> le_label e = label \<and> (\<forall>v \<in> set vs. le_label v \<noteq> label))"
      by (rule snoc.IH)
    also have "\<dots> \<longleftrightarrow> (\<exists>us vs. es @ [x] = us @ e # vs \<and> le_label e = label \<and>
        (\<forall>v \<in> set vs. le_label v \<noteq> label))" (is "?l \<longleftrightarrow> ?r")
    proof
      assume ?l
      then obtain us vs where "es = us @ e # vs" "le_label e = label"
        "\<forall>v \<in> set vs. le_label v \<noteq> label" by blast
      with False show ?r by (intro exI[of _ us] exI[of _ "vs @ [x]"]) auto
    next
      assume ?r
      then obtain us vs where d: "es @ [x] = us @ e # vs" "le_label e = label"
        "\<forall>v \<in> set vs. le_label v \<noteq> label" by blast
      with False obtain vs' where "vs = vs' @ [x]"
        by (cases vs rule: rev_cases) auto
      with d show ?l by auto
    qed
    finally show ?thesis .
  qed
qed simp

text \<open>The normalized issue: what each list holds, as simplification rules.\<close>

lemma toNormalizedIssue_sel [simp]:
  "ni_number (toNormalizedIssue r) = ri_number r"
  "map nl_name (ni_labels (toNormalizedIssue r)) =
     filter (\<lambda>n. \<not> isMirrorLabel n) (map rl_name (get_or [] (ri_labels r)))"
  "observedMirrorLabels (toNormalizedIssue r) =
     filter isMirrorLabel (map rl_name (get_or [] (ri_labels r)))"
  "inputLabels (toNormalizedIssue r) =
     filter isInputLabel (map rl_name (get_or [] (ri_labels r)))"
  "ignoredLabels (toNormalizedIssue r) =
     classifyIgnoredLabels (filter (\<lambda>n. \<not> isMirrorLabel n) (map rl_name (get_or [] (ri_labels r))))"
  by (auto simp: toNormalizedIssue_def Let_def toNormalizedLabel_def filter_map o_def
      dest: input_not_mirror intro!: arg_cong[of _ _ "map rl_name"] filter_cong)

lemma normalized_labels_not_mirror:
  "l \<in> set (ni_labels (toNormalizedIssue r)) \<Longrightarrow> \<not> isMirrorLabel (nl_name l)"
  by (auto simp: toNormalizedIssue_def Let_def toNormalizedLabel_def)

end
