(* ===== verification/Projection.thy ===== *)
theory Projection
  imports Labels
begin

text \<open>
  The desired-state projection (\<open>reconciler/projection/desired-state.ts\<close> and its types,
  \<open>reconciler/projection/check-verdict.ts\<close>) and the two observation steps that feed it
  from GitHub reads (\<open>resolveHumanQuarantineClears\<close> and \<open>resolveChecks\<close> of
  \<open>reconciler/reconciler.service.ts\<close>). Everything here is a pure function of one
  observation: nothing consults an earlier tick.
\<close>

section \<open>CI checks\<close>

datatype check_status = Check_queued | Check_in_progress | Check_completed

record normalized_check =
  ck_name :: string
  ck_status :: check_status
  ck_conclusion :: "string option"

datatype check_verdict = Passing | Failing | Pending

definition PASSING_CONCLUSIONS :: "string list" where
  "PASSING_CONCLUSIONS = [''success'', ''neutral'', ''skipped'']"

text \<open>The loop of \<open>summarizeChecks\<close>; the flag is \<open>sawIncomplete\<close>.\<close>

fun summarize_loop :: "bool \<Rightarrow> normalized_check list \<Rightarrow> check_verdict" where
  "summarize_loop sawIncomplete [] = (if sawIncomplete then Pending else Passing)"
| "summarize_loop sawIncomplete (c # cs) =
     (case ck_conclusion c of
        None \<Rightarrow> summarize_loop True cs
      | Some concl \<Rightarrow>
          if ck_status c \<noteq> Check_completed then summarize_loop True cs
          else if concl \<notin> set PASSING_CONCLUSIONS then Failing
          else summarize_loop sawIncomplete cs)"

definition summarizeChecks :: "normalized_check list \<Rightarrow> check_verdict" where
  "summarizeChecks checks = (if checks = [] then Pending else summarize_loop False checks)"

definition failingCheckNames :: "normalized_check list \<Rightarrow> string list" where
  "failingCheckNames checks = map ck_name (filter (\<lambda>c.
     ck_status c = Check_completed \<and>
     (case ck_conclusion c of None \<Rightarrow> False | Some concl \<Rightarrow> concl \<notin> set PASSING_CONCLUSIONS)) checks)"

section \<open>The observation\<close>

datatype run_status = Run_running | Run_succeeded | Run_stalled | Run_blocked | Run_failed | Run_quarantined

datatype work_order_status =
    WO_pending | WO_queued | WO_held | WO_dispatched | WO_succeeded | WO_failed
  | WO_quarantined | WO_superseded | WO_cancelled

record observed_run =
  or_id :: string
  or_status :: run_status
  or_costUsd :: "usd option"
  or_pullRequestUrl :: "string option"
  or_checks :: "check_verdict option"

record observed_work_order =
  ow_id :: string
  ow_identity :: string
  ow_issueNumber :: int
  ow_attempt :: int
  ow_status :: work_order_status
  ow_run :: "observed_run option"

record observed_repository =
  orp_id :: string
  orp_owner :: string
  orp_name :: string
  observeEnabled :: bool
  dispatchEnabled :: bool
  orp_budgetCeilingUsd :: "usd option"

record observed_state =
  os_repository :: observed_repository
  os_issues :: "normalized_issue list"
  os_workOrders :: "observed_work_order list"
  humanClearedQuarantine :: "int set"
  retryCeiling :: int

section \<open>The projection\<close>

datatype issue_intent =
    Intent_ignore | Intent_hold | Intent_dispatch | Intent_running | Intent_blocked
  | Intent_quarantined | Intent_review | Intent_awaiting_checks

datatype projection_reason =
    Held
  | Quarantine_cleared string
  | Quarantine_claimed_by_nonhuman string
  | Awaits_human string
  | Live_run string run_status
  | Parked string
  | Review_green string string
  | Awaiting_checks string string
  | Dispatch_disabled
  | Ceiling_reached usd usd
  | Attempts_exhausted string int
  | Attempts_exhausted_red_ci string int "string option"
  | Ready_no_live_run string
  | Ready_no_work_order
  | Not_ready
  | With_ignored projection_reason "ignored_clause list"

record desired_issue_state =
  ds_issueNumber :: int
  ds_intent :: issue_intent
  ds_reason :: projection_reason
  ds_inputLabels :: "string list"
  desiredMirrorLabels :: "string list"

record desired_state =
  ds_repository :: string
  ds_issues :: "desired_issue_state list"

text \<open>The newest live work order per issue: the loop of \<open>groupWorkOrdersByIssue\<close>.\<close>

definition group_step :: "(int \<rightharpoonup> observed_work_order) \<Rightarrow> observed_work_order \<Rightarrow> (int \<rightharpoonup> observed_work_order)"
where
  "group_step byIssue w =
    (if ow_status w = WO_superseded \<or> ow_status w = WO_cancelled then byIssue
     else case byIssue (ow_issueNumber w) of
        None \<Rightarrow> byIssue(ow_issueNumber w \<mapsto> w)
      | Some existing \<Rightarrow>
          if ow_attempt w > ow_attempt existing then byIssue(ow_issueNumber w \<mapsto> w) else byIssue)"

definition groupWorkOrdersByIssue :: "observed_work_order list \<Rightarrow> (int \<rightharpoonup> observed_work_order)" where
  "groupWorkOrdersByIssue ws = foldl group_step Map.empty ws"

definition totalSpend :: "observed_work_order option \<Rightarrow> usd option" where
  "totalSpend wo = Option.bind wo (\<lambda>w. Option.bind (ow_run w) or_costUsd)"

text \<open>The truthiness of an optional string: present and not empty.\<close>

definition truthy :: "string option \<Rightarrow> bool" where
  "truthy s \<longleftrightarrow> s \<noteq> None \<and> s \<noteq> Some ''''"

text \<open>What every branch of \<open>projectIntent\<close> returns: the base fields and its own three.\<close>

definition intent_state :: "normalized_issue \<Rightarrow> issue_intent \<Rightarrow> projection_reason \<Rightarrow> string list
    \<Rightarrow> desired_issue_state" where
  "intent_state issue i r ls =
     \<lparr>ds_issueNumber = ni_number issue, ds_intent = i, ds_reason = r,
      ds_inputLabels = inputLabels issue, desiredMirrorLabels = ls\<rparr>"

text \<open>Step 4 of the precedence: \<open>factory:ready\<close>, or nothing asked for the issue.\<close>

definition project_ready :: "normalized_issue \<Rightarrow> observed_work_order option \<Rightarrow> observed_state
    \<Rightarrow> desired_issue_state" where
  "project_ready issue workOrder observed =
    (if INPUT_READY \<in> set (inputLabels issue) then
       (if \<not> dispatchEnabled (os_repository observed)
        then intent_state issue Intent_ignore Dispatch_disabled []
        else
         (let spent = totalSpend workOrder; ceiling = orp_budgetCeilingUsd (os_repository observed)
          in if (case (ceiling, spent) of (Some c, Some s) \<Rightarrow> s \<ge> c | _ \<Rightarrow> False)
             then intent_state issue Intent_quarantined (Ceiling_reached (the spent) (the ceiling))
                    [MIRROR_QUARANTINE]
             else case workOrder of
                Some w \<Rightarrow>
                  if ow_attempt w \<ge> retryCeiling observed then
                    intent_state issue Intent_quarantined
                      (case ow_run w of
                         Some run \<Rightarrow>
                           if or_checks run = Some Failing
                           then Attempts_exhausted_red_ci (ow_identity w) (retryCeiling observed)
                                  (or_pullRequestUrl run)
                           else Attempts_exhausted (ow_identity w) (retryCeiling observed)
                       | None \<Rightarrow> Attempts_exhausted (ow_identity w) (retryCeiling observed))
                      [MIRROR_QUARANTINE]
                  else intent_state issue Intent_dispatch (Ready_no_live_run (ow_identity w))
                         [MIRROR_DISPATCHED]
              | None \<Rightarrow> intent_state issue Intent_dispatch Ready_no_work_order [MIRROR_DISPATCHED]))
     else intent_state issue Intent_ignore Not_ready [])"

text \<open>
  Step 3: a run in flight, or one that ended in a pull request. \<open>None\<close> is falling through
  to step 4, which a failed run and a pull request with failing checks do.
\<close>

definition project_run :: "normalized_issue \<Rightarrow> observed_work_order \<Rightarrow> observed_run
    \<Rightarrow> desired_issue_state option" where
  "project_run issue w run =
    (if or_status run = Run_running \<or> or_status run = Run_stalled then
       Some (intent_state issue Intent_running (Live_run (ow_identity w) (or_status run)) [MIRROR_DISPATCHED])
     else if or_status run = Run_blocked then
       Some (intent_state issue Intent_blocked (Parked (ow_identity w)) [MIRROR_BLOCKED])
     else if or_status run = Run_succeeded \<and> truthy (or_pullRequestUrl run) then
       (if or_checks run = Some Passing then
          Some (intent_state issue Intent_review
                 (Review_green (ow_identity w) (the (or_pullRequestUrl run))) [MIRROR_REVIEW])
        else if or_checks run = Some Pending \<or> or_checks run = None then
          Some (intent_state issue Intent_awaiting_checks
                 (Awaiting_checks (ow_identity w) (the (or_pullRequestUrl run))) [])
        else None)
     else None)"

definition projectIntent :: "normalized_issue \<Rightarrow> observed_work_order option \<Rightarrow> observed_state
    \<Rightarrow> desired_issue_state" where
  "projectIntent issue workOrder observed =
    (if INPUT_HOLD \<in> set (inputLabels issue) then intent_state issue Intent_hold Held []
     else case workOrder of
        None \<Rightarrow> project_ready issue workOrder observed
      | Some w \<Rightarrow>
          if ow_status w = WO_quarantined then
            (if ni_number issue \<in> humanClearedQuarantine observed
             then intent_state issue Intent_dispatch (Quarantine_cleared (ow_identity w)) [MIRROR_DISPATCHED]
             else intent_state issue Intent_quarantined
                    (if INPUT_CLEAR_QUARANTINE \<in> set (inputLabels issue)
                     then Quarantine_claimed_by_nonhuman (ow_identity w)
                     else Awaits_human (ow_identity w))
                    [MIRROR_QUARANTINE])
          else case Option.bind (ow_run w) (project_run issue w) of
                 Some d \<Rightarrow> d
               | None \<Rightarrow> project_ready issue workOrder observed)"

definition reportIgnoredLabels :: "normalized_issue \<Rightarrow> desired_issue_state \<Rightarrow> desired_issue_state" where
  "reportIgnoredLabels issue st =
    (if ignoredLabels issue = [] then st
     else st\<lparr>ds_reason := With_ignored (ds_reason st) (describeIgnoredLabels (ignoredLabels issue)),
             desiredMirrorLabels := desiredMirrorLabels st @ [MIRROR_LABEL_IGNORED]\<rparr>)"

definition projectIssue :: "normalized_issue \<Rightarrow> observed_work_order option \<Rightarrow> observed_state
    \<Rightarrow> desired_issue_state" where
  "projectIssue issue workOrder observed =
     reportIgnoredLabels issue (projectIntent issue workOrder observed)"

definition projectDesiredState :: "observed_state \<Rightarrow> desired_state" where
  "projectDesiredState observed =
    (let byIssue = groupWorkOrdersByIssue (os_workOrders observed) in
     \<lparr>ds_repository = orp_owner (os_repository observed) @ ''/'' @ orp_name (os_repository observed),
      ds_issues = map (\<lambda>issue. projectIssue issue (byIssue (ni_number issue)) observed)
                    (os_issues observed)\<rparr>)"

text \<open>The guard against a mirror label in the input: the error carries the offenders.\<close>

fun assertNoMirrorLabelsObserved :: "normalized_issue list \<Rightarrow> (int \<times> string list) + unit" where
  "assertNoMirrorLabelsObserved [] = Inr ()"
| "assertNoMirrorLabelsObserved (i # is) =
    (let leaked = filter (\<lambda>l. isMirrorLabel (nl_name l)) (ni_labels i)
     in if leaked \<noteq> [] then Inl (ni_number i, map nl_name leaked)
        else assertNoMirrorLabelsObserved is)"

section \<open>Observation steps that read GitHub\<close>

text \<open>
  A GitHub read either fails or answers, so the read is a function into a sum. The loop
  over the candidates keeps those a human released; a failed read releases nothing.
\<close>

definition resolveHumanQuarantineClears ::
  "(int \<Rightarrow> string + normalized_label_event list) \<Rightarrow> normalized_issue list \<Rightarrow> observed_work_order list
   \<Rightarrow> int set" where
  "resolveHumanQuarantineClears read_events issues workOrders =
    (let quarantined = ow_issueNumber ` set (filter (\<lambda>w. ow_status w = WO_quarantined) workOrders);
         candidates = filter (\<lambda>i. ni_number i \<in> quarantined \<and>
                                  INPUT_CLEAR_QUARANTINE \<in> set (inputLabels i)) issues
     in set (map ni_number (filter (\<lambda>i. case read_events (ni_number i) of
                                          Inl e \<Rightarrow> False
                                        | Inr evs \<Rightarrow> wasLabelAppliedByHuman evs INPUT_CLEAR_QUARANTINE)
                                   candidates)))"

definition resolveChecks :: "(string \<Rightarrow> string + normalized_check list) \<Rightarrow> run_status \<Rightarrow> string option
    \<Rightarrow> string option \<Rightarrow> check_verdict option" where
  "resolveChecks list_checks status pullRequestUrl headCommit =
    (if status \<noteq> Run_succeeded \<or> \<not> truthy pullRequestUrl then None
     else if \<not> truthy headCommit then Some Pending
     else case list_checks (the headCommit) of
            Inl e \<Rightarrow> Some Pending
          | Inr checks \<Rightarrow> Some (summarizeChecks checks))"


section \<open>Lemmas\<close>

subsection \<open>CI checks\<close>

definition check_incomplete :: "normalized_check \<Rightarrow> bool" where
  "check_incomplete c \<longleftrightarrow> ck_status c \<noteq> Check_completed \<or> ck_conclusion c = None"

definition check_failed :: "normalized_check \<Rightarrow> bool" where
  "check_failed c \<longleftrightarrow> ck_status c = Check_completed \<and>
     (\<exists>concl. ck_conclusion c = Some concl \<and> concl \<notin> set PASSING_CONCLUSIONS)"

lemma summarize_loop_eq:
  "summarize_loop b cs =
    (if \<exists>c \<in> set cs. check_failed c then Failing
     else if b \<or> (\<exists>c \<in> set cs. check_incomplete c) then Pending else Passing)"
  by (induction cs arbitrary: b)
     (auto simp: check_failed_def check_incomplete_def split: option.splits)

lemma summarizeChecks_eq:
  "summarizeChecks cs =
    (if \<exists>c \<in> set cs. check_failed c then Failing
     else if cs = [] \<or> (\<exists>c \<in> set cs. check_incomplete c) then Pending else Passing)"
  by (auto simp: summarizeChecks_def summarize_loop_eq)

lemma failingCheckNames_eq: "failingCheckNames cs = map ck_name (filter check_failed cs)"
  by (auto simp: failingCheckNames_def check_failed_def split: option.splits
      intro!: arg_cong[of _ _ "map ck_name"] filter_cong)

subsection \<open>The newest work order of an issue\<close>

definition live_order :: "int \<Rightarrow> observed_work_order \<Rightarrow> bool" where
  "live_order n w \<longleftrightarrow>
     ow_issueNumber w = n \<and> ow_status w \<noteq> WO_superseded \<and> ow_status w \<noteq> WO_cancelled"

definition newest_attempt :: "int \<Rightarrow> observed_work_order list \<Rightarrow> observed_work_order option" where
  "newest_attempt n ws =
    (case js_sort (by_key (\<lambda>w. - ow_attempt w)) (filter (live_order n) ws) of
       [] \<Rightarrow> None | w # _ \<Rightarrow> Some w)"

lemma case_list_hd: "(case xs of [] \<Rightarrow> None | w # _ \<Rightarrow> Some w) = (if xs = [] then None else Some (hd xs))"
  by (cases xs) auto

lemma newest_attempt_snoc:
  "newest_attempt n (ws @ [w]) =
    (if live_order n w then
       (case newest_attempt n ws of None \<Rightarrow> Some w
        | Some e \<Rightarrow> if ow_attempt w > ow_attempt e then Some w else Some e)
     else newest_attempt n ws)"
  by (auto simp: newest_attempt_def case_list_hd key_order.hd_sort_snoc by_key_def
      simp del: js_sort_simps)

lemma group_step_lookup:
  "group_step m w n =
    (if live_order n w then
       (case m n of None \<Rightarrow> Some w
        | Some e \<Rightarrow> if ow_attempt w > ow_attempt e then Some w else Some e)
     else m n)"
  by (auto simp: group_step_def live_order_def split: option.splits)

lemma groupWorkOrders_newest: "groupWorkOrdersByIssue ws n = newest_attempt n ws"
proof (induction ws rule: rev_induct)
  case Nil
  show ?case by (simp add: groupWorkOrdersByIssue_def newest_attempt_def)
next
  case (snoc w ws)
  then show ?case
    by (simp add: groupWorkOrdersByIssue_def group_step_lookup newest_attempt_snoc)
qed

lemma newest_attempt_SomeD:
  assumes "newest_attempt n ws = Some w"
  shows "w \<in> set ws" "live_order n w"
    "\<And>v. v \<in> set ws \<Longrightarrow> live_order n v \<Longrightarrow> ow_attempt v \<le> ow_attempt w"
proof -
  let ?s = "js_sort (by_key (\<lambda>w. - ow_attempt w)) (filter (live_order n) ws)"
  from assms obtain rest where eq: "?s = w # rest"
    by (auto simp: newest_attempt_def split: list.splits)
  then have "w \<in> set ?s" by simp
  then show "w \<in> set ws" "live_order n w" by auto
  fix v assume "v \<in> set ws" "live_order n v"
  then have "by_key (\<lambda>w. - ow_attempt w) w v \<le> 0"
    by (intro key_order.sort_head_min[OF eq]) simp
  then show "ow_attempt v \<le> ow_attempt w" by (simp add: by_key_def)
qed

lemma newest_attempt_None_iff: "newest_attempt n ws = None \<longleftrightarrow> (\<forall>w \<in> set ws. \<not> live_order n w)"
  by (auto simp: newest_attempt_def case_list_hd filter_empty_conv)

subsection \<open>The intent\<close>

lemma intent_state_sel [simp]:
  "ds_issueNumber (intent_state issue i r ls) = ni_number issue"
  "ds_intent (intent_state issue i r ls) = i"
  "ds_reason (intent_state issue i r ls) = r"
  "ds_inputLabels (intent_state issue i r ls) = inputLabels issue"
  "desiredMirrorLabels (intent_state issue i r ls) = ls"
  by (simp_all add: intent_state_def)

lemma reportIgnoredLabels_sel [simp]:
  "ds_issueNumber (reportIgnoredLabels issue st) = ds_issueNumber st"
  "ds_intent (reportIgnoredLabels issue st) = ds_intent st"
  "ds_inputLabels (reportIgnoredLabels issue st) = ds_inputLabels st"
  "desiredMirrorLabels (reportIgnoredLabels issue st) =
     desiredMirrorLabels st @ (if ignoredLabels issue = [] then [] else [MIRROR_LABEL_IGNORED])"
  by (auto simp: reportIgnoredLabels_def)

lemma project_ready_number [simp]: "ds_issueNumber (project_ready issue wo os) = ni_number issue"
  by (auto simp: project_ready_def Let_def split: option.splits)

lemma project_run_number: "project_run issue w run = Some d \<Longrightarrow> ds_issueNumber d = ni_number issue"
  by (auto simp: project_run_def split: if_splits)

lemma projectIntent_number [simp]: "ds_issueNumber (projectIntent issue wo os) = ni_number issue"
  by (auto simp: projectIntent_def project_run_number bind_eq_Some_conv split: option.splits)

lemma projectIssue_number [simp]: "ds_issueNumber (projectIssue issue wo os) = ni_number issue"
  by (simp add: projectIssue_def)

lemma projectIssue_intent [simp]:
  "ds_intent (projectIssue issue wo os) = ds_intent (projectIntent issue wo os)"
  by (simp add: projectIssue_def)

text \<open>The label each intent is mirrored by.\<close>

fun intent_labels :: "issue_intent \<Rightarrow> string list" where
  "intent_labels Intent_ignore = []"
| "intent_labels Intent_hold = []"
| "intent_labels Intent_dispatch = [MIRROR_DISPATCHED]"
| "intent_labels Intent_running = [MIRROR_DISPATCHED]"
| "intent_labels Intent_blocked = [MIRROR_BLOCKED]"
| "intent_labels Intent_quarantined = [MIRROR_QUARANTINE]"
| "intent_labels Intent_review = [MIRROR_REVIEW]"
| "intent_labels Intent_awaiting_checks = []"

lemma project_ready_labels:
  "desiredMirrorLabels (project_ready issue wo os) = intent_labels (ds_intent (project_ready issue wo os))"
  by (auto simp: project_ready_def Let_def split: option.splits)

lemma project_run_labels:
  "project_run issue w run = Some d \<Longrightarrow> desiredMirrorLabels d = intent_labels (ds_intent d)"
  by (auto simp: project_run_def split: if_splits)

lemma projectIntent_labels:
  "desiredMirrorLabels (projectIntent issue wo os) = intent_labels (ds_intent (projectIntent issue wo os))"
  by (auto simp: projectIntent_def project_ready_labels project_run_labels bind_eq_Some_conv
      split: option.splits)

lemma projectIssue_labels:
  "desiredMirrorLabels (projectIssue issue wo os) =
     intent_labels (ds_intent (projectIntent issue wo os))
     @ (if ignoredLabels issue = [] then [] else [MIRROR_LABEL_IGNORED])"
  by (simp add: projectIssue_def projectIntent_labels)

lemma desired_labels_own: "set (desiredMirrorLabels (projectIssue issue wo os)) \<subseteq> set ALL_MIRROR_LABELS"
  by (cases "ds_intent (projectIntent issue wo os)")
     (simp_all add: projectIssue_labels ALL_MIRROR_LABELS_def)

lemma desired_labels_distinct: "distinct (desiredMirrorLabels (projectIssue issue wo os))"
  by (cases "ds_intent (projectIntent issue wo os)")
     (simp_all add: projectIssue_labels mirror_label_defs)

text \<open>When the ready branch dispatches.\<close>

definition within_budget :: "observed_repository \<Rightarrow> observed_work_order option \<Rightarrow> bool" where
  "within_budget repo wo \<longleftrightarrow>
     (\<forall>c s. orp_budgetCeilingUsd repo = Some c \<longrightarrow> totalSpend wo = Some s \<longrightarrow> s < c)"

definition attempts_left :: "int \<Rightarrow> observed_work_order option \<Rightarrow> bool" where
  "attempts_left limit wo \<longleftrightarrow> (\<forall>w. wo = Some w \<longrightarrow> ow_attempt w < limit)"

lemma project_ready_dispatch_iff:
  "ds_intent (project_ready issue wo os) = Intent_dispatch \<longleftrightarrow>
     INPUT_READY \<in> set (inputLabels issue) \<and> dispatchEnabled (os_repository os) \<and>
     within_budget (os_repository os) wo \<and> attempts_left (retryCeiling os) wo"
  by (auto simp: project_ready_def Let_def within_budget_def attempts_left_def split: option.splits)

text \<open>A run that holds its work order: it is live, parked, or waits for review.\<close>

definition run_holds :: "observed_run \<Rightarrow> bool" where
  "run_holds run \<longleftrightarrow> or_status run \<in> {Run_running, Run_stalled, Run_blocked} \<or>
     or_status run = Run_succeeded \<and> truthy (or_pullRequestUrl run) \<and> or_checks run \<noteq> Some Failing"

lemma project_run_None_iff: "project_run issue w run = None \<longleftrightarrow> \<not> run_holds run"
  by (cases "or_checks run"; cases "the (or_checks run)")
     (auto simp: project_run_def run_holds_def)

lemma project_run_intent:
  "project_run issue w run = Some d \<Longrightarrow>
   ds_intent d \<in> {Intent_running, Intent_blocked, Intent_review, Intent_awaiting_checks}"
  by (auto simp: project_run_def split: if_splits)

lemma project_ready_intent:
  "ds_intent (project_ready issue wo os) \<in> {Intent_ignore, Intent_dispatch, Intent_quarantined}"
  by (auto simp: project_ready_def Let_def split: option.splits)

lemma projectIntent_cases:
  obtains (hold) "INPUT_HOLD \<in> set (inputLabels issue)"
      "projectIntent issue wo os = intent_state issue Intent_hold Held []"
  | (quarantined) w where "INPUT_HOLD \<notin> set (inputLabels issue)" "wo = Some w"
      "ow_status w = WO_quarantined"
      "ds_intent (projectIntent issue wo os) =
        (if ni_number issue \<in> humanClearedQuarantine os then Intent_dispatch else Intent_quarantined)"
  | (run) w run d where "INPUT_HOLD \<notin> set (inputLabels issue)" "wo = Some w"
      "ow_status w \<noteq> WO_quarantined" "ow_run w = Some run" "project_run issue w run = Some d"
      "projectIntent issue wo os = d"
  | (ready) "INPUT_HOLD \<notin> set (inputLabels issue)"
      "\<forall>w. wo = Some w \<longrightarrow> ow_status w \<noteq> WO_quarantined \<and> (\<forall>r. ow_run w = Some r \<longrightarrow> \<not> run_holds r)"
      "projectIntent issue wo os = project_ready issue wo os"
proof (cases "INPUT_HOLD \<in> set (inputLabels issue)")
  case True
  then show ?thesis by (intro hold) (auto simp: projectIntent_def)
next
  case False
  show ?thesis
  proof (cases wo)
    case None
    with False show ?thesis by (intro ready) (auto simp: projectIntent_def)
  next
    case (Some w)
    show ?thesis
    proof (cases "ow_status w = WO_quarantined")
      case True
      with False Some show ?thesis by (intro quarantined) (auto simp: projectIntent_def)
    next
      case nq: False
      show ?thesis
      proof (cases "Option.bind (ow_run w) (project_run issue w)")
        case None
        have "\<forall>r. ow_run w = Some r \<longrightarrow> \<not> run_holds r"
          using None project_run_None_iff[of issue w] by auto
        with False Some nq None show ?thesis
          by (intro ready) (auto simp: projectIntent_def)
      next
        case (Some d)
        with False \<open>wo = Some w\<close> nq show ?thesis
          by (auto simp: projectIntent_def bind_eq_Some_conv intro: run)
      qed
    qed
  qed
qed

subsection \<open>The observation steps\<close>

lemma case_sum_ex: "(case x of Inl e \<Rightarrow> False | Inr v \<Rightarrow> P v) \<longleftrightarrow> (\<exists>v. x = Inr v \<and> P v)"
  by (cases x) auto

lemma resolveHuman_mem:
  "n \<in> resolveHumanQuarantineClears rd issues ws \<longleftrightarrow>
   (\<exists>i \<in> set issues. ni_number i = n \<and> INPUT_CLEAR_QUARANTINE \<in> set (inputLabels i)) \<and>
   (\<exists>w \<in> set ws. ow_issueNumber w = n \<and> ow_status w = WO_quarantined) \<and>
   (\<exists>evs. rd n = Inr evs \<and> wasLabelAppliedByHuman evs INPUT_CLEAR_QUARANTINE)"
  unfolding resolveHumanQuarantineClears_def Let_def case_sum_ex
  by (auto simp: image_iff) metis

lemma resolveChecks_passing:
  "resolveChecks lc st pr head = Some Passing \<Longrightarrow>
   st = Run_succeeded \<and> truthy pr \<and> (\<exists>h cs. head = Some h \<and> lc h = Inr cs \<and> summarizeChecks cs = Passing)"
  by (auto simp: resolveChecks_def truthy_def split: if_splits sum.splits)

lemma assertNoMirror_ok_iff:
  "assertNoMirrorLabelsObserved is = Inr () \<longleftrightarrow>
   (\<forall>i \<in> set is. \<forall>l \<in> set (ni_labels i). \<not> isMirrorLabel (nl_name l))"
  by (induction "is") (auto simp: Let_def filter_empty_conv)

end
