(* ===== verification/Watchdog.thy ===== *)
theory Watchdog
  imports Projection
begin

text \<open>
  The watchdog's three detectors, all arithmetic over timestamps with the clock passed in:
  silence (\<open>watchdog/silent-detection.ts\<close>), loops (\<open>watchdog/loop-detection.ts\<close>) and the
  parking of blocked runs (\<open>watchdog/blocked-parking.ts\<close>). The actions they imply are in
  \<open>Actions\<close>, the sweep that runs them in \<open>Watchdog_Sweep\<close>.
\<close>

section \<open>Watched runs\<close>

datatype liveness_source = Source_runner | Source_git | Source_control_plane

record watched_run_state =
  wr_runId :: string
  wr_workOrderIdentity :: string
  wr_repository :: string
  wr_issueNumber :: int
  wr_status :: run_status
  wr_startedAt :: instant
  wr_lastEventAt :: "instant option"
  wr_lastEventSource :: "liveness_source option"
  wr_runnerKey :: string
  wr_fidelity :: "streaming_fidelity option"
  wr_rateLimitSignal :: "rate_limit_signal option"
  wr_branch :: "string option"

section \<open>Silence\<close>

fun SILENCE_THRESHOLDS_MS :: "streaming_fidelity \<Rightarrow> int" where
  "SILENCE_THRESHOLDS_MS Fidelity_full = 90000"
| "SILENCE_THRESHOLDS_MS Fidelity_partial = 10 * 60000"
| "SILENCE_THRESHOLDS_MS Fidelity_none = 90 * 60000"

definition UNDECLARED_THRESHOLD_MS :: int where
  "UNDECLARED_THRESHOLD_MS = SILENCE_THRESHOLDS_MS Fidelity_none"

definition JUDGEABLE :: "run_status list" where
  "JUDGEABLE = [Run_running, Run_stalled]"

definition thresholdFor :: "streaming_fidelity option \<Rightarrow> int" where
  "thresholdFor fidelity =
    (case fidelity of None \<Rightarrow> UNDECLARED_THRESHOLD_MS | Some f \<Rightarrow> SILENCE_THRESHOLDS_MS f)"

text \<open>
  The rendering of \<open>formatDuration\<close>, one constructor per template. The arguments are the
  numbers printed.
\<close>

datatype duration_text = Secs int | Mins int | Mins_secs int int | Hours_mins int int

definition formatDuration :: "int \<Rightarrow> duration_text" where
  "formatDuration ms =
    (let totalSeconds = math_round (of_int ms / 1000)
     in if totalSeconds < 60 then Secs totalSeconds
        else let mins = totalSeconds div 60; secs = totalSeconds mod 60
             in if mins < 60 then (if secs = 0 then Mins mins else Mins_secs mins secs)
                else Hours_mins (mins div 60) (mins mod 60))"

text \<open>
  The sentence of a silence verdict: how long, since when (and whether an event was ever
  seen), the threshold, and the runner with the fidelity the threshold came from.
\<close>

datatype silence_reason =
  Silent_for duration_text bool instant duration_text string "streaming_fidelity option"

record silence_verdict =
  sv_runId :: string
  sv_workOrderIdentity :: string
  sv_repository :: string
  sv_issueNumber :: int
  silentForMs :: int
  thresholdMs :: int
  sv_fidelity :: "streaming_fidelity option"
  sv_progressStoppedAt :: instant
  sv_detectionSource :: "liveness_source option"
  sv_reason :: silence_reason

definition describe :: "watched_run_state \<Rightarrow> int \<Rightarrow> int \<Rightarrow> silence_reason" where
  "describe run silent threshold =
     Silent_for (formatDuration silent) (wr_lastEventAt run \<noteq> None)
       (get_or (wr_startedAt run) (wr_lastEventAt run))
       (formatDuration threshold) (wr_runnerKey run) (wr_fidelity run)"

text \<open>One turn of the loop of \<open>detectSilentRuns\<close>: \<open>None\<close> is \<open>continue\<close>.\<close>

definition judge_silence :: "instant \<Rightarrow> watched_run_state \<Rightarrow> silence_verdict option" where
  "judge_silence now run =
    (if wr_status run \<notin> set JUDGEABLE then None
     else
      (let threshold = thresholdFor (wr_fidelity run);
           since = get_or (wr_startedAt run) (wr_lastEventAt run);
           silent = now - since
       in if silent \<le> threshold then None
          else Some
            \<lparr>sv_runId = wr_runId run,
             sv_workOrderIdentity = wr_workOrderIdentity run,
             sv_repository = wr_repository run,
             sv_issueNumber = wr_issueNumber run,
             silentForMs = silent,
             thresholdMs = threshold,
             sv_fidelity = wr_fidelity run,
             sv_progressStoppedAt = since,
             sv_detectionSource = (if wr_lastEventAt run \<noteq> None then wr_lastEventSource run else None),
             sv_reason = describe run silent threshold\<rparr>))"

definition detectSilentRuns :: "watched_run_state list \<Rightarrow> instant \<Rightarrow> silence_verdict list" where
  "detectSilentRuns runs now = List.map_filter (judge_silence now) runs"

section \<open>Loops\<close>

record tool_observation =
  to_signature :: string
  to_occurredAt :: instant

datatype loop_reason =
    Loop_unavailable "streaming_fidelity option"
  | Too_few_events int int
  | Below_threshold int int
  | Looping string int int

record loop_verdict =
  lv_available :: bool
  looping :: bool
  lv_signature :: "string option"
  repeats :: int
  startedRepeatingAt :: "instant option"
  lv_reason :: loop_reason

definition DEFAULT_LOOP_REPEATS :: int where "DEFAULT_LOOP_REPEATS = 6"
definition DEFAULT_LOOP_WINDOW :: nat where "DEFAULT_LOOP_WINDOW = 40"

text \<open>
  \<open>observations.slice(-window)\<close>: the last \<open>window\<close> elements, and all of them for a window
  of zero (\<open>slice(-0)\<close> is \<open>slice(0)\<close>).
\<close>

definition last_n :: "nat \<Rightarrow> 'a list \<Rightarrow> 'a list" where
  "last_n n xs = (if n = 0 then xs else drop (length xs - n) xs)"

text \<open>The backwards loop over the newest signature, on the reversed list: count and start.\<close>

fun count_streak :: "string \<Rightarrow> int \<Rightarrow> instant option \<Rightarrow> tool_observation list \<Rightarrow> int \<times> instant option"
where
  "count_streak newest run start [] = (run, start)"
| "count_streak newest run start (obs # rest) =
    (if to_signature obs \<noteq> newest then (run, start)
     else count_streak newest (run + 1) (Some (to_occurredAt obs)) rest)"

text \<open>
  \<open>None\<close> is the \<open>TypeError\<close> of reading the last element of an empty list, which only a
  threshold below one reaches; the one caller uses the defaults.
\<close>

definition detectLoop :: "streaming_fidelity option \<Rightarrow> tool_observation list \<Rightarrow> int option
    \<Rightarrow> nat option \<Rightarrow> loop_verdict option" where
  "detectLoop fidelity observations repeats_opt window_opt =
    (if fidelity \<noteq> Some Fidelity_full then
       Some \<lparr>lv_available = False, looping = False, lv_signature = None, repeats = 0,
        startedRepeatingAt = None, lv_reason = Loop_unavailable fidelity\<rparr>
     else
      (let threshold = get_or DEFAULT_LOOP_REPEATS repeats_opt;
           window = get_or DEFAULT_LOOP_WINDOW window_opt;
           recent = last_n window observations
       in if int (length recent) < threshold then
            Some \<lparr>lv_available = True, looping = False, lv_signature = None,
             repeats = int (length recent), startedRepeatingAt = None,
             lv_reason = Too_few_events (int (length recent)) threshold\<rparr>
          else if recent = [] then None
          else
           (let newest = to_signature (last recent);
                (run, start) = count_streak newest 0 None (rev recent)
            in if run < threshold then
                 Some \<lparr>lv_available = True, looping = False, lv_signature = None, repeats = run,
                  startedRepeatingAt = None, lv_reason = Below_threshold run threshold\<rparr>
               else
                 Some \<lparr>lv_available = True, looping = True, lv_signature = Some newest, repeats = run,
                  startedRepeatingAt = start, lv_reason = Looping newest run threshold\<rparr>)))"

section \<open>Parking blocked runs\<close>

record blocked_run_state =
  br_runId :: string
  br_workOrderIdentity :: string
  br_repository :: string
  br_issueNumber :: int
  blockedSince :: instant
  resetAt :: "instant option"
  br_reason :: "string option"
  resumesAt :: "instant option"

datatype parking_reason =
    Parked_until instant "string option"
  | Resume_due string instant
  | Undated_escalation string instant "string option" int
  | Undated_waiting int
  | Park_plan bool string instant "string option" instant "instant option" int
    \<comment> \<open>superseding?, identity, resume, reason, reset, plan superseded, jitter in seconds\<close>

datatype parking_decision =
    Park instant parking_reason
  | Resume parking_reason
  | Waiting parking_reason
  | Escalate parking_reason

definition JITTER_FRACTION :: rat where "JITTER_FRACTION = 1 / 10"
definition MIN_JITTER_MS :: rat where "MIN_JITTER_MS = 15000"
definition MAX_JITTER_MS :: rat where "MAX_JITTER_MS = 10 * 60000"
definition UNDATED_BLOCK_PATIENCE_MS :: int where "UNDATED_BLOCK_PATIENCE_MS = 30 * 60000"

text \<open>
  The jitter; \<open>random\<close> is the number the injected generator returned, in \<open>[0, 1)\<close> for
  \<open>Math.random\<close>.
\<close>

definition jitterFor :: "instant \<Rightarrow> instant \<Rightarrow> rat \<Rightarrow> int" where
  "jitterFor reset since random =
    (let blockDurationMs = max 0 (reset - since);
         window = min MAX_JITTER_MS (max MIN_JITTER_MS (of_int blockDurationMs * JITTER_FRACTION))
     in \<lfloor>random * window\<rfloor>)"

definition superseded :: "blocked_run_state \<Rightarrow> bool" where
  "superseded run \<longleftrightarrow> (case (resumesAt run, resetAt run) of
     (Some plan, Some reset) \<Rightarrow> reset > plan | _ \<Rightarrow> False)"

definition park_unplanned :: "blocked_run_state \<Rightarrow> instant \<Rightarrow> rat \<Rightarrow> parking_decision" where
  "park_unplanned run now random =
    (case resetAt run of
       None \<Rightarrow>
         (let waitedMs = now - blockedSince run
          in if waitedMs > UNDATED_BLOCK_PATIENCE_MS
             then Escalate (Undated_escalation (br_workOrderIdentity run) (blockedSince run)
                    (br_reason run) (math_round (of_int waitedMs / 60000)))
             else Waiting (Undated_waiting
                    (math_round (of_int (UNDATED_BLOCK_PATIENCE_MS - waitedMs) / 60000))))
     | Some reset \<Rightarrow>
         (let jitterMs = jitterFor reset (blockedSince run) random;
              resumeAt = reset + jitterMs
          in Park resumeAt (Park_plan (superseded run) (br_workOrderIdentity run) resumeAt
               (br_reason run) reset (resumesAt run) (math_round (of_int jitterMs / 1000)))))"

definition decideParking :: "blocked_run_state \<Rightarrow> instant \<Rightarrow> rat \<Rightarrow> parking_decision" where
  "decideParking run now random =
    (case resumesAt run of
       Some plan \<Rightarrow>
         if \<not> superseded run then
           (if plan > now then Waiting (Parked_until plan (br_reason run))
            else Resume (Resume_due (br_workOrderIdentity run) plan))
         else park_unplanned run now random
     | None \<Rightarrow> park_unplanned run now random)"


section \<open>Lemmas\<close>

subsection \<open>Silence\<close>

definition last_sign_of_life :: "watched_run_state \<Rightarrow> instant" where
  "last_sign_of_life run = get_or (wr_startedAt run) (wr_lastEventAt run)"

definition is_silent :: "instant \<Rightarrow> watched_run_state \<Rightarrow> bool" where
  "is_silent now run \<longleftrightarrow> wr_status run \<in> {Run_running, Run_stalled} \<and>
     now - last_sign_of_life run > thresholdFor (wr_fidelity run)"

lemma judge_silence_Some_iff: "(\<exists>v. judge_silence now run = Some v) \<longleftrightarrow> is_silent now run"
  by (auto simp: judge_silence_def is_silent_def last_sign_of_life_def JUDGEABLE_def Let_def)

lemma judge_silence_SomeD:
  "judge_silence now run = Some v \<Longrightarrow>
   sv_runId v = wr_runId run \<and> silentForMs v = now - last_sign_of_life run \<and>
   thresholdMs v = thresholdFor (wr_fidelity run) \<and> sv_progressStoppedAt v = last_sign_of_life run \<and>
   (wr_lastEventAt run = None \<longrightarrow> sv_detectionSource v = None)"
  by (auto simp: judge_silence_def last_sign_of_life_def Let_def split: if_splits)

lemma set_map_filter: "set (List.map_filter f xs) = {y. \<exists>x \<in> set xs. f x = Some y}"
  by (induction xs) (auto simp: List.map_filter_simps split: option.splits)

lemma detectSilentRuns_eq:
  "map sv_runId (detectSilentRuns runs now) = map wr_runId (filter (is_silent now) runs)"
proof (induction runs)
  case (Cons r rs)
  show ?case
  proof (cases "judge_silence now r")
    case None
    then have "\<not> is_silent now r" by (simp flip: judge_silence_Some_iff)
    with None Cons show ?thesis by (simp add: detectSilentRuns_def List.map_filter_simps)
  next
    case (Some v)
    then have "is_silent now r" by (auto simp flip: judge_silence_Some_iff)
    with Some Cons judge_silence_SomeD[OF Some] show ?thesis
      by (simp add: detectSilentRuns_def List.map_filter_simps)
  qed
qed (simp add: detectSilentRuns_def List.map_filter_simps)

lemma thresholdFor_bounds: "90000 \<le> thresholdFor f \<and> thresholdFor f \<le> 5400000"
proof (cases f)
  case (Some g)
  then show ?thesis by (cases g) (simp_all add: thresholdFor_def)
qed (simp add: thresholdFor_def UNDECLARED_THRESHOLD_MS_def)

subsection \<open>Loops\<close>

lemma count_streak_eq:
  "count_streak n run start xs =
    (let s = takeWhile (\<lambda>ob. to_signature ob = n) xs
     in (run + int (length s), if s = [] then start else Some (to_occurredAt (last s))))"
  by (induction xs arbitrary: run start) (auto simp: Let_def)

lemma length_last_n: "length (last_n n xs) = (if n = 0 then length xs else min n (length xs))"
  by (auto simp: last_n_def min_def)

lemma last_n_suffix: "\<exists>us. xs = us @ last_n n xs"
  by (auto simp: last_n_def) (metis append_take_drop_id)

text \<open>The newest \<open>k\<close> observations all carry one signature.\<close>

definition uniform_tail :: "nat \<Rightarrow> tool_observation list \<Rightarrow> bool" where
  "uniform_tail k xs \<longleftrightarrow> k \<le> length xs \<and>
     (\<forall>ob \<in> set (take k (rev xs)). to_signature ob = to_signature (last xs))"

lemma takeWhile_length_ge_iff:
  "k \<le> length (takeWhile P xs) \<longleftrightarrow> k \<le> length xs \<and> (\<forall>x \<in> set (take k xs). P x)"
proof (induction xs arbitrary: k)
  case (Cons x xs)
  then show ?case by (cases k) auto
qed simp

lemma streak_ge_iff:
  "k \<le> length (takeWhile (\<lambda>ob. to_signature ob = to_signature (last xs)) (rev xs)) \<longleftrightarrow> uniform_tail k xs"
  by (simp add: takeWhile_length_ge_iff uniform_tail_def)

subsection \<open>Parking\<close>

lemma jitterFor_bounds:
  assumes "0 \<le> u" "u < 1"
  shows "0 \<le> jitterFor r s u" "jitterFor r s u < 600000"
proof -
  define w :: rat where "w = min MAX_JITTER_MS (max MIN_JITTER_MS (of_int (max 0 (r - s)) * JITTER_FRACTION))"
  have w: "0 < w" "w \<le> 600000"
    by (auto simp: w_def MAX_JITTER_MS_def MIN_JITTER_MS_def min_def max_def)
  have j: "jitterFor r s u = \<lfloor>u * w\<rfloor>" by (simp add: jitterFor_def Let_def w_def)
  from assms w have "0 \<le> u * w" "u * w < 1 * w" by (auto intro: mult_strict_right_mono)
  with w j show "0 \<le> jitterFor r s u" "jitterFor r s u < 600000"
    by (auto simp: floor_less_iff)
qed

lemma decideParking_ParkD:
  assumes "decideParking run now u = Park t why"
  obtains reset where "resetAt run = Some reset" "t = reset + jitterFor reset (blockedSince run) u"
    "resumesAt run = None \<or> superseded run"
  using assms by (auto simp: decideParking_def park_unplanned_def Let_def
      split: option.splits if_splits)

lemma decideParking_ResumeD:
  assumes "decideParking run now u = Resume why"
  obtains plan where "resumesAt run = Some plan" "plan \<le> now" "\<not> superseded run"
  using assms by (auto simp: decideParking_def park_unplanned_def Let_def
      split: option.splits if_splits)

lemma superseded_iff:
  "superseded run \<longleftrightarrow> (\<exists>plan reset. resumesAt run = Some plan \<and> resetAt run = Some reset \<and> plan < reset)"
  by (auto simp: superseded_def split: option.splits)

end
