(* ===== verification/Actions.thy ===== *)
theory Actions
  imports Watchdog
begin

text \<open>
  The action vocabulary of the reconciler (\<open>reconciler/diff/actions.types.ts\<close>) and the
  actions the watchdog's verdicts imply (\<open>watchdog/watchdog.actions.ts\<close>,
  \<open>actionsForParking\<close>). Actions are data; nothing here executes one.
\<close>

datatype reconcile_action_type =
    Act_dispatch | Act_add_mirror_label | Act_remove_mirror_label | Act_escalate
  | Act_kill_and_re_run | Act_kill_and_re_plan | Act_park | Act_resume
  | Act_quarantine | Act_release_quarantine | Act_hold

datatype escalation_kind =
    Esc_run_stalled | Esc_run_looping | Esc_run_failed | Esc_quarantined
  | Esc_budget_exceeded | Esc_system

record action_evidence =
  ev_intent :: issue_intent
  ev_inputLabels :: "string list"
  ev_workOrderIdentity :: "string option"
  ev_runStatus :: "run_status option"
  currentMirrorLabels :: "string list"
  ev_desiredMirrorLabels :: "string list"

datatype action_reason =
    From_projection projection_reason
  | Add_label string issue_intent
  | Remove_label string issue_intent
  | Kill_and_re_run string silence_reason
  | Stalled string string int silence_reason
  | Kill_and_re_plan string loop_reason
  | Is_looping string string int loop_reason
  | From_parking parking_reason

record reconcile_action =
  act_type :: reconcile_action_type
  act_repository :: string
  act_issueNumber :: int
  act_reason :: action_reason
  evidence :: action_evidence
  act_label :: "string option"
  act_runId :: "string option"
  escalationKind :: "escalation_kind option"
  act_progressStoppedAt :: "instant option"
  act_detectionSource :: "liveness_source option"
  act_resumeAt :: "instant option"

text \<open>An action with the required fields only; the optional ones are set by update.\<close>

definition mk_action :: "string \<Rightarrow> int \<Rightarrow> action_evidence \<Rightarrow> reconcile_action_type \<Rightarrow> action_reason
    \<Rightarrow> reconcile_action" where
  "mk_action repository issueNumber ev ty why =
     \<lparr>act_type = ty, act_repository = repository, act_issueNumber = issueNumber, act_reason = why,
      evidence = ev, act_label = None, act_runId = None, escalationKind = None,
      act_progressStoppedAt = None, act_detectionSource = None, act_resumeAt = None\<rparr>"

lemma mk_action_sel [simp]:
  "act_type (mk_action r n ev ty why) = ty"
  "act_repository (mk_action r n ev ty why) = r"
  "act_issueNumber (mk_action r n ev ty why) = n"
  "act_reason (mk_action r n ev ty why) = why"
  "evidence (mk_action r n ev ty why) = ev"
  "act_label (mk_action r n ev ty why) = None"
  "act_runId (mk_action r n ev ty why) = None"
  by (simp_all add: mk_action_def)

section \<open>The watchdog's actions\<close>

definition watchdog_evidence :: "issue_intent \<Rightarrow> string \<Rightarrow> run_status \<Rightarrow> action_evidence" where
  "watchdog_evidence i identity status =
     \<lparr>ev_intent = i, ev_inputLabels = [], ev_workOrderIdentity = Some identity,
      ev_runStatus = Some status, currentMirrorLabels = [], ev_desiredMirrorLabels = []\<rparr>"

definition actionsForSilence :: "silence_verdict \<Rightarrow> reconcile_action list" where
  "actionsForSilence v =
    (let ev = watchdog_evidence Intent_running (sv_workOrderIdentity v) Run_stalled;
         base = (\<lambda>ty why. (mk_action (sv_repository v) (sv_issueNumber v) ev ty why)
                            \<lparr>act_runId := Some (sv_runId v)\<rparr>)
     in [base Act_kill_and_re_run (Kill_and_re_run (sv_workOrderIdentity v) (sv_reason v)),
         (base Act_escalate
            (Stalled (sv_workOrderIdentity v) (sv_repository v) (sv_issueNumber v) (sv_reason v)))
           \<lparr>escalationKind := Some Esc_run_stalled,
            act_progressStoppedAt := Some (sv_progressStoppedAt v),
            act_detectionSource := sv_detectionSource v\<rparr>])"

definition actionsForLoop :: "loop_verdict \<Rightarrow> watched_run_state \<Rightarrow> reconcile_action list" where
  "actionsForLoop v run =
    (let ev = watchdog_evidence Intent_running (wr_workOrderIdentity run) Run_running;
         base = (\<lambda>ty why. (mk_action (wr_repository run) (wr_issueNumber run) ev ty why)
                            \<lparr>act_runId := Some (wr_runId run)\<rparr>)
     in [base Act_kill_and_re_plan (Kill_and_re_plan (wr_workOrderIdentity run) (lv_reason v)),
         (base Act_escalate
            (Is_looping (wr_workOrderIdentity run) (wr_repository run) (wr_issueNumber run) (lv_reason v)))
           \<lparr>escalationKind := Some Esc_run_looping,
            act_progressStoppedAt := startedRepeatingAt v,
            act_detectionSource := Some Source_runner\<rparr>])"

definition actionsForParking :: "blocked_run_state \<Rightarrow> parking_decision \<Rightarrow> reconcile_action list" where
  "actionsForParking run decision =
    (let ev = watchdog_evidence Intent_blocked (br_workOrderIdentity run) Run_blocked;
         base = (\<lambda>ty why. (mk_action (br_repository run) (br_issueNumber run) ev ty (From_parking why))
                            \<lparr>act_runId := Some (br_runId run)\<rparr>)
     in case decision of
          Park t why \<Rightarrow> [(base Act_park why)\<lparr>act_resumeAt := Some t\<rparr>]
        | Resume why \<Rightarrow> [base Act_resume why]
        | Escalate why \<Rightarrow> [(base Act_escalate why)\<lparr>escalationKind := Some Esc_system\<rparr>]
        | Waiting why \<Rightarrow> [])"

end
