(* ===== verification/Diff_Engine.thy ===== *)
theory Diff_Engine
  imports Actions
begin

text \<open>
  The diff engine (\<open>reconciler/diff/diff-engine.ts\<close>): the actions that would bring what was
  observed to what the projection says should be true.
\<close>

definition mirrorLabelActions :: "string \<Rightarrow> action_evidence \<Rightarrow> normalized_issue \<Rightarrow> desired_issue_state
    \<Rightarrow> reconcile_action list" where
  "mirrorLabelActions repository ev issue desired =
    (let current = remdups (observedMirrorLabels issue);
         wanted = remdups (desiredMirrorLabels desired);
         base = mk_action repository (ni_number issue) ev
     in map (\<lambda>label. (base Act_add_mirror_label (Add_label label (ds_intent desired)))
                       \<lparr>act_label := Some label\<rparr>)
          (filter (\<lambda>label. label \<notin> set current) (sort wanted))
        @ map (\<lambda>label. (base Act_remove_mirror_label (Remove_label label (ds_intent desired)))
                         \<lparr>act_label := Some label\<rparr>)
            (filter (\<lambda>label. label \<notin> set wanted \<and> label \<in> set ALL_MIRROR_LABELS) (sort current)))"

definition issueWorkOrder :: "normalized_issue \<Rightarrow> observed_state \<Rightarrow> observed_work_order option" where
  "issueWorkOrder issue observed =
    (case js_sort (by_key (\<lambda>w. - ow_attempt w))
            (filter (\<lambda>w. ow_issueNumber w = ni_number issue \<and>
                         ow_status w \<noteq> WO_superseded \<and> ow_status w \<noteq> WO_cancelled)
              (os_workOrders observed)) of
       [] \<Rightarrow> None | w # _ \<Rightarrow> Some w)"

definition intentActions :: "string \<Rightarrow> action_evidence \<Rightarrow> normalized_issue \<Rightarrow> observed_work_order option
    \<Rightarrow> desired_issue_state \<Rightarrow> reconcile_action list" where
  "intentActions repository ev issue workOrder desired =
    (let quarantined = (case workOrder of None \<Rightarrow> False | Some w \<Rightarrow> ow_status w = WO_quarantined);
         base = (\<lambda>ty. mk_action repository (ni_number issue) ev ty (From_projection (ds_reason desired)))
     in case ds_intent desired of
          Intent_dispatch \<Rightarrow> [base (if quarantined then Act_release_quarantine else Act_dispatch)]
        | Intent_quarantined \<Rightarrow> (if quarantined then [] else [base Act_quarantine])
        | Intent_hold \<Rightarrow> [base Act_hold]
        | Intent_running \<Rightarrow> []
        | Intent_blocked \<Rightarrow> []
        | Intent_review \<Rightarrow> []
        | Intent_awaiting_checks \<Rightarrow> []
        | Intent_ignore \<Rightarrow> [])"

definition actionsForIssue :: "string \<Rightarrow> normalized_issue \<Rightarrow> desired_issue_state \<Rightarrow> observed_state
    \<Rightarrow> reconcile_action list" where
  "actionsForIssue repository issue desired observed =
    (let workOrder = issueWorkOrder issue observed;
         ev = \<lparr>ev_intent = ds_intent desired,
               ev_inputLabels = ds_inputLabels desired,
               ev_workOrderIdentity = map_option ow_identity workOrder,
               ev_runStatus = map_option or_status (Option.bind workOrder ow_run),
               currentMirrorLabels = sort (observedMirrorLabels issue),
               ev_desiredMirrorLabels = sort (desiredMirrorLabels desired)\<rparr>
     in intentActions repository ev issue workOrder desired
        @ mirrorLabelActions repository ev issue desired)"

text \<open>\<open>new Map(pairs)\<close>: of several pairs with one key the last is kept.\<close>

definition computeActions :: "observed_state \<Rightarrow> desired_state \<Rightarrow> reconcile_action list" where
  "computeActions observed desired =
    (let issuesByNumber = map_of (rev (map (\<lambda>i. (ni_number i, i)) (os_issues observed)))
     in concat (map (\<lambda>state. case issuesByNumber (ds_issueNumber state) of
                        None \<Rightarrow> []
                      | Some issue \<Rightarrow> actionsForIssue (ds_repository desired) issue state observed)
                    (js_sort (by_key ds_issueNumber) (ds_issues desired))))"

text \<open>One repository's tick: project the observation, then compute the actions.\<close>

definition reconcile :: "observed_state \<Rightarrow> reconcile_action list" where
  "reconcile observed = computeActions observed (projectDesiredState observed)"

section \<open>Lemmas\<close>

lemma issueWorkOrder_eq: "issueWorkOrder issue observed = newest_attempt (ni_number issue) (os_workOrders observed)"
  by (simp add: issueWorkOrder_def newest_attempt_def live_order_def[abs_def])

text \<open>The projection and the diff read the same work order for an issue.\<close>

lemma issueWorkOrder_projection:
  "issueWorkOrder issue observed = groupWorkOrdersByIssue (os_workOrders observed) (ni_number issue)"
  by (simp add: issueWorkOrder_eq groupWorkOrders_newest)

text \<open>What the label actions add and remove.\<close>

definition labels_added :: "reconcile_action list \<Rightarrow> string set" where
  "labels_added as = {l. \<exists>a \<in> set as. act_type a = Act_add_mirror_label \<and> act_label a = Some l}"

definition labels_removed :: "reconcile_action list \<Rightarrow> string set" where
  "labels_removed as = {l. \<exists>a \<in> set as. act_type a = Act_remove_mirror_label \<and> act_label a = Some l}"

lemma labels_append [simp]:
  "labels_added (xs @ ys) = labels_added xs \<union> labels_added ys"
  "labels_removed (xs @ ys) = labels_removed xs \<union> labels_removed ys"
  by (auto simp: labels_added_def labels_removed_def)

lemma mirrorLabelActions_types:
  "a \<in> set (mirrorLabelActions r ev issue d) \<Longrightarrow>
   act_type a = Act_add_mirror_label \<or> act_type a = Act_remove_mirror_label"
  by (auto simp: mirrorLabelActions_def Let_def)

lemma mirrorLabelActions_added:
  "labels_added (mirrorLabelActions r ev issue d) =
     set (desiredMirrorLabels d) - set (observedMirrorLabels issue)"
  by (auto simp: mirrorLabelActions_def Let_def labels_added_def bex_Un)

lemma mirrorLabelActions_removed:
  "labels_removed (mirrorLabelActions r ev issue d) =
     (set (observedMirrorLabels issue) - set (desiredMirrorLabels d)) \<inter> set ALL_MIRROR_LABELS"
  by (auto simp: mirrorLabelActions_def Let_def labels_removed_def bex_Un)

lemma intentActions_types:
  "a \<in> set (intentActions r ev issue wo d) \<Longrightarrow>
   act_type a \<in> {Act_dispatch, Act_release_quarantine, Act_quarantine, Act_hold}"
  by (auto simp: intentActions_def Let_def split: issue_intent.splits if_splits)

lemma intentActions_labels [simp]:
  "labels_added (intentActions r ev issue wo d) = {}"
  "labels_removed (intentActions r ev issue wo d) = {}"
  by (auto simp: labels_added_def labels_removed_def dest: intentActions_types)

lemma actionsForIssue_labels:
  "labels_added (actionsForIssue r issue d os) =
     set (desiredMirrorLabels d) - set (observedMirrorLabels issue)"
  "labels_removed (actionsForIssue r issue d os) =
     (set (observedMirrorLabels issue) - set (desiredMirrorLabels d)) \<inter> set ALL_MIRROR_LABELS"
  by (simp_all add: actionsForIssue_def Let_def mirrorLabelActions_added mirrorLabelActions_removed)

lemma mirrorLabelActions_Nil_iff:
  "mirrorLabelActions r ev issue d = [] \<longleftrightarrow>
   set (observedMirrorLabels issue) \<inter> set ALL_MIRROR_LABELS \<subseteq> set (desiredMirrorLabels d) \<and>
   set (desiredMirrorLabels d) \<subseteq> set (observedMirrorLabels issue)"
  by (auto simp: mirrorLabelActions_def Let_def filter_empty_conv)

lemma actionsForIssue_number: "a \<in> set (actionsForIssue r issue d os) \<Longrightarrow>
    act_issueNumber a = ni_number issue \<and> act_repository a = r"
  by (auto simp: actionsForIssue_def intentActions_def mirrorLabelActions_def Let_def
      split: issue_intent.splits if_splits)

subsection \<open>The tick as one function of the observation\<close>

text \<open>With distinct issue numbers every projected state meets the issue it was made from.\<close>

definition issue_actions :: "observed_state \<Rightarrow> normalized_issue \<Rightarrow> reconcile_action list" where
  "issue_actions os issue = actionsForIssue (ds_repository (projectDesiredState os)) issue
     (projectIssue issue (issueWorkOrder issue os) os) os"

lemma map_of_distinct_mem:
  assumes "distinct (map f xs)" "x \<in> set xs"
  shows "map_of (rev (map (\<lambda>i. (f i, i)) xs)) (f x) = Some x"
proof -
  have "distinct (map fst (rev (map (\<lambda>i. (f i, i)) xs)))"
    using assms(1) by (simp add: rev_map[symmetric] o_def)
  then show ?thesis using assms(2) by (simp add: rev_map)
qed

lemma js_sort_map_key:
  "js_sort (by_key g) (map h xs) = map h (js_sort (by_key (\<lambda>x. g (h x))) xs)"
proof -
  have ins: "js_insort (by_key g) (h x) (map h ys) = map h (js_insort (by_key (\<lambda>x. g (h x))) x ys)" for x ys
    by (induction ys) (auto simp: by_key_def)
  show ?thesis by (induction xs) (simp_all add: ins)
qed

lemma reconcile_eq:
  assumes "distinct (map ni_number (os_issues os))"
  shows "reconcile os = concat (map (issue_actions os) (js_sort (by_key ni_number) (os_issues os)))"
proof -
  let ?st = "\<lambda>issue. projectIssue issue (issueWorkOrder issue os) os"
  have issues: "ds_issues (projectDesiredState os) = map ?st (os_issues os)"
    by (simp add: projectDesiredState_def Let_def issueWorkOrder_projection)
  have sorted: "js_sort (by_key ds_issueNumber) (map ?st (os_issues os)) =
      map ?st (js_sort (by_key ni_number) (os_issues os))"
    by (simp add: js_sort_map_key)
  show ?thesis
    unfolding reconcile_def computeActions_def Let_def issues sorted
    by (auto intro!: arg_cong[of _ _ concat] map_cong
        simp: map_of_distinct_mem[OF assms] issue_actions_def o_def)
qed

lemma reconcile_mem:
  assumes "distinct (map ni_number (os_issues os))" "a \<in> set (reconcile os)"
  obtains issue where "issue \<in> set (os_issues os)" "a \<in> set (issue_actions os issue)"
    "act_issueNumber a = ni_number issue"
  using assms by (auto simp: reconcile_eq issue_actions_def dest: actionsForIssue_number)

text \<open>Sorting by distinct keys forgets the order of the input.\<close>

lemma js_sort_distinct_perm:
  assumes "mset xs = mset ys" "distinct (map f xs)"
  shows "js_sort (by_key f) xs = js_sort (by_key f) ys"
proof -
  have "map f (js_sort (by_key f) xs) = map f (js_sort (by_key f) ys)"
    using assms(1) by (metis key_sort_sorted mset_js_sort mset_map properties_for_sort)
  moreover have "inj_on f (set (js_sort (by_key f) xs) \<union> set (js_sort (by_key f) ys))"
    using assms by (metis Un_absorb distinct_map mset_eq_setD set_js_sort)
  ultimately show ?thesis by (metis map_inj_on)
qed

end
