(* ===== verification/Reconciler_Properties.thy ===== *)
theory Reconciler_Properties
  imports Diff_Engine
begin

text \<open>
  The properties of one repository's tick: what the read boundary, the projection and the
  diff engine promise together. Each property with hypotheses is followed by a witness on a
  small concrete observation.
\<close>

section \<open>A concrete observation\<close>

abbreviation sample_raw :: "int \<Rightarrow> string list \<Rightarrow> raw_issue" where
  "sample_raw n ls \<equiv>
     \<lparr>ri_number = n, ri_title = ''t'', ri_body = None, ri_state = ''open'', ri_user = None,
      ri_labels = Some (map (\<lambda>l. \<lparr>rl_name = l, rl_color = ''c'', rl_description = None\<rparr>) ls),
      ri_pull_request = False, ri_html_url = ''u'', ri_created_at = 0, ri_updated_at = 0\<rparr>"

abbreviation sample_repo :: observed_repository where
  "sample_repo \<equiv>
     \<lparr>orp_id = ''r1'', orp_owner = ''o'', orp_name = ''n'', observeEnabled = True,
      dispatchEnabled = True, orp_budgetCeilingUsd = Some 10\<rparr>"

abbreviation sample_order :: "int \<Rightarrow> int \<Rightarrow> work_order_status \<Rightarrow> observed_run option \<Rightarrow> observed_work_order"
where
  "sample_order n k st run \<equiv>
     \<lparr>ow_id = ''w'', ow_identity = ''wo-1'', ow_issueNumber = n, ow_attempt = k, ow_status = st,
      ow_run = run\<rparr>"

abbreviation sample_state :: "raw_issue list \<Rightarrow> observed_work_order list \<Rightarrow> int set \<Rightarrow> observed_state"
where
  "sample_state raws ws cleared \<equiv>
     \<lparr>os_repository = sample_repo, os_issues = map toNormalizedIssue raws, os_workOrders = ws,
      humanClearedQuarantine = cleared, retryCeiling = 3\<rparr>"

lemma issue_actions_alt:
  "issue_actions os issue =
     actionsForIssue (ds_repository (projectDesiredState os)) issue
       (projectIssue issue (newest_attempt (ni_number issue) (os_workOrders os)) os) os"
  by (simp add: issue_actions_def issueWorkOrder_eq)

text \<open>A single issue's actions are found in the tick, and the tick's in a single issue.\<close>

lemma reconcile_mem_iff:
  assumes "distinct (map ni_number (os_issues os))" "issue \<in> set (os_issues os)"
    "act_issueNumber a = ni_number issue"
  shows "a \<in> set (reconcile os) \<longleftrightarrow> a \<in> set (issue_actions os issue)"
proof
  assume "a \<in> set (reconcile os)"
  then obtain i where i: "i \<in> set (os_issues os)" "a \<in> set (issue_actions os i)"
    "act_issueNumber a = ni_number i"
    using assms(1) by (elim reconcile_mem)
  with assms have "i = issue" by (metis distinct_map inj_onD)
  with i show "a \<in> set (issue_actions os issue)" by simp
next
  assume "a \<in> set (issue_actions os issue)"
  with assms(1,2) show "a \<in> set (reconcile os)" by (auto simp: reconcile_eq)
qed

section \<open>Safety of the tick\<close>

text \<open>C1: \<open>factory:hold\<close> is unconditional. For an issue that carries it, whatever its work orders,
  runs, budget or other labels are, the tick only holds the issue and takes mirror labels off it;
  the one label it may still add is the advisory \<open>factory/label-ignored\<close>.\<close>
theorem hold_stops_everything:
  assumes "distinct (map ni_number (os_issues os))" "issue \<in> set (os_issues os)"
    "INPUT_HOLD \<in> set (inputLabels issue)"
    "a \<in> set (reconcile os)" "act_issueNumber a = ni_number issue"
  shows "act_type a = Act_hold \<or> act_type a = Act_remove_mirror_label \<or>
         (act_type a = Act_add_mirror_label \<and> act_label a = Some MIRROR_LABEL_IGNORED)"
proof -
  have "a \<in> set (issue_actions os issue)" using assms reconcile_mem_iff by blast
  then show ?thesis using assms(3)
    by (auto simp: issue_actions_def actionsForIssue_def Let_def intentActions_def
        mirrorLabelActions_def projectIssue_def reportIgnoredLabels_def projectIntent_def
        split: if_splits)
qed

lemma hold_stops_everything_witness:
  "let os = sample_state [sample_raw 7 [''factory:hold'', ''factory:ready'']] [] {} in
   \<exists>a \<in> set (reconcile os). act_type a = Act_hold \<or> act_type a = Act_remove_mirror_label \<or>
         (act_type a = Act_add_mirror_label \<and> act_label a = Some MIRROR_LABEL_IGNORED)"
proof -
  let ?i = "toNormalizedIssue (sample_raw 7 [''factory:hold'', ''factory:ready''])"
  let ?os = "sample_state [sample_raw 7 [''factory:hold'', ''factory:ready'']] [] {}"
  have h: "INPUT_HOLD \<in> set (inputLabels ?i)"
    by (simp add: INPUT_HOLD_def isInputLabel_def ALL_INPUT_LABELS_def)
  have "\<exists>a \<in> set (reconcile ?os). act_issueNumber a = ni_number ?i"
    using h by (simp add: reconcile_eq issue_actions_def actionsForIssue_def Let_def projectIssue_def
        reportIgnoredLabels_def projectIntent_def intentActions_def)
  then obtain a where a: "a \<in> set (reconcile ?os)" "act_issueNumber a = ni_number ?i" by blast
  have "act_type a = Act_hold \<or> act_type a = Act_remove_mirror_label \<or>
         (act_type a = Act_add_mirror_label \<and> act_label a = Some MIRROR_LABEL_IGNORED)"
    by (rule hold_stops_everything[OF _ _ h a]) simp_all
  with a(1) show ?thesis unfolding Let_def by blast
qed


text \<open>What the projection decided, read off the actions of the issue.\<close>

lemma issue_actions_dispatch:
  "(\<exists>a \<in> set (issue_actions os issue). act_type a = Act_dispatch) \<longleftrightarrow>
     (let wo = newest_attempt (ni_number issue) (os_workOrders os)
      in ds_intent (projectIntent issue wo os) = Intent_dispatch \<and>
         (\<forall>w. wo = Some w \<longrightarrow> ow_status w \<noteq> WO_quarantined))"
  by (auto simp: issue_actions_alt actionsForIssue_def issueWorkOrder_eq Let_def intentActions_def
      dest!: mirrorLabelActions_types split: issue_intent.splits option.splits)

lemma issue_actions_release:
  "(\<exists>a \<in> set (issue_actions os issue). act_type a = Act_release_quarantine) \<longleftrightarrow>
     (let wo = newest_attempt (ni_number issue) (os_workOrders os)
      in ds_intent (projectIntent issue wo os) = Intent_dispatch \<and>
         (\<exists>w. wo = Some w \<and> ow_status w = WO_quarantined))"
  by (auto simp: issue_actions_alt actionsForIssue_def issueWorkOrder_eq Let_def intentActions_def
      dest!: mirrorLabelActions_types split: issue_intent.splits option.splits)

lemma reconcile_type_iff:
  assumes "distinct (map ni_number (os_issues os))" "issue \<in> set (os_issues os)"
  shows "(\<exists>a \<in> set (reconcile os). act_issueNumber a = ni_number issue \<and> act_type a = ty) \<longleftrightarrow>
         (\<exists>a \<in> set (issue_actions os issue). act_type a = ty)"
proof -
  have "a \<in> set (issue_actions os issue) \<Longrightarrow> act_issueNumber a = ni_number issue" for a
    by (auto simp: issue_actions_def dest: actionsForIssue_number)
  with reconcile_mem_iff[OF assms] show ?thesis by blast
qed

text \<open>The newest work order lets a new attempt start.\<close>

definition startable :: "observed_state \<Rightarrow> observed_work_order \<Rightarrow> bool" where
  "startable os w \<longleftrightarrow>
     ow_status w \<noteq> WO_quarantined \<and> ow_attempt w < retryCeiling os \<and>
     (\<forall>run. ow_run w = Some run \<longrightarrow> \<not> run_holds run \<and>
        (\<forall>c s. orp_budgetCeilingUsd (os_repository os) = Some c \<longrightarrow> or_costUsd run = Some s \<longrightarrow> s < c))"

lemma budget_attempts_iff:
  "within_budget (os_repository os) wo \<and> attempts_left (retryCeiling os) wo \<and>
   (\<forall>w. wo = Some w \<longrightarrow> ow_status w \<noteq> WO_quarantined \<and> (\<forall>r. ow_run w = Some r \<longrightarrow> \<not> run_holds r))
   \<longleftrightarrow> (\<forall>w. wo = Some w \<longrightarrow> startable os w)"
  by (cases wo; cases "ow_run (the wo)")
     (auto simp: within_budget_def attempts_left_def totalSpend_def startable_def)

lemma projectIntent_dispatch_iff:
  "ds_intent (projectIntent issue wo os) = Intent_dispatch \<and>
     (\<forall>w. wo = Some w \<longrightarrow> ow_status w \<noteq> WO_quarantined) \<longleftrightarrow>
   INPUT_HOLD \<notin> set (inputLabels issue) \<and> INPUT_READY \<in> set (inputLabels issue) \<and>
   dispatchEnabled (os_repository os) \<and> (\<forall>w. wo = Some w \<longrightarrow> startable os w)"
proof (cases rule: projectIntent_cases[of issue wo os])
  case (run w r d)
  then have "run_holds r" by (metis option.discI project_run_None_iff)
  with run show ?thesis
    using project_run_intent[of issue w r d] by (auto simp: startable_def)
next
  case ready
  then show ?thesis
    by (auto simp: project_ready_dispatch_iff simp flip: budget_attempts_iff)
qed (auto simp: startable_def)

text \<open>C2: an issue gets a dispatch action exactly when nobody holds it, it is marked ready, the
  repository allows dispatch, and its newest work order (if there is one) is not quarantined, has
  attempts left, has no run that is live, parked or awaiting review, and has spent less than the
  repository's ceiling where both figures are known.\<close>
theorem dispatch_exactly_when:
  assumes "distinct (map ni_number (os_issues os))" "issue \<in> set (os_issues os)"
  shows "(\<exists>a \<in> set (reconcile os). act_issueNumber a = ni_number issue \<and> act_type a = Act_dispatch)
    \<longleftrightarrow> INPUT_HOLD \<notin> set (inputLabels issue) \<and> INPUT_READY \<in> set (inputLabels issue) \<and>
        dispatchEnabled (os_repository os) \<and>
        (\<forall>w. newest_attempt (ni_number issue) (os_workOrders os) = Some w \<longrightarrow> startable os w)"
  unfolding reconcile_type_iff[OF assms] issue_actions_dispatch Let_def
  by (rule projectIntent_dispatch_iff)

lemma sample_newest:
  "newest_attempt 7 [sample_order 7 1 st run] =
     (if st = WO_superseded \<or> st = WO_cancelled then None else Some (sample_order 7 1 st run))"
  by (simp add: newest_attempt_def live_order_def)

lemma dispatch_exactly_when_witness:
  "let os = sample_state [sample_raw 7 [''factory:ready'']] [sample_order 7 1 WO_failed None] {} in
   \<exists>a \<in> set (reconcile os). act_issueNumber a = 7 \<and> act_type a = Act_dispatch"
proof -
  let ?i = "toNormalizedIssue (sample_raw 7 [''factory:ready''])"
  let ?os = "sample_state [sample_raw 7 [''factory:ready'']] [sample_order 7 1 WO_failed None] {}"
  have "INPUT_HOLD \<notin> set (inputLabels ?i) \<and> INPUT_READY \<in> set (inputLabels ?i)"
    by (simp add: input_label_defs isInputLabel_def ALL_INPUT_LABELS_def)
  then show ?thesis
    using dispatch_exactly_when[of ?os ?i] by (simp add: sample_newest startable_def)
qed

text \<open>C4: a quarantine is released only by a human. When the observation is assembled the way the
  tick does (issues through the read boundary, clearances through the label timeline), a release
  action for an issue means: the issue carries \<open>factory:clear-quarantine\<close> and no hold, its timeline
  could be read, and the last event of that label on it is an application by an actor who is not a
  bot. A failed read releases nothing.\<close>
theorem release_needs_a_human:
  assumes "os_issues os = map toNormalizedIssue raws" "distinct (map ri_number raws)"
    "humanClearedQuarantine os = resolveHumanQuarantineClears rd (os_issues os) (os_workOrders os)"
    "a \<in> set (reconcile os)" "act_type a = Act_release_quarantine"
  shows "\<exists>raw \<in> set raws. ri_number raw = act_issueNumber a \<and>
     INPUT_HOLD \<notin> set (map rl_name (get_or [] (ri_labels raw))) \<and>
     INPUT_CLEAR_QUARANTINE \<in> set (map rl_name (get_or [] (ri_labels raw))) \<and>
     (\<exists>before e after. rd (ri_number raw) = Inr (before @ e # after) \<and>
        le_label e = INPUT_CLEAR_QUARANTINE \<and> le_event e = Labeled \<and> \<not> actorIsBot e \<and>
        (\<forall>v \<in> set after. le_label v \<noteq> INPUT_CLEAR_QUARANTINE))"
proof -
  have dist: "distinct (map ni_number (os_issues os))"
    using assms(1,2) by (simp add: o_def)
  obtain issue where issue: "issue \<in> set (os_issues os)" "a \<in> set (issue_actions os issue)"
    "act_issueNumber a = ni_number issue"
    using reconcile_mem[OF dist assms(4)] .
  let ?wo = "newest_attempt (ni_number issue) (os_workOrders os)"
  obtain w where w: "?wo = Some w" "ow_status w = WO_quarantined"
    "ds_intent (projectIntent issue ?wo os) = Intent_dispatch"
    using issue(2) assms(5) issue_actions_release[of os issue] unfolding Let_def by blast
  have nohold: "INPUT_HOLD \<notin> set (inputLabels issue)" and
    cleared: "ni_number issue \<in> humanClearedQuarantine os"
    using w by (auto simp: projectIntent_def split: if_splits)
  obtain i evs where i: "i \<in> set (os_issues os)" "ni_number i = ni_number issue"
    "INPUT_CLEAR_QUARANTINE \<in> set (inputLabels i)" "rd (ni_number issue) = Inr evs"
    "wasLabelAppliedByHuman evs INPUT_CLEAR_QUARANTINE"
    using cleared unfolding assms(3) resolveHuman_mem by blast
  with dist issue(1) have "i = issue" by (metis distinct_map inj_onD)
  obtain raw where raw: "raw \<in> set raws" "issue = toNormalizedIssue raw"
    using issue(1) assms(1) by auto
  have hold_vis: "INPUT_HOLD \<notin> set (map rl_name (get_or [] (ri_labels raw)))"
    using nohold raw(2) by (auto simp: isInputLabel_def ALL_INPUT_LABELS_def)
  have clear_vis: "INPUT_CLEAR_QUARANTINE \<in> set (map rl_name (get_or [] (ri_labels raw)))"
    using i(3) \<open>i = issue\<close> raw(2) by auto
  obtain e where "last_event_of INPUT_CLEAR_QUARANTINE None evs = Some e" "le_event e = Labeled"
    "\<not> actorIsBot e"
    using i(5) by (auto simp: wasLabelAppliedByHuman_def split: option.splits)
  with i(4) raw issue(3) hold_vis clear_vis show ?thesis
    unfolding last_event_of_Some by auto
qed

lemma release_needs_a_human_witness:
  "let raws = [sample_raw 7 [''factory:clear-quarantine'']];
       ws = [sample_order 7 1 WO_quarantined None];
       rd = (\<lambda>n. Inr [\<lparr>le_event = Labeled, le_label = ''factory:clear-quarantine'',
                       le_actor = Some ''ann'', actorIsBot = False, le_occurredAt = 5\<rparr>]);
       os = sample_state raws ws (resolveHumanQuarantineClears rd (map toNormalizedIssue raws) ws)
   in \<exists>a \<in> set (reconcile os). act_type a = Act_release_quarantine \<and>
        (\<exists>raw \<in> set raws. ri_number raw = act_issueNumber a \<and>
           INPUT_HOLD \<notin> set (map rl_name (get_or [] (ri_labels raw))))"
proof -
  let ?raws = "[sample_raw 7 [''factory:clear-quarantine'']]"
  let ?ws = "[sample_order 7 1 WO_quarantined None]"
  let ?rd = "\<lambda>n::int. Inr [\<lparr>le_event = Labeled, le_label = ''factory:clear-quarantine'',
     le_actor = Some ''ann'', actorIsBot = False, le_occurredAt = 5\<rparr>] :: string + normalized_label_event list"
  let ?os = "sample_state ?raws ?ws (resolveHumanQuarantineClears ?rd (map toNormalizedIssue ?raws) ?ws)"
  let ?i = "toNormalizedIssue (sample_raw 7 [''factory:clear-quarantine''])"
  have labels: "INPUT_HOLD \<notin> set (inputLabels ?i)" "INPUT_CLEAR_QUARANTINE \<in> set (inputLabels ?i)"
    by (simp_all add: input_label_defs isInputLabel_def ALL_INPUT_LABELS_def)
  have "7 \<in> humanClearedQuarantine ?os"
    using labels(2) by (simp add: resolveHuman_mem wasLabelAppliedByHuman_def INPUT_CLEAR_QUARANTINE_def)
  then have "\<exists>a \<in> set (issue_actions ?os ?i). act_type a = Act_release_quarantine"
    unfolding issue_actions_release Let_def using labels(1)
    by (simp add: sample_newest projectIntent_def)
  then obtain a where a: "a \<in> set (reconcile ?os)" "act_type a = Act_release_quarantine"
    using reconcile_type_iff[of ?os ?i Act_release_quarantine] by auto
  have "\<exists>raw \<in> set ?raws. ri_number raw = act_issueNumber a \<and>
      INPUT_HOLD \<notin> set (map rl_name (get_or [] (ri_labels raw)))"
    using release_needs_a_human[of ?os ?raws ?rd a] a by auto
  with a show ?thesis unfolding Let_def by blast
qed


section \<open>The labels converge\<close>

text \<open>The projection of an issue reads three of its fields.\<close>

lemma projectIssue_cong:
  assumes "ni_number i = ni_number j" "inputLabels i = inputLabels j" "ignoredLabels i = ignoredLabels j"
    "os_repository os = os_repository os'" "humanClearedQuarantine os = humanClearedQuarantine os'"
    "retryCeiling os = retryCeiling os'"
  shows "projectIssue i wo os = projectIssue j wo os'"
  using assms
  by (simp add: projectIssue_def reportIgnoredLabels_def projectIntent_def project_run_def[abs_def]
      project_ready_def intent_state_def Let_def cong: option.case_cong if_cong)

text \<open>The labels on an issue once the label actions have been carried out.\<close>

definition labels_after :: "reconcile_action list \<Rightarrow> int \<Rightarrow> string set \<Rightarrow> string set" where
  "labels_after as n before =
    (let mine = filter (\<lambda>a. act_issueNumber a = n) as
     in before - labels_removed mine \<union> labels_added mine)"

lemma labels_of_issue:
  assumes "distinct (map ni_number (os_issues os))" "issue \<in> set (os_issues os)"
  shows "labels_added (filter (\<lambda>a. act_issueNumber a = ni_number issue) (reconcile os)) =
           labels_added (issue_actions os issue)"
    "labels_removed (filter (\<lambda>a. act_issueNumber a = ni_number issue) (reconcile os)) =
           labels_removed (issue_actions os issue)"
proof -
  have "a \<in> set (filter (\<lambda>a. act_issueNumber a = ni_number issue) (reconcile os)) \<longleftrightarrow>
        a \<in> set (issue_actions os issue)" for a
    using reconcile_mem_iff[OF assms] by (auto simp: issue_actions_def dest: actionsForIssue_number)
  then have "set (filter (\<lambda>a. act_issueNumber a = ni_number issue) (reconcile os)) =
      set (issue_actions os issue)" by blast
  then show "labels_added (filter (\<lambda>a. act_issueNumber a = ni_number issue) (reconcile os)) =
           labels_added (issue_actions os issue)"
    "labels_removed (filter (\<lambda>a. act_issueNumber a = ni_number issue) (reconcile os)) =
           labels_removed (issue_actions os issue)"
    unfolding labels_added_def labels_removed_def by simp_all
qed

definition wanted_labels :: "observed_state \<Rightarrow> normalized_issue \<Rightarrow> string set" where
  "wanted_labels os issue = set (desiredMirrorLabels
     (projectIssue issue (groupWorkOrdersByIssue (os_workOrders os) (ni_number issue)) os))"

lemma wanted_labels_own: "wanted_labels os issue \<subseteq> set ALL_MIRROR_LABELS"
  unfolding wanted_labels_def by (rule desired_labels_own)

lemma labels_after_eq:
  assumes "distinct (map ni_number (os_issues os))" "issue \<in> set (os_issues os)"
  shows "labels_after (reconcile os) (ni_number issue) (set (observedMirrorLabels issue)) =
         wanted_labels os issue \<union> (set (observedMirrorLabels issue) - set ALL_MIRROR_LABELS)"
  using wanted_labels_own[of os issue]
  unfolding labels_after_def Let_def labels_of_issue[OF assms] issue_actions_def actionsForIssue_labels
    wanted_labels_def issueWorkOrder_projection
  by auto

text \<open>C36: one tick is enough. After a tick's label actions an issue carries exactly the mirror labels
  the projection wants, and every \<open>factory/\<close> label that is not Opifex's own is still there; and if
  nothing but the labels changed, the next tick computes no label action at all.\<close>
theorem mirror_labels_converge:
  assumes "distinct (map ni_number (os_issues os))"
    "os' = os\<lparr>os_issues := map (\<lambda>i. i\<lparr>observedMirrorLabels := after i\<rparr>) (os_issues os)\<rparr>"
    "\<forall>i \<in> set (os_issues os).
       set (after i) = labels_after (reconcile os) (ni_number i) (set (observedMirrorLabels i))"
  shows "(\<forall>i \<in> set (os_issues os).
            set (after i) \<inter> set ALL_MIRROR_LABELS = wanted_labels os i \<and>
            set (after i) - set ALL_MIRROR_LABELS = set (observedMirrorLabels i) - set ALL_MIRROR_LABELS)
       \<and> (\<forall>a \<in> set (reconcile os').
            act_type a \<noteq> Act_add_mirror_label \<and> act_type a \<noteq> Act_remove_mirror_label)"
proof
  have after: "set (after i) = wanted_labels os i \<union> (set (observedMirrorLabels i) - set ALL_MIRROR_LABELS)"
    if "i \<in> set (os_issues os)" for i
    using assms(3) that labels_after_eq[OF assms(1) that] by simp
  then show "\<forall>i \<in> set (os_issues os).
      set (after i) \<inter> set ALL_MIRROR_LABELS = wanted_labels os i \<and>
      set (after i) - set ALL_MIRROR_LABELS = set (observedMirrorLabels i) - set ALL_MIRROR_LABELS"
    using wanted_labels_own by fastforce
  have dist: "distinct (map ni_number (os_issues os'))" using assms(1,2) by (simp add: o_def)
  show "\<forall>a \<in> set (reconcile os').
      act_type a \<noteq> Act_add_mirror_label \<and> act_type a \<noteq> Act_remove_mirror_label"
  proof
    fix a assume "a \<in> set (reconcile os')"
    then obtain j where j: "j \<in> set (os_issues os')" "a \<in> set (issue_actions os' j)"
      using dist by (elim reconcile_mem)
    then obtain i where i: "i \<in> set (os_issues os)" "j = i\<lparr>observedMirrorLabels := after i\<rparr>"
      using assms(2) by auto
    have "projectIssue j wo os' = projectIssue i wo os" for wo
      using assms(2) i by (intro projectIssue_cong) simp_all
    then have "wanted_labels os' j = wanted_labels os i"
      using assms(2) i by (simp add: wanted_labels_def)
    moreover have "set (observedMirrorLabels j) = set (after i)" using i by simp
    ultimately have "mirrorLabelActions r ev j (projectIssue j (issueWorkOrder j os') os') = []" for r ev
      using after[OF i(1)] wanted_labels_own
      unfolding mirrorLabelActions_Nil_iff wanted_labels_def issueWorkOrder_projection by blast
    with j(2) show "act_type a \<noteq> Act_add_mirror_label \<and> act_type a \<noteq> Act_remove_mirror_label"
      by (auto simp: issue_actions_def actionsForIssue_def Let_def dest: intentActions_types)
  qed
qed

lemma mirror_labels_converge_witness:
  "let os = sample_state [sample_raw 7 [''factory/review'', ''factory/mine'']] [] {};
       os' = os\<lparr>os_issues := map (\<lambda>i. i\<lparr>observedMirrorLabels := [''factory/mine'']\<rparr>) (os_issues os)\<rparr>
   in \<forall>a \<in> set (reconcile os').
        act_type a \<noteq> Act_add_mirror_label \<and> act_type a \<noteq> Act_remove_mirror_label"
proof -
  let ?i = "toNormalizedIssue (sample_raw 7 [''factory/review'', ''factory/mine''])"
  let ?os = "sample_state [sample_raw 7 [''factory/review'', ''factory/mine'']] [] {}"
  have dist: "distinct (map ni_number (os_issues ?os))" by simp
  have obs: "observedMirrorLabels ?i = [''factory/review'', ''factory/mine'']"
    and lab: "inputLabels ?i = []" "ignoredLabels ?i = []"
    by (simp_all add: isMirrorLabel_def MIRROR_LABEL_PREFIX_def starts_with_def isInputLabel_def
        ALL_INPUT_LABELS_def input_label_defs classifyIgnoredLabels_def)
  have wanted: "wanted_labels ?os ?i = {}"
    using lab by (simp add: wanted_labels_def groupWorkOrdersByIssue_def projectIssue_def
        reportIgnoredLabels_def projectIntent_def project_ready_def)
  have "labels_after (reconcile ?os) (ni_number ?i) (set (observedMirrorLabels ?i)) =
      wanted_labels ?os ?i \<union> (set (observedMirrorLabels ?i) - set ALL_MIRROR_LABELS)"
    by (rule labels_after_eq[OF dist]) simp
  also have "\<dots> = {''factory/mine''}"
    unfolding wanted obs by (auto simp: ALL_MIRROR_LABELS_def mirror_label_defs)
  finally have "\<forall>i \<in> set (os_issues ?os). set [''factory/mine''] =
      labels_after (reconcile ?os) (ni_number i) (set (observedMirrorLabels i))" by simp
  from mirror_labels_converge[OF dist refl this] show ?thesis
    unfolding Let_def by blast
qed

text \<open>No feedback loop. Two sets of issues whose labels differ only in \<open>factory/\<close> mirror labels
  (whoever wrote them) are projected to the same desired state.\<close>
theorem projection_ignores_mirror_labels:
  assumes "list_all2 (\<lambda>r r'. ri_number r = ri_number r' \<and>
       filter (\<lambda>n. \<not> isMirrorLabel n) (map rl_name (get_or [] (ri_labels r))) =
       filter (\<lambda>n. \<not> isMirrorLabel n) (map rl_name (get_or [] (ri_labels r')))) raws raws'"
  shows "projectDesiredState (os\<lparr>os_issues := map toNormalizedIssue raws\<rparr>) =
         projectDesiredState (os\<lparr>os_issues := map toNormalizedIssue raws'\<rparr>)"
proof -
  have "projectIssue (toNormalizedIssue r) wo (os\<lparr>os_issues := is\<rparr>) =
        projectIssue (toNormalizedIssue r') wo (os\<lparr>os_issues := js\<rparr>)"
    if "ri_number r = ri_number r'"
      "filter (\<lambda>n. \<not> isMirrorLabel n) (map rl_name (get_or [] (ri_labels r))) =
       filter (\<lambda>n. \<not> isMirrorLabel n) (map rl_name (get_or [] (ri_labels r')))" for r r' wo "is" js
  proof -
    have "filter isInputLabel ns = filter isInputLabel (filter (\<lambda>n. \<not> isMirrorLabel n) ns)" for ns
      by (auto intro: filter_cong dest: input_not_mirror)
    then have "filter isInputLabel (map rl_name (get_or [] (ri_labels r))) =
        filter isInputLabel (map rl_name (get_or [] (ri_labels r')))"
      using that(2) by metis
    with that show ?thesis by (intro projectIssue_cong) simp_all
  qed
  note one = this
  have "map (\<lambda>i. projectIssue i (m (ni_number i)) (os\<lparr>os_issues := is\<rparr>)) (map toNormalizedIssue raws) =
        map (\<lambda>i. projectIssue i (m (ni_number i)) (os\<lparr>os_issues := js\<rparr>)) (map toNormalizedIssue raws')"
    for m :: "int \<Rightarrow> observed_work_order option" and "is" js
    using assms by (induction raws raws' rule: list_all2_induct) (auto intro: one)
  then show ?thesis unfolding projectDesiredState_def Let_def by simp
qed

lemma projection_ignores_mirror_labels_witness:
  "projectDesiredState (sample_state [sample_raw 7 [''factory:ready'', ''factory/review'']] [] {}) =
   projectDesiredState (sample_state [sample_raw 7 [''factory/blocked'', ''factory:ready'']] [] {})"
  using projection_ignores_mirror_labels[of "[sample_raw 7 [''factory:ready'', ''factory/review'']]"
      "[sample_raw 7 [''factory/blocked'', ''factory:ready'']]" "sample_state [] [] {}"]
  by (simp add: isMirrorLabel_def MIRROR_LABEL_PREFIX_def starts_with_def)


section \<open>Determinism and agreement\<close>

text \<open>The action list does not depend on the order in which GitHub listed the issues.\<close>
theorem reconcile_order_independent:
  assumes "mset issues = mset (os_issues os)" "distinct (map ni_number (os_issues os))"
  shows "reconcile (os\<lparr>os_issues := issues\<rparr>) = reconcile os"
proof -
  let ?os = "os\<lparr>os_issues := issues\<rparr>"
  have "distinct (map ni_number issues)"
    using assms by (metis mset_eq_imp_distinct_iff mset_map)
  then have "reconcile ?os = concat (map (issue_actions ?os) (js_sort (by_key ni_number) issues))"
    by (simp add: reconcile_eq)
  also have "js_sort (by_key ni_number) issues = js_sort (by_key ni_number) (os_issues os)"
    using assms by (metis js_sort_distinct_perm)
  also have "issue_actions ?os = issue_actions os"
  proof
    fix i
    have "projectIssue i wo ?os = projectIssue i wo os" for wo by (intro projectIssue_cong) simp_all
    then show "issue_actions ?os i = issue_actions os i"
      by (simp add: issue_actions_def actionsForIssue_def issueWorkOrder_def projectDesiredState_def Let_def)
  qed
  finally show ?thesis using assms(2) by (simp add: reconcile_eq)
qed

lemma reconcile_order_independent_witness:
  "reconcile (sample_state [sample_raw 8 [], sample_raw 7 [''factory:ready'']] [] {}) =
   reconcile (sample_state [sample_raw 7 [''factory:ready''], sample_raw 8 []] [] {})"
  using reconcile_order_independent[of "map toNormalizedIssue [sample_raw 8 [], sample_raw 7 [''factory:ready'']]"
      "sample_state [sample_raw 7 [''factory:ready''], sample_raw 8 []] [] {}"]
  by (simp add: add_mset_commute)

text \<open>The projection and the diff engine, which find an issue's work order in two different ways
  (a loop that keeps the best so far, a filtered sort), always agree, and what they find is a work
  order of that issue that is neither superseded nor cancelled and has the highest attempt number
  of those; they find none exactly when there is none.\<close>
theorem same_newest_work_order:
  "issueWorkOrder issue os = groupWorkOrdersByIssue (os_workOrders os) (ni_number issue) \<and>
   (case issueWorkOrder issue os of
      None \<Rightarrow> \<forall>w \<in> set (os_workOrders os). \<not> live_order (ni_number issue) w
    | Some w \<Rightarrow> w \<in> set (os_workOrders os) \<and> live_order (ni_number issue) w \<and>
        (\<forall>v \<in> set (os_workOrders os). live_order (ni_number issue) v \<longrightarrow> ow_attempt v \<le> ow_attempt w))"
  by (auto simp: issueWorkOrder_eq groupWorkOrders_newest newest_attempt_None_iff
      dest: newest_attempt_SomeD split: option.split)

lemma same_newest_work_order_witness:
  "issueWorkOrder (toNormalizedIssue (sample_raw 7 []))
     (sample_state [] [sample_order 7 1 WO_failed None, sample_order 7 2 WO_queued None,
        sample_order 7 3 WO_cancelled None] {}) =
   Some (sample_order 7 2 WO_queued None)"
  using same_newest_work_order[of "toNormalizedIssue (sample_raw 7 [])"
      "sample_state [] [sample_order 7 1 WO_failed None, sample_order 7 2 WO_queued None,
        sample_order 7 3 WO_cancelled None] {}"]
  by (simp add: groupWorkOrdersByIssue_def group_step_def)

text \<open>The mirror labels the projection wants on an issue are Opifex's own, without repetition; at
  most one of them reports a state; and the advisory one is there exactly when some visible label
  of a routing family is not understood or two tiers contradict each other.\<close>
theorem one_state_label_and_audible_typos:
  "let wanted = desiredMirrorLabels (projectIssue (toNormalizedIssue raw) wo os);
       visible = filter (\<lambda>n. \<not> isMirrorLabel n) (map rl_name (get_or [] (ri_labels raw)))
   in distinct wanted \<and> set wanted \<subseteq> set ALL_MIRROR_LABELS \<and>
      length (filter (\<lambda>l. l \<noteq> MIRROR_LABEL_IGNORED) wanted) \<le> 1 \<and>
      (MIRROR_LABEL_IGNORED \<in> set wanted \<longleftrightarrow>
         \<not> (list_all understood visible \<and> tiers_agree visible))"
proof -
  let ?wanted = "desiredMirrorLabels (projectIssue (toNormalizedIssue raw) wo os)"
  have ign: "ignoredLabels (toNormalizedIssue raw) = [] \<longleftrightarrow>
      list_all understood (filter (\<lambda>n. \<not> isMirrorLabel n) (map rl_name (get_or [] (ri_labels raw)))) \<and>
      tiers_agree (filter (\<lambda>n. \<not> isMirrorLabel n) (map rl_name (get_or [] (ri_labels raw))))"
    by (simp add: classify_Nil_iff)
  have own: "MIRROR_LABEL_IGNORED \<in> set ALL_MIRROR_LABELS" by (simp add: ALL_MIRROR_LABELS_def)
  have one: "length (filter (\<lambda>l. l \<noteq> MIRROR_LABEL_IGNORED) (intent_labels i)) \<le> 1"
    and no: "MIRROR_LABEL_IGNORED \<notin> set (intent_labels i)" for i
    by (cases i; simp add: mirror_label_defs)+
  show ?thesis
    unfolding Let_def ign[symmetric]
    using desired_labels_distinct desired_labels_own one no own
    by (auto simp: projectIssue_labels)
qed

section \<open>Checks\<close>

lemma check_passed_iff:
  "ck_status c = Check_completed \<and> (\<exists>concl \<in> set PASSING_CONCLUSIONS. ck_conclusion c = Some concl)
   \<longleftrightarrow> \<not> check_failed c \<and> \<not> check_incomplete c"
  by (cases "ck_conclusion c") (auto simp: check_failed_def check_incomplete_def)

lemma summarizeChecks_Passing_iff:
  "summarizeChecks cs = Passing \<longleftrightarrow> cs \<noteq> [] \<and> (\<forall>c \<in> set cs. ck_status c = Check_completed \<and>
      (\<exists>concl \<in> set PASSING_CONCLUSIONS. ck_conclusion c = Some concl))"
  unfolding check_passed_iff by (auto simp: summarizeChecks_eq)

text \<open>The verdict over CI's answers. Failing exactly when a completed check concluded anything
  but success, neutral or skipped; passing exactly when there is a check and every one completed
  with one of those; pending otherwise. The names reported are those of the failing checks, and
  there is one to name exactly when the verdict is failing.\<close>
theorem summarizeChecks_spec:
  "(summarizeChecks cs = Failing \<longleftrightarrow>
      (\<exists>c \<in> set cs. ck_status c = Check_completed \<and>
         (\<exists>concl. ck_conclusion c = Some concl \<and> concl \<notin> set PASSING_CONCLUSIONS))) \<and>
   (summarizeChecks cs = Passing \<longleftrightarrow>
      cs \<noteq> [] \<and> (\<forall>c \<in> set cs. ck_status c = Check_completed \<and>
         (\<exists>concl \<in> set PASSING_CONCLUSIONS. ck_conclusion c = Some concl))) \<and>
   (failingCheckNames cs \<noteq> [] \<longleftrightarrow> summarizeChecks cs = Failing)"
proof -
  have fail: "summarizeChecks cs = Failing \<longleftrightarrow> (\<exists>c \<in> set cs. check_failed c)"
    by (simp add: summarizeChecks_eq)
  have names: "failingCheckNames cs \<noteq> [] \<longleftrightarrow> (\<exists>c \<in> set cs. check_failed c)"
    by (auto simp: failingCheckNames_eq filter_empty_conv)
  show ?thesis
    unfolding summarizeChecks_Passing_iff[symmetric] names fail by (simp add: check_failed_def)
qed

lemma summarizeChecks_spec_witness:
  "summarizeChecks [\<lparr>ck_name = ''unit'', ck_status = Check_completed, ck_conclusion = Some ''success''\<rparr>,
     \<lparr>ck_name = ''lint'', ck_status = Check_completed, ck_conclusion = Some ''cancelled''\<rparr>] = Failing"
  using summarizeChecks_spec[of "[\<lparr>ck_name = ''unit'', ck_status = Check_completed, ck_conclusion = Some ''success''\<rparr>,
     \<lparr>ck_name = ''lint'', ck_status = Check_completed, ck_conclusion = Some ''cancelled''\<rparr>]"]
  by (simp add: PASSING_CONCLUSIONS_def)

text \<open>C37: green CI is a hard gate on review. When the checks of an issue's run are resolved the way
  the observation does, an issue wears the review label only if its run succeeded with a pull
  request, the commit's checks could be read, there was at least one, and every one of them
  completed with a passing conclusion. A failed read holds the pull request back.\<close>
theorem review_needs_green_ci:
  assumes "\<forall>w run. wo = Some w \<longrightarrow> ow_run w = Some run \<longrightarrow>
       or_checks run = resolveChecks rd (or_status run) (or_pullRequestUrl run) (headCommit run)"
    "MIRROR_REVIEW \<in> set (desiredMirrorLabels (projectIssue issue wo os))"
  shows "\<exists>w run h cs. wo = Some w \<and> ow_run w = Some run \<and> or_status run = Run_succeeded \<and>
     truthy (or_pullRequestUrl run) \<and> headCommit run = Some h \<and> rd h = Inr cs \<and> cs \<noteq> [] \<and>
     (\<forall>c \<in> set cs. ck_status c = Check_completed \<and>
        (\<exists>concl \<in> set PASSING_CONCLUSIONS. ck_conclusion c = Some concl))"
proof -
  have "MIRROR_REVIEW \<in> set (intent_labels (ds_intent (projectIntent issue wo os)))"
    using assms(2) by (auto simp: projectIssue_labels mirror_label_defs split: if_splits)
  then have review: "ds_intent (projectIntent issue wo os) = Intent_review"
    by (cases "ds_intent (projectIntent issue wo os)") (simp_all add: mirror_label_defs)
  obtain w run where w: "wo = Some w" "ow_run w = Some run" "or_checks run = Some Passing"
  proof (cases rule: projectIntent_cases[of issue wo os])
    case (run w r d)
    from run(6) review have "ds_intent d = Intent_review" by simp
    with run(5) have "or_checks r = Some Passing" by (auto simp: project_run_def split: if_splits)
    with run that show ?thesis by blast
  next
    case ready
    with review project_ready_intent[of issue wo os] show ?thesis by simp
  qed (use review in \<open>auto split: if_splits\<close>)
  with assms(1) resolveChecks_passing[of rd "or_status run" "or_pullRequestUrl run" "headCommit run"]
  obtain h cs where "headCommit run = Some h" "rd h = Inr cs" "summarizeChecks cs = Passing"
    "or_status run = Run_succeeded" "truthy (or_pullRequestUrl run)" by auto
  then show ?thesis using w unfolding summarizeChecks_Passing_iff by blast
qed

lemma review_needs_green_ci_witness:
  "let checks = [\<lparr>ck_name = ''unit'', ck_status = Check_completed, ck_conclusion = Some ''success''\<rparr>];
       rd = (\<lambda>h::string. Inr checks :: string + normalized_check list);
       order = sample_order 7 1 WO_dispatched (Some
         \<lparr>or_id = ''r'', or_status = Run_succeeded, or_costUsd = None,
          or_pullRequestUrl = Some ''pr'', or_checks = Some Passing\<rparr>)
   in \<exists>w run h cs. order = w \<and> ow_run w = Some run \<and> or_status run = Run_succeeded \<and>
        truthy (or_pullRequestUrl run) \<and> Some ''abc'' = Some h \<and> rd h = Inr cs \<and> cs \<noteq> []"
proof -
  let ?checks = "[\<lparr>ck_name = ''unit'', ck_status = Check_completed, ck_conclusion = Some ''success''\<rparr>]"
  let ?run = "\<lparr>or_id = ''r'', or_status = Run_succeeded, or_costUsd = None,
              or_pullRequestUrl = Some ''pr'', or_checks = Some Passing\<rparr>"
  let ?wo = "Some (sample_order 7 1 WO_dispatched (Some ?run))"
  let ?i = "toNormalizedIssue (sample_raw 7 [])"
  have "or_checks ?run = resolveChecks (\<lambda>h. Inr ?checks) (or_status ?run) (or_pullRequestUrl ?run) (Some ''abc'')"
    by (simp add: resolveChecks_def truthy_def summarizeChecks_def PASSING_CONCLUSIONS_def)
  moreover have "MIRROR_REVIEW \<in> set (desiredMirrorLabels (projectIssue ?i ?wo (sample_state [] [] {})))"
    by (simp add: projectIssue_labels projectIntent_def project_run_def truthy_def)
  ultimately show ?thesis
    using review_needs_green_ci[of ?wo "\<lambda>h. Inr ?checks" "\<lambda>_. Some ''abc''" ?i "sample_state [] [] {}"]
    unfolding Let_def by auto
qed

text \<open>Issues that came through the read boundary never trip the projection's guard against
  mirror labels, and what the boundary hides from the projection is exactly what it hands the diff
  engine.\<close>
theorem boundary_satisfies_guard:
  "assertNoMirrorLabelsObserved (map toNormalizedIssue raws) = Inr () \<and>
   (\<forall>raw. mset (map nl_name (ni_labels (toNormalizedIssue raw))) +
          mset (observedMirrorLabels (toNormalizedIssue raw)) =
          mset (map rl_name (get_or [] (ri_labels raw))))"
  by (auto simp: assertNoMirror_ok_iff dest: normalized_labels_not_mirror)

end
