(* ===== verification/Dispatch_Policy.thy ===== *)
theory Dispatch_Policy
  imports Runner_Types
begin

text \<open>
  Routing (\<open>dispatch/dispatch-policy.ts\<close>): which runner gets a work order, decided by a
  pure function of the pool. \<open>String.prototype.localeCompare\<close> is the parameter \<open>lc\<close> of
  the definitions that sort by runner key: its collation is the host's, and the theorems
  that depend on it assume what the language standard promises of it (the locale
  \<open>collation\<close>). The default \<open>sort()\<close> of strings is by code units, HOL's \<open>sort\<close>.
\<close>

section \<open>Inputs and outputs\<close>

text \<open>
  The sentence a quota position rests on, by its producer: the meter's windows, the blocked runs, and
  what \<open>dispatch.service.ts\<close> says of the two together.
\<close>

datatype quota_basis =
    Reported_out_of_quota
  | Window_status quota_pressure string instant
  | Windows_exhausted "string list" instant bool
  | Runs_blocked nat "string list"
  | From_meter quota_basis
  | From_blocked_runs quota_basis
  | Both_agree quota_basis quota_basis
  | They_disagree quota_basis quota_basis
  | Other_basis string

record runner_quota_position =
  exhausted :: bool
  rq_resumesAt :: "instant option"
  basis :: quota_basis

record runner_pool_entry =
  capabilities :: runner_capabilities
  rp_enabled :: bool
  liveRuns :: int
  quota :: "runner_quota_position option"

record dispatch_limits =
  globalMaxConcurrent :: "int option"
  globalLiveRuns :: int
  allowPreviewWithoutGaFallback :: "bool option"

record dispatch_input =
  needs :: "runner_need list"
  modelTier :: "model_tier option"

datatype dispatch_outcome = Dispatched | Queued

datatype queue_reason =
    No_runners_registered
  | All_runners_disabled
  | No_runner_has_the_capabilities
  | No_runner_serves_the_model_tier
  | Capable_runners_are_at_capacity
  | Capable_runners_quota_exhausted
  | Global_concurrency_reached
  | Only_preview_runners_and_no_ga_fallback
  | No_hard_spend_ceiling_configured
  | Hard_spend_ceiling_reached
  | Work_order_cannot_be_budgeted

datatype verdict_reason =
    Disabled_by_operator
  | Fleet_at_global_limit
  | Does_not_advertise "runner_need list"
  | Serves_other_tiers "model_tier list option" "model_tier option"
  | Cannot_take_work "string option"
  | Out_of_quota "instant option" quota_basis
  | Load_bearing_preview stability_tier
  | Acknowledged_preview stability_tier
  | At_concurrency_limit int
  | Meets_every_need

record candidate_verdict =
  cv_runnerKey :: string
  eligible :: bool
  cv_reason :: verdict_reason
  cv_unmetNeeds :: "runner_need list"
  headroom :: int
  cv_quota :: "runner_quota_position option"

record exhausted_runner =
  er_runnerKey :: string
  er_resumesAt :: "instant option"
  er_basis :: quota_basis

record avoided_park =
  chosenRunnerKey :: string
  ap_exhausted :: "exhausted_runner list"

datatype decision_reason =
    No_runners
  | All_disabled nat
  | Fleet_limit int
  | No_runner_can "runner_need list" "(string \<times> verdict_reason) list"
  | Dispatch_to string verdict_reason "runner_need list" int nat "string list"
    \<comment> \<open>key, its reason, the needs, slots free, candidates, keys of the exhausted (if a park was avoided)\<close>

record dispatch_decision =
  outcome :: dispatch_outcome
  dd_runnerKey :: "string option"
  queueReason :: "queue_reason option"
  dd_reason :: decision_reason
  candidates :: "candidate_verdict list"
  avoidedQuotaPark :: bool
  avoidedPark :: "avoided_park option"

section \<open>Capabilities\<close>

fun satisfies :: "runner_need \<Rightarrow> runner_capabilities \<Rightarrow> bool" where
  "satisfies Need_full_streaming c \<longleftrightarrow> streamingFidelity c = Fidelity_full"
| "satisfies Need_cost_reporting c \<longleftrightarrow> reportsCost c"
| "satisfies Need_structured_rate_limits c \<longleftrightarrow> rateLimitSignal c = Signal_structured"
| "satisfies Need_own_infrastructure c \<longleftrightarrow> executionLocus c = Own_infrastructure"

definition servesTier :: "model_tier option \<Rightarrow> runner_capabilities \<Rightarrow> bool" where
  "servesTier tier c =
    (case tier of None \<Rightarrow> True
     | Some t \<Rightarrow> (case modelTiers c of None \<Rightarrow> True
                  | Some served \<Rightarrow> if served = [] then True else t \<in> set served))"

definition isAvailable :: "runner_capabilities \<Rightarrow> bool" where
  "isAvailable c \<longleftrightarrow> rc_available c \<noteq> Some False"

definition unmetNeeds :: "runner_need list \<Rightarrow> runner_capabilities \<Rightarrow> runner_need list" where
  "unmetNeeds ns c = filter (\<lambda>need. \<not> satisfies need c) ns"

definition isPreview :: "runner_capabilities \<Rightarrow> bool" where
  "isPreview c \<longleftrightarrow> stabilityTier c \<noteq> Stable"

definition key_of :: "runner_pool_entry \<Rightarrow> string" where
  "key_of entry = rc_key (capabilities entry)"

definition entry_headroom :: "runner_pool_entry \<Rightarrow> int" where
  "entry_headroom entry = max 0 (maxConcurrency (capabilities entry) - liveRuns entry)"

definition is_exhausted :: "runner_pool_entry \<Rightarrow> bool" where
  "is_exhausted entry = (case quota entry of None \<Rightarrow> False | Some q \<Rightarrow> exhausted q)"

text \<open>A string field read for its truthiness: the empty string counts as absent.\<close>

definition non_empty :: "string option \<Rightarrow> string option" where
  "non_empty s = (if s = Some '''' then None else s)"

section \<open>Verdicts\<close>

definition verdict :: "runner_pool_entry \<Rightarrow> runner_need list \<Rightarrow> bool \<Rightarrow> verdict_reason \<Rightarrow> candidate_verdict"
where
  "verdict entry ns ok why =
     \<lparr>cv_runnerKey = key_of entry, eligible = ok, cv_reason = why,
      cv_unmetNeeds = unmetNeeds ns (capabilities entry),
      headroom = entry_headroom entry, cv_quota = quota entry\<rparr>"

definition queued :: "queue_reason \<Rightarrow> decision_reason \<Rightarrow> candidate_verdict list \<Rightarrow> dispatch_decision" where
  "queued qr why cs =
     \<lparr>outcome = Queued, dd_runnerKey = None, queueReason = Some qr, dd_reason = why,
      candidates = cs, avoidedQuotaPark = False, avoidedPark = None\<rparr>"

definition explain :: "candidate_verdict list \<Rightarrow> runner_need list \<Rightarrow> decision_reason" where
  "explain cs ns = No_runner_can ns (map (\<lambda>c. (cv_runnerKey c, cv_reason c)) cs)"

definition hasGaFallback :: "runner_pool_entry list \<Rightarrow> dispatch_input \<Rightarrow> bool" where
  "hasGaFallback enabled input =
    (\<exists>entry \<in> set enabled. \<not> isPreview (capabilities entry) \<and>
       unmetNeeds (needs input) (capabilities entry) = [] \<and>
       servesTier (modelTier input) (capabilities entry))"

definition quotaExhaustedEntries :: "runner_pool_entry list \<Rightarrow> dispatch_input \<Rightarrow> runner_pool_entry list"
where
  "quotaExhaustedEntries enabled input = filter (\<lambda>entry.
     is_exhausted entry \<and> unmetNeeds (needs input) (capabilities entry) = [] \<and>
     servesTier (modelTier input) (capabilities entry)) enabled"

text \<open>
  One turn of the map over the enabled runners. The two sets the source fills as it goes
  (\<open>refusedForTier\<close>, \<open>refusedAsLoadBearingPreview\<close>) are the keys of the entries whose
  verdict comes with the corresponding mark.
\<close>

datatype refusal_mark = No_mark | Refused_for_tier | Refused_as_load_bearing_preview

definition judge :: "runner_pool_entry list \<Rightarrow> dispatch_limits \<Rightarrow> dispatch_input \<Rightarrow> runner_pool_entry
    \<Rightarrow> refusal_mark \<times> candidate_verdict" where
  "judge enabled limits input entry =
    (let caps = capabilities entry; ns = needs input;
         unmet = unmetNeeds ns caps; room = entry_headroom entry
     in if unmet \<noteq> [] then (No_mark, verdict entry ns False (Does_not_advertise unmet))
        else if \<not> servesTier (modelTier input) caps then
          (Refused_for_tier,
           verdict entry ns False (Serves_other_tiers (modelTiers caps) (modelTier input)))
        else if \<not> isAvailable caps then
          (No_mark, verdict entry ns False (Cannot_take_work (non_empty (unavailableReason caps))))
        else if is_exhausted entry then
          (No_mark, verdict entry ns False
             (Out_of_quota (rq_resumesAt (the (quota entry))) (basis (the (quota entry)))))
        else if isPreview caps \<and> \<not> hasGaFallback enabled input \<and>
                allowPreviewWithoutGaFallback limits \<noteq> Some True then
          (Refused_as_load_bearing_preview,
           verdict entry ns False (Load_bearing_preview (stabilityTier caps)))
        else if isPreview caps \<and> \<not> hasGaFallback enabled input \<and> room > 0 then
          (No_mark, verdict entry ns True (Acknowledged_preview (stabilityTier caps)))
        else if room = 0 then
          (No_mark, verdict entry ns False (At_concurrency_limit (maxConcurrency caps)))
        else (No_mark, verdict entry ns True Meets_every_need))"

definition marked_keys :: "refusal_mark \<Rightarrow> (refusal_mark \<times> candidate_verdict) list \<Rightarrow> string list" where
  "marked_keys m vs = map (cv_runnerKey \<circ> snd) (filter (\<lambda>v. fst v = m) vs)"

text \<open>The total order candidates are ranked by.\<close>

definition byPreference :: "(string \<Rightarrow> string \<Rightarrow> int) \<Rightarrow> candidate_verdict \<Rightarrow> candidate_verdict \<Rightarrow> int" where
  "byPreference lc a b =
    (if eligible a \<noteq> eligible b then (if eligible a then -1 else 1)
     else if headroom a \<noteq> headroom b then headroom b - headroom a
     else lc (cv_runnerKey a) (cv_runnerKey b))"

definition diagnose :: "candidate_verdict list \<Rightarrow> string list \<Rightarrow> string list \<Rightarrow> string list \<Rightarrow> queue_reason"
where
  "diagnose cs tier loadBearingPreview quotaExhausted =
    (let meetsNeeds = filter (\<lambda>c. cv_unmetNeeds c = []) cs;
         capable = filter (\<lambda>c. cv_runnerKey c \<notin> set tier) meetsNeeds
     in if meetsNeeds = [] then No_runner_has_the_capabilities
        else if capable = [] then No_runner_serves_the_model_tier
        else if list_all (\<lambda>c. cv_runnerKey c \<in> set loadBearingPreview) capable
          then Only_preview_runners_and_no_ga_fallback
        else if quotaExhausted \<noteq> [] then Capable_runners_quota_exhausted
        else Capable_runners_are_at_capacity)"

section \<open>The decision\<close>

definition avoided_park_for :: "(string \<Rightarrow> string \<Rightarrow> int) \<Rightarrow> runner_pool_entry list \<Rightarrow> candidate_verdict
    \<Rightarrow> avoided_park option" where
  "avoided_park_for lc exhaustedEntries chosen =
    (if exhaustedEntries \<noteq> [] \<and> cv_runnerKey chosen \<notin> set (map key_of exhaustedEntries)
     then Some \<lparr>chosenRunnerKey = cv_runnerKey chosen,
                ap_exhausted = js_sort (\<lambda>a b. lc (er_runnerKey a) (er_runnerKey b))
                  (map (\<lambda>entry.
                     \<lparr>er_runnerKey = key_of entry,
                      er_resumesAt = Option.bind (quota entry) rq_resumesAt,
                      er_basis = get_or Reported_out_of_quota (map_option basis (quota entry))\<rparr>)
                   exhaustedEntries)\<rparr>
     else None)"

definition decide_enabled :: "(string \<Rightarrow> string \<Rightarrow> int) \<Rightarrow> dispatch_input \<Rightarrow> runner_pool_entry list
    \<Rightarrow> dispatch_limits \<Rightarrow> dispatch_decision" where
  "decide_enabled lc input enabled limits =
    (let exhaustedEntries = quotaExhaustedEntries enabled input;
         judged = map (judge enabled limits input) enabled;
         cs = js_sort (byPreference lc) (map snd judged)
     in case find eligible cs of
          None \<Rightarrow>
            queued (diagnose cs (marked_keys Refused_for_tier judged)
                      (marked_keys Refused_as_load_bearing_preview judged)
                      (map key_of exhaustedEntries))
              (explain cs (needs input)) cs
        | Some chosen \<Rightarrow>
            (let park = avoided_park_for lc exhaustedEntries chosen in
             \<lparr>outcome = Dispatched,
              dd_runnerKey = Some (cv_runnerKey chosen),
              queueReason = None,
              dd_reason = Dispatch_to (cv_runnerKey chosen) (cv_reason chosen) (needs input)
                (headroom chosen) (length cs)
                (if park \<noteq> None then sort (remdups (map key_of exhaustedEntries)) else []),
              candidates = cs,
              avoidedQuotaPark = (park \<noteq> None),
              avoidedPark = park\<rparr>))"

definition decideDispatch :: "(string \<Rightarrow> string \<Rightarrow> int) \<Rightarrow> dispatch_input \<Rightarrow> runner_pool_entry list
    \<Rightarrow> dispatch_limits \<Rightarrow> dispatch_decision" where
  "decideDispatch lc input pool limits =
    (let enabled = filter rp_enabled pool
     in if enabled = [] then
          queued (if pool = [] then No_runners_registered else All_runners_disabled)
            (if pool = [] then No_runners else All_disabled (length pool))
            (map (\<lambda>entry. \<lparr>cv_runnerKey = key_of entry, eligible = False,
                           cv_reason = Disabled_by_operator, cv_unmetNeeds = [], headroom = 0,
                           cv_quota = None\<rparr>) pool)
        else if (case globalMaxConcurrent limits of None \<Rightarrow> False | Some m \<Rightarrow> globalLiveRuns limits \<ge> m) then
          queued Global_concurrency_reached (Fleet_limit (the (globalMaxConcurrent limits)))
            (map (\<lambda>entry. verdict entry (needs input) False Fleet_at_global_limit) enabled)
        else decide_enabled lc input enabled limits)"


section \<open>Lemmas\<close>

lemma verdict_sel [simp]:
  "cv_runnerKey (verdict e ns ok why) = key_of e"
  "eligible (verdict e ns ok why) = ok"
  "cv_reason (verdict e ns ok why) = why"
  "cv_unmetNeeds (verdict e ns ok why) = unmetNeeds ns (capabilities e)"
  "headroom (verdict e ns ok why) = entry_headroom e"
  "cv_quota (verdict e ns ok why) = quota e"
  by (simp_all add: verdict_def)

lemma entry_headroom_nonneg [simp]: "0 \<le> entry_headroom e"
  by (simp add: entry_headroom_def)

lemma unmetNeeds_Nil_iff: "unmetNeeds ns c = [] \<longleftrightarrow> (\<forall>n \<in> set ns. satisfies n c)"
  by (auto simp: unmetNeeds_def filter_empty_conv)

text \<open>Capable: it meets every need and serves the tier. Fit: it may take the order now.\<close>

definition capable :: "dispatch_input \<Rightarrow> runner_pool_entry \<Rightarrow> bool" where
  "capable input e \<longleftrightarrow> unmetNeeds (needs input) (capabilities e) = [] \<and>
     servesTier (modelTier input) (capabilities e)"

definition not_load_bearing :: "runner_pool_entry list \<Rightarrow> dispatch_limits \<Rightarrow> dispatch_input
    \<Rightarrow> runner_pool_entry \<Rightarrow> bool" where
  "not_load_bearing enabled limits input e \<longleftrightarrow>
     \<not> isPreview (capabilities e) \<or>
     (\<exists>f \<in> set enabled. \<not> isPreview (capabilities f) \<and> capable input f) \<or>
     allowPreviewWithoutGaFallback limits = Some True"

definition fit :: "runner_pool_entry list \<Rightarrow> dispatch_limits \<Rightarrow> dispatch_input \<Rightarrow> runner_pool_entry \<Rightarrow> bool"
where
  "fit enabled limits input e \<longleftrightarrow>
     capable input e \<and> isAvailable (capabilities e) \<and> \<not> is_exhausted e \<and>
     not_load_bearing enabled limits input e \<and> liveRuns e < maxConcurrency (capabilities e)"

lemma headroom_pos_iff: "entry_headroom e > 0 \<longleftrightarrow> liveRuns e < maxConcurrency (capabilities e)"
  by (auto simp: entry_headroom_def)

lemma headroom_zero_iff: "entry_headroom e = 0 \<longleftrightarrow> \<not> liveRuns e < maxConcurrency (capabilities e)"
  by (auto simp: entry_headroom_def)

lemma hasGaFallback_eq:
  "hasGaFallback enabled input \<longleftrightarrow> (\<exists>f \<in> set enabled. \<not> isPreview (capabilities f) \<and> capable input f)"
  by (auto simp: hasGaFallback_def capable_def)

lemma judge_sel [simp]:
  "cv_runnerKey (snd (judge enabled limits input e)) = key_of e"
  "cv_unmetNeeds (snd (judge enabled limits input e)) = unmetNeeds (needs input) (capabilities e)"
  "headroom (snd (judge enabled limits input e)) = entry_headroom e"
  by (simp_all add: judge_def Let_def)

lemma judge_eligible_iff: "eligible (snd (judge enabled limits input e)) \<longleftrightarrow> fit enabled limits input e"
proof -
  have ga: "isPreview (capabilities e) \<and> \<not> hasGaFallback enabled input \<and>
      allowPreviewWithoutGaFallback limits \<noteq> Some True \<longleftrightarrow> \<not> not_load_bearing enabled limits input e"
    by (auto simp: not_load_bearing_def hasGaFallback_eq)
  show ?thesis
    unfolding judge_def Let_def ga
    by (auto simp: fit_def capable_def headroom_pos_iff headroom_zero_iff)
qed

lemma judge_marks:
  "fst (judge enabled limits input e) = Refused_for_tier \<longleftrightarrow>
     unmetNeeds (needs input) (capabilities e) = [] \<and> \<not> servesTier (modelTier input) (capabilities e)"
  "fst (judge enabled limits input e) = Refused_as_load_bearing_preview \<longleftrightarrow>
     capable input e \<and> isAvailable (capabilities e) \<and> \<not> is_exhausted e \<and>
     \<not> not_load_bearing enabled limits input e"
  by (auto simp: judge_def Let_def capable_def not_load_bearing_def hasGaFallback_eq)

subsection \<open>Ranking\<close>

sublocale collation \<subseteq> preference: js_comparator "byPreference lc"
proof
  fix a b c :: candidate_verdict
  show "byPreference lc a b \<le> 0 \<or> byPreference lc b a \<le> 0"
    using lc_total by (auto simp: byPreference_def)
  assume "byPreference lc a b \<le> 0" "byPreference lc b c \<le> 0"
  then show "byPreference lc a c \<le> 0"
    using lc_trans[of "cv_runnerKey a" "cv_runnerKey b" "cv_runnerKey c"]
    by (auto simp: byPreference_def split: if_splits)
qed

sublocale collation \<subseteq> keys: js_comparator "\<lambda>a b. lc (er_runnerKey a) (er_runnerKey b)"
  by unfold_locales (use lc_total lc_trans in blast)+

context collation
begin

lemmas preference_permutation = preference.sort_permutation
lemmas keys_permutation = keys.sort_permutation

lemma chosen_is_first:
  assumes "find eligible (js_sort (byPreference lc) vs) = Some chosen"
  shows "\<exists>rest. js_sort (byPreference lc) vs = chosen # rest"
proof -
  let ?s = "js_sort (byPreference lc) vs"
  from assms have mem: "chosen \<in> set ?s" and el: "eligible chosen"
    by (auto dest: find_Some_iff_mem)
  then obtain x rest where s: "?s = x # rest" by (cases ?s) auto
  have "byPreference lc x chosen \<le> 0"
    using preference.sort_head_min[OF s] mem by simp
  with el have "eligible x" by (auto simp: byPreference_def split: if_splits)
  with assms s show ?thesis by simp
qed

lemma chosen_best:
  assumes "find eligible (js_sort (byPreference lc) vs) = Some chosen" "v \<in> set vs" "eligible v"
  shows "headroom v \<le> headroom chosen"
    "headroom v = headroom chosen \<Longrightarrow> lc (cv_runnerKey chosen) (cv_runnerKey v) \<le> 0"
proof -
  obtain rest where s: "js_sort (byPreference lc) vs = chosen # rest"
    using chosen_is_first[OF assms(1)] by blast
  have "eligible chosen" using assms(1) by (auto dest: find_Some_iff_mem)
  moreover have "byPreference lc chosen v \<le> 0"
    using preference.sort_head_min[OF s] assms(2) by simp
  ultimately show "headroom v \<le> headroom chosen"
    "headroom v = headroom chosen \<Longrightarrow> lc (cv_runnerKey chosen) (cv_runnerKey v) \<le> 0"
    using assms(3) by (auto simp: byPreference_def split: if_splits)
qed

end

subsection \<open>The decision\<close>

lemma queued_sel [simp]:
  "outcome (queued qr why cs) = Queued" "dd_runnerKey (queued qr why cs) = None"
  "queueReason (queued qr why cs) = Some qr" "candidates (queued qr why cs) = cs"
  "avoidedPark (queued qr why cs) = None" "avoidedQuotaPark (queued qr why cs) = False"
  by (simp_all add: queued_def)

text \<open>The fields of a decision agree with its outcome.\<close>

definition consistent :: "dispatch_decision \<Rightarrow> bool" where
  "consistent d \<longleftrightarrow>
     (outcome d = Dispatched \<longleftrightarrow> dd_runnerKey d \<noteq> None) \<and>
     (outcome d = Queued \<longleftrightarrow> queueReason d \<noteq> None) \<and>
     (avoidedQuotaPark d \<longleftrightarrow> avoidedPark d \<noteq> None)"

lemma consistent_queued: "consistent (queued qr why cs)"
  by (simp add: consistent_def)

lemma consistent_decide_enabled: "consistent (decide_enabled lc input enabled limits)"
  unfolding decide_enabled_def Let_def
  by (simp add: consistent_queued split: option.split) (simp add: consistent_def)

lemma consistent_decideDispatch: "consistent (decideDispatch lc input pool limits)"
  unfolding decideDispatch_def Let_def by (simp add: consistent_queued consistent_decide_enabled)

lemma decide_candidates:
  "set (candidates (decide_enabled lc input enabled limits)) =
     (\<lambda>e. snd (judge enabled limits input e)) ` set enabled"
  by (auto simp: decide_enabled_def Let_def queued_def split: option.splits)

lemma decide_enabled_outcome:
  "outcome (decide_enabled lc input enabled limits) = Dispatched \<longleftrightarrow>
     (\<exists>e \<in> set enabled. fit enabled limits input e)"
  by (auto simp: decide_enabled_def Let_def queued_def find_None_iff judge_eligible_iff
      split: option.splits dest!: find_Some_iff_mem) blast

lemma decide_enabled_key:
  assumes "dd_runnerKey (decide_enabled lc input enabled limits) = Some k"
  obtains e where "e \<in> set enabled" "key_of e = k" "fit enabled limits input e"
    "find eligible (js_sort (byPreference lc) (map (\<lambda>e. snd (judge enabled limits input e)) enabled))
       = Some (snd (judge enabled limits input e))"
  using assms
  by (auto simp: decide_enabled_def Let_def queued_def judge_eligible_iff o_def
      split: option.splits dest!: find_Some_iff_mem)

text \<open>The global limit, and the pool the ranking sees.\<close>

definition fleet_full :: "dispatch_limits \<Rightarrow> bool" where
  "fleet_full limits \<longleftrightarrow>
     (\<exists>m. globalMaxConcurrent limits = Some m \<and> globalLiveRuns limits \<ge> m)"

lemma decideDispatch_ranked:
  assumes "\<exists>e \<in> set pool. rp_enabled e" "\<not> fleet_full limits"
  shows "decideDispatch lc input pool limits = decide_enabled lc input (filter rp_enabled pool) limits"
proof -
  have "filter rp_enabled pool \<noteq> []" using assms(1) by (auto simp: filter_empty_conv)
  then show ?thesis using assms(2)
    by (auto simp: decideDispatch_def Let_def fleet_full_def split: option.splits)
qed

lemma decideDispatch_early:
  assumes "\<not> (\<exists>e \<in> set pool. rp_enabled e) \<or> fleet_full limits"
  shows "outcome (decideDispatch lc input pool limits) = Queued"
    "dd_runnerKey (decideDispatch lc input pool limits) = None"
  using assms by (auto simp: decideDispatch_def Let_def fleet_full_def queued_def filter_empty_conv)

lemma avoidedPark_early:
  assumes "\<not> (\<exists>e \<in> set pool. rp_enabled e) \<or> fleet_full limits"
  shows "avoidedPark (decideDispatch lc input pool limits) = None"
  using assms by (auto simp: decideDispatch_def Let_def fleet_full_def filter_empty_conv)

lemma decideDispatch_outcome_iff:
  "outcome (decideDispatch lc input pool limits) = Dispatched \<longleftrightarrow>
     \<not> fleet_full limits \<and>
     (\<exists>e \<in> set pool. rp_enabled e \<and> fit (filter rp_enabled pool) limits input e)"
proof (cases "(\<exists>e \<in> set pool. rp_enabled e) \<and> \<not> fleet_full limits")
  case True
  then show ?thesis by (auto simp: decideDispatch_ranked decide_enabled_outcome)
next
  case False
  then have "outcome (decideDispatch lc input pool limits) = Queued"
    using decideDispatch_early(1)[of pool limits lc input] by blast
  with False show ?thesis by auto
qed

lemma decideDispatch_keyD:
  assumes "dd_runnerKey (decideDispatch lc input pool limits) = Some k"
  obtains e where "e \<in> set pool" "rp_enabled e" "key_of e = k" "\<not> fleet_full limits"
    "fit (filter rp_enabled pool) limits input e"
    "find eligible (js_sort (byPreference lc)
       (map (\<lambda>e. snd (judge (filter rp_enabled pool) limits input e)) (filter rp_enabled pool)))
       = Some (snd (judge (filter rp_enabled pool) limits input e))"
proof -
  have ok: "(\<exists>e \<in> set pool. rp_enabled e) \<and> \<not> fleet_full limits"
    using assms decideDispatch_early(2)[of pool limits lc input] by auto
  with assms have "dd_runnerKey (decide_enabled lc input (filter rp_enabled pool) limits) = Some k"
    by (simp add: decideDispatch_ranked)
  with ok that show ?thesis by (elim decide_enabled_key) auto
qed

end
