(* ===== verification/Dispatch_Properties.thy ===== *)
theory Dispatch_Properties
  imports Dispatch_Policy
begin

text \<open>
  The properties of routing: who may be chosen, that a runner is chosen whenever one may be,
  which of several is, that the choice does not depend on the order of the pool, and what a
  queued decision's code and an avoided park's record say.
\<close>

section \<open>A concrete pool\<close>

definition sample_caps :: "string \<Rightarrow> runner_capabilities" where
  "sample_caps k =
     \<lparr>rc_key = k, displayName = k, rc_version = ''1'', schemaVersion = ''1.3.0'',
      invocationModel = Process, executionLocus = Own_infrastructure,
      streamingFidelity = Fidelity_full, rateLimitSignal = Signal_structured,
      stabilityTier = Stable, reportsCost = True, resumable = False, maxConcurrency = 2,
      branchPatterns = [''factory/*''], modelTiers = None, rc_available = None,
      unavailableReason = None, manifest = Json_object []\<rparr>"

definition sample_entry :: "string \<Rightarrow> int \<Rightarrow> runner_pool_entry" where
  "sample_entry k n =
     \<lparr>capabilities = sample_caps k, rp_enabled = True, liveRuns = n, quota = None\<rparr>"

definition spent_entry :: "string \<Rightarrow> runner_pool_entry" where
  "spent_entry k =
     \<lparr>capabilities = sample_caps k, rp_enabled = True, liveRuns = 0,
      quota = Some \<lparr>exhausted = True, rq_resumesAt = Some 9, basis = Runs_blocked 1 [''rate-limit'']\<rparr>\<rparr>"

definition sample_input :: dispatch_input where
  "sample_input = \<lparr>needs = [Need_full_streaming], modelTier = None\<rparr>"

definition no_limit :: dispatch_limits where
  "no_limit = \<lparr>globalMaxConcurrent = None, globalLiveRuns = 0, allowPreviewWithoutGaFallback = None\<rparr>"

definition sample_pool :: "runner_pool_entry list" where
  "sample_pool = [sample_entry ''a'' 0, spent_entry ''b'']"

lemmas sample_defs = sample_pool_def sample_entry_def spent_entry_def sample_caps_def
  sample_input_def no_limit_def

lemmas fit_eval = fit_def capable_def not_load_bearing_def is_exhausted_def isAvailable_def
  isPreview_def unmetNeeds_def servesTier_def

lemmas route_eval = decideDispatch_def decide_enabled_def judge_def avoided_park_for_def
  quotaExhaustedEntries_def hasGaFallback_def queued_def verdict_def byPreference_def key_of_def
  entry_headroom_def is_exhausted_def isAvailable_def isPreview_def unmetNeeds_def servesTier_def Let_def

section \<open>Who is chosen\<close>

text \<open>C3: routing never relaxes a requirement. A dispatched order goes to an enabled runner of the
  pool that meets every declared need, serves the requested tier, reports itself able to work, is
  not known to be out of quota, has a free slot, and is load-bearing as a preview runner only when
  the operator acknowledged that; and the fleet was below its global limit.\<close>
theorem chosen_runner_is_fit:
  assumes "dd_runnerKey (decideDispatch lc input pool limits) = Some k"
  shows "\<exists>e \<in> set pool. rp_enabled e \<and> key_of e = k \<and>
     (\<forall>n \<in> set (needs input). satisfies n (capabilities e)) \<and>
     servesTier (modelTier input) (capabilities e) \<and> isAvailable (capabilities e) \<and>
     (\<forall>q. quota e = Some q \<longrightarrow> \<not> exhausted q) \<and>
     liveRuns e < maxConcurrency (capabilities e) \<and>
     (isPreview (capabilities e) \<longrightarrow> allowPreviewWithoutGaFallback limits = Some True \<or>
        (\<exists>f \<in> set pool. rp_enabled f \<and> \<not> isPreview (capabilities f) \<and> capable input f)) \<and>
     (\<forall>m. globalMaxConcurrent limits = Some m \<longrightarrow> globalLiveRuns limits < m)"
proof -
  from assms obtain e where "e \<in> set pool" "rp_enabled e" "key_of e = k" "\<not> fleet_full limits"
    "fit (filter rp_enabled pool) limits input e"
    by (elim decideDispatch_keyD)
  then show ?thesis
    by (intro bexI[of _ e])
       (auto simp: fit_def capable_def unmetNeeds_Nil_iff is_exhausted_def fleet_full_def
          not_load_bearing_def not_le[symmetric])
qed

lemma chosen_runner_is_fit_witness:
  "\<exists>e \<in> set sample_pool. rp_enabled e \<and> key_of e = ''a'' \<and>
     liveRuns e < maxConcurrency (capabilities e) \<and> (\<forall>q. quota e = Some q \<longrightarrow> \<not> exhausted q)"
proof -
  have "dd_runnerKey (decideDispatch code_unit_compare sample_input sample_pool no_limit) = Some ''a''"
    by code_simp
  from chosen_runner_is_fit[OF this] show ?thesis by blast
qed

text \<open>work is dispatched exactly when it can be. An order is dispatched if and only if the fleet
  is below its global limit and some enabled runner is fit for it, and then a runner is named; in
  every other case it is queued with a reason code, never dropped.\<close>
theorem dispatches_iff_some_runner_fit:
  "(outcome (decideDispatch lc input pool limits) = Dispatched \<longleftrightarrow>
      \<not> fleet_full limits \<and> (\<exists>e \<in> set pool. rp_enabled e \<and> fit (filter rp_enabled pool) limits input e)) \<and>
   (outcome (decideDispatch lc input pool limits) = Dispatched \<longleftrightarrow>
      dd_runnerKey (decideDispatch lc input pool limits) \<noteq> None) \<and>
   (outcome (decideDispatch lc input pool limits) = Queued \<longleftrightarrow>
      queueReason (decideDispatch lc input pool limits) \<noteq> None)"
  using consistent_decideDispatch[of lc input pool limits]
    decideDispatch_outcome_iff[of lc input pool limits]
  unfolding consistent_def by blast

lemma dispatches_iff_some_runner_fit_witness:
  "outcome (decideDispatch code_unit_compare sample_input [sample_entry ''a'' 0] no_limit) = Dispatched"
  using dispatches_iff_some_runner_fit[of code_unit_compare sample_input "[sample_entry ''a'' 0]" no_limit]
  by (simp add: fit_eval sample_defs fleet_full_def)

text \<open>Of the fit runners the one with the most free slots is chosen, and among those with equally
  many the first by key, whatever collation orders the keys.\<close>
theorem chosen_runner_is_best:
  assumes "collation lc"
    "dd_runnerKey (decideDispatch lc input pool limits) = Some k"
    "f \<in> set pool" "rp_enabled f" "fit (filter rp_enabled pool) limits input f"
  shows "\<exists>e \<in> set pool. key_of e = k \<and> entry_headroom f \<le> entry_headroom e \<and>
     (entry_headroom f = entry_headroom e \<longrightarrow> lc k (key_of f) \<le> 0)"
proof -
  let ?vs = "map (\<lambda>e. snd (judge (filter rp_enabled pool) limits input e)) (filter rp_enabled pool)"
  from assms(2) obtain e where e: "e \<in> set pool" "key_of e = k"
    "find eligible (js_sort (byPreference lc) ?vs) = Some (snd (judge (filter rp_enabled pool) limits input e))"
    by (elim decideDispatch_keyD)
  have f: "snd (judge (filter rp_enabled pool) limits input f) \<in> set ?vs"
    "eligible (snd (judge (filter rp_enabled pool) limits input f))"
    using assms(3-5) by (auto simp: judge_eligible_iff)
  from collation.chosen_best[OF assms(1) e(3) f] e(1,2) show ?thesis by auto
qed

lemma chosen_runner_is_best_witness:
  "\<exists>e \<in> set [sample_entry ''b'' 1, sample_entry ''a'' 0]. key_of e = ''a'' \<and>
     entry_headroom (sample_entry ''b'' 1) \<le> entry_headroom e"
proof -
  have "dd_runnerKey (decideDispatch code_unit_compare sample_input
      [sample_entry ''b'' 1, sample_entry ''a'' 0] no_limit) = Some ''a''"
    by code_simp
  from chosen_runner_is_best[OF code_units.collation_axioms this, of "sample_entry ''b'' 1"]
  show ?thesis by (auto simp: fit_eval sample_defs)
qed

section \<open>The choice is reproducible\<close>

lemma judge_pool_perm:
  assumes "set pool = set pool'"
  shows "judge pool limits input = judge pool' limits input"
proof -
  have "hasGaFallback pool input = hasGaFallback pool' input"
    by (simp add: hasGaFallback_def assms)
  then show ?thesis by (intro ext) (simp add: judge_def Let_def)
qed

lemma preference_antisym:
  assumes "strict_collation lc" "distinct (map key_of pool)" "e \<in> set pool" "f \<in> set pool"
    "byPreference lc (snd (judge pool limits input e)) (snd (judge pool limits input f)) \<le> 0"
    "byPreference lc (snd (judge pool limits input f)) (snd (judge pool limits input e)) \<le> 0"
  shows "e = f"
proof -
  have "lc (key_of e) (key_of f) \<le> 0" "lc (key_of f) (key_of e) \<le> 0"
    using assms(5,6) by (auto simp: byPreference_def split: if_splits)
  then have "key_of e = key_of f" using strict_collation.lc_antisym[OF assms(1)] by blast
  with assms(2-4) show ?thesis by (meson distinct_map inj_onD)
qed

lemma diagnose_cong:
  assumes "set t = set t'" "set l = set l'" "set q = set q'"
  shows "diagnose cs t l q = diagnose cs t' l' q'"
  using assms by (auto simp: diagnose_def Let_def)

lemma set_marked_keys:
  "set (marked_keys m (map (judge pool limits input) es)) =
     key_of ` {e \<in> set es. fst (judge pool limits input e) = m}"
  by (simp add: marked_keys_def filter_map o_def)

lemma sort_remdups_cong: "set xs = set ys \<Longrightarrow> sort (remdups xs) = sort (remdups (ys :: string list))"
  by (simp flip: sorted_list_of_set_sort_remdups)

lemma avoided_park_perm:
  assumes "strict_collation lc" "mset es = mset es'" "distinct (map key_of es)"
  shows "avoided_park_for lc es chosen = avoided_park_for lc es' chosen"
proof -
  let ?mk = "\<lambda>entry. \<lparr>er_runnerKey = key_of entry, er_resumesAt = Option.bind (quota entry) rq_resumesAt,
      er_basis = get_or Reported_out_of_quota (map_option basis (quota entry))\<rparr>"
  have c: "collation lc" using assms(1) by (rule strict_collation.axioms)
  have sets: "set es = set es'" using assms(2) by (metis mset_eq_setD)
  have "a = b" if ab: "a \<in> set (map ?mk es)" "b \<in> set (map ?mk es)"
    "lc (er_runnerKey a) (er_runnerKey b) \<le> 0" "lc (er_runnerKey b) (er_runnerKey a) \<le> 0" for a b
  proof -
    have "er_runnerKey a = er_runnerKey b"
      using ab(3,4) strict_collation.lc_antisym[OF assms(1)] by blast
    moreover obtain e f where ef: "e \<in> set es" "a = ?mk e" "f \<in> set es" "b = ?mk f"
      using ab(1,2) by auto
    ultimately have "key_of e = key_of f" by simp
    then have "e = f" using assms(3) ef(1,3) by (meson distinct_map inj_onD)
    with ef show ?thesis by simp
  qed
  then have "js_sort (\<lambda>a b. lc (er_runnerKey a) (er_runnerKey b)) (map ?mk es) =
      js_sort (\<lambda>a b. lc (er_runnerKey a) (er_runnerKey b)) (map ?mk es')"
    using assms(2) by (intro collation.keys_permutation[OF c]) auto
  moreover have "es = [] \<longleftrightarrow> es' = []" using sets by auto
  ultimately show ?thesis using sets by (simp add: avoided_park_for_def)
qed

lemma decide_enabled_perm:
  assumes lc: "strict_collation lc" and perm: "mset pool = mset pool'" and dist: "distinct (map key_of pool)"
  shows "decide_enabled lc input pool limits = decide_enabled lc input pool' limits"
proof -
  have c: "collation lc" using lc by (rule strict_collation.axioms)
  have sets: "set pool = set pool'" using perm by (metis mset_eq_setD)
  have J: "judge pool' limits input = judge pool limits input"
    using judge_pool_perm[OF sets] by simp
  let ?J = "\<lambda>e. snd (judge pool limits input e)"
  have cs: "js_sort (byPreference lc) (map ?J pool) = js_sort (byPreference lc) (map ?J pool')"
    using perm preference_antisym[OF lc dist]
    by (intro collation.preference_permutation[OF c]) auto
  let ?E = "quotaExhaustedEntries pool input" and ?E' = "quotaExhaustedEntries pool' input"
  have E: "mset ?E = mset ?E'" using perm by (simp add: quotaExhaustedEntries_def mset_filter)
  then have setE: "set (map key_of ?E) = set (map key_of ?E')" by (metis mset_eq_setD set_map)
  have "distinct (map key_of ?E)" using dist by (simp add: quotaExhaustedEntries_def distinct_map_filter)
  then have park: "avoided_park_for lc ?E = avoided_park_for lc ?E'"
    using avoided_park_perm[OF lc E] by blast
  have marks: "set (marked_keys m (map (judge pool limits input) pool)) =
      set (marked_keys m (map (judge pool limits input) pool'))" for m
    using sets by (simp add: set_marked_keys)
  show ?thesis
    unfolding decide_enabled_def Let_def J map_map o_def cs park
    by (simp only: diagnose_cong[OF marks marks setE] sort_remdups_cong[OF setE])
qed

text \<open>The decision is reproducible. With distinct runner keys and a collation that tells them
  apart, a decision that ranked candidates (some runner is enabled, the fleet is not full) is the
  same, verdicts, reason and avoided park included, in whatever order the database returned the
  pool.\<close>
theorem decision_order_independent:
  assumes "strict_collation lc" "mset pool = mset pool'" "distinct (map key_of pool)"
    "\<exists>e \<in> set pool. rp_enabled e" "\<not> fleet_full limits"
  shows "decideDispatch lc input pool limits = decideDispatch lc input pool' limits"
proof -
  have "\<exists>e \<in> set pool'. rp_enabled e" using assms(2,4) by (metis mset_eq_setD)
  moreover have "decide_enabled lc input (filter rp_enabled pool) limits =
      decide_enabled lc input (filter rp_enabled pool') limits"
    using assms(1-3) by (intro decide_enabled_perm) (auto simp: mset_filter distinct_map_filter)
  ultimately show ?thesis using assms(4,5) by (simp add: decideDispatch_ranked)
qed

lemma decision_order_independent_witness:
  "decideDispatch code_unit_compare sample_input sample_pool no_limit =
   decideDispatch code_unit_compare sample_input (rev sample_pool) no_limit"
  using decision_order_independent[OF code_units.strict_collation_axioms,
      of sample_pool "rev sample_pool" no_limit sample_input]
  by (simp add: fleet_full_def key_of_def sample_defs)

section \<open>Why an order waits\<close>

lemma Nil_iff_image_empty: "set xs = f ` A \<Longrightarrow> xs = [] \<longleftrightarrow> A = {}"
  by (metis image_is_empty set_empty)

lemma marked_judge:
  assumes "distinct (map key_of pool)" "e \<in> set pool"
  shows "key_of e \<in> set (marked_keys m (map (judge pool limits input) pool)) \<longleftrightarrow>
     fst (judge pool limits input e) = m"
  using assms by (auto simp: set_marked_keys distinct_map dest: inj_onD)

text \<open>The reason code the code means to give, read off the pool.\<close>

definition waits_because :: "runner_pool_entry list \<Rightarrow> dispatch_limits \<Rightarrow> dispatch_input \<Rightarrow> queue_reason"
where
  "waits_because enabled limits input =
     (let C = {e \<in> set enabled. capable input e} in
      if \<not> (\<exists>e \<in> set enabled. unmetNeeds (needs input) (capabilities e) = [])
        then No_runner_has_the_capabilities
      else if C = {} then No_runner_serves_the_model_tier
      else if \<forall>e \<in> C. isAvailable (capabilities e) \<and> \<not> is_exhausted e \<and>
                 \<not> not_load_bearing enabled limits input e
        then Only_preview_runners_and_no_ga_fallback
      else if \<exists>e \<in> C. is_exhausted e then Capable_runners_quota_exhausted
      else Capable_runners_are_at_capacity)"

lemma diagnose_judged:
  assumes dist: "distinct (map key_of pool)"
    and cs: "set cs = (\<lambda>e. snd (judge pool limits input e)) ` set pool"
  shows "diagnose cs (marked_keys Refused_for_tier (map (judge pool limits input) pool))
      (marked_keys Refused_as_load_bearing_preview (map (judge pool limits input) pool))
      (map key_of (quotaExhaustedEntries pool input)) = waits_because pool limits input"
proof -
  let ?C = "{e \<in> set pool. capable input e}"
  let ?judged = "map (judge pool limits input) pool"
  define meets where "meets = filter (\<lambda>c. cv_unmetNeeds c = []) cs"
  define cap where "cap = filter (\<lambda>c. cv_runnerKey c \<notin> set (marked_keys Refused_for_tier ?judged)) meets"
  define pre where "pre = marked_keys Refused_as_load_bearing_preview ?judged"
  have setmeets: "set meets = (\<lambda>e. snd (judge pool limits input e)) `
      {e \<in> set pool. unmetNeeds (needs input) (capabilities e) = []}"
    unfolding meets_def set_filter cs by auto
  then have meets: "meets = [] \<longleftrightarrow> \<not> (\<exists>e \<in> set pool. unmetNeeds (needs input) (capabilities e) = [])"
    using Nil_iff_image_empty[OF setmeets] by blast
  have tier: "key_of e \<in> set (marked_keys Refused_for_tier ?judged) \<longleftrightarrow> \<not> capable input e"
    if "e \<in> set pool" "unmetNeeds (needs input) (capabilities e) = []" for e
    using marked_judge[OF dist that(1)] judge_marks(1) that(2) by (auto simp: capable_def)
  have setcap: "set cap = (\<lambda>e. snd (judge pool limits input e)) ` ?C"
    unfolding cap_def set_filter setmeets using tier by (auto simp: capable_def)
  then have cap: "cap = [] \<longleftrightarrow> ?C = {}" by (rule Nil_iff_image_empty)
  have "key_of e \<in> set pre \<longleftrightarrow> isAvailable (capabilities e) \<and> \<not> is_exhausted e \<and>
         \<not> not_load_bearing pool limits input e" if "e \<in> ?C" for e
    using marked_judge[OF dist] judge_marks(2) that unfolding pre_def by blast
  then have pre: "list_all (\<lambda>c. cv_runnerKey c \<in> set pre) cap \<longleftrightarrow>
      (\<forall>e \<in> ?C. isAvailable (capabilities e) \<and> \<not> is_exhausted e \<and>
         \<not> not_load_bearing pool limits input e)"
    unfolding list_all_iff setcap ball_simps judge_sel by blast
  have exh: "map key_of (quotaExhaustedEntries pool input) \<noteq> [] \<longleftrightarrow> (\<exists>e \<in> ?C. is_exhausted e)"
    by (auto simp: quotaExhaustedEntries_def filter_empty_conv capable_def)
  show ?thesis
    unfolding diagnose_def waits_because_def Let_def meets_def[symmetric] cap_def[symmetric]
      pre_def[symmetric] meets cap pre exh by (rule refl)
qed

lemma queueReason_ranked:
  assumes "distinct (map key_of pool)" "\<exists>e \<in> set pool. rp_enabled e" "\<not> fleet_full limits"
    "\<not> (\<exists>e \<in> set pool. rp_enabled e \<and> fit (filter rp_enabled pool) limits input e)"
  shows "queueReason (decideDispatch lc input pool limits) =
     Some (waits_because (filter rp_enabled pool) limits input)"
proof -
  let ?en = "filter rp_enabled pool"
  let ?cs = "js_sort (byPreference lc) (map (\<lambda>e. snd (judge ?en limits input e)) ?en)"
  have dist: "distinct (map key_of ?en)" using assms(1) by (rule distinct_map_filter)
  have "find eligible ?cs = None"
    using assms(4) by (auto simp: find_None_iff judge_eligible_iff)
  moreover have "set ?cs = (\<lambda>e. snd (judge ?en limits input e)) ` set ?en" by simp
  ultimately show ?thesis
    using diagnose_judged[OF dist, of ?cs limits input]
    by (simp add: decideDispatch_ranked[OF assms(2,3)] decide_enabled_def Let_def o_def)
qed

text \<open>a queued order says truthfully why it waits: no runner registered; none enabled; the fleet
  at its limit; no enabled runner meets the needs; none that does serves the tier; all that do are
  preview runners nobody acknowledged; a capable one is out of quota; otherwise the capable ones
  are at capacity.\<close>
theorem queue_reason_spec:
  assumes "distinct (map key_of pool)" "outcome (decideDispatch lc input pool limits) = Queued"
  shows "queueReason (decideDispatch lc input pool limits) = Some
     (if pool = [] then No_runners_registered
      else if \<not> (\<exists>e \<in> set pool. rp_enabled e) then All_runners_disabled
      else if fleet_full limits then Global_concurrency_reached
      else waits_because (filter rp_enabled pool) limits input)"
proof (cases "(\<exists>e \<in> set pool. rp_enabled e) \<and> \<not> fleet_full limits")
  case True
  then have "\<not> (\<exists>e \<in> set pool. rp_enabled e \<and> fit (filter rp_enabled pool) limits input e)"
    using assms(2) decideDispatch_outcome_iff[of lc input pool limits] by auto
  with True assms(1) show ?thesis by (auto simp: queueReason_ranked)
next
  case False
  then show ?thesis
    by (auto simp: decideDispatch_def Let_def fleet_full_def filter_empty_conv split: option.splits)
qed

lemma queue_reason_spec_witness:
  "queueReason (decideDispatch code_unit_compare sample_input [spent_entry ''b''] no_limit) =
     Some Capable_runners_quota_exhausted"
proof -
  have "outcome (decideDispatch code_unit_compare sample_input [spent_entry ''b''] no_limit) = Queued"
    by code_simp
  from queue_reason_spec[OF _ this] show ?thesis
    by (simp add: waits_because_def fleet_full_def fit_eval sample_defs)
qed

text \<open>A fleet whose capable runners have all reported that they cannot take work is queued as if
  it were full, however many slots are free: the reason code does not tell an unavailable runner
  from a busy one.\<close>
theorem unavailable_fleet_reported_as_full:
  assumes "distinct (map key_of pool)" "\<not> fleet_full limits"
    "e \<in> set pool" "rp_enabled e" "capable input e"
    "\<And>f. f \<in> set pool \<Longrightarrow> rp_enabled f \<Longrightarrow> capable input f \<Longrightarrow>
       \<not> isAvailable (capabilities f) \<and> \<not> is_exhausted f"
  shows "queueReason (decideDispatch lc input pool limits) = Some Capable_runners_are_at_capacity"
proof -
  have "\<not> (\<exists>f \<in> set pool. rp_enabled f \<and> fit (filter rp_enabled pool) limits input f)"
    using assms(6) by (auto simp: fit_def)
  moreover have "waits_because (filter rp_enabled pool) limits input = Capable_runners_are_at_capacity"
    using assms(3-6) by (auto simp: waits_because_def Let_def capable_def)
  ultimately show ?thesis using queueReason_ranked assms(1-4) by metis
qed

definition broken_entry :: runner_pool_entry where
  "broken_entry = (sample_entry ''a'' 0)
     \<lparr>capabilities := (sample_caps ''a'')\<lparr>rc_available := Some False\<rparr>\<rparr>"

lemma unavailable_fleet_reported_as_full_witness:
  "entry_headroom broken_entry = 2 \<and>
   queueReason (decideDispatch code_unit_compare sample_input [broken_entry] no_limit) =
     Some Capable_runners_are_at_capacity"
  using unavailable_fleet_reported_as_full[of "[broken_entry]" no_limit broken_entry sample_input
      code_unit_compare]
  by (simp add: broken_entry_def fit_eval sample_defs fleet_full_def entry_headroom_def)

section \<open>The park that was avoided\<close>

lemma avoided_park_SomeD:
  assumes "avoided_park_for lc es chosen = Some p"
  shows "chosenRunnerKey p = cv_runnerKey chosen"
    "er_runnerKey ` set (ap_exhausted p) = key_of ` set es" "es \<noteq> []"
    "cv_runnerKey chosen \<notin> key_of ` set es"
  using assms by (auto simp: avoided_park_for_def image_image split: if_splits)

text \<open>An avoided quota park is recorded only for a real choice: the order went to the recorded
  runner, the runners recorded as exhausted are exactly the enabled capable ones known to be out
  of quota, there is at least one, and the chosen one is not among them. A decision has the record
  exactly when it has the flag.\<close>
theorem avoided_park_is_real:
  assumes "avoidedQuotaPark (decideDispatch lc input pool limits)"
  shows "\<exists>p. avoidedPark (decideDispatch lc input pool limits) = Some p \<and>
     dd_runnerKey (decideDispatch lc input pool limits) = Some (chosenRunnerKey p) \<and>
     er_runnerKey ` set (ap_exhausted p) =
       key_of ` {e \<in> set pool. rp_enabled e \<and> capable input e \<and> is_exhausted e} \<and>
     ap_exhausted p \<noteq> [] \<and> chosenRunnerKey p \<notin> er_runnerKey ` set (ap_exhausted p)"
proof -
  let ?d = "decideDispatch lc input pool limits"
  let ?es = "quotaExhaustedEntries (filter rp_enabled pool) input"
  have es: "set ?es = {e \<in> set pool. rp_enabled e \<and> capable input e \<and> is_exhausted e}"
    by (auto simp: quotaExhaustedEntries_def capable_def)
  obtain p where p: "avoidedPark ?d = Some p"
    using assms consistent_decideDispatch[of lc input pool limits] by (auto simp: consistent_def)
  then have ok: "(\<exists>e \<in> set pool. rp_enabled e) \<and> \<not> fleet_full limits"
    using avoidedPark_early[of pool limits lc input] by auto
  with p obtain chosen where "avoided_park_for lc ?es chosen = Some p"
    "dd_runnerKey ?d = Some (cv_runnerKey chosen)"
    by (auto simp: decideDispatch_ranked decide_enabled_def Let_def split: option.splits)
  note av = avoided_park_SomeD[OF this(1)] this(2)
  from av(2,3) have "ap_exhausted p \<noteq> []" by auto
  with p av es show ?thesis by metis
qed

lemma avoided_park_is_real_witness:
  "dd_runnerKey (decideDispatch code_unit_compare sample_input sample_pool no_limit) \<noteq> None"
proof -
  have "avoidedQuotaPark (decideDispatch code_unit_compare sample_input sample_pool no_limit)"
    by code_simp
  from avoided_park_is_real[OF this] show ?thesis by auto
qed

end
