(* ===== verification/Run_Store.thy ===== *)
theory Run_Store
  imports Watchdog
begin

text \<open>
  The tables the run components share, as the columns they read and write (\<open>Run\<close>,
  \<open>RunEvent\<close>, \<open>RunAttempt\<close>), and the two query shapes they use: a guarded
  \<open>updateMany\<close> with its count, and \<open>createMany\<close> with \<open>skipDuplicates\<close> under the unique
  key \<open>(runId, externalId)\<close>. A table is the list of its rows in insertion order. A row's
  joined work order and capability manifest are fields of the row.
\<close>

section \<open>Rows\<close>

record work_order_row =
  wo_identity :: string
  wo_repository :: string
  wo_issueNumber :: int
  wo_branch :: string
  wo_budgetCeilingUsd :: "usd option"

record run_row =
  run_id :: string
  run_runnerKey :: string
  run_workOrder :: work_order_row
  run_capability :: "(streaming_fidelity \<times> rate_limit_signal) option"
  run_status :: run_status
  run_runnerVersion :: string
  run_attemptCount :: nat
  run_startedAt :: instant
  run_endedAt :: "instant option"
  run_lastEventAt :: "instant option"
  run_resumesAt :: "instant option"
  run_attentionReason :: "string option"
  run_costUsd :: "usd option"
  run_tokensInput :: "int option"
  run_tokensOutput :: "int option"
  run_headCommit :: "string option"
  run_pullRequestUrl :: "string option"
  run_pullRequestNumber :: "nat option"

record event_row =
  ev_runId :: string
  ev_externalId :: string
  ev_type :: string
  ev_source :: liveness_source
  ev_occurredAt :: instant
  ev_summary :: string
  ev_toolSignature :: "string option"
  ev_blockedReason :: "string option"
  ev_blockedUntil :: "instant option"
  ev_costUsd :: "usd option"
  ev_tokensInput :: "int option"
  ev_tokensOutput :: "int option"
  ev_traceId :: string
  ev_spanId :: string

datatype attempt_outcome =
  Attempt_running | Attempt_succeeded | Attempt_failed | Attempt_killed | Attempt_blocked

record attempt_row =
  att_runId :: string
  att_number :: nat
  att_outcome :: attempt_outcome
  att_startedAt :: instant
  att_endedAt :: "instant option"
  att_stopReason :: "string option"
  att_blockedUntil :: "instant option"
  att_runnerRunId :: "string option"

record run_store =
  runs :: "run_row list"
  events :: "event_row list"
  attempts :: "attempt_row list"

section \<open>Queries\<close>

definition update_many :: "('r \<Rightarrow> bool) \<Rightarrow> ('r \<Rightarrow> 'r) \<Rightarrow> 'r list \<Rightarrow> nat \<times> 'r list" where
  "update_many P f rows = (length (filter P rows), map (\<lambda>r. if P r then f r else r) rows)"

definition same_key :: "event_row \<Rightarrow> event_row \<Rightarrow> bool" where
  "same_key a b \<longleftrightarrow> ev_runId a = ev_runId b \<and> ev_externalId a = ev_externalId b"

fun create_many :: "event_row list \<Rightarrow> event_row list \<Rightarrow> event_row list" where
  "create_many table [] = table"
| "create_many table (row # rows) =
    create_many (if list_ex (same_key row) table then table else table @ [row]) rows"

text \<open>\<open>_sum\<close> of a nullable column: null when no row has a value.\<close>

definition sum_column :: "('r \<Rightarrow> 'n :: comm_monoid_add option) \<Rightarrow> 'r list \<Rightarrow> 'n option" where
  "sum_column col rows =
    (let vals = List.map_filter col rows in if vals = [] then None else Some (sum_list vals))"

text \<open>\<open>orderBy occurredAt desc\<close>.\<close>

definition newest_first :: "event_row list \<Rightarrow> event_row list" where
  "newest_first = js_sort (by_key (\<lambda>e. - ev_occurredAt e))"

section \<open>Lemmas\<close>

lemma update_many_fst [simp]: "fst (update_many P f rows) = length (filter P rows)"
  by (simp add: update_many_def)

lemma update_many_snd [simp]: "snd (update_many P f rows) = map (\<lambda>r. if P r then f r else r) rows"
  by (simp add: update_many_def)

lemma update_many_id: "(\<And>r. r \<in> set rows \<Longrightarrow> \<not> P r) \<Longrightarrow> snd (update_many P f rows) = rows"
  by (simp add: map_idI)

definition unique_events :: "event_row list \<Rightarrow> bool" where
  "unique_events table \<longleftrightarrow> distinct (map (\<lambda>e. (ev_runId e, ev_externalId e)) table)"

lemma list_ex_same_key:
  "list_ex (same_key row) table \<longleftrightarrow>
     (ev_runId row, ev_externalId row) \<in> (\<lambda>e. (ev_runId e, ev_externalId e)) ` set table"
  by (auto simp: list_ex_iff same_key_def)

lemma create_many_unique: "unique_events table \<Longrightarrow> unique_events (create_many table rows)"
  by (induction table rows rule: create_many.induct)
     (auto simp: unique_events_def list_ex_same_key)

lemma create_many_keys:
  "(\<lambda>e. (ev_runId e, ev_externalId e)) ` set (create_many table rows) =
     (\<lambda>e. (ev_runId e, ev_externalId e)) ` (set table \<union> set rows)"
  by (induction table rows rule: create_many.induct) (auto simp: list_ex_same_key)

lemma create_many_append: "\<exists>new. create_many table rows = table @ new \<and> set new \<subseteq> set rows"
proof (induction table rows rule: create_many.induct)
  case (2 table row rows)
  then show ?case by (cases "list_ex (same_key row) table") fastforce+
qed simp

lemma create_many_known:
  assumes "\<And>row. row \<in> set rows \<Longrightarrow> list_ex (same_key row) table"
  shows "create_many table rows = table"
  using assms by (induction rows) auto

lemma create_many_again:
  "create_many (create_many table rows) rows = create_many table rows"
proof (rule create_many_known)
  fix row assume "row \<in> set rows"
  then show "list_ex (same_key row) (create_many table rows)"
    using create_many_keys[of table rows] by (auto simp: list_ex_same_key)
qed

lemma create_many_length: "length table \<le> length (create_many table rows)"
  using create_many_append[of table rows] by auto

lemma create_many_length_le: "length (create_many table rows) \<le> length table + length rows"
  by (induction table rows rule: create_many.induct) auto

lemma sum_column_append:
  "sum_column col (xs @ ys) =
     (case (sum_column col xs, sum_column col ys) of
        (None, b) \<Rightarrow> b | (a, None) \<Rightarrow> a | (Some a, Some b) \<Rightarrow> Some (a + b))"
proof -
  have "List.map_filter col (xs @ ys) = List.map_filter col xs @ List.map_filter col ys"
    by (simp add: List.map_filter_def)
  then show ?thesis by (auto simp: sum_column_def Let_def)
qed

lemma sum_column_nonneg:
  fixes col :: "'r \<Rightarrow> 'n :: ordered_comm_monoid_add option"
  assumes "\<And>r v. r \<in> set rows \<Longrightarrow> col r = Some v \<Longrightarrow> 0 \<le> v" "sum_column col rows = Some s"
  shows "0 \<le> s"
proof -
  have "s = sum_list (List.map_filter col rows)"
    using assms(2) by (auto simp: sum_column_def Let_def split: if_splits)
  moreover have "0 \<le> v" if "v \<in> set (List.map_filter col rows)" for v
    using that assms(1) by (auto simp: set_map_filter)
  ultimately show ?thesis by (simp add: sum_list_nonneg)
qed

lemma newest_first_mem [simp]: "set (newest_first es) = set es"
  by (simp add: newest_first_def)

lemma newest_first_hd:
  assumes "newest_first es = e # rest" "x \<in> set es"
  shows "ev_occurredAt x \<le> ev_occurredAt e"
proof -
  have "sorted (map (\<lambda>e. - ev_occurredAt e) (newest_first es))"
    unfolding newest_first_def by (rule key_sort_sorted)
  moreover have "x \<in> set (newest_first es)" using assms(2) by simp
  ultimately show ?thesis using assms(1) by auto
qed

end
