(* ===== verification/Run_Events.thy ===== *)
theory Run_Events
  imports Run_Store
begin

text \<open>
  Event ingestion (\<open>run-events/run-events.service.ts\<close>, \<open>run-event.types.ts\<close>): what a runner
  may report, how a batch becomes rows, and how the rows move the run's state machine. The
  schema validator (ajv) is the parameter \<open>check\<close>, the telemetry emitter the parameter
  \<open>emit\<close>, which names the span an event was recorded under.
\<close>

section \<open>The wire format\<close>

datatype event_type =
  Run_started | Run_heartbeat | Run_progress | Run_blocked_event | Run_completed | Run_failed_event

datatype event_source = Runner_reported | Git_derived | Control_plane_synthesized

record event_payload =
  eventId :: string
  ep_runId :: string
  ep_type :: event_type
  ep_source :: event_source
  ep_occurredAt :: instant
  ep_summary :: "string option"
  ep_trace :: "(string \<times> string option) option"
  ep_cost :: "(usd option \<times> int option \<times> int option) option"
  ep_tool :: "(string \<times> string) option"
  ep_blocked :: "(string \<times> instant option) option"
  ep_result :: "(string option \<times> string option) option"
  ep_failure :: "string option"

text \<open>The names on the wire and in the database.\<close>

fun event_type_name :: "event_type \<Rightarrow> string" where
  "event_type_name Run_started = ''run.started''"
| "event_type_name Run_heartbeat = ''run.heartbeat''"
| "event_type_name Run_progress = ''run.progress''"
| "event_type_name Run_blocked_event = ''run.blocked''"
| "event_type_name Run_completed = ''run.completed''"
| "event_type_name Run_failed_event = ''run.failed''"

fun event_source_name :: "event_source \<Rightarrow> string" where
  "event_source_name Runner_reported = ''runner-reported''"
| "event_source_name Git_derived = ''git-derived''"
| "event_source_name Control_plane_synthesized = ''control-plane-synthesized''"

text \<open>\<open>s.replace(c, d)\<close> with a one-character pattern replaces the first occurrence.\<close>

fun replace_first :: "char \<Rightarrow> char \<Rightarrow> string \<Rightarrow> string" where
  "replace_first c d [] = []"
| "replace_first c d (x # xs) = (if x = c then d # xs else x # replace_first c d xs)"

definition toPrismaEventType :: "event_type \<Rightarrow> string" where
  "toPrismaEventType t = replace_first (CHR ''.'') (CHR ''_'') (event_type_name t)"

fun toPrismaEventSource :: "event_source \<Rightarrow> liveness_source" where
  "toPrismaEventSource Runner_reported = Source_runner"
| "toPrismaEventSource Git_derived = Source_git"
| "toPrismaEventSource Control_plane_synthesized = Source_control_plane"

definition fromPrismaEventType :: "string \<Rightarrow> string" where
  "fromPrismaEventType = replace_first (CHR ''_'') (CHR ''.'')"

fun prisma_source_name :: "liveness_source \<Rightarrow> string" where
  "prisma_source_name Source_runner = ''runner''"
| "prisma_source_name Source_git = ''git''"
| "prisma_source_name Source_control_plane = ''control_plane''"

definition fromPrismaEventSource :: "string \<Rightarrow> string" where
  "fromPrismaEventSource = replace_first (CHR ''_'') (CHR ''-'')"

section \<open>Reading a batch\<close>

definition concludable :: "run_status list" where
  "concludable = [Run_running, Run_stalled, Run_blocked]"

definition blockable :: "run_status list" where "blockable = concludable"

definition resumable :: "run_status list" where "resumable = [Run_stalled, Run_blocked]"

definition by_time :: "event_payload list \<Rightarrow> event_payload list" where
  "by_time = js_sort (by_key ep_occurredAt)"

text \<open>\<open>pop()\<close> of the sorted array.\<close>

definition pop_last :: "'a list \<Rightarrow> 'a option" where
  "pop_last xs = (if xs = [] then None else Some (last xs))"

definition terminalEventIn :: "event_payload list \<Rightarrow> event_payload option" where
  "terminalEventIn es =
     pop_last (by_time (filter (\<lambda>e. ep_type e = Run_completed \<or> ep_type e = Run_failed_event) es))"

definition blockingEventIn :: "event_payload list \<Rightarrow> event_payload option" where
  "blockingEventIn es =
    (case pop_last (by_time es) of
       None \<Rightarrow> None
     | Some e \<Rightarrow> if ep_type e = Run_blocked_event then Some e else None)"

text \<open>The latest instant of a batch; \<open>reduce\<close> of an empty batch never happens (\<open>ingest\<close> refuses it).\<close>

definition newest_of :: "event_payload list \<Rightarrow> instant" where
  "newest_of es = foldl (\<lambda>latest t. if t > latest then t else latest)
     (ep_occurredAt (hd es)) (map ep_occurredAt (tl es))"

text \<open>\<open>/\pull\/(\d+)(?:$|[/?#])/\<close>: the first place it matches, and the digits.\<close>

definition is_digit :: "char \<Rightarrow> bool" where
  "is_digit c \<longleftrightarrow> CHR ''0'' \<le> c \<and> c \<le> CHR ''9''"

definition number_of_digits :: "string \<Rightarrow> nat" where
  "number_of_digits ds = foldl (\<lambda>n c. 10 * n + (of_char c - 48)) 0 ds"

definition pull_here :: "string \<Rightarrow> nat option" where
  "pull_here s =
    (if \<not> starts_with ''/pull/'' s then None
     else let rest = drop 6 s; ds = takeWhile is_digit rest; after = dropWhile is_digit rest
          in if ds \<noteq> [] \<and> (after = [] \<or> hd after \<in> set ''/?#'') then Some (number_of_digits ds)
             else None)"

fun pullNumberFrom :: "string \<Rightarrow> nat option" where
  "pullNumberFrom [] = None"
| "pullNumberFrom (c # cs) =
    (case pull_here (c # cs) of Some n \<Rightarrow> Some n | None \<Rightarrow> pullNumberFrom cs)"

section \<open>Moving the run\<close>

text \<open>The three status changes. Each is one guarded \<open>updateMany\<close>.\<close>

definition blockRun :: "string \<Rightarrow> run_store \<Rightarrow> run_store" where
  "blockRun rid st = st\<lparr>runs := snd (update_many
     (\<lambda>r. run_id r = rid \<and> run_status r \<in> set blockable)
     (\<lambda>r. r\<lparr>run_status := Run_blocked\<rparr>) (runs st))\<rparr>"

definition resumeRun :: "string \<Rightarrow> run_store \<Rightarrow> run_store" where
  "resumeRun rid st = st\<lparr>runs := snd (update_many
     (\<lambda>r. run_id r = rid \<and> run_status r \<in> set resumable)
     (\<lambda>r. r\<lparr>run_status := Run_running, run_resumesAt := None\<rparr>) (runs st))\<rparr>"

text \<open>A string the code tests for truthiness before writing it.\<close>

definition truthy_string :: "string option \<Rightarrow> string option" where
  "truthy_string s = (if s = Some '''' then None else s)"

definition succeeded_event :: "event_payload \<Rightarrow> bool" where
  "succeeded_event e \<longleftrightarrow> ep_type e = Run_completed"

definition conclude_row :: "event_payload \<Rightarrow> run_row \<Rightarrow> run_row" where
  "conclude_row terminal r =
    (let ok = succeeded_event terminal;
         commit = truthy_string (Option.bind (ep_result terminal) fst);
         url = truthy_string (Option.bind (ep_result terminal) snd);
         r1 = r\<lparr>run_status := (if ok then Run_succeeded else Run_failed),
                run_endedAt := Some (ep_occurredAt terminal)\<rparr>;
         r2 = (if ok then r1
               else r1\<lparr>run_attentionReason := Some (get_or ''run failed'' (ep_failure terminal))\<rparr>);
         r3 = (case commit of None \<Rightarrow> r2 | Some c \<Rightarrow> r2\<lparr>run_headCommit := Some c\<rparr>)
     in case url of None \<Rightarrow> r3
        | Some u \<Rightarrow> r3\<lparr>run_pullRequestUrl := Some u, run_pullRequestNumber := pullNumberFrom u\<rparr>)"

definition conclude_attempt :: "event_payload \<Rightarrow> attempt_row \<Rightarrow> attempt_row" where
  "conclude_attempt terminal a = a
     \<lparr>att_outcome := (if succeeded_event terminal then Attempt_succeeded else Attempt_failed),
      att_endedAt := Some (ep_occurredAt terminal),
      att_stopReason := (if succeeded_event terminal then ep_summary terminal
                         else Some (get_or ''run failed'' (ep_failure terminal)))\<rparr>"

definition concludeRun :: "string \<Rightarrow> event_payload \<Rightarrow> run_store \<Rightarrow> run_store" where
  "concludeRun rid terminal st =
    (let (count, rows) = update_many (\<lambda>r. run_id r = rid \<and> run_status r \<in> set concludable)
                           (conclude_row terminal) (runs st);
         st1 = st\<lparr>runs := rows\<rparr>
     in if count > 0
        then st1\<lparr>attempts := snd (update_many
               (\<lambda>a. att_runId a = rid \<and> att_outcome a = Attempt_running)
               (conclude_attempt terminal) (attempts st1))\<rparr>
        else st1)"

text \<open>
  The roll-up: the three totals of the run's own rows, each written only when it is larger
  than what is stored (\<open>toNumberOrNull\<close> is the identity on the model's numbers).
\<close>

definition raise_to :: "'n :: linorder option \<Rightarrow> 'n option \<Rightarrow> 'n option" where
  "raise_to tally stored =
    (case tally of None \<Rightarrow> stored
     | Some t \<Rightarrow> (case stored of None \<Rightarrow> Some t | Some s \<Rightarrow> if s < t then Some t else stored))"

definition run_events_of :: "string \<Rightarrow> run_store \<Rightarrow> event_row list" where
  "run_events_of rid st = filter (\<lambda>e. ev_runId e = rid) (events st)"

definition rollUpCost :: "string \<Rightarrow> run_store \<Rightarrow> run_store" where
  "rollUpCost rid st =
    (let rows = run_events_of rid st;
         cost = sum_column ev_costUsd rows;
         tin = sum_column ev_tokensInput rows;
         tout = sum_column ev_tokensOutput rows
     in st\<lparr>runs := map (\<lambda>r. if run_id r = rid
              then r\<lparr>run_costUsd := raise_to cost (run_costUsd r),
                     run_tokensInput := raise_to tin (run_tokensInput r),
                     run_tokensOutput := raise_to tout (run_tokensOutput r)\<rparr>
              else r) (runs st)\<rparr>)"

definition newer_event :: "string \<Rightarrow> instant \<Rightarrow> run_row \<Rightarrow> bool" where
  "newer_event rid newest r \<longleftrightarrow> run_id r = rid \<and>
     (case run_lastEventAt r of None \<Rightarrow> True | Some t \<Rightarrow> t < newest)"

definition advanceRun :: "string \<Rightarrow> event_payload list \<Rightarrow> run_store \<Rightarrow> run_store" where
  "advanceRun rid es st =
    (let newest = newest_of es;
         terminal = terminalEventIn es;
         parking = (if terminal \<noteq> None then None else blockingEventIn es);
         (advanced, rows) = update_many (newer_event rid newest)
                              (\<lambda>r. r\<lparr>run_lastEventAt := Some newest\<rparr>) (runs st);
         st1 = rollUpCost rid (st\<lparr>runs := rows\<rparr>);
         st2 = (if terminal = None \<and> advanced > 0
                then (if parking \<noteq> None then blockRun rid st1 else resumeRun rid st1)
                else st1)
     in case terminal of None \<Rightarrow> st2 | Some t \<Rightarrow> concludeRun rid t st2)"

section \<open>Storing a batch\<close>

record ingest_result =
  accepted :: nat
  duplicates :: nat

definition toRow :: "(event_payload \<Rightarrow> string \<times> string) \<Rightarrow> string \<Rightarrow> event_payload \<Rightarrow> event_row" where
  "toRow emit rid e =
     \<lparr>ev_runId = rid,
      ev_externalId = eventId e,
      ev_type = toPrismaEventType (ep_type e),
      ev_source = toPrismaEventSource (ep_source e),
      ev_occurredAt = ep_occurredAt e,
      ev_summary = get_or '''' (ep_summary e),
      ev_toolSignature = map_option (\<lambda>(name, sig). name @ '':'' @ sig) (ep_tool e),
      ev_blockedReason = map_option fst (ep_blocked e),
      ev_blockedUntil = Option.bind (ep_blocked e) snd,
      ev_costUsd = Option.bind (ep_cost e) fst,
      ev_tokensInput = Option.bind (ep_cost e) (fst \<circ> snd),
      ev_tokensOutput = Option.bind (ep_cost e) (snd \<circ> snd),
      ev_traceId = get_or (fst (emit e)) (map_option fst (ep_trace e)),
      ev_spanId = get_or (snd (emit e)) (Option.bind (ep_trace e) snd)\<rparr>"

definition persist :: "(event_payload \<Rightarrow> string \<times> string) \<Rightarrow> string \<Rightarrow> event_payload list \<Rightarrow> run_store
    \<Rightarrow> run_store \<times> ingest_result" where
  "persist emit rid es st =
    (let table = create_many (events st) (map (toRow emit rid) es);
         created = length table - length (events st);
         st1 = advanceRun rid es (st\<lparr>events := table\<rparr>)
     in (st1, \<lparr>accepted = created, duplicates = length es - created\<rparr>))"

section \<open>The endpoint\<close>

record validation_failure =
  vf_path :: string
  vf_message :: string

datatype rejection_reason =
    Invalid "validation_failure list"
  | Wrong_run string string
  | Wrong_source event_source

record rejected_event =
  rj_index :: nat
  rj_eventId :: "string option"
  rj_failures :: rejection_reason

datatype ingest_error =
    No_events_supplied
  | Run_not_found string
  | Events_rejected nat nat "rejected_event list"

fun readEventId :: "json \<Rightarrow> string option" where
  "readEventId (Json_object kvs) =
    (case map_of kvs ''eventId'' of Some (Json_string i) \<Rightarrow> Some i | _ \<Rightarrow> None)"
| "readEventId _ = None"

definition screen :: "(json \<Rightarrow> validation_failure list + event_payload) \<Rightarrow> string \<Rightarrow> nat \<Rightarrow> json
    \<Rightarrow> rejected_event + event_payload" where
  "screen check rid index candidate =
    (case check candidate of
       Inl failures \<Rightarrow> Inl \<lparr>rj_index = index, rj_eventId = readEventId candidate,
                           rj_failures = Invalid failures\<rparr>
     | Inr e \<Rightarrow>
         if ep_runId e \<noteq> rid then
           Inl \<lparr>rj_index = index, rj_eventId = Some (eventId e), rj_failures = Wrong_run rid (ep_runId e)\<rparr>
         else if ep_source e \<noteq> Runner_reported then
           Inl \<lparr>rj_index = index, rj_eventId = Some (eventId e), rj_failures = Wrong_source (ep_source e)\<rparr>
         else Inr e)"

fun partition_sum :: "('a + 'b) list \<Rightarrow> 'a list \<times> 'b list" where
  "partition_sum [] = ([], [])"
| "partition_sum (Inl a # xs) = (let (as, bs) = partition_sum xs in (a # as, bs))"
| "partition_sum (Inr b # xs) = (let (as, bs) = partition_sum xs in (as, b # bs))"

definition ingest :: "(json \<Rightarrow> validation_failure list + event_payload)
    \<Rightarrow> (event_payload \<Rightarrow> string \<times> string) \<Rightarrow> string \<Rightarrow> json list \<Rightarrow> run_store
    \<Rightarrow> run_store \<times> (ingest_error + ingest_result)" where
  "ingest check emit rid candidates st =
    (if candidates = [] then (st, Inl No_events_supplied)
     else if find (\<lambda>r. run_id r = rid) (runs st) = None then (st, Inl (Run_not_found rid))
     else
      (let (rejected, es) = partition_sum
             (map (\<lambda>(i, c). screen check rid i c) (List.enumerate 0 candidates))
       in if rejected \<noteq> [] then
            (st, Inl (Events_rejected (length rejected) (length candidates) rejected))
          else let (st1, res) = persist emit rid es st in (st1, Inr res)))"


section \<open>Lemmas\<close>

subsection \<open>Batches\<close>

lemma newest_of_eq:
  assumes "es \<noteq> []"
  shows "newest_of es = Max (ep_occurredAt ` set es)"
proof -
  have step: "(\<lambda>latest t. if t > latest then t else latest) = (max :: int \<Rightarrow> int \<Rightarrow> int)"
    by (auto simp: fun_eq_iff max_def)
  have fold: "foldl max (x :: int) xs = Max (set (x # xs))" for x xs
    unfolding Max.set_eq_fold foldl_conv_fold by (simp add: max.commute)
  from assms obtain e rest where "es = e # rest" by (cases es) auto
  then show ?thesis unfolding newest_of_def step fold by (simp add: image_image)
qed

lemma newest_of_ge: "e \<in> set es \<Longrightarrow> ep_occurredAt e \<le> newest_of es"
  by (cases "es = []") (auto simp: newest_of_eq)

lemma terminalEventIn_SomeD:
  "terminalEventIn es = Some t \<Longrightarrow> t \<in> set es \<and> ep_type t \<in> {Run_completed, Run_failed_event}"
  using last_in_set[of "by_time (filter (\<lambda>e. ep_type e = Run_completed \<or> ep_type e = Run_failed_event) es)"]
  by (simp add: terminalEventIn_def pop_last_def by_time_def split: if_splits)

lemma terminalEventIn_None_iff:
  "terminalEventIn es = None \<longleftrightarrow> (\<forall>e \<in> set es. ep_type e \<notin> {Run_completed, Run_failed_event})"
  by (auto simp: terminalEventIn_def pop_last_def by_time_def filter_empty_conv)

lemma by_time_last:
  assumes "e \<in> set es"
  shows "ep_occurredAt e \<le> ep_occurredAt (last (by_time es))"
proof -
  have "by_key ep_occurredAt e (last (by_time es)) \<le> 0"
    unfolding by_time_def by (rule key_order.sort_last_max[OF assms])
  then show ?thesis by (simp add: by_key_def)
qed

lemma blockingEventIn_SomeD:
  assumes "blockingEventIn es = Some b"
  shows "b \<in> set es" "ep_type b = Run_blocked_event" "\<And>e. e \<in> set es \<Longrightarrow> ep_occurredAt e \<le> ep_occurredAt b"
proof -
  have b: "b = last (by_time es)" "by_time es \<noteq> []" "ep_type b = Run_blocked_event"
    using assms by (auto simp: blockingEventIn_def pop_last_def split: if_splits)
  from b(1,2) have "b \<in> set (by_time es)" by simp
  with b by_time_last show "b \<in> set es" "ep_type b = Run_blocked_event"
    "\<And>e. e \<in> set es \<Longrightarrow> ep_occurredAt e \<le> ep_occurredAt b"
    by (auto simp: by_time_def)
qed

subsection \<open>One run's transition\<close>

text \<open>
  What a batch does to the run it is about, with the tables left out: \<open>totals\<close> are the
  sums over the run's stored events.
\<close>

definition next_status :: "event_payload list \<Rightarrow> bool \<Rightarrow> run_status \<Rightarrow> run_status" where
  "next_status es newer s =
    (case terminalEventIn es of
       Some t \<Rightarrow> if s \<in> {Run_running, Run_stalled, Run_blocked}
                 then (if ep_type t = Run_completed then Run_succeeded else Run_failed) else s
     | None \<Rightarrow>
         if \<not> newer then s
         else if blockingEventIn es \<noteq> None
         then (if s \<in> {Run_running, Run_stalled, Run_blocked} then Run_blocked else s)
         else (if s \<in> {Run_stalled, Run_blocked} then Run_running else s))"

definition advance_row :: "event_payload list \<Rightarrow> usd option \<times> int option \<times> int option
    \<Rightarrow> run_row \<Rightarrow> run_row" where
  "advance_row es totals r =
    (let newer = newer_event (run_id r) (newest_of es) r;
         r1 = (if newer then r\<lparr>run_lastEventAt := Some (newest_of es)\<rparr> else r);
         r2 = r1\<lparr>run_costUsd := raise_to (fst totals) (run_costUsd r),
                 run_tokensInput := raise_to (fst (snd totals)) (run_tokensInput r),
                 run_tokensOutput := raise_to (snd (snd totals)) (run_tokensOutput r)\<rparr>
     in case terminalEventIn es of
          Some t \<Rightarrow> if run_status r \<in> set concludable then conclude_row t r2 else r2
        | None \<Rightarrow>
            if newer \<and> blockingEventIn es \<noteq> None \<and> run_status r \<in> set blockable
            then r2\<lparr>run_status := Run_blocked\<rparr>
            else if newer \<and> blockingEventIn es = None \<and> run_status r \<in> set resumable
            then r2\<lparr>run_status := Run_running, run_resumesAt := None\<rparr>
            else r2)"

definition totals_of :: "string \<Rightarrow> run_store \<Rightarrow> usd option \<times> int option \<times> int option" where
  "totals_of rid st =
    (let rows = run_events_of rid st
     in (sum_column ev_costUsd rows, sum_column ev_tokensInput rows, sum_column ev_tokensOutput rows))"

lemma conclude_row_sel [simp]:
  "run_id (conclude_row t r) = run_id r"
  "run_lastEventAt (conclude_row t r) = run_lastEventAt r"
  "run_resumesAt (conclude_row t r) = run_resumesAt r"
  "run_costUsd (conclude_row t r) = run_costUsd r"
  "run_tokensInput (conclude_row t r) = run_tokensInput r"
  "run_tokensOutput (conclude_row t r) = run_tokensOutput r"
  "run_status (conclude_row t r) = (if succeeded_event t then Run_succeeded else Run_failed)"
  "run_endedAt (conclude_row t r) = Some (ep_occurredAt t)"
  "run_workOrder (conclude_row t r) = run_workOrder r"
  "run_startedAt (conclude_row t r) = run_startedAt r"
  by (simp_all add: conclude_row_def Let_def split: option.splits)

lemma advance_row_sel [simp]:
  "run_id (advance_row es totals r) = run_id r"
  "run_costUsd (advance_row es totals r) = raise_to (fst totals) (run_costUsd r)"
  "run_tokensInput (advance_row es totals r) = raise_to (fst (snd totals)) (run_tokensInput r)"
  "run_tokensOutput (advance_row es totals r) = raise_to (snd (snd totals)) (run_tokensOutput r)"
  "run_lastEventAt (advance_row es totals r) =
     (if newer_event (run_id r) (newest_of es) r then Some (newest_of es) else run_lastEventAt r)"
  by (simp_all add: advance_row_def Let_def split: option.split)

lemma advance_row_status:
  "run_status (advance_row es totals r) =
     next_status es (newer_event (run_id r) (newest_of es) r) (run_status r)"
  by (cases "terminalEventIn es")
     (simp_all add: advance_row_def next_status_def Let_def concludable_def blockable_def
        resumable_def succeeded_event_def)

lemma advance_row_resumesAt:
  "run_resumesAt (advance_row es totals r) = run_resumesAt r \<or> run_resumesAt (advance_row es totals r) = None"
  by (simp add: advance_row_def Let_def split: option.split)

subsection \<open>The tables refine the transition\<close>

lemma blockRun_sel [simp]:
  "runs (blockRun rid st) = map (\<lambda>r. if run_id r = rid \<and> run_status r \<in> set blockable
     then r\<lparr>run_status := Run_blocked\<rparr> else r) (runs st)"
  "events (blockRun rid st) = events st" "attempts (blockRun rid st) = attempts st"
  by (simp_all add: blockRun_def)

lemma resumeRun_sel [simp]:
  "runs (resumeRun rid st) = map (\<lambda>r. if run_id r = rid \<and> run_status r \<in> set resumable
     then r\<lparr>run_status := Run_running, run_resumesAt := None\<rparr> else r) (runs st)"
  "events (resumeRun rid st) = events st" "attempts (resumeRun rid st) = attempts st"
  by (simp_all add: resumeRun_def)

lemma concludeRun_sel [simp]:
  "runs (concludeRun rid t st) = map (\<lambda>r. if run_id r = rid \<and> run_status r \<in> set concludable
     then conclude_row t r else r) (runs st)"
  "events (concludeRun rid t st) = events st"
  by (simp_all add: concludeRun_def update_many_def Let_def)

lemma rollUpCost_sel [simp]:
  "runs (rollUpCost rid st) = map (\<lambda>r. if run_id r = rid
     then r\<lparr>run_costUsd := raise_to (fst (totals_of rid st)) (run_costUsd r),
            run_tokensInput := raise_to (fst (snd (totals_of rid st))) (run_tokensInput r),
            run_tokensOutput := raise_to (snd (snd (totals_of rid st))) (run_tokensOutput r)\<rparr>
     else r) (runs st)"
  "events (rollUpCost rid st) = events st" "attempts (rollUpCost rid st) = attempts st"
  by (simp_all add: rollUpCost_def totals_of_def Let_def)

lemma totals_of_runs [simp]: "totals_of rid (st\<lparr>runs := rs\<rparr>) = totals_of rid st"
  by (simp add: totals_of_def run_events_of_def)

lemma advanceRun_events [simp]: "events (advanceRun rid es st) = events st"
  by (simp add: advanceRun_def update_many_def Let_def split: option.split)

lemma newer_event_other [simp]: "run_id r \<noteq> rid \<Longrightarrow> \<not> newer_event rid n r"
  by (simp add: newer_event_def)

text \<open>What a run's rows become, for the run and every other.\<close>

lemma advanceRun_refines:
  assumes dist: "distinct (map run_id (runs st))"
  shows "runs (advanceRun rid es st) =
     map (\<lambda>r. if run_id r = rid then advance_row es (totals_of rid st) r else r) (runs st)"
proof -
  let ?n = "newest_of es"
  have count: "0 < length (filter (newer_event rid ?n) (runs st)) \<longleftrightarrow> newer_event rid ?n r"
    if "r \<in> set (runs st)" "run_id r = rid" for r
  proof -
    have "r' = r" if r': "r' \<in> set (runs st)" "newer_event rid ?n r'" for r'
    proof -
      have "run_id r' = run_id r" using r'(2) \<open>run_id r = rid\<close> by (simp add: newer_event_def)
      with dist r'(1) \<open>r \<in> set (runs st)\<close> show ?thesis by (blast intro: distinct_map_eqD)
    qed
    with that show ?thesis unfolding length_greater_0_conv filter_empty_conv by blast
  qed
  let ?c = "length (filter (newer_event rid ?n) (runs st))"
  let ?st1 = "rollUpCost rid (st\<lparr>runs := map (\<lambda>r. if newer_event rid ?n r
     then r\<lparr>run_lastEventAt := Some ?n\<rparr> else r) (runs st)\<rparr>)"
  let ?goal = "\<lambda>r. if run_id r = rid then advance_row es (totals_of rid st) r else r"
  show ?thesis
  proof (cases "terminalEventIn es")
    case (Some t)
    then have "advanceRun rid es st = concludeRun rid t ?st1"
      by (simp add: advanceRun_def update_many_def Let_def)
    then show ?thesis
      by (auto simp: advance_row_def Let_def Some)
  next
    case None
    then have adv: "advanceRun rid es st =
        (if ?c > 0 then (if blockingEventIn es \<noteq> None then blockRun rid ?st1 else resumeRun rid ?st1)
         else ?st1)"
      by (simp add: advanceRun_def update_many_def Let_def)
    show ?thesis
    proof (cases "?c > 0")
      case True
      have "newer_event rid ?n r" if "r \<in> set (runs st)" "run_id r = rid" for r
        using count[OF that] True by simp
      moreover have "advanceRun rid es st =
          (if blockingEventIn es \<noteq> None then blockRun rid ?st1 else resumeRun rid ?st1)"
        using adv True by simp
      ultimately show ?thesis
        by (cases "blockingEventIn es") (auto simp: advance_row_def Let_def None)
    next
      case False
      have "\<not> newer_event rid ?n r" if "r \<in> set (runs st)" for r
        using False that unfolding length_greater_0_conv filter_empty_conv by blast
      moreover have "advanceRun rid es st = ?st1" using adv False by simp
      ultimately show ?thesis by (auto simp: advance_row_def Let_def None)
    qed
  qed
qed

subsection \<open>A batch as a whole\<close>

lemma persist_sel:
  "events (fst (persist emit rid es st)) = create_many (events st) (map (toRow emit rid) es)"
  "accepted (snd (persist emit rid es st)) =
     length (create_many (events st) (map (toRow emit rid) es)) - length (events st)"
  "duplicates (snd (persist emit rid es st)) =
     length es - accepted (snd (persist emit rid es st))"
  by (simp_all add: persist_def Let_def)

lemma totals_of_cong: "events st = events st' \<Longrightarrow> totals_of rid st = totals_of rid st'"
  by (simp add: totals_of_def run_events_of_def)

lemma persist_runs:
  assumes "distinct (map run_id (runs st))"
  shows "runs (fst (persist emit rid es st)) =
     map (\<lambda>r. if run_id r = rid then advance_row es (totals_of rid (fst (persist emit rid es st))) r else r)
       (runs st)"
proof -
  let ?st = "st\<lparr>events := create_many (events st) (map (toRow emit rid) es)\<rparr>"
  have "fst (persist emit rid es st) = advanceRun rid es ?st" by (simp add: persist_def Let_def)
  moreover have "totals_of rid (advanceRun rid es ?st) = totals_of rid ?st"
    by (rule totals_of_cong) simp
  ultimately show ?thesis using advanceRun_refines[of ?st rid es] assms by simp
qed

lemma accepted_le: "accepted (snd (persist emit rid es st)) \<le> length es"
  using create_many_length_le[of "events st" "map (toRow emit rid) es"] by (simp add: persist_sel)

text \<open>The row of a run before and after.\<close>

lemma persist_row:
  assumes "distinct (map run_id (runs st))" "r' \<in> set (runs (fst (persist emit rid es st)))" "run_id r' = rid"
  obtains r where "r \<in> set (runs st)" "run_id r = rid"
    "r' = advance_row es (totals_of rid (fst (persist emit rid es st))) r"
  using assms by (auto simp: persist_runs split: if_splits)

lemma persist_ids:
  "distinct (map run_id (runs st)) \<Longrightarrow>
   map run_id (runs (fst (persist emit rid es st))) = map run_id (runs st)"
  by (simp add: persist_runs)

subsection \<open>Totals\<close>

lemma raise_to_same [simp]: "raise_to v v = v" "raise_to None v = v"
  by (auto simp: raise_to_def split: option.split)

lemma raise_to_ge: "raise_to (Some t) stored = Some u \<Longrightarrow> t \<le> u"
  by (auto simp: raise_to_def split: option.splits if_splits)

text \<open>A total over a grown table.\<close>

lemma raise_to_grown:
  fixes col :: "event_row \<Rightarrow> 'n :: {ordered_comm_monoid_add, linorder} option"
  assumes "\<And>r v. r \<in> set new \<Longrightarrow> col r = Some v \<Longrightarrow> 0 \<le> v"
  shows "raise_to (sum_column col (old @ new)) (sum_column col old) = sum_column col (old @ new)"
proof (cases "sum_column col old")
  case None
  then show ?thesis by (simp add: raise_to_def split: option.split)
next
  case (Some s)
  show ?thesis
  proof (cases "sum_column col new")
    case None
    with Some show ?thesis by (simp add: sum_column_append)
  next
    case (Some d)
    have "0 \<le> d" using assms Some by (rule sum_column_nonneg)
    then have "s \<le> s + d" by (rule add_increasing2) simp
    with Some \<open>sum_column col old = Some s\<close> show ?thesis
      by (auto simp: sum_column_append raise_to_def not_less)
  qed
qed

definition totals_match :: "run_store \<Rightarrow> bool" where
  "totals_match st \<longleftrightarrow> (\<forall>r \<in> set (runs st).
     (run_costUsd r, run_tokensInput r, run_tokensOutput r) = totals_of (run_id r) st)"

definition reports_no_negatives :: "event_payload list \<Rightarrow> bool" where
  "reports_no_negatives es \<longleftrightarrow> (\<forall>e \<in> set es. \<forall>c i ot. ep_cost e = Some (c, i, ot) \<longrightarrow>
     (\<forall>v. c = Some v \<longrightarrow> 0 \<le> v) \<and> (\<forall>v. i = Some v \<longrightarrow> 0 \<le> v) \<and> (\<forall>v. ot = Some v \<longrightarrow> 0 \<le> v))"

lemma toRow_nonneg:
  assumes "reports_no_negatives es" "row \<in> set (map (toRow emit rid) es)"
  shows "ev_costUsd row = Some v \<Longrightarrow> 0 \<le> v" "ev_tokensInput row = Some n \<Longrightarrow> 0 \<le> n"
    "ev_tokensOutput row = Some n \<Longrightarrow> 0 \<le> n"
  using assms by (fastforce simp: toRow_def reports_no_negatives_def bind_eq_Some_conv)+

lemma run_events_of_grown:
  "\<exists>new. set new \<subseteq> set (map (toRow emit rid) es) \<and>
     (\<forall>k. run_events_of k (fst (persist emit rid es st)) =
        run_events_of k st @ filter (\<lambda>e. ev_runId e = k) new)"
proof -
  let ?rows = "map (toRow emit rid) es"
  obtain new where new: "create_many (events st) ?rows = events st @ new" "set new \<subseteq> set ?rows"
    by (rule exE[OF create_many_append[of "events st" ?rows]]) (elim conjE)
  have "run_events_of k (fst (persist emit rid es st)) =
      run_events_of k st @ filter (\<lambda>e. ev_runId e = k) new" for k
    unfolding run_events_of_def persist_sel(1) new(1) by simp
  with new(2) show ?thesis by (intro exI[of _ new] conjI allI)
qed

lemma totals_match_persist:
  assumes dist: "distinct (map run_id (runs st))" and m: "totals_match st" and nn: "reports_no_negatives es"
  shows "totals_match (fst (persist emit rid es st))"
proof -
  let ?st' = "fst (persist emit rid es st)"
  obtain new where new: "set new \<subseteq> set (map (toRow emit rid) es)"
    "\<And>k. run_events_of k ?st' = run_events_of k st @ filter (\<lambda>e. ev_runId e = k) new"
    using run_events_of_grown[of emit rid es st] by blast
  have other: "totals_of k ?st' = totals_of k st" if "k \<noteq> rid" for k
  proof -
    have "filter (\<lambda>e. ev_runId e = k) new = []"
      using new(1) that by (auto simp: filter_empty_conv toRow_def)
    then show ?thesis by (simp add: totals_of_def new(2))
  qed
  have mine: "row \<in> set (map (toRow emit rid) es)" if "row \<in> set (filter (\<lambda>e. ev_runId e = rid) new)" for row
    using that new(1) by auto
  have grown: "raise_to (fst (totals_of rid ?st')) (fst (totals_of rid st)) = fst (totals_of rid ?st')"
    "raise_to (fst (snd (totals_of rid ?st'))) (fst (snd (totals_of rid st))) = fst (snd (totals_of rid ?st'))"
    "raise_to (snd (snd (totals_of rid ?st'))) (snd (snd (totals_of rid st))) = snd (snd (totals_of rid ?st'))"
    unfolding totals_of_def Let_def new(2) fst_conv snd_conv
    by (rule raise_to_grown, erule mine[THEN toRow_nonneg(1)[OF nn]], assumption)
       (rule raise_to_grown, erule mine[THEN toRow_nonneg(2)[OF nn]], assumption,
        rule raise_to_grown, erule mine[THEN toRow_nonneg(3)[OF nn]], assumption)
  show ?thesis unfolding totals_match_def
  proof
    fix r' assume "r' \<in> set (runs ?st')"
    then obtain r where r: "r \<in> set (runs st)"
      "r' = (if run_id r = rid then advance_row es (totals_of rid ?st') r else r)"
      by (auto simp: persist_runs[OF dist])
    have "totals_of (run_id r) st = (run_costUsd r, run_tokensInput r, run_tokensOutput r)"
      using m r(1) by (simp add: totals_match_def)
    then show "(run_costUsd r', run_tokensInput r', run_tokensOutput r') = totals_of (run_id r') ?st'"
      using r(2) other[of "run_id r"] grown by (cases "run_id r = rid") auto
  qed
qed

subsection \<open>Delivering a batch again\<close>

lemma raise_to_idem [simp]: "raise_to t (raise_to t s) = raise_to t s"
  by (auto simp: raise_to_def split: option.splits)

lemma advanceRun_settled:
  assumes settled: "\<And>r. r \<in> set (runs st) \<Longrightarrow> run_id r = rid \<Longrightarrow>
     \<not> newer_event rid (newest_of es) r \<and>
     raise_to (fst (totals_of rid st)) (run_costUsd r) = run_costUsd r \<and>
     raise_to (fst (snd (totals_of rid st))) (run_tokensInput r) = run_tokensInput r \<and>
     raise_to (snd (snd (totals_of rid st))) (run_tokensOutput r) = run_tokensOutput r \<and>
     (terminalEventIn es \<noteq> None \<longrightarrow> run_status r \<notin> set concludable)"
  shows "advanceRun rid es st = st"
proof -
  have none: "\<not> newer_event rid (newest_of es) r" if "r \<in> set (runs st)" for r
    using settled[OF that] by (cases "run_id r = rid") auto
  then have f: "filter (newer_event rid (newest_of es)) (runs st) = []"
    unfolding filter_empty_conv by blast
  have first: "map (\<lambda>r. if newer_event rid (newest_of es) r then r\<lparr>run_lastEventAt := Some (newest_of es)\<rparr> else r)
      (runs st) = runs st"
    using none by (intro map_idI) auto
  have "(if run_id r = rid
      then r\<lparr>run_costUsd := raise_to (fst (totals_of rid st)) (run_costUsd r),
            run_tokensInput := raise_to (fst (snd (totals_of rid st))) (run_tokensInput r),
            run_tokensOutput := raise_to (snd (snd (totals_of rid st))) (run_tokensOutput r)\<rparr>
      else r) = r" if "r \<in> set (runs st)" for r
    using settled[OF that] by auto
  then have "runs (rollUpCost rid st) = runs st" unfolding rollUpCost_sel by (intro map_idI)
  then have roll: "rollUpCost rid st = st"
    by (intro run_store.equality) simp_all
  have conclude: "concludeRun rid t st = st" if "terminalEventIn es = Some t" for t
  proof -
    have no: "\<not> (run_id r = rid \<and> run_status r \<in> set concludable)" if "r \<in> set (runs st)" for r
      using settled[OF that] \<open>terminalEventIn es = Some t\<close> by auto
    then have "filter (\<lambda>r. run_id r = rid \<and> run_status r \<in> set concludable) (runs st) = []"
      unfolding filter_empty_conv by blast
    moreover have "map (\<lambda>r. if run_id r = rid \<and> run_status r \<in> set concludable then conclude_row t r else r)
        (runs st) = runs st"
      using no by (intro map_idI) auto
    ultimately show ?thesis by (simp add: concludeRun_def update_many_def)
  qed
  show ?thesis
    by (cases "terminalEventIn es")
       (simp_all add: advanceRun_def update_many_def Let_def f first roll conclude)
qed

lemma next_status_concluded:
  "terminalEventIn es \<noteq> None \<Longrightarrow> next_status es b s \<notin> set concludable"
  by (auto simp: next_status_def concludable_def split: if_splits)

lemma persist_again:
  assumes "distinct (map run_id (runs st))"
  shows "persist emit rid es (fst (persist emit rid es st)) =
     (fst (persist emit rid es st), \<lparr>accepted = 0, duplicates = length es\<rparr>)"
proof -
  let ?st' = "fst (persist emit rid es st)"
  have table: "create_many (events ?st') (map (toRow emit rid) es) = events ?st'"
    by (simp add: persist_sel create_many_again)
  then have same: "?st'\<lparr>events := create_many (events ?st') (map (toRow emit rid) es)\<rparr> = ?st'" by simp
  have "advanceRun rid es ?st' = ?st'"
  proof (rule advanceRun_settled)
    fix r' assume "r' \<in> set (runs ?st')" "run_id r' = rid"
    with assms obtain r where r: "run_id r = rid" "r' = advance_row es (totals_of rid ?st') r"
      by (elim persist_row)
    show "\<not> newer_event rid (newest_of es) r' \<and>
       raise_to (fst (totals_of rid ?st')) (run_costUsd r') = run_costUsd r' \<and>
       raise_to (fst (snd (totals_of rid ?st'))) (run_tokensInput r') = run_tokensInput r' \<and>
       raise_to (snd (snd (totals_of rid ?st'))) (run_tokensOutput r') = run_tokensOutput r' \<and>
       (terminalEventIn es \<noteq> None \<longrightarrow> run_status r' \<notin> set concludable)"
      using r(1) next_status_concluded[of es]
      unfolding r(2) advance_row_status advance_row_sel raise_to_idem
      by (auto simp: newer_event_def split: option.splits)
  qed
  then show ?thesis unfolding persist_def[of emit rid es ?st'] same Let_def table by simp
qed

subsection \<open>The endpoint's screening\<close>

lemma toRow_sel [simp]:
  "ev_runId (toRow emit rid e) = rid" "ev_externalId (toRow emit rid e) = eventId e"
  "ev_source (toRow emit rid e) = toPrismaEventSource (ep_source e)"
  by (simp_all add: toRow_def)

lemma partition_sum_fst_Nil_iff: "fst (partition_sum xs) = [] \<longleftrightarrow> xs = map Inr (snd (partition_sum xs))"
  by (induction xs rule: partition_sum.induct) (auto split: prod.splits)

lemma screen_InrD:
  "screen check rid i c = Inr e \<Longrightarrow> check c = Inr e \<and> ep_runId e = rid \<and> ep_source e = Runner_reported"
  by (auto simp: screen_def split: sum.splits if_splits)

text \<open>A batch the endpoint takes: every candidate is a valid event of this run, reported by its runner.\<close>

lemma ingest_InrD:
  assumes "ingest check emit rid candidates st = (st', Inr res)"
  obtains es where "map check candidates = map Inr es"
    "\<And>e. e \<in> set es \<Longrightarrow> ep_runId e = rid \<and> ep_source e = Runner_reported"
    "persist emit rid es st = (st', res)" "candidates \<noteq> []" "\<exists>r \<in> set (runs st). run_id r = rid"
proof -
  let ?scr = "map (\<lambda>(i, c). screen check rid i c) (List.enumerate 0 candidates)"
  let ?es = "snd (partition_sum ?scr)"
  have ne: "candidates \<noteq> []" and run: "find (\<lambda>r. run_id r = rid) (runs st) \<noteq> None"
    and p: "fst (partition_sum ?scr) = []" "persist emit rid ?es st = (st', res)"
    using assms by (auto simp: ingest_def Let_def split: if_splits prod.splits)
  from p(1) have scr: "?scr = map Inr ?es" by (simp add: partition_sum_fst_Nil_iff)
  then have len: "length ?es = length candidates" by (metis length_enumerate length_map)
  have nth: "check (candidates ! i) = Inr (?es ! i) \<and> ep_runId (?es ! i) = rid \<and>
      ep_source (?es ! i) = Runner_reported" if "i < length candidates" for i
  proof -
    have "?scr ! i = Inr (?es ! i)" using scr len that by (metis nth_map)
    then have "screen check rid i (candidates ! i) = Inr (?es ! i)"
      using that by (simp add: nth_enumerate_eq)
    then show ?thesis by (rule screen_InrD)
  qed
  then have "map check candidates = map Inr ?es"
    using len by (intro nth_equalityI) simp_all
  moreover have "ep_runId e = rid \<and> ep_source e = Runner_reported" if "e \<in> set ?es" for e
    using that nth len by (metis in_set_conv_nth)
  moreover have "\<exists>r \<in> set (runs st). run_id r = rid"
    using run by (auto simp: find_None_iff)
  ultimately show ?thesis using p(2) ne that by blast
qed

lemma ingest_InlD: "ingest check emit rid candidates st = (st', Inl err) \<Longrightarrow> st' = st"
  by (auto simp: ingest_def Let_def split: if_splits prod.splits)

end
