(* ===== verification/Run_Event_Properties.thy ===== *)
theory Run_Event_Properties
  imports Run_Events
begin

text \<open>
  The properties of ingestion: a batch is taken whole or not at all, what it does to a run is
  the transition \<open>next_status\<close>, a concluded run stays concluded, a redelivery changes
  nothing, spend is never counted twice, and no batch writes a resume plan.
\<close>

section \<open>A concrete store\<close>

definition sample_run :: "string \<Rightarrow> run_status \<Rightarrow> run_row" where
  "sample_run rid s =
     \<lparr>run_id = rid, run_runnerKey = ''claude-code-local'',
      run_workOrder = \<lparr>wo_identity = ''wo_r_1_abcdef0_a1'', wo_repository = ''o/r'',
        wo_issueNumber = 1, wo_branch = ''factory/1'', wo_budgetCeilingUsd = None\<rparr>,
      run_capability = Some (Fidelity_full, Signal_structured), run_status = s, run_runnerVersion = ''1'', run_attemptCount = 1, run_startedAt = 0,
      run_endedAt = None, run_lastEventAt = None, run_resumesAt = None, run_attentionReason = None,
      run_costUsd = None, run_tokensInput = None, run_tokensOutput = None, run_headCommit = None,
      run_pullRequestUrl = None, run_pullRequestNumber = None\<rparr>"

definition sample_store :: run_store where
  "sample_store = \<lparr>runs = [sample_run ''r1'' Run_running, sample_run ''r2'' Run_succeeded],
     events = [], attempts = []\<rparr>"

definition sample_event :: "string \<Rightarrow> event_type \<Rightarrow> instant \<Rightarrow> event_payload" where
  "sample_event i ty t =
     \<lparr>eventId = i, ep_runId = ''r1'', ep_type = ty, ep_source = Runner_reported, ep_occurredAt = t,
      ep_summary = None, ep_trace = None, ep_cost = Some (Some 2, Some 10, None), ep_tool = None,
      ep_blocked = (if ty = Run_blocked_event then Some (''rate-limit'', Some (t + 1000)) else None),
      ep_result = None, ep_failure = None\<rparr>"

definition sample_emit :: "event_payload \<Rightarrow> string \<times> string" where
  "sample_emit e = (''t'', eventId e)"

definition sample_check :: "json \<Rightarrow> validation_failure list + event_payload" where
  "sample_check c = (case c of Json_string i \<Rightarrow> Inr (sample_event i Run_progress 5) | _ \<Rightarrow> Inl [])"

lemmas sample_run_defs = sample_run_def sample_store_def sample_event_def sample_emit_def
  sample_check_def

lemma sample_distinct [simp]: "distinct (map run_id (runs sample_store))"
  by (simp add: sample_store_def sample_run_def)

section \<open>The endpoint\<close>

text \<open>a delivery is taken whole or refused whole. An error leaves the tables as they were; a
  success means that the run exists, every candidate passed the schema, names this run and was
  reported by its runner, and each one was stored or recognised as already delivered, under the
  run's id and as runner-reported.\<close>
theorem ingest_all_or_nothing:
  assumes "ingest check emit rid candidates st = (st', result)"
  shows "case result of
      Inl err \<Rightarrow> st' = st
    | Inr res \<Rightarrow> (\<exists>r \<in> set (runs st). run_id r = rid) \<and> candidates \<noteq> [] \<and>
        accepted res + duplicates res = length candidates \<and>
        (\<exists>es. map check candidates = map Inr es \<and>
           (\<forall>e \<in> set es. ep_runId e = rid \<and> ep_source e = Runner_reported \<and>
              (\<exists>row \<in> set (events st'). ev_runId row = rid \<and> ev_externalId row = eventId e)) \<and>
           (\<forall>row \<in> set (events st') - set (events st). ev_runId row = rid \<and> ev_source row = Source_runner))"
proof (cases result)
  case (Inl err)
  then show ?thesis using ingest_InlD assms by simp
next
  case (Inr res)
  have "ingest check emit rid candidates st = (st', Inr res)" using assms Inr by simp
  then obtain es where es: "map check candidates = map Inr es"
    "\<And>e. e \<in> set es \<Longrightarrow> ep_runId e = rid \<and> ep_source e = Runner_reported"
    "persist emit rid es st = (st', res)" "candidates \<noteq> []" "\<exists>r \<in> set (runs st). run_id r = rid"
    by (rule ingest_InrD) blast
  let ?rows = "map (toRow emit rid) es"
  have st': "events st' = create_many (events st) ?rows"
    using persist_sel(1)[of emit rid es st] es(3) by simp
  have len: "length es = length candidates" using es(1) by (metis length_map)
  then have "accepted res + duplicates res = length candidates"
    using persist_sel(3)[of emit rid es st] accepted_le[of emit rid es st] es(3) by simp
  moreover have "\<exists>row \<in> set (events st'). ev_runId row = rid \<and> ev_externalId row = eventId e"
    if "e \<in> set es" for e
  proof -
    have "(rid, eventId e) \<in> (\<lambda>e. (ev_runId e, ev_externalId e)) ` (set (events st) \<union> set ?rows)"
      using that by (intro image_eqI[of _ _ "toRow emit rid e"]) simp_all
    then have "(rid, eventId e) \<in> (\<lambda>e. (ev_runId e, ev_externalId e)) ` set (events st')"
      unfolding st' create_many_keys .
    then show ?thesis by (elim imageE) auto
  qed
  moreover have "ev_runId row = rid \<and> ev_source row = Source_runner"
    if "row \<in> set (events st') - set (events st)" for row
    using that create_many_append[of "events st" ?rows] st' es(2) by auto
  ultimately show ?thesis using es Inr by simp
qed

lemma ingest_all_or_nothing_witness:
  "fst (ingest sample_check sample_emit ''r1'' [Json_string ''e1'', Json_null] sample_store) = sample_store"
proof -
  have "ingest sample_check sample_emit ''r1'' [Json_string ''e1'', Json_null] sample_store =
      (fst (ingest sample_check sample_emit ''r1'' [Json_string ''e1'', Json_null] sample_store),
       Inl (Events_rejected 1 2 [\<lparr>rj_index = 1, rj_eventId = None, rj_failures = Invalid []\<rparr>]))"
    by (simp add: ingest_def screen_def sample_run_defs Let_def)
  from ingest_all_or_nothing[OF this] show ?thesis by simp
qed

section \<open>The run's state machine\<close>

text \<open>C5: storing a batch refines one run's transition. Runs other than the batch's are untouched; the
  batch's run moves by \<open>next_status\<close> (a completion or failure concludes a live run whenever it
  happened; otherwise only a batch newer than anything seen moves it, to blocked when its newest
  event is a block, to running when it was stalled or blocked), and its clock is the latest
  instant seen.\<close>
theorem ingestion_refines_run_machine:
  assumes "distinct (map run_id (runs st))" "i < length (runs st)"
  shows "length (runs (fst (persist emit rid es st))) = length (runs st) \<and>
    (let r = runs st ! i; r' = runs (fst (persist emit rid es st)) ! i;
         newer = (case run_lastEventAt r of None \<Rightarrow> True | Some t \<Rightarrow> t < newest_of es)
     in run_id r' = run_id r \<and>
        (if run_id r \<noteq> rid then r' = r
         else run_status r' = next_status es newer (run_status r) \<and>
              run_lastEventAt r' = (if newer then Some (newest_of es) else run_lastEventAt r)))"
  using assms by (simp add: persist_runs Let_def advance_row_status newer_event_def)

lemma ingestion_refines_run_machine_witness:
  "run_status (runs (fst (persist sample_emit ''r1'' [sample_event ''e'' Run_completed 7] sample_store)) ! 0)
     = Run_succeeded"
  using ingestion_refines_run_machine[of sample_store 0 sample_emit "''r1''"
      "[sample_event ''e'' Run_completed 7]"]
  by (simp add: sample_run_defs next_status_def terminalEventIn_def pop_last_def by_time_def Let_def)

text \<open>C6: a concluded run stays concluded. Whatever a batch says, a run that succeeded, failed or was
  quarantined keeps its status, its end, its attention reason, its pull request and every other
  column; only its clock and its totals still follow what was stored.\<close>
theorem concluded_runs_stay_concluded:
  assumes "distinct (map run_id (runs st))" "r \<in> set (runs st)"
    "run_status r \<in> {Run_succeeded, Run_failed, Run_quarantined}"
  shows "\<exists>r' \<in> set (runs (fst (persist emit rid es st))).
     r' = r\<lparr>run_lastEventAt := run_lastEventAt r', run_costUsd := run_costUsd r',
            run_tokensInput := run_tokensInput r', run_tokensOutput := run_tokensOutput r'\<rparr>"
proof -
  let ?t = "totals_of rid (fst (persist emit rid es st))"
  let ?r' = "if run_id r = rid then advance_row es ?t r else r"
  have "?r' \<in> set (runs (fst (persist emit rid es st)))"
    using assms(2) by (auto simp: persist_runs[OF assms(1)])
  moreover have "run_status r \<notin> set concludable" "run_status r \<notin> set blockable" "run_status r \<notin> set resumable"
    using assms(3) by (auto simp: concludable_def blockable_def resumable_def)
  then have "?r' = r\<lparr>run_lastEventAt := run_lastEventAt ?r', run_costUsd := run_costUsd ?r',
      run_tokensInput := run_tokensInput ?r', run_tokensOutput := run_tokensOutput ?r'\<rparr>"
    by (simp add: advance_row_def Let_def split: option.split)
  ultimately show ?thesis by blast
qed

lemma concluded_runs_stay_concluded_witness:
  "\<exists>r' \<in> set (runs (fst (persist sample_emit ''r2'' [sample_event ''e'' Run_failed_event 9] sample_store))).
     run_id r' = ''r2'' \<and> run_status r' = Run_succeeded"
proof -
  have "sample_run ''r2'' Run_succeeded \<in> set (runs sample_store)"
    "run_status (sample_run ''r2'' Run_succeeded) \<in> {Run_succeeded, Run_failed, Run_quarantined}"
    by (simp_all add: sample_store_def sample_run_def)
  from concluded_runs_stay_concluded[OF sample_distinct this, of sample_emit "''r2''"
      "[sample_event ''e'' Run_failed_event 9]"]
  obtain r' where r': "r' \<in> set (runs (fst (persist sample_emit ''r2''
      [sample_event ''e'' Run_failed_event 9] sample_store)))"
    "r' = (sample_run ''r2'' Run_succeeded)\<lparr>run_lastEventAt := run_lastEventAt r',
       run_costUsd := run_costUsd r', run_tokensInput := run_tokensInput r',
       run_tokensOutput := run_tokensOutput r'\<rparr>" by blast
  have "run_id r' = ''r2''" "run_status r' = Run_succeeded"
    by (subst r'(2), simp add: sample_run_def)+
  with r'(1) show ?thesis by blast
qed

section \<open>Redelivery and totals\<close>

text \<open>C34: delivering a batch a second time changes nothing: no table changes, no event is accepted and
  every one is counted as a duplicate.\<close>
theorem redelivery_is_noop:
  assumes "distinct (map run_id (runs st))"
  shows "persist emit rid es (fst (persist emit rid es st)) =
     (fst (persist emit rid es st), \<lparr>accepted = 0, duplicates = length es\<rparr>)"
  using assms by (rule persist_again)

lemma redelivery_is_noop_witness:
  "snd (persist sample_emit ''r1'' [sample_event ''e'' Run_blocked_event 7]
     (fst (persist sample_emit ''r1'' [sample_event ''e'' Run_blocked_event 7] sample_store))) =
   \<lparr>accepted = 0, duplicates = 1\<rparr>"
  using redelivery_is_noop[OF sample_distinct, of sample_emit "''r1''" "[sample_event ''e'' Run_blocked_event 7]"]
  by simp

text \<open>spend is what was reported, once. When events report no negative amounts (the schema's
  \<open>minimum: 0\<close>), every run's cost and token totals equal the sums over its stored events after any
  batch, duplicates and redeliveries included, if they did before it; and the event table keeps
  its unique key.\<close>
theorem totals_count_each_event_once:
  assumes "distinct (map run_id (runs st))" "totals_match st" "unique_events (events st)"
    "reports_no_negatives es"
  shows "totals_match (fst (persist emit rid es st)) \<and> unique_events (events (fst (persist emit rid es st)))"
  using totals_match_persist[OF assms(1,2,4)] create_many_unique[OF assms(3)] by (simp add: persist_sel)

lemma totals_count_each_event_once_witness:
  "totals_match (fst (persist sample_emit ''r1''
     [sample_event ''e'' Run_progress 7, sample_event ''e'' Run_progress 7] sample_store))"
proof -
  have "totals_match sample_store" "unique_events (events sample_store)"
    by (simp_all add: totals_match_def totals_of_def run_events_of_def sample_run_defs Let_def
        sum_column_def List.map_filter_def unique_events_def)
  moreover have "reports_no_negatives [sample_event ''e'' Run_progress 7, sample_event ''e'' Run_progress 7]"
    by (simp add: reports_no_negatives_def sample_event_def)
  ultimately show ?thesis using totals_count_each_event_once[OF sample_distinct] by blast
qed

section \<open>Resume plans\<close>

text \<open>Ingestion never writes a resume plan; it only withdraws one, and it does so whenever a
  stalled or blocked run reports again and is returned to running.\<close>
theorem ingestion_never_plans:
  assumes "distinct (map run_id (runs st))" "i < length (runs st)"
  shows "(run_resumesAt (runs (fst (persist emit rid es st)) ! i) = run_resumesAt (runs st ! i) \<or>
          run_resumesAt (runs (fst (persist emit rid es st)) ! i) = None) \<and>
    (run_status (runs (fst (persist emit rid es st)) ! i) = Run_running \<longrightarrow>
     run_status (runs st ! i) \<noteq> Run_running \<longrightarrow>
     run_resumesAt (runs (fst (persist emit rid es st)) ! i) = None)"
proof -
  have "run_status (advance_row es totals r) = Run_running \<Longrightarrow> run_status r \<noteq> Run_running \<Longrightarrow>
      run_resumesAt (advance_row es totals r) = None" for totals r
    by (auto simp: advance_row_def Let_def split: option.splits if_splits)
  with assms advance_row_resumesAt[of es _ "runs st ! i"] show ?thesis
    by (auto simp: persist_runs)
qed

lemma ingestion_never_plans_witness:
  "run_resumesAt (runs (fst (persist sample_emit ''r1'' [sample_event ''e'' Run_blocked_event 7] sample_store)) ! 0)
     = None"
  using ingestion_never_plans[OF sample_distinct, of 0 sample_emit "''r1''" "[sample_event ''e'' Run_blocked_event 7]"]
  by (auto simp: sample_store_def sample_run_def)

text \<open>Concluding a parked run leaves its plan behind. A blocked run with a planned resume that
  reports its own completion or failure ends with that status and still carries the plan, which
  the schema says is null for every status but blocked.\<close>
theorem concluding_keeps_the_plan:
  assumes "distinct (map run_id (runs st))" "r \<in> set (runs st)" "run_id r = rid"
    "run_status r = Run_blocked" "run_resumesAt r = Some plan" "terminalEventIn es \<noteq> None"
  shows "\<exists>r' \<in> set (runs (fst (persist emit rid es st))). run_id r' = rid \<and>
     run_status r' \<in> {Run_succeeded, Run_failed} \<and> run_resumesAt r' = Some plan"
proof -
  let ?r' = "advance_row es (totals_of rid (fst (persist emit rid es st))) r"
  have "?r' \<in> set (runs (fst (persist emit rid es st)))"
    using assms(2,3) by (force simp: persist_runs[OF assms(1)])
  moreover obtain t where t: "terminalEventIn es = Some t" using assms(6) by blast
  then have "run_resumesAt ?r' = Some plan"
    using assms(4,5) by (simp add: advance_row_def Let_def concludable_def)
  moreover have "run_status ?r' \<in> {Run_succeeded, Run_failed}"
    using assms(4) t by (simp add: advance_row_status next_status_def)
  moreover have "run_id ?r' = rid" using assms(3) by simp
  ultimately show ?thesis by blast
qed

definition parked_store :: run_store where
  "parked_store = \<lparr>runs = [(sample_run ''r1'' Run_blocked)\<lparr>run_resumesAt := Some 5000\<rparr>],
     events = [], attempts = []\<rparr>"

lemma concluding_keeps_the_plan_witness:
  "\<exists>r' \<in> set (runs (fst (persist sample_emit ''r1'' [sample_event ''e'' Run_completed 7] parked_store))).
     run_id r' = ''r1'' \<and> run_status r' \<in> {Run_succeeded, Run_failed} \<and> run_resumesAt r' = Some 5000"
  by (rule concluding_keeps_the_plan[of _ "(sample_run ''r1'' Run_blocked)\<lparr>run_resumesAt := Some 5000\<rparr>"])
     (simp_all add: parked_store_def sample_run_def sample_event_def terminalEventIn_def pop_last_def by_time_def)

section \<open>Names\<close>

lemma type_column_injective: "toPrismaEventType t = toPrismaEventType u \<longleftrightarrow> t = u"
  by (cases t; cases u) (simp_all add: toPrismaEventType_def)

text \<open>What the database stores of an event's vocabulary is enough to render it back. The name the
  cockpit reads off a stored event's type is the name the wire used; its source is rendered by the
  front of the wire's name, so a synthesized event is never rendered as a reported one; and two
  events share a stored type, or a rendered source, only if they share it on the wire.\<close>
theorem stored_names_read_back:
  "fromPrismaEventType (ev_type (toRow emit rid e)) = event_type_name (ep_type e) \<and>
   starts_with (fromPrismaEventSource (prisma_source_name (ev_source (toRow emit rid e))))
     (event_source_name (ep_source e)) \<and>
   (ev_type (toRow emit rid e) = ev_type (toRow emit' rid' e') \<longleftrightarrow> ep_type e = ep_type e') \<and>
   (fromPrismaEventSource (prisma_source_name (ev_source (toRow emit rid e))) =
      fromPrismaEventSource (prisma_source_name (ev_source (toRow emit' rid' e'))) \<longleftrightarrow>
    ep_source e = ep_source e')"
proof (intro conjI)
  show "fromPrismaEventType (ev_type (toRow emit rid e)) = event_type_name (ep_type e)"
    by (cases "ep_type e") (simp_all add: toRow_def toPrismaEventType_def fromPrismaEventType_def)
  show "starts_with (fromPrismaEventSource (prisma_source_name (ev_source (toRow emit rid e))))
     (event_source_name (ep_source e))"
    by (cases "ep_source e") (simp_all add: toRow_def fromPrismaEventSource_def starts_with_def)
  show "ev_type (toRow emit rid e) = ev_type (toRow emit' rid' e') \<longleftrightarrow> ep_type e = ep_type e'"
    by (simp add: toRow_def type_column_injective)
  show "fromPrismaEventSource (prisma_source_name (ev_source (toRow emit rid e))) =
      fromPrismaEventSource (prisma_source_name (ev_source (toRow emit' rid' e'))) \<longleftrightarrow>
    ep_source e = ep_source e'"
    by (cases "ep_source e"; cases "ep_source e'") (simp_all add: toRow_def fromPrismaEventSource_def)
qed

end
