(* ===== verification/Check_Coverage.thy ===== *)
theory Check_Coverage
  imports Watchdog
begin

text \<open>
  What each watchdog check is worth on a run (\<open>watchdog/check-coverage.ts\<close>), derived from
  what the runner declares: the four checks in a fixed order, their status, and the tallies
  of a sweep. The prose is a datatype, a constructor per template.
\<close>

datatype watchdog_check = Silence_detection | Loop_detection | Rate_limit_parking | Git_liveness

definition WATCHDOG_CHECKS :: "watchdog_check list" where
  "WATCHDOG_CHECKS = [Silence_detection, Loop_detection, Rate_limit_parking, Git_liveness]"

datatype coverage_status = Check_active | Check_degraded | Check_unavailable

datatype coverage_signal =
    Signal_heartbeats | Signal_phases | Signal_git_activity | Signal_any_event
  | Signal_signature_repeats
  | Signal_reset_time | Signal_inferred_reset | Signal_no_rate_limit
  | Signal_branch_activity | Signal_no_branch

datatype coverage_reason =
    Streams_fully string duration_text
  | Streams_partially string duration_text
  | Streams_nothing string duration_text
  | No_manifest string duration_text
  | Signature_per_tool string
  | No_manifest_for_loops string
  | No_tool_detail string streaming_fidelity
  | Dated_blocks string
  | Inferred_blocks string
  | Undatable_blocks string
  | No_manifest_for_blocks string
  | No_branch string
  | Independent_git string string
  | Only_git string string "streaming_fidelity option"

record check_coverage =
  cc_check :: watchdog_check
  cc_status :: coverage_status
  cc_signal :: coverage_signal
  cc_reason :: coverage_reason
  cc_thresholdMs :: "int option"

record coverage_input =
  ci_runnerKey :: string
  ci_fidelity :: "streaming_fidelity option"
  ci_rateLimitSignal :: "rate_limit_signal option"
  ci_branch :: "string option"

record run_check_coverage =
  rc_runnerKey :: string
  rc_streamingFidelity :: "streaming_fidelity option"
  rc_rateLimitSignal :: "rate_limit_signal option"
  rc_weakest :: coverage_status
  rc_checks :: "check_coverage list"

definition silenceCoverage :: "coverage_input \<Rightarrow> check_coverage" where
  "silenceCoverage input =
    (let thresholdMs = thresholdFor (ci_fidelity input);
         k = ci_runnerKey input; d = formatDuration thresholdMs;
         mk = (\<lambda>s sg why. \<lparr>cc_check = Silence_detection, cc_status = s, cc_signal = sg, cc_reason = why,
                           cc_thresholdMs = Some thresholdMs\<rparr>)
     in case ci_fidelity input of
          Some Fidelity_full \<Rightarrow> mk Check_active Signal_heartbeats (Streams_fully k d)
        | Some Fidelity_partial \<Rightarrow> mk Check_degraded Signal_phases (Streams_partially k d)
        | Some Fidelity_none \<Rightarrow> mk Check_degraded Signal_git_activity (Streams_nothing k d)
        | None \<Rightarrow> mk Check_degraded Signal_any_event (No_manifest k d))"

definition loopCoverage :: "coverage_input \<Rightarrow> check_coverage" where
  "loopCoverage input =
    (let k = ci_runnerKey input;
         mk = (\<lambda>s why. \<lparr>cc_check = Loop_detection, cc_status = s, cc_signal = Signal_signature_repeats,
                        cc_reason = why, cc_thresholdMs = None\<rparr>)
     in if ci_fidelity input = Some Fidelity_full then mk Check_active (Signature_per_tool k)
        else mk Check_unavailable
          (case ci_fidelity input of None \<Rightarrow> No_manifest_for_loops k | Some f \<Rightarrow> No_tool_detail k f))"

definition rateLimitCoverage :: "coverage_input \<Rightarrow> check_coverage" where
  "rateLimitCoverage input =
    (let k = ci_runnerKey input;
         mk = (\<lambda>s sg why. \<lparr>cc_check = Rate_limit_parking, cc_status = s, cc_signal = sg,
                           cc_reason = why, cc_thresholdMs = None\<rparr>)
     in case ci_rateLimitSignal input of
          Some Signal_structured \<Rightarrow> mk Check_active Signal_reset_time (Dated_blocks k)
        | Some Signal_heuristic \<Rightarrow> mk Check_degraded Signal_inferred_reset (Inferred_blocks k)
        | Some Signal_none \<Rightarrow> mk Check_unavailable Signal_no_rate_limit (Undatable_blocks k)
        | None \<Rightarrow> mk Check_unavailable Signal_reset_time (No_manifest_for_blocks k))"

definition gitLivenessCoverage :: "coverage_input \<Rightarrow> check_coverage" where
  "gitLivenessCoverage input =
    (let k = ci_runnerKey input;
         mk = (\<lambda>s sg why. \<lparr>cc_check = Git_liveness, cc_status = s, cc_signal = sg,
                           cc_reason = why, cc_thresholdMs = None\<rparr>)
     in if \<not> truthy (ci_branch input) then mk Check_unavailable Signal_no_branch (No_branch k)
        else if ci_fidelity input = Some Fidelity_full \<or> ci_fidelity input = Some Fidelity_partial
        then mk Check_active Signal_branch_activity (Independent_git (the (ci_branch input)) k)
        else mk Check_degraded Signal_branch_activity
               (Only_git (the (ci_branch input)) k (ci_fidelity input)))"

fun SEVERITY :: "coverage_status \<Rightarrow> nat" where
  "SEVERITY Check_active = 0"
| "SEVERITY Check_degraded = 1"
| "SEVERITY Check_unavailable = 2"

definition weakest :: "check_coverage list \<Rightarrow> coverage_status" where
  "weakest checks = foldl (\<lambda>worst check.
     if SEVERITY (cc_status check) > SEVERITY worst then cc_status check else worst) Check_active checks"

definition describeCheckCoverage :: "coverage_input \<Rightarrow> run_check_coverage" where
  "describeCheckCoverage input =
    (let checks = [silenceCoverage input, loopCoverage input, rateLimitCoverage input,
                   gitLivenessCoverage input]
     in \<lparr>rc_runnerKey = ci_runnerKey input, rc_streamingFidelity = ci_fidelity input,
         rc_rateLimitSignal = ci_rateLimitSignal input, rc_weakest = weakest checks, rc_checks = checks\<rparr>)"

text \<open>The tallies: for each check, how many runs sit at each status.\<close>

type_synonym coverage_tallies = "watchdog_check \<Rightarrow> coverage_status \<Rightarrow> nat"

definition count_check :: "coverage_tallies \<Rightarrow> check_coverage \<Rightarrow> coverage_tallies" where
  "count_check tallies check = (\<lambda>c s.
     if c = cc_check check \<and> s = cc_status check then tallies c s + 1 else tallies c s)"

definition tallyCoverage :: "run_check_coverage list \<Rightarrow> coverage_tallies" where
  "tallyCoverage coverages =
     foldl (\<lambda>tallies coverage. foldl count_check tallies (rc_checks coverage)) (\<lambda>c s. 0) coverages"

section \<open>Lemmas\<close>

lemma coverage_checks [simp]:
  "map cc_check (rc_checks (describeCheckCoverage input)) = WATCHDOG_CHECKS"
  by (simp add: describeCheckCoverage_def Let_def WATCHDOG_CHECKS_def silenceCoverage_def loopCoverage_def
      rateLimitCoverage_def gitLivenessCoverage_def split: option.split streaming_fidelity.split
      rate_limit_signal.split)

lemma SEVERITY_inj: "SEVERITY a = SEVERITY b \<longleftrightarrow> a = b"
  by (cases a; cases b) simp_all

definition worse :: "coverage_status \<Rightarrow> check_coverage \<Rightarrow> coverage_status" where
  "worse worst check = (if SEVERITY (cc_status check) > SEVERITY worst then cc_status check else worst)"

lemma weakest_fold: "weakest checks = foldl worse Check_active checks"
  by (simp add: weakest_def worse_def[abs_def])

lemma foldl_worse_ge:
  "SEVERITY a \<le> SEVERITY (foldl worse a checks) \<and>
   (\<forall>c \<in> set checks. SEVERITY (cc_status c) \<le> SEVERITY (foldl worse a checks))"
proof (induction checks arbitrary: a)
  case (Cons c cs)
  have "SEVERITY a \<le> SEVERITY (worse a c)" "SEVERITY (cc_status c) \<le> SEVERITY (worse a c)"
    by (simp_all add: worse_def)
  with Cons[of "worse a c"] show ?case by (auto intro: order_trans)
qed simp

lemma foldl_worse_mem: "foldl worse a checks \<in> insert a (cc_status ` set checks)"
proof (induction checks arbitrary: a)
  case (Cons c cs)
  have "worse a c = a \<or> worse a c = cc_status c" by (simp add: worse_def)
  with Cons[of "worse a c"] show ?case by auto
qed simp

lemma weakest_ge: "c \<in> set checks \<Longrightarrow> SEVERITY (cc_status c) \<le> SEVERITY (weakest checks)"
  using foldl_worse_ge by (auto simp: weakest_fold)

lemma weakest_mem: "weakest checks \<in> insert Check_active (cc_status ` set checks)"
  unfolding weakest_fold by (rule foldl_worse_mem)

lemma count_checks_eq:
  "foldl count_check tallies checks c s =
     tallies c s + length (filter (\<lambda>ch. cc_check ch = c \<and> cc_status ch = s) checks)"
  by (induction checks arbitrary: tallies) (auto simp: count_check_def)

lemma tallyCoverage_eq:
  "tallyCoverage coverages c s =
     (\<Sum>cov\<leftarrow>coverages. length (filter (\<lambda>ch. cc_check ch = c \<and> cc_status ch = s) (rc_checks cov)))"
proof -
  have "foldl (\<lambda>tallies coverage. foldl count_check tallies (rc_checks coverage)) t coverages c s =
      t c s + (\<Sum>cov\<leftarrow>coverages. length (filter (\<lambda>ch. cc_check ch = c \<and> cc_status ch = s) (rc_checks cov)))" for t
    by (induction coverages arbitrary: t) (simp_all add: count_checks_eq)
  then show ?thesis by (simp add: tallyCoverage_def)
qed

text \<open>A check is available exactly when the declaration it rests on was made.\<close>

lemma check_available_iff:
  "cc_status (loopCoverage input) = Check_active \<longleftrightarrow> ci_fidelity input = Some Fidelity_full"
  "cc_status (loopCoverage input) = Check_unavailable \<longleftrightarrow> ci_fidelity input \<noteq> Some Fidelity_full"
  "cc_status (rateLimitCoverage input) = Check_unavailable \<longleftrightarrow>
     ci_rateLimitSignal input = None \<or> ci_rateLimitSignal input = Some Signal_none"
  "cc_status (gitLivenessCoverage input) = Check_unavailable \<longleftrightarrow> \<not> truthy (ci_branch input)"
  "cc_status (silenceCoverage input) \<noteq> Check_unavailable"
  "cc_thresholdMs (silenceCoverage input) = Some (thresholdFor (ci_fidelity input))"
  by (simp_all add: loopCoverage_def rateLimitCoverage_def gitLivenessCoverage_def silenceCoverage_def
      Let_def split: option.split streaming_fidelity.split rate_limit_signal.split)

end
