(* ===== verification/Watchdog_Sweep.thy ===== *)
theory Watchdog_Sweep
  imports Check_Coverage Actions Run_Events
begin

text \<open>
  The sweep (\<open>watchdog/watchdog.service.ts\<close>): what it loads from the tables, the verdicts it
  takes on every live and every blocked run, the one column it writes, and what it reports.
  \<open>random k\<close> is the number the generator returns when the run \<open>k\<close> is judged.
\<close>

section \<open>Loading\<close>

definition newest_event :: "string \<Rightarrow> (event_row \<Rightarrow> bool) \<Rightarrow> run_store \<Rightarrow> event_row option" where
  "newest_event rid P st =
    (case newest_first (filter (\<lambda>e. ev_runId e = rid \<and> P e) (events st)) of [] \<Rightarrow> None | e # _ \<Rightarrow> Some e)"

definition to_blocked_run :: "run_store \<Rightarrow> run_row \<Rightarrow> blocked_run_state" where
  "to_blocked_run st r =
    (let event = newest_event (run_id r) (\<lambda>e. ev_type e = ''run_blocked'') st
     in \<lparr>br_runId = run_id r,
         br_workOrderIdentity = wo_identity (run_workOrder r),
         br_repository = wo_repository (run_workOrder r),
         br_issueNumber = wo_issueNumber (run_workOrder r),
         blockedSince = get_or (run_startedAt r) (map_option ev_occurredAt event),
         resetAt = Option.bind event ev_blockedUntil,
         br_reason = Option.bind event ev_blockedReason,
         resumesAt = run_resumesAt r\<rparr>)"

definition loadBlockedRuns :: "run_store \<Rightarrow> blocked_run_state list" where
  "loadBlockedRuns st = map (to_blocked_run st) (filter (\<lambda>r. run_status r = Run_blocked) (runs st))"

definition loadToolObservations :: "string \<Rightarrow> run_store \<Rightarrow> tool_observation list" where
  "loadToolObservations rid st =
     map (\<lambda>e. \<lparr>to_signature = the (ev_toolSignature e), to_occurredAt = ev_occurredAt e\<rparr>)
       (rev (take 40 (newest_first
          (filter (\<lambda>e. ev_runId e = rid \<and> ev_toolSignature e \<noteq> None) (events st)))))"

definition to_watched_run :: "run_store \<Rightarrow> run_row \<Rightarrow> watched_run_state" where
  "to_watched_run st r =
     \<lparr>wr_runId = run_id r,
      wr_workOrderIdentity = wo_identity (run_workOrder r),
      wr_repository = wo_repository (run_workOrder r),
      wr_issueNumber = wo_issueNumber (run_workOrder r),
      wr_status = run_status r,
      wr_startedAt = run_startedAt r,
      wr_lastEventAt = run_lastEventAt r,
      wr_lastEventSource = map_option ev_source (newest_event (run_id r) (\<lambda>e. True) st),
      wr_runnerKey = run_runnerKey r,
      wr_fidelity = map_option fst (run_capability r),
      wr_rateLimitSignal = map_option snd (run_capability r),
      wr_branch = (if wo_branch (run_workOrder r) = '''' then None else Some (wo_branch (run_workOrder r)))\<rparr>"

definition loadLiveRuns :: "run_store \<Rightarrow> watched_run_state list" where
  "loadLiveRuns st = map (to_watched_run st)
     (filter (\<lambda>r. run_status r \<in> {Run_running, Run_stalled}) (runs st))"

section \<open>Blocked runs\<close>

datatype dead_kind = Dead_stalled | Dead_parked

record dead_observation =
  do_runId :: string
  do_kind :: dead_kind
  do_since :: instant

record parking_sweep =
  ps_parked :: nat
  ps_resumable :: nat
  ps_judgedRunIds :: "string list"
  ps_actions :: "reconcile_action list"
  ps_deadObservations :: "dead_observation list"

definition write_plan :: "string \<Rightarrow> instant \<Rightarrow> run_store \<Rightarrow> run_store" where
  "write_plan rid plan st = st\<lparr>runs := map (\<lambda>r. if run_id r = rid
     then r\<lparr>run_resumesAt := Some plan\<rparr> else r) (runs st)\<rparr>"

text \<open>One turn of the loop: the tables and the counts after it.\<close>

definition park_step :: "instant \<Rightarrow> (string \<Rightarrow> rat) \<Rightarrow> run_store \<times> parking_sweep \<Rightarrow> blocked_run_state
    \<Rightarrow> run_store \<times> parking_sweep" where
  "park_step now random acc run =
    (let (st, res) = acc;
         decision = decideParking run now (random (br_runId run));
         res1 = res\<lparr>ps_actions := ps_actions res @ actionsForParking run decision\<rparr>
     in case decision of
          Park plan why \<Rightarrow> (write_plan (br_runId run) plan st, res1\<lparr>ps_parked := ps_parked res1 + 1\<rparr>)
        | Resume why \<Rightarrow> (st, res1\<lparr>ps_resumable := ps_resumable res1 + 1\<rparr>)
        | Escalate why \<Rightarrow> (st, res1)
        | Waiting why \<Rightarrow> (st, res1))"

definition sweepBlocked :: "instant \<Rightarrow> (string \<Rightarrow> rat) \<Rightarrow> run_store \<Rightarrow> run_store \<times> parking_sweep" where
  "sweepBlocked now random st =
    (let rs = loadBlockedRuns st
     in foldl (park_step now random)
          (st, \<lparr>ps_parked = 0, ps_resumable = 0, ps_judgedRunIds = map br_runId rs, ps_actions = [],
                ps_deadObservations = map (\<lambda>run. \<lparr>do_runId = br_runId run, do_kind = Dead_parked,
                                                  do_since = blockedSince run\<rparr>) rs\<rparr>) rs)"

section \<open>The sweep\<close>

record sweep_result =
  sw_runsJudged :: nat
  sw_judgedRunIds :: "string list"
  sw_silentRuns :: nat
  sw_loopingRuns :: nat
  sw_loopCheckUnavailable :: nat
  sw_checkCoverage :: coverage_tallies
  sw_parkedRuns :: nat
  sw_resumableRuns :: nat
  sw_deadObservations :: "dead_observation list"
  sw_actions :: "reconcile_action list"

text \<open>
  One turn of the loop over the live runs that are not silent: looping, check unavailable,
  and the actions so far.
\<close>

definition loop_step :: "run_store \<Rightarrow> string set \<Rightarrow> nat \<times> nat \<times> reconcile_action list
    \<Rightarrow> watched_run_state \<Rightarrow> nat \<times> nat \<times> reconcile_action list" where
  "loop_step st silentIds acc run =
    (let (loops, unavailable, actions) = acc in
     if wr_runId run \<in> silentIds then acc
     else case detectLoop (wr_fidelity run) (loadToolObservations (wr_runId run) st) None None of
            None \<Rightarrow> acc
          | Some l \<Rightarrow>
              if \<not> lv_available l then (loops, unavailable + 1, actions)
              else if \<not> looping l then acc
              else (loops + 1, unavailable, actions @ actionsForLoop l run))"

definition coverage_of :: "watched_run_state \<Rightarrow> run_check_coverage" where
  "coverage_of run = describeCheckCoverage
     \<lparr>ci_runnerKey = wr_runnerKey run, ci_fidelity = wr_fidelity run,
      ci_rateLimitSignal = wr_rateLimitSignal run, ci_branch = wr_branch run\<rparr>"

definition sweep :: "instant \<Rightarrow> (string \<Rightarrow> rat) \<Rightarrow> run_store \<Rightarrow> run_store \<times> sweep_result" where
  "sweep now random st =
    (let live = loadLiveRuns st;
         verdicts = detectSilentRuns live now;
         silentIds = set (map sv_runId verdicts);
         (loops, unavailable, actions) =
           foldl (loop_step st silentIds) (0, 0, concat (map actionsForSilence verdicts)) live;
         (st1, parking) = sweepBlocked now random st
     in (st1,
         \<lparr>sw_runsJudged = length live,
          sw_judgedRunIds = map wr_runId live @ ps_judgedRunIds parking,
          sw_silentRuns = length verdicts,
          sw_loopingRuns = loops,
          sw_loopCheckUnavailable = unavailable,
          sw_checkCoverage = tallyCoverage (map coverage_of live),
          sw_parkedRuns = ps_parked parking,
          sw_resumableRuns = ps_resumable parking,
          sw_deadObservations = map (\<lambda>v. \<lparr>do_runId = sv_runId v, do_kind = Dead_stalled,
                                          do_since = sv_progressStoppedAt v\<rparr>) verdicts
                                @ ps_deadObservations parking,
          sw_actions = actions @ ps_actions parking\<rparr>))"

section \<open>Lemmas\<close>

subsection \<open>Loading\<close>

lemma newest_event_SomeD:
  assumes "newest_event rid P st = Some e"
  shows "e \<in> set (events st)" "ev_runId e = rid" "P e"
    "\<And>x. x \<in> set (events st) \<Longrightarrow> ev_runId x = rid \<Longrightarrow> P x \<Longrightarrow> ev_occurredAt x \<le> ev_occurredAt e"
proof -
  obtain rest where s: "newest_first (filter (\<lambda>e. ev_runId e = rid \<and> P e) (events st)) = e # rest"
    using assms by (auto simp: newest_event_def split: list.splits)
  then have "e \<in> set (newest_first (filter (\<lambda>e. ev_runId e = rid \<and> P e) (events st)))" by simp
  then show "e \<in> set (events st)" "ev_runId e = rid" "P e" by auto
  show "\<And>x. x \<in> set (events st) \<Longrightarrow> ev_runId x = rid \<Longrightarrow> P x \<Longrightarrow> ev_occurredAt x \<le> ev_occurredAt e"
    using newest_first_hd[OF s] by auto
qed

text \<open>The defaults never reach the empty list.\<close>

lemma detectLoop_default: "detectLoop f obs None None \<noteq> None"
  by (auto simp: detectLoop_def Let_def DEFAULT_LOOP_REPEATS_def split: prod.split)

lemma to_blocked_run_sel [simp]:
  "br_runId (to_blocked_run st r) = run_id r"
  "resumesAt (to_blocked_run st r) = run_resumesAt r"
  "br_workOrderIdentity (to_blocked_run st r) = wo_identity (run_workOrder r)"
  by (simp_all add: to_blocked_run_def Let_def)

lemma to_watched_run_sel [simp]:
  "wr_runId (to_watched_run st r) = run_id r" "wr_status (to_watched_run st r) = run_status r"
  by (simp_all add: to_watched_run_def)

subsection \<open>Blocked runs\<close>

text \<open>The plan a sweep writes for a row, if it writes one.\<close>

definition new_plan :: "instant \<Rightarrow> (string \<Rightarrow> rat) \<Rightarrow> run_store \<Rightarrow> run_row \<Rightarrow> instant option" where
  "new_plan now random st r =
    (if run_status r \<noteq> Run_blocked then None
     else case decideParking (to_blocked_run st r) now (random (run_id r)) of
            Park plan why \<Rightarrow> Some plan | _ \<Rightarrow> None)"

definition planned_row :: "instant \<Rightarrow> (string \<Rightarrow> rat) \<Rightarrow> run_store \<Rightarrow> run_row \<Rightarrow> run_row" where
  "planned_row now random st r =
    (case new_plan now random st r of None \<Rightarrow> r | Some plan \<Rightarrow> r\<lparr>run_resumesAt := Some plan\<rparr>)"

definition plan_if :: "(run_row \<Rightarrow> instant option) \<Rightarrow> run_row \<Rightarrow> run_store \<Rightarrow> run_store" where
  "plan_if plan r st = (case plan r of None \<Rightarrow> st | Some p \<Rightarrow> write_plan (run_id r) p st)"

lemma park_step_fst:
  "run_status r = Run_blocked \<Longrightarrow>
   fst (park_step now random (s, res) (to_blocked_run st r)) = plan_if (new_plan now random st) r s"
  by (simp add: park_step_def plan_if_def new_plan_def Let_def split: parking_decision.split)

lemma foldl_park_fst:
  assumes "\<And>r. r \<in> set rs \<Longrightarrow> run_status r = Run_blocked"
  shows "fst (foldl (park_step now random) acc (map (to_blocked_run st) rs)) =
     foldl (\<lambda>s r. plan_if (new_plan now random st) r s) (fst acc) rs"
  using assms
proof (induction rs arbitrary: acc)
  case (Cons r rs)
  then have "fst (park_step now random acc (to_blocked_run st r)) = plan_if (new_plan now random st) r (fst acc)"
    using park_step_fst[of r now random "fst acc" "snd acc" st] by simp
  with Cons show ?case by simp
qed simp

definition apply_plans :: "(run_row \<Rightarrow> instant option) \<Rightarrow> run_row list \<Rightarrow> run_row \<Rightarrow> run_row" where
  "apply_plans plan rs x = (case find (\<lambda>r. run_id r = run_id x) rs of None \<Rightarrow> x
     | Some r \<Rightarrow> (case plan r of None \<Rightarrow> x | Some p \<Rightarrow> x\<lparr>run_resumesAt := Some p\<rparr>))"

lemma plan_if_runs: "plan_if plan r s = s\<lparr>runs := map (apply_plans plan [r]) (runs s)\<rparr>"
proof -
  have "map (apply_plans plan [r]) (runs s) = runs s" if "plan r = None"
    using that by (intro map_idI) (simp add: apply_plans_def)
  then show ?thesis
    by (cases "plan r") (auto simp: plan_if_def write_plan_def apply_plans_def intro!: run_store.equality)
qed

lemma apply_plans_Cons:
  assumes "run_id r \<notin> run_id ` set rs"
  shows "apply_plans plan rs (apply_plans plan [r] x) = apply_plans plan (r # rs) x"
proof (cases "run_id x = run_id r")
  case True
  have "find (\<lambda>q. run_id q = run_id r) rs = None"
    using assms by (auto simp: find_None_iff) (metis imageI)
  with True show ?thesis by (simp add: apply_plans_def split: option.split)
next
  case False
  then show ?thesis by (simp add: apply_plans_def)
qed

lemma foldl_plan_if:
  assumes "distinct (map run_id rs)"
  shows "foldl (\<lambda>s r. plan_if plan r s) s rs = s\<lparr>runs := map (apply_plans plan rs) (runs s)\<rparr>"
  using assms
proof (induction rs arbitrary: s)
  case Nil
  have "map (apply_plans plan []) (runs s) = runs s" by (intro map_idI) (simp add: apply_plans_def)
  then show ?case by simp
next
  case (Cons r rs)
  then show ?case by (simp add: plan_if_runs apply_plans_Cons)
qed

lemma find_by_id:
  assumes "distinct (map run_id rows)" "x \<in> set rows"
  shows "find (\<lambda>r. run_id r = run_id x) (filter P rows) = (if P x then Some x else None)"
proof (cases "find (\<lambda>r. run_id r = run_id x) (filter P rows)")
  case None
  then show ?thesis using assms(2) by (auto simp: find_None_iff)
next
  case (Some y)
  then have "y \<in> set (filter P rows)" "run_id y = run_id x" using find_Some_iff_mem[OF Some] by auto
  then have "y = x" "P x" using distinct_map_eqD[OF assms(1)] assms(2) by auto
  with Some show ?thesis by simp
qed

lemma sweepBlocked_store:
  assumes "distinct (map run_id (runs st))"
  shows "fst (sweepBlocked now random st) = st\<lparr>runs := map (planned_row now random st) (runs st)\<rparr>"
proof -
  let ?rs = "filter (\<lambda>r. run_status r = Run_blocked) (runs st)"
  have "fst (sweepBlocked now random st) = foldl (\<lambda>s r. plan_if (new_plan now random st) r s) st ?rs"
    unfolding sweepBlocked_def Let_def loadBlockedRuns_def by (subst foldl_park_fst) auto
  also have "\<dots> = st\<lparr>runs := map (apply_plans (new_plan now random st) ?rs) (runs st)\<rparr>"
    by (rule foldl_plan_if) (rule distinct_map_filter[OF assms])
  also have "map (apply_plans (new_plan now random st) ?rs) (runs st) = map (planned_row now random st) (runs st)"
    by (rule map_cong[OF refl])
       (simp add: apply_plans_def find_by_id[OF assms] planned_row_def new_plan_def)
  finally show ?thesis .
qed

lemma sweep_store: "fst (sweep now random st) = fst (sweepBlocked now random st)"
  by (simp add: sweep_def Let_def split: prod.split)

lemma planned_row_sel [simp]:
  "run_id (planned_row now random st r) = run_id r"
  "run_status (planned_row now random st r) = run_status r"
  "run_costUsd (planned_row now random st r) = run_costUsd r"
  "run_tokensInput (planned_row now random st r) = run_tokensInput r"
  "run_tokensOutput (planned_row now random st r) = run_tokensOutput r"
  "run_lastEventAt (planned_row now random st r) = run_lastEventAt r"
  "run_startedAt (planned_row now random st r) = run_startedAt r"
  by (simp_all add: planned_row_def split: option.split)

lemma planned_row_resumesAt:
  "run_resumesAt (planned_row now random st r) =
     (case new_plan now random st r of None \<Rightarrow> run_resumesAt r | Some p \<Rightarrow> Some p)"
  by (simp add: planned_row_def split: option.split)

text \<open>A plan written by a sweep answers a reported reset, and is not before it.\<close>

lemma new_plan_SomeD:
  assumes "new_plan now random st r = Some plan" "0 \<le> random (run_id r)" "random (run_id r) < 1"
  obtains e reset where "e \<in> set (events st)" "ev_runId e = run_id r" "ev_type e = ''run_blocked''"
    "ev_blockedUntil e = Some reset" "reset \<le> plan" "plan < reset + 600000"
    "run_status r = Run_blocked"
proof -
  obtain why where s: "run_status r = Run_blocked"
    and d: "decideParking (to_blocked_run st r) now (random (run_id r)) = Park plan why"
    using assms(1) by (auto simp: new_plan_def split: if_splits parking_decision.splits)
  from d obtain reset where reset: "resetAt (to_blocked_run st r) = Some reset"
    "plan = reset + jitterFor reset (blockedSince (to_blocked_run st r)) (random (run_id r))"
    by (rule decideParking_ParkD)
  from reset(1) obtain e where "newest_event (run_id r) (\<lambda>e. ev_type e = ''run_blocked'') st = Some e"
    "ev_blockedUntil e = Some reset"
    by (auto simp: to_blocked_run_def Let_def bind_eq_Some_conv)
  with newest_event_SomeD[OF this(1)] s reset(2) jitterFor_bounds[OF assms(2,3)] that show ?thesis by simp
qed

subsection \<open>What a sweep orders\<close>

lemma park_step_actions:
  "ps_actions (snd (park_step now random acc run)) =
     ps_actions (snd acc) @ actionsForParking run (decideParking run now (random (br_runId run)))"
  by (cases acc) (simp add: park_step_def Let_def split: parking_decision.split)

lemma foldl_park_actions:
  "ps_actions (snd (foldl (park_step now random) acc rs)) =
     ps_actions (snd acc) @ concat (map (\<lambda>run. actionsForParking run
       (decideParking run now (random (br_runId run)))) rs)"
  by (induction rs arbitrary: acc) (simp_all add: park_step_actions)

definition loop_actions :: "run_store \<Rightarrow> string set \<Rightarrow> watched_run_state \<Rightarrow> reconcile_action list" where
  "loop_actions st silentIds run =
    (if wr_runId run \<in> silentIds then []
     else case detectLoop (wr_fidelity run) (loadToolObservations (wr_runId run) st) None None of
            None \<Rightarrow> [] | Some l \<Rightarrow> if lv_available l \<and> looping l then actionsForLoop l run else [])"

lemma loop_step_actions:
  "snd (snd (loop_step st ids acc run)) = snd (snd acc) @ loop_actions st ids run"
  by (cases acc) (simp add: loop_step_def loop_actions_def split: option.split)

lemma foldl_loop_actions:
  "snd (snd (foldl (loop_step st ids) acc live)) = snd (snd acc) @ concat (map (loop_actions st ids) live)"
  by (induction live arbitrary: acc) (simp_all add: loop_step_actions)

lemma sweep_actions:
  "sw_actions (snd (sweep now random st)) =
     concat (map actionsForSilence (detectSilentRuns (loadLiveRuns st) now)) @
     concat (map (loop_actions st (set (map sv_runId (detectSilentRuns (loadLiveRuns st) now)))) (loadLiveRuns st)) @
     concat (map (\<lambda>run. actionsForParking run (decideParking run now (random (br_runId run)))) (loadBlockedRuns st))"
proof -
  let ?v = "detectSilentRuns (loadLiveRuns st) now"
  obtain l u as where f: "foldl (loop_step st (set (map sv_runId ?v))) (0, 0, concat (map actionsForSilence ?v))
      (loadLiveRuns st) = (l, u, as)" by (metis prod_cases3)
  then have "as = concat (map actionsForSilence ?v) @ concat (map (loop_actions st (set (map sv_runId ?v))) (loadLiveRuns st))"
    using foldl_loop_actions[of st "set (map sv_runId ?v)" "(0, 0, concat (map actionsForSilence ?v))" "loadLiveRuns st"]
    by simp
  moreover obtain st1 p where s: "sweepBlocked now random st = (st1, p)" by (cases "sweepBlocked now random st")
  then have "ps_actions p = concat (map (\<lambda>run. actionsForParking run (decideParking run now (random (br_runId run))))
      (loadBlockedRuns st))"
    using foldl_park_actions[of now random _ "loadBlockedRuns st"]
    by (simp add: sweepBlocked_def Let_def) (metis (no_types, lifting) append_Nil parking_sweep.select_convs(4) snd_conv)
  ultimately show ?thesis
    unfolding sweep_def Let_def f s prod.case snd_conv sweep_result.select_convs by simp
qed

lemma parking_action_types:
  "a \<in> set (actionsForParking run d) \<Longrightarrow> act_type a \<in> {Act_park, Act_resume, Act_escalate}"
  by (auto simp: actionsForParking_def Let_def split: parking_decision.splits)

lemma silence_action_iff:
  "(\<exists>a \<in> set (actionsForSilence v). act_type a = Act_kill_and_re_run \<and> act_runId a = Some rid) \<longleftrightarrow> sv_runId v = rid"
  "\<not> (\<exists>a \<in> set (actionsForSilence v). act_type a = Act_kill_and_re_plan)"
  by (auto simp: actionsForSilence_def Let_def)

lemma loop_action_iff:
  "(\<exists>a \<in> set (actionsForLoop l run). act_type a = Act_kill_and_re_plan \<and> act_runId a = Some rid) \<longleftrightarrow> wr_runId run = rid"
  "\<not> (\<exists>a \<in> set (actionsForLoop l run). act_type a = Act_kill_and_re_run)"
  by (auto simp: actionsForLoop_def Let_def)

lemma looping_available: "detectLoop f obs a b = Some l \<Longrightarrow> looping l \<Longrightarrow> lv_available l"
  by (auto simp: detectLoop_def Let_def split: if_splits prod.splits)

lemma silent_ids:
  "set (map sv_runId (detectSilentRuns (loadLiveRuns st) now)) =
     run_id ` {r \<in> set (runs st). is_silent now (to_watched_run st r)}"
  unfolding detectSilentRuns_eq loadLiveRuns_def filter_map map_map
  by (auto simp: o_def is_silent_def)

end
