(* ===== verification/Watchdog_Properties.thy ===== *)
theory Watchdog_Properties
  imports Watchdog_Sweep
begin

text \<open>
  The properties of supervision: which runs are silent, which are looping, when a blocked run is
  parked and woken, what a sweep may write and order, and the invariant that ingestion and sweeps
  keep in whatever order they run.
\<close>

section \<open>Silence\<close>

text \<open>The silence check reports exactly the running and stalled runs whose last event, or start
  when there is none, is further back than the threshold of the runner's declared fidelity, in
  their order; the threshold is at least 90 seconds and at most 90 minutes, and an undeclared
  fidelity is given the longest one.\<close>
theorem silent_runs_exactly:
  "map sv_runId (detectSilentRuns rs now) =
     map wr_runId (filter (\<lambda>r. wr_status r \<in> {Run_running, Run_stalled} \<and>
       now - get_or (wr_startedAt r) (wr_lastEventAt r) > thresholdFor (wr_fidelity r)) rs) \<and>
   90000 \<le> thresholdFor f \<and> thresholdFor f \<le> thresholdFor None \<and> thresholdFor None = 5400000"
proof -
  have "thresholdFor None = 5400000" by (simp add: thresholdFor_def UNDECLARED_THRESHOLD_MS_def)
  then show ?thesis
    using thresholdFor_bounds[of f] detectSilentRuns_eq[of rs now]
    unfolding is_silent_def[abs_def] last_sign_of_life_def by simp
qed

section \<open>Loops\<close>

text \<open>A loop is called only on evidence the runner can give. Without full streaming the check is
  unavailable, never passing. With it, a run is looping exactly when the newest observations,
  \<open>threshold\<close> of them within the window, all carry one signature; and then the repetition is
  dated by the oldest observation of that unbroken streak.\<close>
theorem looping_exactly:
  assumes "detectLoop fidelity obs rep_opt win_opt = Some v" "0 < get_or DEFAULT_LOOP_REPEATS rep_opt"
  shows "(lv_available v \<longleftrightarrow> fidelity = Some Fidelity_full) \<and>
    (looping v \<longleftrightarrow> fidelity = Some Fidelity_full \<and>
       uniform_tail (nat (get_or DEFAULT_LOOP_REPEATS rep_opt))
         (last_n (get_or DEFAULT_LOOP_WINDOW win_opt) obs)) \<and>
    (looping v \<longrightarrow> startedRepeatingAt v = Some (to_occurredAt (last (takeWhile
       (\<lambda>ob. to_signature ob = to_signature (last (last_n (get_or DEFAULT_LOOP_WINDOW win_opt) obs)))
       (rev (last_n (get_or DEFAULT_LOOP_WINDOW win_opt) obs))))))"
proof (cases "fidelity = Some Fidelity_full")
  case False
  with assms(1) show ?thesis by (auto simp: detectLoop_def)
next
  case True
  define k where "k = get_or DEFAULT_LOOP_REPEATS rep_opt"
  define w where "w = last_n (get_or DEFAULT_LOOP_WINDOW win_opt) obs"
  let ?s = "takeWhile (\<lambda>ob. to_signature ob = to_signature (last w)) (rev w)"
  have k: "0 < k" using assms(2) by (simp add: k_def)
  have streak: "k \<le> int (length ?s) \<longleftrightarrow> uniform_tail (nat k) w"
    using streak_ge_iff[of "nat k" w] k by (simp add: nat_le_iff)
  have short: "\<not> uniform_tail (nat k) w" if "int (length w) < k"
    using that by (simp add: uniform_tail_def nat_le_iff)
  from assms(1) True have v: "v = (if int (length w) < k
      then \<lparr>lv_available = True, looping = False, lv_signature = None, repeats = int (length w),
            startedRepeatingAt = None, lv_reason = Too_few_events (int (length w)) k\<rparr>
      else if int (length ?s) < k
      then \<lparr>lv_available = True, looping = False, lv_signature = None, repeats = int (length ?s),
            startedRepeatingAt = None, lv_reason = Below_threshold (int (length ?s)) k\<rparr>
      else \<lparr>lv_available = True, looping = True, lv_signature = Some (to_signature (last w)),
            repeats = int (length ?s),
            startedRepeatingAt = (if ?s = [] then None else Some (to_occurredAt (last ?s))),
            lv_reason = Looping (to_signature (last w)) (int (length ?s)) k\<rparr>)"
    unfolding detectLoop_def Let_def k_def[symmetric] w_def[symmetric] count_streak_eq
    by (auto split: if_splits)
  have "?s \<noteq> []" if "k \<le> int (length ?s)" using that k by auto
  then show ?thesis
    unfolding k_def[symmetric] w_def[symmetric] using v True short streak by (auto split: if_splits)
qed

definition sample_obs :: "string \<Rightarrow> tool_observation" where
  "sample_obs s = \<lparr>to_signature = s, to_occurredAt = 3\<rparr>"

lemma looping_exactly_witness:
  "map_option looping (detectLoop (Some Fidelity_full) (replicate 7 (sample_obs ''x'')) None None) = Some True"
proof -
  obtain v where v: "detectLoop (Some Fidelity_full) (replicate 7 (sample_obs ''x'')) None None = Some v"
    using detectLoop_default by blast
  have "last_n 40 (replicate 7 (sample_obs ''x'')) = replicate 7 (sample_obs ''x'')"
    by (simp add: last_n_def)
  then have "looping v"
    using looping_exactly[OF v]
    by (simp add: DEFAULT_LOOP_REPEATS_def DEFAULT_LOOP_WINDOW_def uniform_tail_def sample_obs_def)
  with v show ?thesis by simp
qed

section \<open>Parking\<close>

text \<open>A plan is never before the reset it answers, and less than ten minutes after it; a run is
  resumed only at or after its plan, and only when no later reset has overtaken it. The jitter may
  be zero: for the random number 0 the plan is the reset itself.\<close>
theorem parked_past_the_reset:
  assumes "0 \<le> u" "u < 1"
  shows "(\<forall>plan why. decideParking run now u = Park plan why \<longrightarrow>
      (\<exists>reset. resetAt run = Some reset \<and> reset \<le> plan \<and> plan < reset + 600000)) \<and>
    (\<forall>why. decideParking run now u = Resume why \<longrightarrow>
      (\<exists>plan. resumesAt run = Some plan \<and> plan \<le> now \<and> (\<forall>reset. resetAt run = Some reset \<longrightarrow> reset \<le> plan))) \<and>
    (\<forall>plan why. decideParking run now 0 = Park plan why \<longrightarrow> resetAt run = Some plan)"
proof (intro conjI allI impI)
  fix plan why assume "decideParking run now u = Park plan why"
  then show "\<exists>reset. resetAt run = Some reset \<and> reset \<le> plan \<and> plan < reset + 600000"
    using jitterFor_bounds[OF assms] by (elim decideParking_ParkD) auto
next
  fix why assume "decideParking run now u = Resume why"
  then show "\<exists>plan. resumesAt run = Some plan \<and> plan \<le> now \<and> (\<forall>reset. resetAt run = Some reset \<longrightarrow> reset \<le> plan)"
    by (elim decideParking_ResumeD) (auto simp: superseded_iff)
next
  fix plan why assume "decideParking run now 0 = Park plan why"
  then show "resetAt run = Some plan"
    by (elim decideParking_ParkD) (auto simp: jitterFor_def Let_def)
qed

definition sample_blocked :: blocked_run_state where
  "sample_blocked = \<lparr>br_runId = ''r1'', br_workOrderIdentity = ''wo'', br_repository = ''o/r'',
     br_issueNumber = 1, blockedSince = 0, resetAt = Some 1000000, br_reason = None, resumesAt = None\<rparr>"

lemma sample_blocked_parks: "decideParking sample_blocked 5 0 = Park 1000000
    (Park_plan False ''wo'' 1000000 None 1000000 None 0)"
  by (simp add: decideParking_def park_unplanned_def sample_blocked_def jitterFor_def superseded_def Let_def
      math_round_of_int[of 0, simplified])

lemma parked_past_the_reset_witness:
  "resetAt sample_blocked = Some 1000000 \<and>
   decideParking sample_blocked 5 0 = Park 1000000 (Park_plan False ''wo'' 1000000 None 1000000 None 0)"
  using parked_past_the_reset[of 0 sample_blocked 5] sample_blocked_parks by auto

text \<open>A plan, once made, is kept. Whatever the clock and the random numbers of later ticks, a run
  parked under a plan waits until the plan's instant and is resumed from it on, unless a later
  reset arrives: the jitter never moves the plan.\<close>
theorem plan_is_kept_until_due:
  assumes "decideParking run now u = Park plan why" "0 \<le> u" "u < 1"
  shows "decideParking (run\<lparr>resumesAt := Some plan\<rparr>) later u' =
    (if plan > later then Waiting (Parked_until plan (br_reason run))
     else Resume (Resume_due (br_workOrderIdentity run) plan))"
proof -
  obtain reset where "resetAt run = Some reset" "reset \<le> plan"
    using assms(1) jitterFor_bounds[OF assms(2,3)] by (elim decideParking_ParkD) auto
  then have "\<not> superseded (run\<lparr>resumesAt := Some plan\<rparr>)" by (auto simp: superseded_iff)
  then show ?thesis by (simp add: decideParking_def)
qed

lemma plan_is_kept_until_due_witness:
  "decideParking (sample_blocked\<lparr>resumesAt := Some 1000000\<rparr>) 1000001 (1/2) = Resume (Resume_due ''wo'' 1000000)"
  using plan_is_kept_until_due[OF sample_blocked_parks, of 1000001 "1/2"] by (simp add: sample_blocked_def)

section \<open>The sweep\<close>

text \<open>a sweep writes nothing but resume plans, and only on blocked runs; and after it every blocked
  run whose newest block is dated has a plan, not before that date.\<close>
theorem sweep_writes_only_plans:
  assumes "distinct (map run_id (runs st))" "\<And>k. 0 \<le> random k \<and> random k < 1" "i < length (runs st)"
  shows "events (fst (sweep now random st)) = events st \<and> attempts (fst (sweep now random st)) = attempts st \<and>
    length (runs (fst (sweep now random st))) = length (runs st) \<and>
    (let r = runs st ! i; r' = runs (fst (sweep now random st)) ! i in
       r' = r\<lparr>run_resumesAt := run_resumesAt r'\<rparr> \<and>
       (run_status r \<noteq> Run_blocked \<longrightarrow> r' = r) \<and>
       (\<forall>reset. run_status r = Run_blocked \<longrightarrow> resetAt (to_blocked_run st r) = Some reset \<longrightarrow>
          (\<exists>plan. run_resumesAt r' = Some plan \<and> reset \<le> plan)))"
proof -
  define r where "r = runs st ! i"
  have row: "runs (fst (sweep now random st)) ! i = planned_row now random st r"
    using assms(1,3) by (simp add: sweep_store sweepBlocked_store r_def)
  have "\<exists>plan. run_resumesAt (planned_row now random st r) = Some plan \<and> reset \<le> plan"
    if b: "run_status r = Run_blocked" "resetAt (to_blocked_run st r) = Some reset" for reset
  proof (cases "new_plan now random st r")
    case None
    then have "\<exists>plan. run_resumesAt r = Some plan \<and> reset \<le> plan"
      using b by (auto simp: new_plan_def decideParking_def park_unplanned_def superseded_def Let_def
          split: option.splits if_splits)
    with None show ?thesis by (simp add: planned_row_def)
  next
    case (Some plan)
    with b obtain why where "decideParking (to_blocked_run st r) now (random (run_id r)) = Park plan why"
      by (auto simp: new_plan_def split: parking_decision.splits)
    then have "reset \<le> plan"
      using b(2) assms(2)[of "run_id r"] jitterFor_bounds by (elim decideParking_ParkD) auto
    with Some show ?thesis by (simp add: planned_row_def)
  qed
  moreover have "planned_row now random st r = r\<lparr>run_resumesAt := run_resumesAt (planned_row now random st r)\<rparr>"
    by (simp add: planned_row_def split: option.split)
  moreover have "planned_row now random st r = r" if "run_status r \<noteq> Run_blocked"
    using that by (simp add: planned_row_def new_plan_def)
  ultimately show ?thesis
    using assms(1) unfolding Let_def row r_def[symmetric] by (simp add: sweep_store sweepBlocked_store)
qed

definition watch_run :: "string \<Rightarrow> run_status \<Rightarrow> run_row" where
  "watch_run rid s =
     \<lparr>run_id = rid, run_runnerKey = ''k'', run_workOrder = \<lparr>wo_identity = ''wo'', wo_repository = ''o/r'',
        wo_issueNumber = 1, wo_branch = '''', wo_budgetCeilingUsd = None\<rparr>,
      run_capability = None, run_status = s, run_runnerVersion = ''1'', run_attemptCount = 1, run_startedAt = 0,
      run_endedAt = None, run_lastEventAt = None, run_resumesAt = None, run_attentionReason = None,
      run_costUsd = None, run_tokensInput = None, run_tokensOutput = None, run_headCommit = None,
      run_pullRequestUrl = None, run_pullRequestNumber = None\<rparr>"

definition watch_store :: run_store where
  "watch_store = \<lparr>runs = [watch_run ''r1'' Run_running, watch_run ''r2'' Run_blocked],
     events = [\<lparr>ev_runId = ''r2'', ev_externalId = ''e'', ev_type = ''run_blocked'', ev_source = Source_runner,
       ev_occurredAt = 1, ev_summary = '''', ev_toolSignature = None, ev_blockedReason = Some ''rate-limit'',
       ev_blockedUntil = Some 900, ev_costUsd = None, ev_tokensInput = None, ev_tokensOutput = None,
       ev_traceId = '''', ev_spanId = ''''\<rparr>], attempts = []\<rparr>"

lemma sweep_writes_only_plans_witness:
  "\<exists>plan. run_resumesAt (runs (fst (sweep 2 (\<lambda>k. 1/2) watch_store)) ! 1) = Some plan \<and> 900 \<le> plan"
proof -
  have "distinct (map run_id (runs watch_store))" "1 < length (runs watch_store)"
    by (simp_all add: watch_store_def watch_run_def)
  moreover have "run_status (runs watch_store ! 1) = Run_blocked"
    "resetAt (to_blocked_run watch_store (runs watch_store ! 1)) = Some 900"
    by (simp_all add: watch_store_def watch_run_def to_blocked_run_def newest_event_def newest_first_def)
  ultimately show ?thesis
    using sweep_writes_only_plans[of watch_store "\<lambda>k. 1/2" 1 2] by (simp add: Let_def)
qed

lemma mem_concat_actions:
  "(\<exists>a \<in> set (concat (map f xs)). P a) \<longleftrightarrow> (\<exists>x \<in> set xs. \<exists>a \<in> set (f x). P a)"
  by auto

lemma silence_orders:
  "(\<exists>a \<in> set (concat (map actionsForSilence (detectSilentRuns (loadLiveRuns st) now))).
      act_type a = Act_kill_and_re_run \<and> act_runId a = Some rid) \<longleftrightarrow>
   (\<exists>r \<in> set (runs st). run_id r = rid \<and> is_silent now (to_watched_run st r))"
proof -
  have "(\<exists>v \<in> set (detectSilentRuns (loadLiveRuns st) now). sv_runId v = rid) \<longleftrightarrow>
      rid \<in> set (map sv_runId (detectSilentRuns (loadLiveRuns st) now))" by auto
  moreover have "rid \<in> run_id ` {r \<in> set (runs st). is_silent now (to_watched_run st r)} \<longleftrightarrow>
      (\<exists>r \<in> set (runs st). run_id r = rid \<and> is_silent now (to_watched_run st r))" by auto
  ultimately show ?thesis by (simp only: mem_concat_actions silence_action_iff(1) silent_ids)
qed

lemma loop_actions_iff:
  "(\<exists>a \<in> set (loop_actions st ids run). act_type a = Act_kill_and_re_plan \<and> act_runId a = Some rid) \<longleftrightarrow>
     wr_runId run = rid \<and> rid \<notin> ids \<and>
     (\<exists>l. detectLoop (wr_fidelity run) (loadToolObservations rid st) None None = Some l \<and> looping l)"
proof (cases "detectLoop (wr_fidelity run) (loadToolObservations (wr_runId run) st) None None")
  case None
  then show ?thesis by (auto simp: loop_actions_def)
next
  case (Some l)
  have "lv_available l \<and> looping l \<longleftrightarrow> looping l" using looping_available[OF Some] by blast
  then have "loop_actions st ids run =
      (if wr_runId run \<notin> ids \<and> looping l then actionsForLoop l run else [])"
    by (auto simp: loop_actions_def Some)
  then show ?thesis using loop_action_iff(1)[of l run rid] Some by (cases "wr_runId run = rid") auto
qed

text \<open>what a sweep orders killed. A run is ordered killed and re-run exactly when it is silent, and
  killed and re-planned exactly when it is live, not silent and looping, so never both; a blocked
  run, or any other that is not running or stalled, is never ordered killed.\<close>
theorem sweep_kills_exactly:
  assumes "distinct (map run_id (runs st))"
  shows "((\<exists>a \<in> set (sw_actions (snd (sweep now random st))).
       act_type a = Act_kill_and_re_run \<and> act_runId a = Some rid) \<longleftrightarrow>
     (\<exists>r \<in> set (runs st). run_id r = rid \<and> is_silent now (to_watched_run st r))) \<and>
   ((\<exists>a \<in> set (sw_actions (snd (sweep now random st))).
       act_type a = Act_kill_and_re_plan \<and> act_runId a = Some rid) \<longleftrightarrow>
     (\<exists>r \<in> set (runs st). run_id r = rid \<and> run_status r \<in> {Run_running, Run_stalled} \<and>
        \<not> is_silent now (to_watched_run st r) \<and>
        (\<exists>l. detectLoop (map_option fst (run_capability r)) (loadToolObservations rid st) None None = Some l \<and>
             looping l)))"
proof -
  let ?v = "detectSilentRuns (loadLiveRuns st) now"
  let ?ids = "set (map sv_runId ?v)"
  let ?sil = "concat (map actionsForSilence ?v)" and ?loop = "concat (map (loop_actions st ?ids) (loadLiveRuns st))"
  let ?park = "concat (map (\<lambda>run. actionsForParking run (decideParking run now (random (br_runId run)))) (loadBlockedRuns st))"
  have park: "\<not> (\<exists>a \<in> set ?park. act_type a = Act_kill_and_re_run \<and> act_runId a = Some rid)"
    "\<not> (\<exists>a \<in> set ?park. act_type a = Act_kill_and_re_plan \<and> act_runId a = Some rid)"
    unfolding mem_concat_actions using parking_action_types by fastforce+
  have sil: "\<not> (\<exists>a \<in> set ?sil. act_type a = Act_kill_and_re_plan \<and> act_runId a = Some rid)"
    unfolding mem_concat_actions using silence_action_iff(2) by blast
  have "\<not> (\<exists>a \<in> set (loop_actions st ?ids run). act_type a = Act_kill_and_re_run \<and> act_runId a = Some rid)" for run
    using loop_action_iff(2) by (auto simp: loop_actions_def split: option.split)
  then have loop: "\<not> (\<exists>a \<in> set ?loop. act_type a = Act_kill_and_re_run \<and> act_runId a = Some rid)"
    unfolding mem_concat_actions by blast
  have silent: "rid \<in> ?ids \<longleftrightarrow> is_silent now (to_watched_run st r)"
    if "r \<in> set (runs st)" "run_id r = rid" for r
    unfolding silent_ids using that distinct_map_eqD[OF assms] by blast
  have "(\<exists>a \<in> set ?loop. act_type a = Act_kill_and_re_plan \<and> act_runId a = Some rid) \<longleftrightarrow>
      (\<exists>r \<in> set (runs st). run_id r = rid \<and> run_status r \<in> {Run_running, Run_stalled} \<and> rid \<notin> ?ids \<and>
        (\<exists>l. detectLoop (map_option fst (run_capability r)) (loadToolObservations rid st) None None = Some l \<and>
             looping l))"
    unfolding mem_concat_actions loop_actions_iff by (auto simp: loadLiveRuns_def to_watched_run_def)
  then have replan: "(\<exists>a \<in> set ?loop. act_type a = Act_kill_and_re_plan \<and> act_runId a = Some rid) \<longleftrightarrow>
      (\<exists>r \<in> set (runs st). run_id r = rid \<and> run_status r \<in> {Run_running, Run_stalled} \<and>
        \<not> is_silent now (to_watched_run st r) \<and>
        (\<exists>l. detectLoop (map_option fst (run_capability r)) (loadToolObservations rid st) None None = Some l \<and>
             looping l))"
    using silent by blast
  have split3: "(\<exists>a \<in> set (sw_actions (snd (sweep now random st))). P a) \<longleftrightarrow>
      (\<exists>a \<in> set ?sil. P a) \<or> (\<exists>a \<in> set ?loop. P a) \<or> (\<exists>a \<in> set ?park. P a)" for P
    unfolding sweep_actions set_append bex_Un ..
  show ?thesis
    unfolding split3 silence_orders replan using park sil loop by blast
qed

lemma sweep_kills_exactly_witness:
  "\<exists>a \<in> set (sw_actions (snd (sweep 6000000 (\<lambda>k. 1/2) watch_store))).
     act_type a = Act_kill_and_re_run \<and> act_runId a = Some ''r1''"
proof -
  have "distinct (map run_id (runs watch_store))" by (simp add: watch_store_def watch_run_def)
  moreover have "watch_run ''r1'' Run_running \<in> set (runs watch_store)"
    "run_id (watch_run ''r1'' Run_running) = ''r1''"
    "is_silent 6000000 (to_watched_run watch_store (watch_run ''r1'' Run_running))"
    by (simp_all add: watch_store_def watch_run_def to_watched_run_def is_silent_def last_sign_of_life_def
        thresholdFor_def UNDECLARED_THRESHOLD_MS_def)
  ultimately show ?thesis
    using sweep_kills_exactly[of watch_store 6000000 "\<lambda>k. 1/2" "''r1''"] by blast
qed

section \<open>The system\<close>

text \<open>
  What happens to the tables: deliveries and sweeps, in any order. The validator is sound for the
  schema's \<open>minimum: 0\<close>, and the generator's numbers are in \<open>[0, 1)\<close>.
\<close>

inductive control_step :: "(json \<Rightarrow> validation_failure list + event_payload)
    \<Rightarrow> (event_payload \<Rightarrow> string \<times> string) \<Rightarrow> run_store \<Rightarrow> run_store \<Rightarrow> bool"
  for check emit where
  delivery: "control_step check emit st (fst (ingest check emit rid candidates st))"
| tick: "(\<And>k. 0 \<le> random k \<and> random k < 1) \<Longrightarrow>
    control_step check emit st (fst (sweep now random st))"

inductive_cases control_stepE: "control_step check emit st st'"

inductive reachable_store :: "(json \<Rightarrow> validation_failure list + event_payload)
    \<Rightarrow> (event_payload \<Rightarrow> string \<times> string) \<Rightarrow> run_store \<Rightarrow> run_store \<Rightarrow> bool"
  for check emit st0 where
  start: "reachable_store check emit st0 st0"
| more: "reachable_store check emit st0 st \<Longrightarrow> control_step check emit st st' \<Longrightarrow>
    reachable_store check emit st0 st'"

definition plans_backed :: "run_store \<Rightarrow> bool" where
  "plans_backed st \<longleftrightarrow> (\<forall>r \<in> set (runs st). \<forall>plan. run_resumesAt r = Some plan \<longrightarrow>
     (\<exists>e \<in> set (events st). ev_runId e = run_id r \<and> ev_type e = ''run_blocked'' \<and>
        (\<exists>reset. ev_blockedUntil e = Some reset \<and> reset \<le> plan \<and> plan < reset + 600000)))"

definition store_invariant :: "run_store \<Rightarrow> bool" where
  "store_invariant st \<longleftrightarrow> distinct (map run_id (runs st)) \<and> unique_events (events st) \<and>
     totals_match st \<and> plans_backed st"

lemma store_invariant_persist:
  assumes "store_invariant st" "reports_no_negatives es"
  shows "store_invariant (fst (persist emit rid es st))"
proof -
  let ?st' = "fst (persist emit rid es st)"
  have d: "distinct (map run_id (runs st))" using assms(1) by (simp add: store_invariant_def)
  have grown: "set (events st) \<subseteq> set (events ?st')"
    using create_many_append[of "events st" "map (toRow emit rid) es"] by (auto simp: persist_sel)
  have from_before: "\<exists>r \<in> set (runs st). run_id r = run_id r' \<and> run_resumesAt r = Some plan"
    if m: "r' \<in> set (runs ?st')" "run_resumesAt r' = Some plan" for r' plan
  proof -
    obtain r where r: "r \<in> set (runs st)"
      "r' = (if run_id r = rid then advance_row es (totals_of rid ?st') r else r)"
      using m(1) by (auto simp: persist_runs[OF d])
    then have "run_id r = run_id r'" "run_resumesAt r = Some plan"
      using m(2) advance_row_resumesAt[of es "totals_of rid ?st'" r] by (simp_all split: if_splits)
    with r(1) show ?thesis by blast
  qed
  have "plans_backed ?st'"
    unfolding plans_backed_def
  proof (intro ballI allI impI)
    fix r' plan assume "r' \<in> set (runs ?st')" "run_resumesAt r' = Some plan"
    then obtain r where r: "r \<in> set (runs st)" "run_id r = run_id r'" "run_resumesAt r = Some plan"
      using from_before by blast
    have "plans_backed st" using assms(1) by (simp add: store_invariant_def)
    with r show "\<exists>e \<in> set (events ?st'). ev_runId e = run_id r' \<and> ev_type e = ''run_blocked'' \<and>
        (\<exists>reset. ev_blockedUntil e = Some reset \<and> reset \<le> plan \<and> plan < reset + 600000)"
      using grown unfolding plans_backed_def by fastforce
  qed
  then show ?thesis
    using assms d totals_match_persist[OF d] create_many_unique persist_ids[OF d]
    by (simp add: store_invariant_def persist_sel)
qed

lemma store_invariant_sweep:
  assumes "store_invariant st" "\<And>k. 0 \<le> random k \<and> random k < 1"
  shows "store_invariant (fst (sweep now random st))"
proof -
  let ?st' = "st\<lparr>runs := map (planned_row now random st) (runs st)\<rparr>"
  have d: "distinct (map run_id (runs st))" using assms(1) by (simp add: store_invariant_def)
  have ids: "map run_id (runs ?st') = map run_id (runs st)" by simp
  have "plans_backed ?st'"
    unfolding plans_backed_def
  proof (intro ballI allI impI)
    fix r' plan assume "r' \<in> set (runs ?st')" "run_resumesAt r' = Some plan"
    then obtain r where r: "r \<in> set (runs st)" "r' = planned_row now random st r"
      "run_resumesAt (planned_row now random st r) = Some plan" by auto
    show "\<exists>e \<in> set (events ?st'). ev_runId e = run_id r' \<and> ev_type e = ''run_blocked'' \<and>
        (\<exists>reset. ev_blockedUntil e = Some reset \<and> reset \<le> plan \<and> plan < reset + 600000)"
    proof (cases "new_plan now random st r")
      case None
      with r assms(1) show ?thesis
        by (simp add: planned_row_def store_invariant_def plans_backed_def)
    next
      case (Some p)
      with r have "new_plan now random st r = Some plan" by (simp add: planned_row_resumesAt)
      then obtain e reset where "e \<in> set (events st)" "ev_runId e = run_id r" "ev_type e = ''run_blocked''"
        "ev_blockedUntil e = Some reset" "reset \<le> plan" "plan < reset + 600000"
        using assms(2) by (elim new_plan_SomeD) auto
      then show ?thesis using r(2) by auto
    qed
  qed
  moreover have "totals_match ?st'"
    using assms(1) by (simp add: store_invariant_def totals_match_def)
  ultimately have "store_invariant ?st'" using assms(1) ids unfolding store_invariant_def by (simp add: o_def)
  then show ?thesis by (simp add: sweep_store sweepBlocked_store[OF d])
qed

lemma store_invariant_ingest:
  assumes "store_invariant st" "\<And>c e. check c = Inr e \<Longrightarrow> reports_no_negatives [e]"
  shows "store_invariant (fst (ingest check emit rid candidates st))"
proof (cases "ingest check emit rid candidates st")
  case (Pair st' result)
  show ?thesis
  proof (cases result)
    case (Inl err)
    with Pair have "st' = st" using ingest_InlD by metis
    with Pair assms(1) show ?thesis by simp
  next
    case (Inr res)
    with Pair obtain es where es: "map check candidates = map Inr es" "persist emit rid es st = (st', res)"
      by (metis ingest_InrD)
    have "reports_no_negatives [e]" if "e \<in> set es" for e
    proof -
      have "Inr e \<in> set (map check candidates)" using that es(1) by simp
      then show ?thesis using assms(2) by auto
    qed
    then have "reports_no_negatives es" by (simp add: reports_no_negatives_def)
    with store_invariant_persist[OF assms(1), of es emit rid] es(2) Pair show ?thesis by simp
  qed
qed

text \<open>C35: whatever deliveries and watchdog ticks happen, in whatever order, run ids stay unique, no
  event is stored twice, every run's totals are the sums of its stored events, and every resume
  plan is backed by a reset the run's own blocked event reported: not before it, and less than ten
  minutes after it.\<close>
theorem system_keeps_its_books:
  assumes "reachable_store check emit st0 st" "store_invariant st0"
    "\<And>c e. check c = Inr e \<Longrightarrow> reports_no_negatives [e]"
  shows "distinct (map run_id (runs st)) \<and> unique_events (events st) \<and> totals_match st \<and>
    (\<forall>r \<in> set (runs st). \<forall>plan. run_resumesAt r = Some plan \<longrightarrow>
      (\<exists>e \<in> set (events st). ev_runId e = run_id r \<and> ev_type e = ''run_blocked'' \<and>
        (\<exists>reset. ev_blockedUntil e = Some reset \<and> reset \<le> plan \<and> plan < reset + 600000)))"
proof -
  have "store_invariant st"
    using assms(1)
  proof (induction rule: reachable_store.induct)
    case start
    show ?case by (rule assms(2))
  next
    case (more st st')
    from more.hyps(2) show ?case
      by (cases rule: control_stepE)
         (auto intro: store_invariant_ingest store_invariant_sweep more.IH assms(3))
  qed
  then show ?thesis by (simp add: store_invariant_def plans_backed_def)
qed

definition no_check :: "json \<Rightarrow> validation_failure list + event_payload" where
  "no_check c = Inl []"

definition no_emit :: "event_payload \<Rightarrow> string \<times> string" where
  "no_emit e = ('''', '''')"

lemma system_keeps_its_books_witness:
  "distinct (map run_id (runs (fst (sweep 2 (\<lambda>k. 1/2) watch_store)))) \<and>
   totals_match (fst (sweep 2 (\<lambda>k. 1/2) watch_store))"
proof -
  have "reachable_store no_check no_emit watch_store (fst (sweep 2 (\<lambda>k. 1/2) watch_store))"
    by (rule reachable_store.more[OF reachable_store.start]) (rule control_step.tick, simp)
  moreover have "store_invariant watch_store"
    by (simp add: store_invariant_def watch_store_def watch_run_def unique_events_def totals_match_def
        totals_of_def run_events_of_def sum_column_def List.map_filter_def plans_backed_def Let_def)
  moreover have "reports_no_negatives [e]" if "no_check c = Inr e" for c e
    using that by (simp add: no_check_def)
  ultimately show ?thesis using system_keeps_its_books by blast
qed

end
