(* ===== verification/Js_Text.thy ===== *)
theory Js_Text
  imports Opifex_Prelude
begin

text \<open>
  The text primitives of the modelled TypeScript: \<open>trim\<close>, the decimal digits of a number and back,
  and regular expressions. A pattern is its backtracking semantics: from a cursor it gives the
  cursors it may end in, in the order the matcher tries them, so the first is the match. A cursor is
  what was read (newest first), what is left, and the groups captured so far; text is ASCII, so the
  line terminators are the line feed and the carriage return.
\<close>

section \<open>Characters and digits\<close>

definition js_space :: "char \<Rightarrow> bool" where
  "js_space c \<longleftrightarrow> c = CHR '' '' \<or> (CHR 0x09 \<le> c \<and> c \<le> CHR 0x0D)"

definition js_trim :: "string \<Rightarrow> string" where
  "js_trim s = rev (dropWhile js_space (rev (dropWhile js_space s)))"

definition digit :: "char \<Rightarrow> bool" where
  "digit c \<longleftrightarrow> CHR ''0'' \<le> c \<and> c \<le> CHR ''9''"

definition digit_value :: "char \<Rightarrow> int" where
  "digit_value c =
    (if digit c then of_char c - 48
     else if CHR ''a'' \<le> c \<and> c \<le> CHR ''f'' then of_char c - 87
     else if CHR ''A'' \<le> c \<and> c \<le> CHR ''F'' then of_char c - 55 else 99)"

definition digits_value :: "int \<Rightarrow> string \<Rightarrow> int" where
  "digits_value base ds = foldl (\<lambda>n c. base * n + digit_value c) 0 ds"

text \<open>A natural number in a template string.\<close>

fun decimal :: "nat \<Rightarrow> string" where
  "decimal n = (if n < 10 then [char_of (48 + n)] else decimal (n div 10) @ [char_of (48 + n mod 10)])"

declare decimal.simps [simp del]

definition line_end :: "char \<Rightarrow> bool" where
  "line_end c \<longleftrightarrow> c = CHR 0x0A \<or> c = CHR 0x0D"

definition lower_letter :: "char \<Rightarrow> bool" where
  "lower_letter c \<longleftrightarrow> CHR ''a'' \<le> c \<and> c \<le> CHR ''z''"

definition word_char :: "char \<Rightarrow> bool" where
  "word_char c \<longleftrightarrow> digit c \<or> lower_letter (lower_char c) \<or> c = CHR ''_''"

section \<open>Patterns\<close>

type_synonym cursor = "string \<times> string \<times> string list"
type_synonym pattern = "cursor \<Rightarrow> cursor list"

fun one :: "(char \<Rightarrow> bool) \<Rightarrow> pattern" where
  "one P (b, [], g) = []"
| "one P (b, c # a, g) = (if P c then [(c # b, a, g)] else [])"

text \<open>\<open>P*\<close>, greedy: the longest first.\<close>

fun many_from :: "(char \<Rightarrow> bool) \<Rightarrow> string \<Rightarrow> string \<Rightarrow> string list \<Rightarrow> cursor list" where
  "many_from P b [] g = [(b, [], g)]"
| "many_from P b (c # a) g = (if P c then many_from P (c # b) a g @ [(b, c # a, g)] else [(b, c # a, g)])"

definition many :: "(char \<Rightarrow> bool) \<Rightarrow> pattern" where
  "many P = (\<lambda>(b, a, g). many_from P b a g)"

fun seqs :: "pattern list \<Rightarrow> pattern" where
  "seqs [] cur = [cur]"
| "seqs (r # rs) cur = concat (map (seqs rs) (r cur))"

definition many1 :: "(char \<Rightarrow> bool) \<Rightarrow> pattern" where
  "many1 P = seqs [one P, many P]"

text \<open>\<open>P{m}\<close> and \<open>P{m,n}\<close>\<close>

definition exactly :: "nat \<Rightarrow> (char \<Rightarrow> bool) \<Rightarrow> pattern" where
  "exactly n P = seqs (replicate n (one P))"

fun up_to :: "nat \<Rightarrow> (char \<Rightarrow> bool) \<Rightarrow> pattern" where
  "up_to 0 P cur = [cur]"
| "up_to (Suc n) P cur = concat (map (up_to n P) (one P cur)) @ [cur]"

definition lit :: "string \<Rightarrow> pattern" where
  "lit s = seqs (map (\<lambda>c. one (\<lambda>d. d = c)) s)"

definition maybe :: "pattern \<Rightarrow> pattern" where
  "maybe r cur = r cur @ [cur]"

definition either :: "pattern \<Rightarrow> pattern \<Rightarrow> pattern" where
  "either r1 r2 cur = r1 cur @ r2 cur"

definition capture :: "pattern \<Rightarrow> pattern" where
  "capture r = (\<lambda>(b, a, g). map (\<lambda>(b', a', g'). (b', a', g' @ [take (length a - length a') a])) (r (b, a, g)))"

text \<open>\<open>^\<close> and \<open>$\<close>, without and with the \<open>m\<close> flag; \<open>.\<close>; and \<open>\b\<close>\<close>

definition at_start :: pattern where
  "at_start = (\<lambda>(b, a, g). if b = [] then [(b, a, g)] else [])"

definition at_end :: pattern where
  "at_end = (\<lambda>(b, a, g). if a = [] then [(b, a, g)] else [])"

definition line_start :: pattern where
  "line_start = (\<lambda>(b, a, g). if b = [] \<or> line_end (hd b) then [(b, a, g)] else [])"

definition line_stop :: pattern where
  "line_stop = (\<lambda>(b, a, g). if a = [] \<or> line_end (hd a) then [(b, a, g)] else [])"

definition dot :: "char \<Rightarrow> bool" where
  "dot c \<longleftrightarrow> \<not> line_end c"

definition word_boundary :: pattern where
  "word_boundary = (\<lambda>(b, a, g).
     if (b \<noteq> [] \<and> word_char (hd b)) \<noteq> (a \<noteq> [] \<and> word_char (hd a)) then [(b, a, g)] else [])"

section \<open>Using a pattern\<close>

text \<open>\<open>r.exec(s)\<close> of a pattern anchored at both ends: its groups.\<close>

definition exec_whole :: "pattern \<Rightarrow> string \<Rightarrow> string list option" where
  "exec_whole r s = (case r ([], s, []) of [] \<Rightarrow> None | (b, a, g) # _ \<Rightarrow> Some g)"

text \<open>\<open>r.test(s)\<close>\<close>

fun search :: "pattern \<Rightarrow> string \<Rightarrow> string \<Rightarrow> bool" where
  "search r b [] = (r (b, [], []) \<noteq> [])"
| "search r b (c # a) = (r (b, c # a, []) \<noteq> [] \<or> search r (c # b) a)"

text \<open>The matches from left to right, each with the text before it, and the text after the last. A
  pattern that matched nothing at all is passed over; none of the source's can.\<close>

function scan :: "pattern \<Rightarrow> string \<Rightarrow> string \<Rightarrow> string \<Rightarrow> (string \<times> string list) list \<times> string" where
  "scan r gap b [] = ([], rev gap)"
| "scan r gap b (c # a) =
    (case r (b, c # a, []) of
       (b', a', g) # rest \<Rightarrow>
         if length a' \<le> length a
         then let (ms, after) = scan r [] b' a' in ((rev gap, g) # ms, after)
         else scan r (c # gap) (c # b) a
     | [] \<Rightarrow> scan r (c # gap) (c # b) a)"
  by pat_completeness auto
termination by (relation "measure (\<lambda>(r, gap, b, a). length a)") auto

text \<open>\<open>s.matchAll(r)\<close>: the groups of each match; \<open>s.split(r)\<close> with its gaps.\<close>

definition match_all :: "pattern \<Rightarrow> string \<Rightarrow> string list list" where
  "match_all r s = map snd (fst (scan r [] [] s))"

section \<open>Lemmas\<close>

lemma js_trim_idem [simp]: "js_trim (js_trim s) = js_trim s"
proof -
  have lead: "dropWhile js_space (js_trim s) = js_trim s"
  proof (cases "js_trim s")
    case (Cons c t)
    let ?d = "dropWhile js_space s"
    obtain u where u: "?d = js_trim s @ u"
    proof -
      have "rev ?d = takeWhile js_space (rev ?d) @ dropWhile js_space (rev ?d)" by simp
      then have "?d = rev (dropWhile js_space (rev ?d)) @ rev (takeWhile js_space (rev ?d))"
        by (metis rev_append rev_rev_ident)
      with that show thesis unfolding js_trim_def by blast
    qed
    with Cons have "hd ?d = c" "?d \<noteq> []" by simp_all
    then have "\<not> js_space c" using hd_dropWhile by blast
    with Cons show ?thesis by simp
  qed simp
  have "js_trim (js_trim s) = rev (dropWhile js_space (rev (js_trim s)))"
    unfolding js_trim_def[of "js_trim s"] lead ..
  also have "\<dots> = js_trim s" unfolding js_trim_def by simp
  finally show ?thesis .
qed

lemma js_trim_blank: "js_trim s = [] \<longleftrightarrow> list_all js_space s"
proof (cases "dropWhile js_space s")
  case Nil
  then have "list_all js_space s" by (simp add: list_all_iff dropWhile_eq_Nil_conv)
  moreover have "js_trim s = []" unfolding js_trim_def Nil by simp
  ultimately show ?thesis by blast
next
  case (Cons c t)
  then have c: "\<not> js_space c" by (metis hd_dropWhile list.distinct(1) list.sel(1))
  moreover have "c \<in> set s" using Cons by (metis list.set_intros(1) set_dropWhileD)
  moreover have "\<exists>x \<in> set (rev (dropWhile js_space s)). \<not> js_space x" using Cons c by auto
  ultimately show ?thesis by (auto simp: js_trim_def list_all_iff dropWhile_eq_Nil_conv)
qed

subsection \<open>Decimal\<close>

lemma digit_char:
  fixes n :: nat
  assumes "n < 10"
  shows "digit (char_of (48 + n))"
proof -
  have "\<forall>n \<in> set [0..<10]. digit (char_of (48 + n))" by code_simp
  with assms show ?thesis by simp
qed

lemma digit_char_value:
  fixes n :: nat
  assumes "n < 10"
  shows "digit_value (char_of (48 + n)) = int n"
proof -
  have "\<forall>n \<in> set [0..<10]. digit_value (char_of (48 + n)) = int n" by code_simp
  with assms show ?thesis by simp
qed

lemma decimal_digits: "c \<in> set (decimal n) \<Longrightarrow> digit c"
proof (induction n rule: decimal.induct)
  case (1 n)
  show ?case
  proof (cases "n < 10")
    case True
    with 1(2) show ?thesis by (simp add: decimal.simps[of n] digit_char)
  next
    case False
    with 1(2) have "c \<in> set (decimal (n div 10)) \<or> c = char_of (48 + n mod 10)"
      by (auto simp: decimal.simps[of n])
    with 1(1)[OF False] show ?thesis using digit_char[of "n mod 10"] by auto
  qed
qed

lemma decimal_not_Nil [simp]: "decimal n \<noteq> []"
  by (simp add: decimal.simps[of n])

lemma digits_value_snoc: "digits_value base (ds @ [c]) = base * digits_value base ds + digit_value c"
  by (simp add: digits_value_def)

lemma digits_value_decimal [simp]: "digits_value 10 (decimal n) = int n"
proof (induction n rule: decimal.induct)
  case (1 n)
  show ?case
  proof (cases "n < 10")
    case True
    then show ?thesis using digits_value_snoc[of 10 "[]"]
      by (simp add: decimal.simps[of n] digit_char_value digits_value_def)
  next
    case False
    then have "digits_value 10 (decimal n) = 10 * int (n div 10) + int (n mod 10)"
      using 1 by (simp add: decimal.simps[of n] digits_value_snoc digit_char_value)
    then show ?thesis by (simp add: zdiv_int zmod_int)
  qed
qed

lemma decimal_inject [simp]: "decimal m = decimal n \<longleftrightarrow> m = n"
  by (metis digits_value_decimal of_nat_eq_iff)

subsection \<open>Patterns\<close>

lemma concat_map_concat: "concat (map f (concat xss)) = concat (map (\<lambda>xs. concat (map f xs)) xss)"
  by (induction xss) simp_all

lemma seqs_append: "seqs (rs @ ss) cur = concat (map (seqs ss) (seqs rs cur))"
proof (induction rs arbitrary: cur)
  case (Cons r rs)
  have "seqs (rs @ ss) = (\<lambda>cur. concat (map (seqs ss) (seqs rs cur)))" by (rule ext) (rule Cons.IH)
  then show ?case by (simp add: concat_map_concat o_def)
qed simp

text \<open>The first way a pattern matches; a step that offers it after alternatives that lead nowhere.\<close>

definition first :: "pattern \<Rightarrow> cursor \<Rightarrow> cursor option" where
  "first r cur = (case r cur of [] \<Rightarrow> None | m # ms \<Rightarrow> Some m)"

lemma first_Nil [simp]: "first (seqs []) cur = Some cur"
  by (simp add: first_def)

lemma first_step:
  assumes "r cur = before @ m # later" "\<And>c. c \<in> set before \<Longrightarrow> seqs rs c = []" "first (seqs rs) m = Some x"
  shows "first (seqs (r # rs)) cur = Some x"
proof -
  have "concat (map (seqs rs) before) = []" using assms(2) by simp
  moreover obtain ms where "seqs rs m = x # ms" using assms(3) by (auto simp: first_def split: list.splits)
  ultimately have "seqs (r # rs) cur = x # ms @ concat (map (seqs rs) later)" unfolding seqs.simps assms(1) by simp
  then show ?thesis by (simp add: first_def)
qed

lemma first_next: "r cur = m # later \<Longrightarrow> first (seqs rs) m = Some x \<Longrightarrow> first (seqs (r # rs)) cur = Some x"
  by (rule first_step[of r cur "[]"]) simp_all

lemma lit_self: "lit w (b, w @ a, g) = [(rev w @ b, a, g)]"
  by (induction w arbitrary: b) (simp_all add: lit_def)

lemma many_longest:
  "list_all P xs \<Longrightarrow> a = [] \<or> \<not> P (hd a) \<Longrightarrow> \<exists>later. many_from P b (xs @ a) g = (rev xs @ b, a, g) # later"
proof (induction xs arbitrary: b)
  case Nil
  then show ?case by (cases a) auto
next
  case (Cons x xs)
  then obtain later where "many_from P (x # b) (xs @ a) g = (rev xs @ x # b, a, g) # later" by fastforce
  with Cons.prems show ?case by simp
qed

lemma many1_Cons: "many1 P (b, c # a, g) = (if P c then many_from P (c # b) a g else [])"
proof -
  have "seqs [] = (\<lambda>cur. [cur])" by (rule ext) simp
  then show ?thesis by (simp add: many1_def many_def)
qed

lemma many1_Nil [simp]: "many1 P (b, [], g) = []"
  by (simp add: many1_def)

lemma many1_longest:
  assumes "list_all P xs" "xs \<noteq> []" "a = [] \<or> \<not> P (hd a)"
  shows "\<exists>later. many1 P (b, xs @ a, g) = (rev xs @ b, a, g) # later"
proof -
  obtain x ys where xs: "xs = x # ys" using assms(2) by (cases xs) auto
  with assms many_longest[of P ys a "x # b" g] show ?thesis by (auto simp: many1_Cons)
qed

lemma many_all:
  assumes "list_all P a"
  shows "many_from P b a g = map (\<lambda>j. (rev (take j a) @ b, drop j a, g)) (rev [0..<Suc (length a)])"
  using assms
proof (induction a arbitrary: b)
  case (Cons c a)
  have "[0..<Suc (length (c # a))] = 0 # map Suc [0..<Suc (length a)]"
    unfolding map_Suc_upt by (simp add: upt_conv_Cons del: upt_Suc)
  with Cons show ?case by (simp add: rev_map del: upt_Suc)
qed simp

lemma many_offers:
  assumes "list_all P (xs @ a)"
  shows "\<exists>before later. many_from P b (xs @ a) g = before @ (rev xs @ b, a, g) # later \<and>
     (\<forall>c \<in> set before. \<exists>j. 0 < j \<and> j \<le> length a \<and> fst (snd c) = drop j a)"
proof -
  let ?f = "\<lambda>j. (rev (take j (xs @ a)) @ b, drop j (xs @ a), g)"
  have "[0..<Suc (length (xs @ a))] = [0..<length xs] @ length xs # [Suc (length xs)..<Suc (length xs + length a)]"
    using upt_add_eq_append[of 0 "length xs" "Suc (length a)"] by (simp add: upt_conv_Cons del: upt_Suc)
  then have "many_from P b (xs @ a) g =
      map ?f (rev [Suc (length xs)..<Suc (length xs + length a)]) @ ?f (length xs) # map ?f (rev [0..<length xs])"
    unfolding many_all[OF assms] by simp
  moreover have "\<exists>j. 0 < j \<and> j \<le> length a \<and> fst (snd c) = drop j a"
    if "c \<in> set (map ?f (rev [Suc (length xs)..<Suc (length xs + length a)]))" for c
  proof -
    from that obtain j where "j \<in> set [Suc (length xs)..<Suc (length xs + length a)]" "c = ?f j"
      unfolding set_map set_rev by blast
    then have "length xs < j" "j \<le> length xs + length a" "c = ?f j" by (simp_all only: set_upt atLeastLessThan_iff Suc_le_eq less_Suc_eq_le)
    then show ?thesis by (intro exI[of _ "j - length xs"]) auto
  qed
  moreover have "?f (length xs) = (rev xs @ b, a, g)" by simp
  ultimately show ?thesis by (metis (no_types, lifting))
qed

lemma many1_offers:
  assumes "list_all P (xs @ a)" "xs \<noteq> []"
  shows "\<exists>before later. many1 P (b, xs @ a, g) = before @ (rev xs @ b, a, g) # later \<and>
     (\<forall>c \<in> set before. \<exists>j. 0 < j \<and> j \<le> length a \<and> fst (snd c) = drop j a)"
proof -
  obtain x ys where xs: "xs = x # ys" using assms(2) by (cases xs) auto
  with assms many_offers[of P ys a "x # b" g] show ?thesis by (auto simp: many1_Cons)
qed

text \<open>What a match read.\<close>

lemma lit_reads: "(b', a', g') \<in> set (lit w (b, a, g)) \<Longrightarrow> a = w @ a'"
proof (induction w arbitrary: b a g)
  case (Cons x w)
  then show ?case by (cases a) (auto simp: lit_def split: if_splits)
qed (simp add: lit_def)

lemma many_reads: "(b', a', g') \<in> set (many_from P b a g) \<Longrightarrow> \<exists>xs. a = xs @ a' \<and> list_all P xs"
proof (induction P b a g rule: many_from.induct)
  case (2 P b c a g)
  show ?case
  proof (cases "(b', a', g') = (b, c # a, g)")
    case True
    then show ?thesis by (intro exI[of _ "[]"]) simp
  next
    case False
    with 2 obtain xs where "a = xs @ a'" "list_all P xs" "P c" by (auto split: if_splits)
    then show ?thesis by (intro exI[of _ "c # xs"]) simp
  qed
qed simp

lemma many1_reads: "(b', a', g') \<in> set (many1 P (b, a, g)) \<Longrightarrow> \<exists>xs. a = xs @ a' \<and> list_all P xs \<and> xs \<noteq> []"
proof (cases a)
  case (Cons c t)
  assume "(b', a', g') \<in> set (many1 P (b, a, g))"
  then have "P c" "(b', a', g') \<in> set (many_from P (c # b) t g)"
    using Cons by (auto simp: many1_Cons split: if_splits)
  from many_reads[OF this(2)] this(1) Cons show ?thesis by (auto intro: exI[of _ "c # _"])
qed (simp add: many1_def)

lemma exactly_reads: "(b', a', g') \<in> set (exactly n P (b, a, g)) \<Longrightarrow> \<exists>xs. a = xs @ a' \<and> list_all P xs \<and> length xs = n"
proof (induction n arbitrary: b a g)
  case (Suc n)
  show ?case
  proof (cases a)
    case (Cons c t)
    then have "P c" "(b', a', g') \<in> set (exactly n P (c # b, t, g))"
      using Suc.prems by (auto simp: exactly_def split: if_splits)
    from Suc.IH[OF this(2)] this(1) Cons show ?thesis by (auto intro: exI[of _ "c # _"])
  qed (use Suc.prems in \<open>simp add: exactly_def\<close>)
qed (simp add: exactly_def)

lemma exactly_self:
  "list_all P xs \<Longrightarrow> exactly (length xs) P (b, xs @ a, g) = [(rev xs @ b, a, g)]"
  by (induction xs arbitrary: b) (simp_all add: exactly_def)

lemma capture_mem: "(b', a', g') \<in> set (capture r (b, a, g)) \<Longrightarrow> \<exists>g0. (b', a', g0) \<in> set (r (b, a, g))"
  by (auto simp: capture_def)

text \<open>The steps of a match that goes through without looking back.\<close>

lemma first_lit: "first (seqs rs) (rev w @ b, a, g) = Some x \<Longrightarrow> first (seqs (lit w # rs)) (b, w @ a, g) = Some x"
  by (rule first_next[where m = "(rev w @ b, a, g)" and later = "[]"]) (simp_all add: lit_self)

lemma capture_first: "r (b, a, g) = before @ (b', a', g) # later \<Longrightarrow>
    capture r (b, a, g) = map (\<lambda>(x, y, z). (x, y, z @ [take (length a - length y) a])) before
      @ (b', a', g @ [take (length a - length a') a])
      # map (\<lambda>(x, y, z). (x, y, z @ [take (length a - length y) a])) later"
  by (simp add: capture_def)

lemma first_capture_many1:
  assumes "list_all P xs" "xs \<noteq> []" "a = [] \<or> \<not> P (hd a)" "first (seqs rs) (rev xs @ b, a, g @ [xs]) = Some x"
  shows "first (seqs (capture (many1 P) # rs)) (b, xs @ a, g) = Some x"
proof -
  obtain later where "many1 P (b, xs @ a, g) = [] @ (rev xs @ b, a, g) # later"
    using many1_longest[OF assms(1-3)] by fastforce
  from capture_first[where r = "many1 P" and before = "[]", OF this] assms(4) show ?thesis by (intro first_next) simp_all
qed

lemma first_capture_exactly:
  assumes "list_all P xs" "length xs = n" "first (seqs rs) (rev xs @ b, a, g @ [xs]) = Some x"
  shows "first (seqs (capture (exactly n P) # rs)) (b, xs @ a, g) = Some x"
proof -
  have "exactly n P (b, xs @ a, g) = [] @ (rev xs @ b, a, g) # []" using exactly_self[OF assms(1)] assms(2) by simp
  from capture_first[where r = "exactly n P" and before = "[]", OF this] assms(3) show ?thesis by (intro first_next) simp_all
qed

lemma first_at_start: "first (seqs rs) ([], a, g) = Some x \<Longrightarrow> first (seqs (at_start # rs)) ([], a, g) = Some x"
  by (rule first_next[where later = "[]"]) (simp_all add: at_start_def)

lemma first_at_end: "first (seqs [at_end]) (b, [], g) = Some (b, [], g)"
  by (rule first_next[where later = "[]"]) (simp_all add: at_end_def)

end
