(* ===== verification/Budget.thy ===== *)
theory Budget
  imports Run_Store Js_Text
begin

text \<open>
  The spending gates of \<open>budget/\<close>: the hard ceiling and the service that holds it
  (\<open>hard-spend-ceiling.ts\<close>), the ledger (\<open>spend-ledger.service.ts\<close>), the admission of an
  order (\<open>spend-admission.ts\<close>), and the two limits of a running one (\<open>budget-overrun.ts\<close>,
  \<open>run-deadline.ts\<close>). Money is exact; a figure is rounded where the code rounds it.
\<close>

section \<open>Reading numbers\<close>

text \<open>A sign in front of a literal: its factor and the rest.\<close>

fun signed_literal :: "string \<Rightarrow> int \<times> string" where
  "signed_literal (CHR ''-'' # s) = (-1, s)"
| "signed_literal (CHR ''+'' # s) = (1, s)"
| "signed_literal s = (1, s)"

definition exponent_of :: "string \<Rightarrow> int option" where
  "exponent_of s =
    (case s of [] \<Rightarrow> Some 0
     | c # rest \<Rightarrow>
         if c \<notin> {CHR ''e'', CHR ''E''} then None
         else let (sg, ds) = signed_literal rest
              in if ds \<noteq> [] \<and> list_all digit ds then Some (sg * digits_value 10 ds) else None)"

definition decimal_literal :: "string \<Rightarrow> rat option" where
  "decimal_literal s =
    (let whole = takeWhile digit s; rest = dropWhile digit s;
         frac = (case rest of c # r \<Rightarrow> if c = CHR ''.'' then takeWhile digit r else [] | [] \<Rightarrow> []);
         tail = (case rest of c # r \<Rightarrow> if c = CHR ''.'' then dropWhile digit r else rest | [] \<Rightarrow> [])
     in if whole = [] \<and> frac = [] then None
        else map_option (\<lambda>e. of_int (digits_value 10 (whole @ frac))
                              * (if 0 \<le> e - int (length frac) then 10 ^ nat (e - int (length frac))
                                 else 1 / 10 ^ nat (int (length frac) - e)))
               (exponent_of tail))"

definition radix_literal :: "string \<Rightarrow> rat option" where
  "radix_literal s =
    (case s of z # x # ds \<Rightarrow>
       if z \<noteq> CHR ''0'' then None
       else let base = (if x \<in> {CHR ''x'', CHR ''X''} then 16 else if x \<in> {CHR ''o'', CHR ''O''} then 8
                        else if x \<in> {CHR ''b'', CHR ''B''} then 2 else 0)
            in if base > 0 \<and> ds \<noteq> [] \<and> list_all (\<lambda>c. digit_value c < base) ds
               then Some (of_int (digits_value base ds)) else None
     | _ \<Rightarrow> None)"

text \<open>
  \<open>Number(s)\<close> followed by \<open>Number.isFinite\<close>: \<open>None\<close> for \<open>NaN\<close> and for an infinity. A literal is an
  infinity from halfway between the largest double and the next power of two on.
\<close>

definition beyond_double :: "rat \<Rightarrow> bool" where
  "beyond_double v \<longleftrightarrow> 2 ^ 1024 - 2 ^ 970 \<le> \<bar>v\<bar>"

definition js_finite_number :: "string \<Rightarrow> rat option" where
  "js_finite_number raw =
    (let s = js_trim raw;
         value =
           (if s = [] then Some 0
            else case radix_literal s of Some v \<Rightarrow> Some v
            | None \<Rightarrow> let (sg, rest) = signed_literal s in map_option (\<lambda>v. of_int sg * v) (decimal_literal rest))
     in case value of None \<Rightarrow> None | Some v \<Rightarrow> if beyond_double v then None else Some v)"

text \<open>\<open>Number.parseInt(s, 10)\<close> followed by \<open>Number.isFinite\<close>: the leading digits.\<close>

definition js_parse_int :: "string \<Rightarrow> int option" where
  "js_parse_int raw =
    (let (sg, rest) = signed_literal (dropWhile js_space raw); ds = takeWhile digit rest
     in if ds = [] \<or> beyond_double (of_int (digits_value 10 ds)) then None else Some (sg * digits_value 10 ds))"

section \<open>The hard ceiling\<close>

definition DEFAULT_CEILING_WINDOW_DAYS :: int where "DEFAULT_CEILING_WINDOW_DAYS = 30"

record hard_ceiling =
  limitUsd :: "usd option"
  windowDays :: int
  malformed :: "string option"

definition positiveIntOr :: "string option \<Rightarrow> int \<Rightarrow> int" where
  "positiveIntOr raw fallback =
    (case raw of None \<Rightarrow> fallback
     | Some s \<Rightarrow> if js_trim s = '''' then fallback
                 else case js_parse_int s of None \<Rightarrow> fallback
                      | Some n \<Rightarrow> if n > 0 then n else fallback)"

text \<open>The two variables it reads: the limit and the window.\<close>

definition parseHardCeiling :: "string option \<Rightarrow> string option \<Rightarrow> hard_ceiling" where
  "parseHardCeiling raw rawWindow =
    (let days = positiveIntOr rawWindow DEFAULT_CEILING_WINDOW_DAYS in
     case raw of None \<Rightarrow> \<lparr>limitUsd = None, windowDays = days, malformed = None\<rparr>
     | Some s \<Rightarrow>
         if js_trim s = '''' then \<lparr>limitUsd = None, windowDays = days, malformed = None\<rparr>
         else case js_finite_number s of
                None \<Rightarrow> \<lparr>limitUsd = None, windowDays = days, malformed = Some s\<rparr>
              | Some v \<Rightarrow> if v < 0 then \<lparr>limitUsd = None, windowDays = days, malformed = Some s\<rparr>
                          else \<lparr>limitUsd = Some v, windowDays = days, malformed = None\<rparr>)"

subsection \<open>The service\<close>

text \<open>
  What the settings service answers for the two managed keys: the limit as text, and the window
  as \<open>String\<close> renders it. The service's state is the ceiling it holds and what it announced.
\<close>

record ceiling_settings =
  set_limit :: "string option"
  set_window :: string

datatype announcement = Announce_malformed string | Announce_unset int | Announce_limit usd int

record ceiling_service =
  held :: hard_ceiling
  announced :: "announcement list"

definition HARD_SPEND_CEILING_KEYS :: "string list" where
  "HARD_SPEND_CEILING_KEYS = [''dispatch.hardSpendCeilingUsd'', ''dispatch.hardSpendCeilingWindowDays'']"

definition keyOfThisCeiling :: "string \<Rightarrow> bool" where
  "keyOfThisCeiling key \<longleftrightarrow> key \<in> set HARD_SPEND_CEILING_KEYS"

definition read_ceiling :: "ceiling_settings \<Rightarrow> hard_ceiling" where
  "read_ceiling settings = parseHardCeiling (set_limit settings) (Some (set_window settings))"

definition announce :: "ceiling_service \<Rightarrow> ceiling_service" where
  "announce svc = svc\<lparr>announced := announced svc @
     [case malformed (held svc) of
        Some raw \<Rightarrow> Announce_malformed raw
      | None \<Rightarrow> (case limitUsd (held svc) of
                   None \<Rightarrow> Announce_unset (windowDays (held svc))
                 | Some l \<Rightarrow> Announce_limit l (windowDays (held svc)))]\<rparr>"

definition start_service :: "ceiling_settings \<Rightarrow> ceiling_service" where
  "start_service settings = announce \<lparr>held = read_ceiling settings, announced = []\<rparr>"

definition refresh :: "ceiling_settings \<Rightarrow> ceiling_service \<Rightarrow> ceiling_service" where
  "refresh settings svc =
    (let nxt = read_ceiling settings;
         moved = limitUsd nxt \<noteq> limitUsd (held svc) \<or> windowDays nxt \<noteq> windowDays (held svc) \<or>
                 malformed nxt \<noteq> malformed (held svc);
         svc1 = svc\<lparr>held := nxt\<rparr>
     in if moved then announce svc1 else svc1)"

definition on_settings_change :: "ceiling_settings \<Rightarrow> string list \<Rightarrow> ceiling_service \<Rightarrow> ceiling_service" where
  "on_settings_change settings keys svc =
    (if list_ex keyOfThisCeiling keys then refresh settings svc else svc)"

section \<open>The ledger\<close>

record spend_window =
  win_from :: instant
  win_to :: instant
  win_days :: int

record spend_tally =
  reportedUsd :: usd
  estimatedUsd :: usd
  totalUsd :: usd
  tally_runs :: nat
  runsWithoutCost :: nat
  unboundedRuns :: nat
  tally_window :: spend_window

definition DAY_MS :: int where "DAY_MS = 24 * 60 * 60 * 1000"

text \<open>One turn of the loop: reported, estimated, runs without cost, unbounded runs.\<close>

fun tally_step :: "usd \<times> usd \<times> nat \<times> nat \<Rightarrow> run_row \<Rightarrow> usd \<times> usd \<times> nat \<times> nat" where
  "tally_step (rep, est, without, unbounded) r =
    (case run_costUsd r of
       Some cost \<Rightarrow> (rep + cost, est, without, unbounded)
     | None \<Rightarrow> (case wo_budgetCeilingUsd (run_workOrder r) of
                  None \<Rightarrow> (rep, est, without + 1, unbounded + 1)
                | Some cap \<Rightarrow> (rep, est + cap, without + 1, unbounded)))"

definition tally :: "int \<Rightarrow> instant \<Rightarrow> run_store \<Rightarrow> spend_tally" where
  "tally days now st =
    (let from_at = now - days * DAY_MS;
         rs = filter (\<lambda>r. from_at \<le> run_startedAt r \<and> run_startedAt r \<le> now) (runs st);
         (rep, est, without, unbounded) = foldl tally_step (0, 0, 0, 0) rs
     in \<lparr>reportedUsd = to_cents rep, estimatedUsd = to_cents est, totalUsd = to_cents (rep + est),
         tally_runs = length rs, runsWithoutCost = without, unboundedRuns = unbounded,
         tally_window = \<lparr>win_from = from_at, win_to = now, win_days = days\<rparr>\<rparr>)"

section \<open>Admission\<close>

record order_budget =
  ob_ceilingUsd :: "usd option"
  runnerReportsCost :: bool

datatype spend_refusal =
  No_ceiling_configured | Ceiling_reached_refusal | Order_cannot_be_budgeted

datatype spend_text =
    Spent_reported usd nat
  | Spent_at_most usd usd usd int nat
    \<comment> \<open>total, reported, estimated, runs estimated, unbounded runs\<close>

datatype admission_reason =
    Unreadable_ceiling string
  | No_ceiling int
  | Reached spend_text int usd
  | Unbudgetable
  | Headroom_no_order_ceiling usd int usd spend_text
  | Would_exceed usd int usd spend_text usd
  | Headroom_for_order usd int usd spend_text usd

datatype spend_verdict =
    Admit usd admission_reason
  | Refuse spend_refusal admission_reason

definition describeSpend :: "spend_tally \<Rightarrow> spend_text" where
  "describeSpend t =
    (if estimatedUsd t > 0
     then Spent_at_most (totalUsd t) (reportedUsd t) (estimatedUsd t)
            (int (runsWithoutCost t) - int (unboundedRuns t)) (unboundedRuns t)
     else Spent_reported (totalUsd t) (unboundedRuns t))"

definition decideSpendAdmission :: "hard_ceiling \<Rightarrow> spend_tally \<Rightarrow> order_budget \<Rightarrow> spend_verdict" where
  "decideSpendAdmission cap t order =
    (let days = win_days (tally_window t); spent = describeSpend t in
     case malformed cap of
       Some raw \<Rightarrow> Refuse No_ceiling_configured (Unreadable_ceiling raw)
     | None \<Rightarrow>
      (case limitUsd cap of
         None \<Rightarrow> Refuse No_ceiling_configured (No_ceiling days)
       | Some limit \<Rightarrow>
          if totalUsd t \<ge> limit then Refuse Ceiling_reached_refusal (Reached spent days limit)
          else let headroom = to_cents (limit - totalUsd t) in
           case ob_ceilingUsd order of
             None \<Rightarrow>
               if \<not> runnerReportsCost order then Refuse Order_cannot_be_budgeted Unbudgetable
               else Admit headroom (Headroom_no_order_ceiling headroom days limit spent)
           | Some c \<Rightarrow>
               (let projected = to_cents (totalUsd t + c) in
                if projected > limit
                then Refuse Ceiling_reached_refusal (Would_exceed projected days limit spent c)
                else Admit headroom (Headroom_for_order headroom days limit spent c))))"

section \<open>The limits of a run\<close>

record overrun_inputs =
  oi_costUsd :: "usd option"
  oi_ceilingUsd :: "usd option"
  oi_runIsLive :: bool

datatype overrun_verdict =
    Not_over
  | Over usd usd usd bool \<comment> \<open>cost, ceiling, overspend, stoppable\<close>

definition decideBudgetOverrun :: "overrun_inputs \<Rightarrow> overrun_verdict" where
  "decideBudgetOverrun inputs =
    (case oi_costUsd inputs of None \<Rightarrow> Not_over
     | Some cost \<Rightarrow>
       (case oi_ceilingUsd inputs of None \<Rightarrow> Not_over
        | Some cap \<Rightarrow>
            if cost \<le> cap then Not_over
            else Over cost cap (to_cents (cost - cap)) (oi_runIsLive inputs)))"

definition DEFAULT_DEADLINE_GRACE_MINUTES :: rat where "DEFAULT_DEADLINE_GRACE_MINUTES = 2"

record deadline_inputs =
  di_startedAt :: instant
  timeoutMinutes :: "rat option"
  defaultTimeoutMinutes :: "rat option"
  graceMinutes :: rat

datatype deadline_verdict =
    In_time "rat option" rat \<comment> \<open>limit, elapsed\<close>
  | Overdue rat rat rat rat \<comment> \<open>limit, enforced after, elapsed, the grace the reason names\<close>

definition to_tenths :: "rat \<Rightarrow> rat" where
  "to_tenths v = of_int (math_round (v * 10)) / 10"

definition decideDeadline :: "deadline_inputs \<Rightarrow> instant \<Rightarrow> deadline_verdict" where
  "decideDeadline inputs now =
    (let elapsed = to_tenths (of_int (now - di_startedAt inputs) / 60000) in
     case or_else (timeoutMinutes inputs) (defaultTimeoutMinutes inputs) of
       None \<Rightarrow> In_time None elapsed
     | Some limit \<Rightarrow>
         if limit \<le> 0 then In_time None elapsed
         else let enforcedAfter = limit + max 0 (graceMinutes inputs)
              in if elapsed \<le> enforcedAfter then In_time (Some limit) elapsed
                 else Overdue limit enforcedAfter elapsed (graceMinutes inputs))"

end
