(* ===== verification/Budget_Properties.thy ===== *)
theory Budget_Properties
  imports Budget
begin

text \<open>
  The properties of spending: when an order is admitted, that an admitted order keeps the ledger
  within the ceiling, that a ceiling nobody set or nobody can read admits nothing, and when a run is
  past its own limits.
\<close>

section \<open>Admission\<close>

text \<open>An order is admitted exactly when a readable ceiling is set, the tally is strictly below it,
  and the order either names a ceiling whose projection stays within it or names none and its runner
  reports cost; the three refusals say which of these failed, first one first.\<close>
theorem admission_spec:
  "((\<exists>headroom why. decideSpendAdmission cap t order = Admit headroom why) \<longleftrightarrow>
      malformed cap = None \<and> (\<exists>limit. limitUsd cap = Some limit \<and> totalUsd t < limit \<and>
        (case ob_ceilingUsd order of None \<Rightarrow> runnerReportsCost order
         | Some c \<Rightarrow> to_cents (totalUsd t + c) \<le> limit))) \<and>
   ((\<exists>why. decideSpendAdmission cap t order = Refuse No_ceiling_configured why) \<longleftrightarrow>
      malformed cap \<noteq> None \<or> limitUsd cap = None) \<and>
   ((\<exists>why. decideSpendAdmission cap t order = Refuse Order_cannot_be_budgeted why) \<longleftrightarrow>
      malformed cap = None \<and> (\<exists>limit. limitUsd cap = Some limit \<and> totalUsd t < limit) \<and>
      ob_ceilingUsd order = None \<and> \<not> runnerReportsCost order) \<and>
   ((\<exists>why. decideSpendAdmission cap t order = Refuse Ceiling_reached_refusal why) \<longleftrightarrow>
      malformed cap = None \<and> (\<exists>limit. limitUsd cap = Some limit \<and>
        (limit \<le> totalUsd t \<or> (\<exists>c. ob_ceilingUsd order = Some c \<and> limit < to_cents (totalUsd t + c)))))"
  by (auto simp: decideSpendAdmission_def Let_def not_le not_less split: option.splits)

section \<open>The ledger\<close>

definition known_cost :: "run_row \<Rightarrow> usd" where
  "known_cost r = get_or 0 (run_costUsd r)"

definition assumed_cost :: "run_row \<Rightarrow> usd" where
  "assumed_cost r = (if run_costUsd r = None then get_or 0 (wo_budgetCeilingUsd (run_workOrder r)) else 0)"

definition unreported :: "run_row \<Rightarrow> bool" where
  "unreported r \<longleftrightarrow> run_costUsd r = None"

definition unbounded_run :: "run_row \<Rightarrow> bool" where
  "unbounded_run r \<longleftrightarrow> run_costUsd r = None \<and> wo_budgetCeilingUsd (run_workOrder r) = None"

definition in_window :: "int \<Rightarrow> instant \<Rightarrow> run_row \<Rightarrow> bool" where
  "in_window days now r \<longleftrightarrow> now - days * DAY_MS \<le> run_startedAt r \<and> run_startedAt r \<le> now"

lemma foldl_tally_step:
  "foldl tally_step (a, b, n, u) rs =
     (a + (\<Sum>r\<leftarrow>rs. known_cost r), b + (\<Sum>r\<leftarrow>rs. assumed_cost r),
      n + length (filter unreported rs), u + length (filter unbounded_run rs))"
  by (induction rs arbitrary: a b n u)
     (auto simp: known_cost_def assumed_cost_def unreported_def unbounded_run_def split: option.split)

lemma tally_eq:
  "tally days now st =
    (let rs = filter (in_window days now) (runs st);
         rep = (\<Sum>r\<leftarrow>rs. known_cost r); est = (\<Sum>r\<leftarrow>rs. assumed_cost r)
     in \<lparr>reportedUsd = to_cents rep, estimatedUsd = to_cents est, totalUsd = to_cents (rep + est),
         tally_runs = length rs, runsWithoutCost = length (filter unreported rs),
         unboundedRuns = length (filter unbounded_run rs),
         tally_window = \<lparr>win_from = now - days * DAY_MS, win_to = now, win_days = days\<rparr>\<rparr>)"
  unfolding tally_def Let_def foldl_tally_step prod.case in_window_def[abs_def] by simp

text \<open>What a run counts for: its cost, or its order's ceiling.\<close>

definition charged :: "run_row \<Rightarrow> usd" where
  "charged r = known_cost r + assumed_cost r"

lemma tally_total: "totalUsd (tally days now st) = to_cents (\<Sum>r\<leftarrow>filter (in_window days now) (runs st). charged r)"
  by (simp add: tally_eq Let_def charged_def[abs_def] sum_list_addf)

lemma whole_cents_sum: "(\<And>r. r \<in> set rs \<Longrightarrow> whole_cents (f r)) \<Longrightarrow> whole_cents (\<Sum>r\<leftarrow>rs. f r)"
proof (induction rs)
  case Nil
  show ?case by (simp add: whole_cents_def)
next
  case (Cons r rs)
  then show ?case by (simp add: whole_cents_add)
qed

lemma tally_runs_only: "runs s = runs s' \<Longrightarrow> tally days now s = tally days now s'"
  by (simp add: tally_def)

lemma admitted_within:
  assumes "decideSpendAdmission cap (tally days now st) \<lparr>ob_ceilingUsd = c, runnerReportsCost = reports\<rparr> = Admit slack why"
    "\<And>r. r \<in> set (runs st) \<Longrightarrow> whole_cents (charged r)" "in_window days now run" "charged run \<le> get_or 0 c"
  shows "\<exists>limit. limitUsd cap = Some limit \<and>
     totalUsd (tally days now (st\<lparr>runs := runs st @ [run]\<rparr>)) \<le> limit"
proof -
  let ?S = "\<Sum>r\<leftarrow>filter (in_window days now) (runs st). charged r"
  have "whole_cents ?S" using assms(2) by (intro whole_cents_sum) simp
  then have total: "totalUsd (tally days now st) = ?S" "to_cents ?S = ?S" by (simp_all add: tally_total to_cents_whole)
  obtain limit where limit: "limitUsd cap = Some limit" "to_cents (?S + get_or 0 c) \<le> limit"
    using assms(1) total by (auto simp: decideSpendAdmission_def Let_def not_less not_le split: option.splits if_splits)
  have "to_cents (?S + charged run) \<le> to_cents (?S + get_or 0 c)" using assms(4) by (intro to_cents_mono) simp
  with limit show ?thesis using assms(3) by (auto simp: tally_total)
qed

text \<open>an admitted order cannot take the ledger past the ceiling. When the figures on record are
  whole cents and an order with a ceiling was admitted against the current tally, then once its run
  is on the books the total still does not exceed the hard ceiling, while the run has reported
  nothing and after it reports any cost within its order's ceiling.\<close>
theorem admitted_order_keeps_ceiling:
  assumes "decideSpendAdmission cap (tally days now st) \<lparr>ob_ceilingUsd = Some c, runnerReportsCost = reports\<rparr> =
      Admit headroom why"
    "\<And>r. r \<in> set (runs st) \<Longrightarrow> whole_cents (charged r)"
    "in_window days now run" "wo_budgetCeilingUsd (run_workOrder run) = Some c"
    "\<And>v. run_costUsd run = Some v \<Longrightarrow> v \<le> c"
  shows "\<exists>limit. limitUsd cap = Some limit \<and>
     totalUsd (tally days now (st\<lparr>runs := runs st @ [run]\<rparr>)) \<le> limit"
proof -
  have "charged run \<le> c"
    using assms(4,5) by (cases "run_costUsd run") (simp_all add: charged_def known_cost_def assumed_cost_def)
  with admitted_within[OF assms(1-3)] show ?thesis by simp
qed

definition spent_run :: "usd option \<Rightarrow> usd option \<Rightarrow> run_row" where
  "spent_run cost cap =
     \<lparr>run_id = ''r'', run_runnerKey = ''k'', run_workOrder = \<lparr>wo_identity = ''wo'', wo_repository = ''o/r'',
        wo_issueNumber = 1, wo_branch = ''b'', wo_budgetCeilingUsd = cap\<rparr>,
      run_capability = None, run_status = Run_running, run_runnerVersion = ''1'', run_attemptCount = 1, run_startedAt = 0,
      run_endedAt = None, run_lastEventAt = None, run_resumesAt = None, run_attentionReason = None,
      run_costUsd = cost, run_tokensInput = None, run_tokensOutput = None, run_headCommit = None,
      run_pullRequestUrl = None, run_pullRequestNumber = None\<rparr>"

definition spent_store :: run_store where
  "spent_store = \<lparr>runs = [spent_run (Some 4) (Some 5), spent_run None (Some 3)], events = [], attempts = []\<rparr>"

definition ten_dollars :: hard_ceiling where
  "ten_dollars = \<lparr>limitUsd = Some 10, windowDays = 30, malformed = None\<rparr>"

lemma whole_cents_of_int [simp]: "whole_cents (of_int n)"
  by (simp add: whole_cents_iff) (metis of_int_mult of_int_numeral)

lemma spent_store_charged: "r \<in> set (runs spent_store) \<Longrightarrow> whole_cents (charged r)"
  using whole_cents_of_int[of 4] whole_cents_of_int[of 3]
  by (auto simp: spent_store_def spent_run_def charged_def known_cost_def assumed_cost_def)

lemma spent_store_total: "totalUsd (tally 30 5 spent_store) = 7"
proof -
  have "to_cents 7 = 7" using to_cents_whole[OF whole_cents_of_int[of 7]] by simp
  then show ?thesis
    by (simp add: tally_total spent_store_def spent_run_def in_window_def DAY_MS_def charged_def
        known_cost_def assumed_cost_def)
qed

lemma admitted_order_keeps_ceiling_witness:
  "totalUsd (tally 30 5 (spent_store\<lparr>runs := runs spent_store @ [spent_run None (Some 3)]\<rparr>)) \<le> 10"
proof -
  have "to_cents 10 = 10" using to_cents_whole[OF whole_cents_of_int[of 10]] by simp
  then obtain h w where "decideSpendAdmission ten_dollars (tally 30 5 spent_store)
      \<lparr>ob_ceilingUsd = Some 3, runnerReportsCost = False\<rparr> = Admit h w"
    by (simp add: decideSpendAdmission_def ten_dollars_def spent_store_total Let_def)
  from admitted_order_keeps_ceiling[OF this spent_store_charged, of "spent_run None (Some 3)"] show ?thesis
    by (simp add: ten_dollars_def spent_run_def in_window_def DAY_MS_def)
qed

lemma admission_spec_witness:
  "\<exists>why. decideSpendAdmission ten_dollars (tally 30 5 spent_store)
     \<lparr>ob_ceilingUsd = None, runnerReportsCost = False\<rparr> = Refuse Order_cannot_be_budgeted why"
  using admission_spec[of ten_dollars "tally 30 5 spent_store" "\<lparr>ob_ceilingUsd = None, runnerReportsCost = False\<rparr>"]
  by (simp add: spent_store_total ten_dollars_def)

section \<open>The ceiling\<close>




section \<open>A running order\<close>

text \<open>A run is past its budget exactly when it reported more than its order's ceiling, both being
  known, and stoppable exactly when it is live; it is overdue only after its own limit, or else the
  default, and the grace have really passed, to within the three seconds its tenths of a minute
  round to, and a run with no positive limit never is.\<close>
theorem limits_of_a_run:
  "(decideBudgetOverrun inputs = Over cost cap over stoppable \<longleftrightarrow>
      oi_costUsd inputs = Some cost \<and> oi_ceilingUsd inputs = Some cap \<and> cap < cost \<and>
      over = to_cents (cost - cap) \<and> stoppable = oi_runIsLive inputs) \<and>
   (decideDeadline d now = Overdue limit after elapsed grace \<longrightarrow>
      or_else (timeoutMinutes d) (defaultTimeoutMinutes d) = Some limit \<and> 0 < limit \<and>
      after = limit + max 0 (graceMinutes d) \<and> grace = graceMinutes d \<and>
      (after * 60000 - 3000 < of_int (now - di_startedAt d))) \<and>
   ((\<forall>limit. or_else (timeoutMinutes d) (defaultTimeoutMinutes d) = Some limit \<longrightarrow> limit \<le> 0) \<longrightarrow>
      (\<exists>e. decideDeadline d now = In_time None e))"
proof (intro conjI impI)
  assume "decideDeadline d now = Overdue limit after elapsed grace"
  then have d: "or_else (timeoutMinutes d) (defaultTimeoutMinutes d) = Some limit" "0 < limit"
    "after = limit + max 0 (graceMinutes d)" "grace = graceMinutes d"
    "after < to_tenths (of_int (now - di_startedAt d) / 60000)"
    by (auto simp: decideDeadline_def Let_def not_le split: option.splits if_splits)
  have "to_tenths x \<le> x + 1 / 20" for x
    using math_round_bounds(2)[of "x * 10"] by (simp add: to_tenths_def field_simps)
  from order.strict_trans2[OF d(5) this] have "after * 60000 - 3000 < of_int (now - di_startedAt d)"
    by (simp add: field_simps)
  with d show "or_else (timeoutMinutes d) (defaultTimeoutMinutes d) = Some limit" "0 < limit"
    "after = limit + max 0 (graceMinutes d)" "grace = graceMinutes d"
    "after * 60000 - 3000 < of_int (now - di_startedAt d)" by blast+
next
  assume "\<forall>limit. or_else (timeoutMinutes d) (defaultTimeoutMinutes d) = Some limit \<longrightarrow> limit \<le> 0"
  then show "\<exists>e. decideDeadline d now = In_time None e"
    by (auto simp: decideDeadline_def Let_def split: option.split)
qed (auto simp: decideBudgetOverrun_def split: option.splits if_splits)

definition late_run :: deadline_inputs where
  "late_run = \<lparr>di_startedAt = 0, timeoutMinutes = Some 30, defaultTimeoutMinutes = None,
     graceMinutes = DEFAULT_DEADLINE_GRACE_MINUTES\<rparr>"

lemma limits_of_a_run_witness:
  "decideDeadline late_run 2400000 = Overdue 30 32 40 2 \<and>
   (32 :: rat) * 60000 - 3000 < of_int (2400000 - di_startedAt late_run)"
proof -
  have "to_tenths 40 = 40" using math_round_of_int[of 400] by (simp add: to_tenths_def)
  then have "decideDeadline late_run 2400000 = Overdue 30 32 40 2"
    by (simp add: decideDeadline_def late_run_def DEFAULT_DEADLINE_GRACE_MINUTES_def Let_def)
  with limits_of_a_run show ?thesis by blast
qed

end
