(* ===== verification/Action_Classes.thy ===== *)
theory Action_Classes
  imports Opifex_Prelude
begin

text \<open>
  The closed taxonomy of what the supervisor may propose (\<open>supervisor/action-classes.ts\<close>): seven
  classes, each with its reversibility and whether it may ever run unattended or spends money. A
  class travels through the services and the tables as a string, so every lookup is on strings.
  The prose of a class (its definition and its effect in words) is left out.
\<close>

datatype action_reversibility = Reversible | Reversible_with_effort | Irreversible

datatype action_class_id =
    Run_diagnosis
  | Re_dispatch
  | Decomposition
  | Issue_shaping
  | Spec_quality_feedback
  | Daily_brief
  | Quarantine_decision

fun class_name :: "action_class_id \<Rightarrow> string" where
  "class_name Run_diagnosis = ''run-diagnosis''"
| "class_name Re_dispatch = ''re-dispatch''"
| "class_name Decomposition = ''decomposition''"
| "class_name Issue_shaping = ''issue-shaping''"
| "class_name Spec_quality_feedback = ''spec-quality-feedback''"
| "class_name Daily_brief = ''daily-brief''"
| "class_name Quarantine_decision = ''quarantine-decision''"

record action_class =
  ac_id :: action_class_id
  ac_title :: string
  ac_reversibility :: action_reversibility
  autonomyEligible :: bool
  hasProposer :: bool
  ac_spendsMoney :: bool

definition ACTION_CLASSES :: "action_class list" where
  "ACTION_CLASSES =
    [\<lparr>ac_id = Run_diagnosis, ac_title = ''Run failure diagnosis'', ac_reversibility = Reversible,
       autonomyEligible = True, hasProposer = True, ac_spendsMoney = False\<rparr>,
     \<lparr>ac_id = Re_dispatch, ac_title = ''Re-dispatch after transient failure'',
       ac_reversibility = Reversible_with_effort,
       autonomyEligible = True, hasProposer = False, ac_spendsMoney = True\<rparr>,
     \<lparr>ac_id = Decomposition, ac_title = ''Decomposition of an oversized work order'',
       ac_reversibility = Reversible_with_effort,
       autonomyEligible = True, hasProposer = True, ac_spendsMoney = True\<rparr>,
     \<lparr>ac_id = Issue_shaping, ac_title = ''Issue shaping'', ac_reversibility = Reversible_with_effort,
       autonomyEligible = True, hasProposer = True, ac_spendsMoney = True\<rparr>,
     \<lparr>ac_id = Spec_quality_feedback, ac_title = ''Spec-quality feedback'', ac_reversibility = Reversible,
       autonomyEligible = True, hasProposer = True, ac_spendsMoney = False\<rparr>,
     \<lparr>ac_id = Daily_brief, ac_title = ''Daily brief'', ac_reversibility = Reversible,
       autonomyEligible = True, hasProposer = True, ac_spendsMoney = False\<rparr>,
     \<lparr>ac_id = Quarantine_decision, ac_title = ''Quarantine decision'',
       ac_reversibility = Reversible_with_effort,
       autonomyEligible = False, hasProposer = False, ac_spendsMoney = False\<rparr>]"

definition ACTION_CLASS_IDS :: "action_class_id list" where
  "ACTION_CLASS_IDS = map ac_id ACTION_CLASSES"

definition getActionClass :: "string \<Rightarrow> action_class option" where
  "getActionClass name = find (\<lambda>c. class_name (ac_id c) = name) ACTION_CLASSES"

definition isActionClass :: "string \<Rightarrow> bool" where
  "isActionClass name \<longleftrightarrow> getActionClass name \<noteq> None"

definition isAutonomyEligible :: "string \<Rightarrow> bool" where
  "isAutonomyEligible name = (case getActionClass name of Some c \<Rightarrow> autonomyEligible c | None \<Rightarrow> False)"

definition spendsMoney :: "string \<Rightarrow> bool" where
  "spendsMoney name = (case getActionClass name of Some c \<Rightarrow> ac_spendsMoney c | None \<Rightarrow> False)"

section \<open>Lemmas\<close>

text \<open>The lookup by name is total on the taxonomy and the names are distinct.\<close>

lemma class_name_inject [simp]: "class_name a = class_name b \<longleftrightarrow> a = b"
  by (cases a; cases b) simp_all

lemma getActionClass_name: "\<exists>c. getActionClass (class_name a) = Some c \<and> ac_id c = a \<and> c \<in> set ACTION_CLASSES"
  by (cases a) (simp_all add: getActionClass_def ACTION_CLASSES_def)

lemma getActionClass_SomeD:
  "getActionClass name = Some c \<Longrightarrow> c \<in> set ACTION_CLASSES \<and> class_name (ac_id c) = name"
  unfolding getActionClass_def by (auto dest: find_Some_iff_mem)

lemma getActionClass_cases:
  assumes "getActionClass name = Some c"
  obtains a where "name = class_name a" "c \<in> set ACTION_CLASSES" "ac_id c = a"
  using getActionClass_SomeD[OF assms] by blast

lemma isAutonomyEligible_iff:
  "isAutonomyEligible name \<longleftrightarrow> name \<in> class_name ` {Run_diagnosis, Re_dispatch, Decomposition,
     Issue_shaping, Spec_quality_feedback, Daily_brief}"
  by (auto simp: isAutonomyEligible_def getActionClass_def ACTION_CLASSES_def)

lemma eligible_is_class: "isAutonomyEligible name \<Longrightarrow> isActionClass name"
  by (auto simp: isAutonomyEligible_def isActionClass_def split: option.splits)

lemma spendsMoney_iff:
  "spendsMoney name \<longleftrightarrow> name \<in> class_name ` {Re_dispatch, Decomposition, Issue_shaping}"
  by (auto simp: spendsMoney_def getActionClass_def ACTION_CLASSES_def)

lemma quarantine_not_eligible [simp]: "\<not> isAutonomyEligible ''quarantine-decision''"
  by (simp add: isAutonomyEligible_def getActionClass_def ACTION_CLASSES_def)

lemma no_class_is_irreversible:
  "c \<in> set ACTION_CLASSES \<Longrightarrow> ac_reversibility c \<noteq> Irreversible"
  by (auto simp: ACTION_CLASSES_def)

end
