(* ===== verification/Never_Trustable.thy ===== *)
theory Never_Trustable
  imports Budget Action_Classes
begin

text \<open>
  What no grant can permit (\<open>autonomy/never-trustable.ts\<close>, \<open>autonomy/action-effects.ts\<close>,
  \<open>autonomy/never-trustable.service.ts\<close>): the effects of an action as data, the check of a list
  of effects against the fixed rules and the hard ceiling, the effects of each action class, and
  the service that enforces the check and records a refusal.
\<close>

section \<open>Effects\<close>

datatype delete_subject = Del_branch | Del_issue | Del_pull_request | Del_run | Del_work_order

datatype access_mode = Read_access | Write_access

datatype grant_operation = Grant_create | Grant_widen | Grant_renew | Grant_revoke

datatype autonomy_effect =
    Git_push string string bool bool \<comment> \<open>repository, branch, force, protected branch\<close>
  | Delete delete_subject string
  | Credential_access access_mode string
  | Spend js_number
  | File_write string string \<comment> \<open>repository, path\<close>
  | Quarantine_clear string
  | Trust_grant_write grant_operation
  | Budget_config_write string
  | Issue_create string
  | Issue_edit string string
  | Dispatch_effect string string
  | Comment_effect string string

datatype never_trustable_rule =
    Force_push | Protected_branch_write | Destructive_delete | Credential_access_rule
  | Hard_spend_ceiling | Self_modification | Quarantine_self_clear | Trust_self_grant
  | Budget_config_write_rule

datatype spend_refusal_reason =
    Unusable_amount js_number
  | Ceiling_malformed rat string
  | Ceiling_unset rat
  | Over_ceiling rat usd

datatype refusal_text =
    Refused_force_push string string
  | Refused_protected string string
  | Refused_delete delete_subject string
  | Refused_credential access_mode string
  | Refused_spend spend_refusal_reason
  | Refused_write string string string \<comment> \<open>repository, path, why the path is forbidden\<close>
  | Refused_quarantine string
  | Refused_grant grant_operation
  | Refused_budget string

record never_trustable_refusal =
  nt_rule :: never_trustable_rule
  nt_effect :: autonomy_effect
  nt_reason :: refusal_text

section \<open>Forbidden paths\<close>

record forbidden_path_rule =
  fp_pattern :: string
  fp_why :: string

definition FORBIDDEN_WRITE_PATHS :: "forbidden_path_rule list" where
  "FORBIDDEN_WRITE_PATHS =
    [\<lparr>fp_pattern = ''.github/workflows/**'',
       fp_why = ''a CI workflow is the check that enforces every other rule''\<rparr>,
     \<lparr>fp_pattern = ''.github/actions/**'',
       fp_why = ''a composite action is a CI workflow with one level of indirection''\<rparr>,
     \<lparr>fp_pattern = ''scripts/**'',
       fp_why = ''CI invokes these as gates, so editing one edits the gate''\<rparr>,
     \<lparr>fp_pattern = ''apps/api/src/autonomy/**'',
       fp_why = ''an agent that can edit the guard has no guard''\<rparr>,
     \<lparr>fp_pattern = ''apps/api/src/supervisor/action-classes.ts'',
       fp_why = ''the policy table: what may be proposed and what may be promoted''\<rparr>,
     \<lparr>fp_pattern = ''**/.env'', fp_why = ''budget, quota and credential configuration''\<rparr>,
     \<lparr>fp_pattern = ''**/.env.*'',
       fp_why = ''budget, quota and credential configuration (.env.example included)''\<rparr>,
     \<lparr>fp_pattern = ''**/*.env'', fp_why = ''budget, quota and credential configuration''\<rparr>]"

definition ends_with :: "string \<Rightarrow> string \<Rightarrow> bool" where
  "ends_with p s \<longleftrightarrow> starts_with (rev p) (rev s)"

fun str_includes :: "string \<Rightarrow> string \<Rightarrow> bool" where
  "str_includes p [] \<longleftrightarrow> p = []"
| "str_includes p (c # s) \<longleftrightarrow> starts_with p (c # s) \<or> str_includes p s"

text \<open>\<open>s.split('/')\<close> and \<open>parts.join('/')\<close>.\<close>

fun split_on :: "char \<Rightarrow> string \<Rightarrow> string list" where
  "split_on d [] = [[]]"
| "split_on d (c # s) = (if c = d then [] # split_on d s
     else (case split_on d s of [] \<Rightarrow> [[c]] | p # ps \<Rightarrow> (c # p) # ps))"

fun join_with :: "string \<Rightarrow> string list \<Rightarrow> string" where
  "join_with d [] = []"
| "join_with d [p] = p"
| "join_with d (p # q # ps) = p @ d @ join_with d (q # ps)"

definition unify_slashes :: "string \<Rightarrow> string" where
  "unify_slashes = map (\<lambda>c. if c = CHR 0x5C then CHR ''/'' else c)"

definition normaliseWritePath :: "string \<Rightarrow> string option" where
  "normaliseWritePath rawPath =
    (let unified = unify_slashes rawPath in
     if str_includes ''..'' unified then None
     else Some (join_with ''/'' (filter (\<lambda>segment. segment \<noteq> '''' \<and> segment \<noteq> ''.'')
                                   (split_on (CHR ''/'') unified))))"

text \<open>\<open>path.slice(path.lastIndexOf('/') + 1)\<close>, the whole path where there is no slash.\<close>

definition basenameOf :: "string \<Rightarrow> string" where
  "basenameOf path = rev (takeWhile (\<lambda>c. c \<noteq> CHR ''/'') (rev path))"

definition matchesBasename :: "string \<Rightarrow> string \<Rightarrow> bool" where
  "matchesBasename glob name =
    (if starts_with ''*'' glob then ends_with (drop 1 glob) name \<and> length name > length (drop 1 glob)
     else if ends_with ''*'' glob then starts_with (butlast glob) name \<and> length name > length (butlast glob)
     else name = glob)"

definition matchesPattern :: "string \<Rightarrow> string \<Rightarrow> bool" where
  "matchesPattern pattern path =
    (if ends_with ''/**'' pattern
     then let prefix = take (length pattern - 3) pattern
          in path = prefix \<or> starts_with (prefix @ ''/'') path
     else if starts_with ''**/'' pattern then matchesBasename (drop 3 pattern) (basenameOf path)
     else path = pattern)"

definition TRAVERSAL :: string where
  "TRAVERSAL = ''a path containing \"..\" is a traversal attempt, not a file name''"

definition forbiddenPathReason :: "string \<Rightarrow> string option" where
  "forbiddenPathReason rawPath =
    (case normaliseWritePath rawPath of
       None \<Rightarrow> Some TRAVERSAL
     | Some path \<Rightarrow> map_option fp_why (find (\<lambda>rule. matchesPattern (fp_pattern rule) path) FORBIDDEN_WRITE_PATHS))"

section \<open>The check\<close>

definition spendRefusalReason :: "js_number \<Rightarrow> hard_ceiling \<Rightarrow> spend_refusal_reason option" where
  "spendRefusalReason amount cap =
    (case amount of
       None \<Rightarrow> Some (Unusable_amount None)
     | Some v \<Rightarrow>
         if v < 0 then Some (Unusable_amount (Some v))
         else case malformed cap of
            Some raw \<Rightarrow> Some (Ceiling_malformed v raw)
          | None \<Rightarrow> (case limitUsd cap of
                       None \<Rightarrow> Some (Ceiling_unset v)
                     | Some limit \<Rightarrow> if v > limit then Some (Over_ceiling v limit) else None))"

definition refusal_of :: "never_trustable_rule \<Rightarrow> autonomy_effect \<Rightarrow> refusal_text \<Rightarrow> never_trustable_refusal" where
  "refusal_of rule effect reason = \<lparr>nt_rule = rule, nt_effect = effect, nt_reason = reason\<rparr>"

text \<open>The switch over one effect: the refusals it pushes.\<close>

fun refusals_for :: "hard_ceiling \<Rightarrow> autonomy_effect \<Rightarrow> never_trustable_refusal list" where
  "refusals_for cap (Git_push repo br force protected) =
     (if force then [refusal_of Force_push (Git_push repo br force protected)
                       (Refused_force_push repo br)] else []) @
     (if protected then [refusal_of Protected_branch_write (Git_push repo br force protected)
                           (Refused_protected repo br)] else [])"
| "refusals_for cap (Delete subject ref) =
     (if subject \<in> {Del_branch, Del_issue, Del_pull_request}
      then [refusal_of Destructive_delete (Delete subject ref) (Refused_delete subject ref)] else [])"
| "refusals_for cap (Credential_access mode what) =
     [refusal_of Credential_access_rule (Credential_access mode what) (Refused_credential mode what)]"
| "refusals_for cap (Spend amount) =
     (case spendRefusalReason amount cap of None \<Rightarrow> []
      | Some reason \<Rightarrow> [refusal_of Hard_spend_ceiling (Spend amount) (Refused_spend reason)])"
| "refusals_for cap (File_write repo path) =
     (case forbiddenPathReason path of None \<Rightarrow> []
      | Some why \<Rightarrow> [refusal_of Self_modification (File_write repo path) (Refused_write repo path why)])"
| "refusals_for cap (Quarantine_clear wo) =
     [refusal_of Quarantine_self_clear (Quarantine_clear wo) (Refused_quarantine wo)]"
| "refusals_for cap (Trust_grant_write operation) =
     (if operation \<noteq> Grant_revoke
      then [refusal_of Trust_self_grant (Trust_grant_write operation) (Refused_grant operation)] else [])"
| "refusals_for cap (Budget_config_write setting) =
     [refusal_of Budget_config_write_rule (Budget_config_write setting) (Refused_budget setting)]"
| "refusals_for cap (Issue_create repo) = []"
| "refusals_for cap (Issue_edit repo ref) = []"
| "refusals_for cap (Dispatch_effect repo wo) = []"
| "refusals_for cap (Comment_effect repo ref) = []"

text \<open>The loop over the effects.\<close>

fun checkNeverTrustable :: "autonomy_effect list \<Rightarrow> hard_ceiling \<Rightarrow> never_trustable_refusal list" where
  "checkNeverTrustable [] cap = []"
| "checkNeverTrustable (effect # effects) cap = refusals_for cap effect @ checkNeverTrustable effects cap"

section \<open>The effects of an action class\<close>

datatype quarantine_direction = Quarantine | Release

record action_effect_params =
  aep_repository :: "string option"
  aep_workOrder :: "string option"
  aep_issueRef :: "string option"
  aep_childCount :: "js_number option"
  aep_estimatedCostUsd :: "js_number option"
  aep_direction :: "quarantine_direction option"

definition UNKNOWN :: string where "UNKNOWN = ''unknown''"

definition spend_effect :: "action_effect_params \<Rightarrow> autonomy_effect" where
  "spend_effect params = Spend (get_or (Some 0) (aep_estimatedCostUsd params))"

text \<open>\<open>Math.trunc\<close> of a number that is then cut off at 0.\<close>

definition childIssueCount :: "action_effect_params \<Rightarrow> nat" where
  "childIssueCount params =
    (case get_or (Some 0) (aep_childCount params) of
       None \<Rightarrow> 0
     | Some raw \<Rightarrow> nat (if raw \<ge> 0 then \<lfloor>raw\<rfloor> else \<lceil>raw\<rceil>))"

fun effectsFor :: "action_class_id \<Rightarrow> action_effect_params \<Rightarrow> autonomy_effect list" where
  "effectsFor Run_diagnosis params = [spend_effect params]"
| "effectsFor Spec_quality_feedback params = [spend_effect params]"
| "effectsFor Daily_brief params = [spend_effect params]"
| "effectsFor Re_dispatch params =
     [Dispatch_effect (get_or UNKNOWN (aep_repository params)) (get_or UNKNOWN (aep_workOrder params)),
      spend_effect params]"
| "effectsFor Decomposition params =
     replicate (childIssueCount params) (Issue_create (get_or UNKNOWN (aep_repository params))) @
     [spend_effect params]"
| "effectsFor Issue_shaping params =
     [Issue_edit (get_or UNKNOWN (aep_repository params)) (get_or UNKNOWN (aep_issueRef params)),
      spend_effect params]"
| "effectsFor Quarantine_decision params =
     (if aep_direction params = Some Release
      then [Quarantine_clear (get_or UNKNOWN (aep_workOrder params))] else [])"

section \<open>Enforcement\<close>

record enforcement_request =
  er_actionClass :: string
  er_effects :: "autonomy_effect list"
  er_proposalId :: "string option"
  er_grantId :: "string option"
  er_targetRef :: "string option"
  er_actorUserId :: "string option"

datatype never_trustable_verdict = Permitted | Not_permitted "never_trustable_refusal list"

text \<open>The audit row of a refusal.\<close>

record refusal_audit =
  ra_actorUserId :: "string option"
  ra_targetId :: string
  ra_rules :: "never_trustable_rule list"
  ra_reasons :: "refusal_text list"
  ra_effects :: "autonomy_effect list"
  ra_proposalId :: "string option"
  ra_grantId :: "string option"
  ra_targetRef :: "string option"

definition audit_of :: "enforcement_request \<Rightarrow> never_trustable_refusal list \<Rightarrow> refusal_audit" where
  "audit_of request refusals =
    \<lparr>ra_actorUserId = er_actorUserId request, ra_targetId = er_actionClass request,
     ra_rules = map nt_rule refusals, ra_reasons = map nt_reason refusals,
     ra_effects = map nt_effect refusals, ra_proposalId = er_proposalId request,
     ra_grantId = er_grantId request, ra_targetRef = er_targetRef request\<rparr>"

text \<open>\<open>record\<close>: the write may fail, which is caught; \<open>writable\<close> says whether it goes through.\<close>

definition record_refusal ::
  "bool \<Rightarrow> enforcement_request \<Rightarrow> never_trustable_refusal list \<Rightarrow> refusal_audit list \<Rightarrow> refusal_audit list" where
  "record_refusal writable request refusals audit =
    (if writable then audit @ [audit_of request refusals] else audit)"

definition enforce ::
  "bool \<Rightarrow> hard_ceiling \<Rightarrow> enforcement_request \<Rightarrow> refusal_audit list \<Rightarrow> never_trustable_verdict \<times> refusal_audit list" where
  "enforce writable cap request audit =
    (let refusals = checkNeverTrustable (er_effects request) cap in
     if refusals = [] then (Permitted, audit)
     else (Not_permitted refusals, record_refusal writable request refusals audit))"

section \<open>Lemmas\<close>

subsection \<open>Splitting and joining\<close>

lemma split_on_not_Nil [simp]: "split_on d s \<noteq> []"
  by (induction s) (auto split: list.splits)

lemma split_on_free: "d \<notin> set s \<Longrightarrow> split_on d s = [s]"
  by (induction s) auto

lemma split_on_append: "split_on d (a @ d # b) = split_on d a @ split_on d b"
  by (induction a) (auto split: list.splits)

lemma split_on_parts_free: "p \<in> set (split_on d s) \<Longrightarrow> d \<notin> set p"
proof (induction s arbitrary: p)
  case (Cons c s)
  show ?case
  proof (cases "split_on d s")
    case (Cons q qs)
    with Cons.prems Cons.IH[of q] Cons.IH[of p] show ?thesis by (auto split: if_splits)
  qed simp
qed simp

lemma split_on_join:
  "ps \<noteq> [] \<Longrightarrow> (\<And>p. p \<in> set ps \<Longrightarrow> d \<notin> set p) \<Longrightarrow> split_on d (join_with [d] ps) = ps"
proof (induction "[d]" ps rule: join_with.induct)
  case (3 p q ps)
  then have "split_on d p = [p]" by (simp add: split_on_free)
  with 3 show ?case using split_on_append[of d p "join_with [d] (q # ps)"] by simp
qed (simp_all add: split_on_free)

lemma join_with_append:
  "xs \<noteq> [] \<Longrightarrow> ys \<noteq> [] \<Longrightarrow> join_with d (xs @ ys) = join_with d xs @ d @ join_with d ys"
proof (induction d xs rule: join_with.induct)
  case (2 d p)
  then show ?case by (cases ys) auto
qed auto

lemma join_with_eq_Nil:
  "(\<And>p. p \<in> set ps \<Longrightarrow> p \<noteq> []) \<Longrightarrow> d \<noteq> [] \<Longrightarrow> join_with d ps = [] \<longleftrightarrow> ps = []"
  by (induction d ps rule: join_with.induct) auto

text \<open>
  A path is a non-empty list of segments: equality and "is the directory or below it" on joined
  paths are equality and prefix on segments.
\<close>

lemma join_eq_iff:
  assumes "\<And>p. p \<in> set ps \<Longrightarrow> d \<notin> set p" "\<And>p. p \<in> set qs \<Longrightarrow> d \<notin> set p" "ps \<noteq> []" "qs \<noteq> []"
  shows "join_with [d] ps = join_with [d] qs \<longleftrightarrow> ps = qs"
  using split_on_join[of ps d] split_on_join[of qs d] assms by metis

lemma below_iff:
  assumes "\<And>p. p \<in> set ps \<Longrightarrow> d \<notin> set p" "\<And>p. p \<in> set qs \<Longrightarrow> d \<notin> set p" "ps \<noteq> []" "qs \<noteq> []"
  shows "join_with [d] qs = join_with [d] ps \<or> starts_with (join_with [d] ps @ [d]) (join_with [d] qs)
     \<longleftrightarrow> take (length ps) qs = ps"
proof
  assume "join_with [d] qs = join_with [d] ps \<or> starts_with (join_with [d] ps @ [d]) (join_with [d] qs)"
  then show "take (length ps) qs = ps"
  proof
    assume "starts_with (join_with [d] ps @ [d]) (join_with [d] qs)"
    then obtain t where "join_with [d] qs = join_with [d] ps @ d # t" by (auto simp: starts_with_iff)
    then have "split_on d (join_with [d] qs) = split_on d (join_with [d] ps) @ split_on d t"
      by (simp add: split_on_append)
    with assms have "qs = ps @ split_on d t" using split_on_join[of qs d] split_on_join[of ps d] by simp
    then show ?thesis by simp
  qed (use join_eq_iff[of qs d ps] assms in simp)
next
  assume t: "take (length ps) qs = ps"
  then have q: "qs = ps @ drop (length ps) qs" by (metis append_take_drop_id)
  show "join_with [d] qs = join_with [d] ps \<or> starts_with (join_with [d] ps @ [d]) (join_with [d] qs)"
  proof (cases "drop (length ps) qs = []")
    case True
    with q have "qs = ps" by simp
    then show ?thesis by simp
  next
    case False
    then have "join_with [d] qs = (join_with [d] ps @ [d]) @ join_with [d] (drop (length ps) qs)"
      using q join_with_append[OF assms(3), of "drop (length ps) qs" "[d]"] by simp
    then show ?thesis by (simp add: starts_with_iff)
  qed
qed

lemma basename_join:
  assumes "\<And>p. p \<in> set ps \<Longrightarrow> CHR ''/'' \<notin> set p" "ps \<noteq> []"
  shows "basenameOf (join_with ''/'' ps) = last ps"
proof -
  have free: "c \<noteq> CHR ''/''" if "c \<in> set (rev (last ps))" for c
    using assms that by auto
  have tw: "takeWhile (\<lambda>c. c \<noteq> CHR ''/'') (rev (last ps) @ xs) = rev (last ps) @ takeWhile (\<lambda>c. c \<noteq> CHR ''/'') xs" for xs
    using free by (rule takeWhile_append2)
  show ?thesis
  proof (cases "butlast ps = []")
    case True
    with assms(2) have "ps = [last ps]" by (metis append_Nil append_butlast_last_id)
    then have "join_with ''/'' ps = last ps" by (metis join_with.simps(2))
    then show ?thesis using tw[of "[]"] by (simp only: basenameOf_def append_Nil2 takeWhile.simps rev_rev_ident)
  next
    case False
    with assms(2) have "join_with ''/'' ps = join_with ''/'' (butlast ps) @ ''/'' @ last ps"
      using join_with_append[of "butlast ps" "[last ps]" "''/''"] by simp
    then show ?thesis by (simp add: basenameOf_def tw)
  qed
qed

subsection \<open>What a path names\<close>

definition path_segments :: "string \<Rightarrow> string list" where
  "path_segments rawPath =
    filter (\<lambda>s. s \<noteq> '''' \<and> s \<noteq> ''.'') (split_on (CHR ''/'') (unify_slashes rawPath))"

lemma path_segments_free: "p \<in> set (path_segments raw) \<Longrightarrow> CHR ''/'' \<notin> set p"
  by (auto simp: path_segments_def dest: split_on_parts_free)

lemma path_segments_nonempty: "p \<in> set (path_segments raw) \<Longrightarrow> p \<noteq> []"
  by (auto simp: path_segments_def)

text \<open>The places a rule protects, on segments.\<close>

definition env_name :: "string \<Rightarrow> bool" where
  "env_name n \<longleftrightarrow> ends_with ''.env'' n \<or> (starts_with ''.env.'' n \<and> n \<noteq> ''.env.'')"

definition protected_place :: "string list \<Rightarrow> bool" where
  "protected_place segs \<longleftrightarrow>
     take 2 segs = [''.github'', ''workflows''] \<or> take 2 segs = [''.github'', ''actions''] \<or>
     take 1 segs = [''scripts''] \<or> take 4 segs = [''apps'', ''api'', ''src'', ''autonomy''] \<or>
     segs = [''apps'', ''api'', ''src'', ''supervisor'', ''action-classes.ts''] \<or>
     (segs \<noteq> [] \<and> env_name (last segs))"

lemma matches_below:
  assumes "\<And>p. p \<in> set ps \<Longrightarrow> CHR ''/'' \<notin> set p" "\<And>p. p \<in> set qs \<Longrightarrow> CHR ''/'' \<notin> set p"
    "ps \<noteq> []" "join_with ''/'' ps \<noteq> []"
  shows "matchesPattern (join_with ''/'' ps @ ''/**'') (join_with ''/'' qs) \<longleftrightarrow> take (length ps) qs = ps"
proof (cases "qs = []")
  case True
  with assms(3,4) show ?thesis
    by (auto simp: matchesPattern_def ends_with_def starts_with_iff)
next
  case False
  have "ends_with ''/**'' (join_with ''/'' ps @ ''/**'')" by (simp add: ends_with_def starts_with_def)
  with below_iff[of ps "CHR ''/''" qs] False assms show ?thesis by (simp add: matchesPattern_def)
qed

lemma ends_with_self: "ends_with p s \<Longrightarrow> length p = length s \<Longrightarrow> p = s"
  by (auto simp: ends_with_def starts_with_def)

lemma starts_with_self: "starts_with p s \<Longrightarrow> length p = length s \<Longrightarrow> p = s"
  by (auto simp: starts_with_def)

lemma ends_with_length: "ends_with p s \<Longrightarrow> length p \<le> length s"
  by (auto simp: ends_with_def starts_with_iff dest: arg_cong[where f=length])

lemma starts_with_length: "starts_with p s \<Longrightarrow> length p \<le> length s"
  by (auto simp: starts_with_iff)

lemma env_name_iff:
  "env_name n \<longleftrightarrow> matchesBasename ''.env'' n \<or> matchesBasename ''.env.*'' n \<or> matchesBasename ''*.env'' n"
proof -
  have g: "matchesBasename ''.env'' n \<longleftrightarrow> n = ''.env''"
    "matchesBasename ''.env.*'' n \<longleftrightarrow> starts_with ''.env.'' n \<and> length n > 5"
    "matchesBasename ''*.env'' n \<longleftrightarrow> ends_with ''.env'' n \<and> length n > 4"
    by (simp_all add: matchesBasename_def starts_with_def ends_with_def eval_nat_numeral)
  have "ends_with ''.env'' n \<longleftrightarrow> n = ''.env'' \<or> (ends_with ''.env'' n \<and> length n > 4)"
    using ends_with_self[of "''.env''" n] ends_with_length[of "''.env''" n]
    by (cases "length n = 4") (auto simp: ends_with_def starts_with_def)
  moreover have "starts_with ''.env.'' n \<and> n \<noteq> ''.env.'' \<longleftrightarrow> starts_with ''.env.'' n \<and> length n > 5"
    using starts_with_self[of "''.env.''" n] starts_with_length[of "''.env.''" n]
    by (cases "length n = 5") auto
  ultimately show ?thesis unfolding env_name_def g by blast
qed

lemma matches_file:
  assumes "\<And>p. p \<in> set qs \<Longrightarrow> CHR ''/'' \<notin> set p" 
  shows "matchesPattern ''apps/api/src/supervisor/action-classes.ts'' (join_with ''/'' qs) \<longleftrightarrow>
      qs = [''apps'', ''api'', ''src'', ''supervisor'', ''action-classes.ts'']"
proof (cases "qs = []")
  case True
  then show ?thesis by (simp add: matchesPattern_def ends_with_def starts_with_def)
next
  case False
  let ?f = "[''apps'', ''api'', ''src'', ''supervisor'', ''action-classes.ts'']"
  have "matchesPattern ''apps/api/src/supervisor/action-classes.ts'' (join_with ''/'' qs) \<longleftrightarrow>
      join_with ''/'' qs = join_with ''/'' ?f"
    by (simp add: matchesPattern_def ends_with_def starts_with_def)
  also have "\<dots> \<longleftrightarrow> qs = ?f"
    by (rule join_eq_iff) (use assms False in auto)
  finally show ?thesis .
qed

lemma matches_env:
  assumes "\<And>p. p \<in> set qs \<Longrightarrow> CHR ''/'' \<notin> set p" 
  shows "(matchesPattern ''**/.env'' (join_with ''/'' qs) \<or> matchesPattern ''**/.env.*'' (join_with ''/'' qs) \<or>
      matchesPattern ''**/*.env'' (join_with ''/'' qs)) \<longleftrightarrow> (qs \<noteq> [] \<and> env_name (last qs))"
proof -
  have base: "basenameOf (join_with ''/'' qs) = (if qs = [] then [] else last qs)"
    using basename_join[of qs] assms by (auto simp: basenameOf_def)
  have "matchesPattern ''**/.env'' p \<longleftrightarrow> matchesBasename ''.env'' (basenameOf p)"
    "matchesPattern ''**/.env.*'' p \<longleftrightarrow> matchesBasename ''.env.*'' (basenameOf p)"
    "matchesPattern ''**/*.env'' p \<longleftrightarrow> matchesBasename ''*.env'' (basenameOf p)" for p
    by (simp_all add: matchesPattern_def ends_with_def starts_with_def)
  then have "(matchesPattern ''**/.env'' (join_with ''/'' qs) \<or> matchesPattern ''**/.env.*'' (join_with ''/'' qs) \<or>
      matchesPattern ''**/*.env'' (join_with ''/'' qs)) \<longleftrightarrow> env_name (basenameOf (join_with ''/'' qs))"
    by (simp add: env_name_iff)
  moreover have "\<not> env_name []" by (simp add: env_name_def ends_with_def starts_with_def)
  ultimately show ?thesis by (simp add: base)
qed

text \<open>The path rules in terms of what a path names, however it is spelled.\<close>

lemma forbidden_iff:
  "forbiddenPathReason raw \<noteq> None \<longleftrightarrow>
     str_includes ''..'' (unify_slashes raw) \<or> protected_place (path_segments raw)"
proof (cases "str_includes ''..'' (unify_slashes raw)")
  case True
  then show ?thesis by (simp add: forbiddenPathReason_def normaliseWritePath_def)
next
  case False
  let ?qs = "path_segments raw" and ?p = "join_with ''/'' (path_segments raw)"
  have n: "normaliseWritePath raw = Some ?p"
    using False by (simp add: normaliseWritePath_def path_segments_def)
  have below: "matchesPattern (join_with ''/'' ps @ ''/**'') ?p \<longleftrightarrow> take (length ps) ?qs = ps"
    if "list_all (\<lambda>p. CHR ''/'' \<notin> set p) ps" "ps \<noteq> []" "join_with ''/'' ps \<noteq> []" for ps
    using that matches_below[of ps ?qs] path_segments_free[of _ raw] by (simp add: list_all_iff)
  have "matchesPattern ''.github/workflows/**'' ?p \<longleftrightarrow> take 2 ?qs = [''.github'', ''workflows'']"
    "matchesPattern ''.github/actions/**'' ?p \<longleftrightarrow> take 2 ?qs = [''.github'', ''actions'']"
    "matchesPattern ''scripts/**'' ?p \<longleftrightarrow> take 1 ?qs = [''scripts'']"
    "matchesPattern ''apps/api/src/autonomy/**'' ?p \<longleftrightarrow> take 4 ?qs = [''apps'', ''api'', ''src'', ''autonomy'']"
    using below[of "[''.github'', ''workflows'']"] below[of "[''.github'', ''actions'']"]
      below[of "[''scripts'']"] below[of "[''apps'', ''api'', ''src'', ''autonomy'']"]
    by (simp_all add: eval_nat_numeral)
  with False n show ?thesis
    using matches_file[of ?qs] matches_env[of ?qs] path_segments_free[of _ raw]
    by (simp add: forbiddenPathReason_def find_None_iff FORBIDDEN_WRITE_PATHS_def protected_place_def) blast
qed
subsection \<open>The check\<close>

text \<open>What an effect must be to pass.\<close>

fun harmless :: "hard_ceiling \<Rightarrow> autonomy_effect \<Rightarrow> bool" where
  "harmless cap (Git_push repo br force protected) \<longleftrightarrow> \<not> force \<and> \<not> protected"
| "harmless cap (Delete subject ref) \<longleftrightarrow> subject = Del_run \<or> subject = Del_work_order"
| "harmless cap (Spend amount) \<longleftrightarrow>
     malformed cap = None \<and> (\<exists>v limit. amount = Some v \<and> limitUsd cap = Some limit \<and> 0 \<le> v \<and> v \<le> limit)"
| "harmless cap (File_write repo raw) \<longleftrightarrow>
     \<not> str_includes ''..'' (unify_slashes raw) \<and> \<not> protected_place (path_segments raw)"
| "harmless cap (Trust_grant_write operation) \<longleftrightarrow> operation = Grant_revoke"
| "harmless cap (Credential_access mode what) \<longleftrightarrow> False"
| "harmless cap (Quarantine_clear wo) \<longleftrightarrow> False"
| "harmless cap (Budget_config_write setting) \<longleftrightarrow> False"
| "harmless cap effect \<longleftrightarrow> True"

lemma spend_harmless: "spendRefusalReason amount cap = None \<longleftrightarrow> harmless cap (Spend amount)"
  by (auto simp: spendRefusalReason_def split: option.splits if_splits)

lemma refusals_for_Nil: "refusals_for cap e = [] \<longleftrightarrow> harmless cap e"
proof (cases e)
  case (Delete subject ref)
  then show ?thesis by (cases subject) simp_all
next
  case (Spend amount)
  then show ?thesis using spend_harmless[of amount cap] by (auto split: option.splits)
next
  case (File_write repo raw)
  then show ?thesis using forbidden_iff[of raw] by (auto split: option.splits)
qed auto

lemma refusals_for_effect: "r \<in> set (refusals_for cap e) \<Longrightarrow> nt_effect r = e"
  by (cases e) (auto simp: refusal_of_def split: if_splits option.splits)

lemma check_append:
  "checkNeverTrustable (xs @ ys) cap = checkNeverTrustable xs cap @ checkNeverTrustable ys cap"
  by (induction xs) simp_all

lemma check_Nil: "checkNeverTrustable effects cap = [] \<longleftrightarrow> list_all (harmless cap) effects"
  by (induction effects) (simp_all add: refusals_for_Nil)

lemma check_effects:
  "nt_effect ` set (checkNeverTrustable effects cap) = {e \<in> set effects. \<not> harmless cap e}"
proof (induction effects)
  case (Cons e effects)
  have "nt_effect ` set (refusals_for cap e) = (if harmless cap e then {} else {e})"
    using refusals_for_Nil[of cap e] refusals_for_effect[of _ cap e]
    by (cases "refusals_for cap e") force+
  with Cons show ?case by (auto simp: image_Un)
qed simp

lemma enforce_Permitted_iff:
  "fst (enforce writable cap request audit) = Permitted \<longleftrightarrow> list_all (harmless cap) (er_effects request)"
  by (simp add: enforce_def Let_def check_Nil)

end
