(* ===== verification/Promotion_Policy.thy ===== *)
theory Promotion_Policy
  imports Action_Classes
begin

text \<open>
  The ladder's pure decision (\<open>promotion/promotion-policy.ts\<close>): the evidence about a class, the
  rules that move it between rungs, what is missing when they do not, and the check of the order in
  which classes were promoted. A count is a \<open>nat\<close>; a rate is the exact quotient, which compares
  with \<open>0.9\<close> and \<open>0.7\<close> as the rounded one does (below \<open>2 ^ 50\<close> decisions two different quotients
  round to different numbers). A sentence is a constructor with the numbers it prints.
\<close>

section \<open>Thresholds\<close>

definition MIN_SAMPLE :: nat where "MIN_SAMPLE = 20"
definition PROMOTION_RATE :: rat where "PROMOTION_RATE = 9 / 10"
definition DEMOTION_RATE :: rat where "DEMOTION_RATE = 7 / 10"
definition DEMOTION_MIN_SAMPLE :: nat where "DEMOTION_MIN_SAMPLE = 5"
definition REGRESSION_WINDOW_DAYS :: int where "REGRESSION_WINDOW_DAYS = 14"
definition MANUAL_HOLD_DAYS :: int where "MANUAL_HOLD_DAYS = REGRESSION_WINDOW_DAYS"
definition LIFETIME_WINDOW_DAYS :: int where "LIFETIME_WINDOW_DAYS = 3650"

section \<open>Evidence\<close>

record class_evidence =
  ev_actionClass :: string
  ev_approved :: nat
  ev_rejected :: nat
  ev_sample :: nat
  ev_rate :: "rat option"
  ev_recentApproved :: nat
  ev_recentRejected :: nat
  ev_recentSample :: nat
  ev_recentRate :: "rat option"
  ev_fromProposals :: nat
  ev_fromApprovals :: nat

definition emptyEvidence :: "string \<Rightarrow> class_evidence" where
  "emptyEvidence cls =
    \<lparr>ev_actionClass = cls, ev_approved = 0, ev_rejected = 0, ev_sample = 0, ev_rate = None,
     ev_recentApproved = 0, ev_recentRejected = 0, ev_recentSample = 0, ev_recentRate = None,
     ev_fromProposals = 0, ev_fromApprovals = 0\<rparr>"

definition rateOf :: "nat \<Rightarrow> nat \<Rightarrow> rat option" where
  "rateOf a r = (let whole = a + r in if whole = 0 then None else Some (of_nat a / of_nat whole))"

section \<open>Verdicts and their sentences\<close>

datatype promotion_rung = Observe | Measure | Promoted

datatype promotion_change_reason =
    Promoted_on_evidence | Demoted_on_regression | Demoted_ineligible | Demoted_manually | Paused_globally

text \<open>\<open>pct\<close>: the rate in per mille, which the sentence prints as a percentage with one decimal.\<close>

datatype pct_text = No_evidence | Per_mille int

definition pct :: "rat option \<Rightarrow> pct_text" where
  "pct rate = (case rate of None \<Rightarrow> No_evidence | Some x \<Rightarrow> Per_mille (math_round (x * 1000)))"

datatype hold_text =
    Too_little_recent nat
  | Steady pct_text nat
  | Never_judged
  | Short_of_sample nat pct_text nat bool \<comment> \<open>sample, rate, missing, whether the rate is low too\<close>
  | Rate_too_low nat pct_text nat \<comment> \<open>sample, rate, approvals missing\<close>

datatype ladder_detail =
    Must_not_stand string nat nat \<comment> \<open>class, approved, sample\<close>
  | Never_promotable string
  | Ladder_paused string promotion_rung
  | Regressed pct_text nat nat nat pct_text nat
  | Held_by_hand string "string option" instant hold_text
  | Good_record_getting_worse pct_text nat pct_text nat
  | Cleared_the_bar pct_text nat nat nat nat nat pct_text nat
  | Holding hold_text
  | Demoted_by_hand instant string nat nat pct_text nat nat pct_text "string option" instant

datatype ladder_verdict =
    Promote ladder_detail
  | Demote promotion_change_reason ladder_detail
  | Hold ladder_detail

record manual_hold =
  heldUntil :: instant
  heldById :: "string option"

section \<open>How far off\<close>

definition meetsPromotionRate :: "nat \<Rightarrow> nat \<Rightarrow> bool" where
  "meetsPromotionRate a r = (case rateOf a r of None \<Rightarrow> False | Some x \<Rightarrow> x \<ge> PROMOTION_RATE)"

lemma meets_iff: "meetsPromotionRate a r \<longleftrightarrow> 0 < a \<and> 9 * r \<le> a"
proof (cases "a + r = 0")
  case False
  then have "(0::rat) < of_nat (a + r)" by (simp only: of_nat_0_less_iff)
  then have "(9 / 10 \<le> (of_nat a :: rat) / of_nat (a + r)) \<longleftrightarrow> 9 * (of_nat (a + r) :: rat) \<le> 10 * of_nat a"
    by (simp add: pos_le_divide_eq)
  also have "\<dots> \<longleftrightarrow> (of_nat (9 * (a + r)) :: rat) \<le> of_nat (10 * a)" by simp
  also have "\<dots> \<longleftrightarrow> 9 * (a + r) \<le> 10 * a" by (rule of_nat_le_iff)
  finally show ?thesis using False by (auto simp: meetsPromotionRate_def rateOf_def PROMOTION_RATE_def)
qed (simp add: meetsPromotionRate_def rateOf_def)

text \<open>\<open>while (!meetsPromotionRate(a + needed, r)) needed++\<close>\<close>

function raise_until_met :: "nat \<Rightarrow> nat \<Rightarrow> nat \<Rightarrow> nat" where
  "raise_until_met a r needed =
    (if meetsPromotionRate (a + needed) r then needed else raise_until_met a r (needed + 1))"
  by pat_completeness auto
termination
  by (relation "measure (\<lambda>(a, r, needed). 9 * r + 1 - (a + needed))") (auto simp: meets_iff)

declare raise_until_met.simps [simp del]

definition shortfall_estimate :: "nat \<Rightarrow> nat \<Rightarrow> int" where
  "shortfall_estimate a r =
    \<lceil>(PROMOTION_RATE * of_nat r - (1 - PROMOTION_RATE) * of_nat a) / (1 - PROMOTION_RATE)\<rceil>"

definition shortfallCount :: "class_evidence \<Rightarrow> nat" where
  "shortfallCount e =
    raise_until_met (ev_approved e) (ev_rejected e)
      (nat (max 0 (shortfall_estimate (ev_approved e) (ev_rejected e) - 1)))"

definition holdDetail :: "promotion_rung \<Rightarrow> class_evidence \<Rightarrow> hold_text" where
  "holdDetail current e =
    (if current = Promoted then
       if ev_recentSample e < DEMOTION_MIN_SAMPLE then Too_little_recent (ev_recentSample e)
       else Steady (pct (ev_recentRate e)) (ev_recentSample e)
     else if ev_sample e = 0 then Never_judged
     else
       let shortBy = int MIN_SAMPLE - int (ev_sample e) in
       if shortBy > 0
       then Short_of_sample (ev_sample e) (pct (ev_rate e)) (nat shortBy)
              (case ev_rate e of None \<Rightarrow> False | Some x \<Rightarrow> x < PROMOTION_RATE)
       else Rate_too_low (ev_sample e) (pct (ev_rate e)) (shortfallCount e))"

section \<open>The rules\<close>

definition isRegressing :: "class_evidence \<Rightarrow> bool" where
  "isRegressing e \<longleftrightarrow>
     ev_recentSample e \<ge> DEMOTION_MIN_SAMPLE \<and>
     (case ev_recentRate e of None \<Rightarrow> False | Some x \<Rightarrow> x < DEMOTION_RATE)"

definition clears_bar :: "class_evidence \<Rightarrow> bool" where
  "clears_bar e \<longleftrightarrow>
     ev_sample e \<ge> MIN_SAMPLE \<and> (case ev_rate e of None \<Rightarrow> False | Some x \<Rightarrow> x \<ge> PROMOTION_RATE)"

definition evaluateLadder ::
  "promotion_rung \<Rightarrow> class_evidence \<Rightarrow> bool \<Rightarrow> bool \<Rightarrow> manual_hold option \<Rightarrow> ladder_verdict" where
  "evaluateLadder current e eligible paused hold =
    (if \<not> eligible then
       if current = Promoted
       then Demote Demoted_ineligible (Must_not_stand (ev_actionClass e) (ev_approved e) (ev_sample e))
       else Hold (Never_promotable (ev_actionClass e))
     else if paused then Hold (Ladder_paused (ev_actionClass e) current)
     else if current = Promoted \<and> isRegressing e then
       Demote Demoted_on_regression
         (Regressed (pct (ev_recentRate e)) (ev_recentSample e) (ev_recentApproved e)
            (ev_recentRejected e) (pct (ev_rate e)) (ev_sample e))
     else case hold of
       Some h \<Rightarrow>
         Hold (Held_by_hand (ev_actionClass e) (heldById h) (heldUntil h) (holdDetail current e))
     | None \<Rightarrow>
         if current \<noteq> Promoted \<and> clears_bar e then
           if isRegressing e
           then Hold (Good_record_getting_worse (pct (ev_rate e)) (ev_sample e)
                        (pct (ev_recentRate e)) (ev_recentSample e))
           else Promote (Cleared_the_bar (pct (ev_rate e)) (ev_sample e) (ev_approved e)
                           (ev_rejected e) (ev_fromProposals e) (ev_fromApprovals e)
                           (pct (ev_recentRate e)) (ev_recentSample e))
         else Hold (Holding (holdDetail current e)))"

definition rungFor :: "bool \<Rightarrow> class_evidence \<Rightarrow> promotion_rung" where
  "rungFor promoted e = (if promoted then Promoted else if ev_sample e > 0 then Measure else Observe)"

definition LADDER_CLASSES :: "string list" where
  "LADDER_CLASSES = map (\<lambda>c. class_name (ac_id c)) ACTION_CLASSES"

section \<open>The order check\<close>

definition EXPECTED_PROMOTION_ORDER :: "string list" where
  "EXPECTED_PROMOTION_ORDER =
    [''re-dispatch'', ''decomposition'', ''issue-shaping'', ''quarantine-decision'']"

datatype order_anomaly = Quarantine_promoted | Promoted_ahead_of string "string list"

text \<open>The loop over the expected order; \<open>earlier\<close> is \<open>slice(0, i)\<close>.\<close>

fun order_scan :: "string list \<Rightarrow> string list \<Rightarrow> string list \<Rightarrow> order_anomaly option" where
  "order_scan promoted earlier [] = None"
| "order_scan promoted earlier (candidate # rest) =
    (if candidate \<notin> set promoted then order_scan promoted (earlier @ [candidate]) rest
     else
       let skipped = filter (\<lambda>c. c \<notin> set promoted) earlier in
       if skipped \<noteq> [] then Some (Promoted_ahead_of candidate skipped)
       else order_scan promoted (earlier @ [candidate]) rest)"

definition promotionOrderAnomaly :: "string list \<Rightarrow> order_anomaly option" where
  "promotionOrderAnomaly promoted =
    (if ''quarantine-decision'' \<in> set promoted then Some Quarantine_promoted
     else order_scan promoted [] EXPECTED_PROMOTION_ORDER)"

section \<open>Lemmas\<close>

lemma evidence_class_sel [simp]: "ev_actionClass (emptyEvidence cls) = cls"
  by (simp add: emptyEvidence_def)

lemma shortfall_estimate_eq: "shortfall_estimate a r = 9 * int r - int a"
proof -
  have "(PROMOTION_RATE * of_nat r - (1 - PROMOTION_RATE) * of_nat a) / (1 - PROMOTION_RATE) =
    (of_int (9 * int r - int a) :: rat)"
    by (simp add: PROMOTION_RATE_def)
  then show ?thesis unfolding shortfall_estimate_def by (simp only: ceiling_of_int)
qed

text \<open>From any start that does not overshoot, the loop stops at the first number that is enough.\<close>

lemma raise_until_met_least:
  assumes "\<And>m. m < start \<Longrightarrow> \<not> meetsPromotionRate (a + m) r"
  shows "meetsPromotionRate (a + raise_until_met a r start) r \<and>
    (\<forall>m < raise_until_met a r start. \<not> meetsPromotionRate (a + m) r)"
  using assms
proof (induction a r start rule: raise_until_met.induct)
  case (1 a r needed)
  show ?case
  proof (cases "meetsPromotionRate (a + needed) r")
    case False
    then have "\<And>m. m < needed + 1 \<Longrightarrow> \<not> meetsPromotionRate (a + m) r"
      using 1(2) less_Suc_eq by auto
    from 1(1)[OF False this] show ?thesis using False by (simp add: raise_until_met.simps[of a r needed])
  qed (use 1(2) in \<open>simp add: raise_until_met.simps[of a r needed]\<close>)
qed

lemma rungFor_iff [simp]:
  "rungFor p e = Promoted \<longleftrightarrow> p"
  by (simp add: rungFor_def)

lemma rungFor_True [simp]: "rungFor True e = Promoted"
  by (simp add: rungFor_def)

lemma verdict_rung:
  "(case evaluateLadder current e eligible paused hold of
      Promote _ \<Rightarrow> True | Demote _ _ \<Rightarrow> False | Hold _ \<Rightarrow> current = Promoted) \<longleftrightarrow>
   (if \<not> eligible then False
    else if paused then current = Promoted
    else if current = Promoted then \<not> isRegressing e
    else hold = None \<and> clears_bar e \<and> \<not> isRegressing e)"
  by (auto simp: evaluateLadder_def split: option.splits)

lemma promote_iff:
  "(\<exists>d. evaluateLadder current e eligible paused hold = Promote d) \<longleftrightarrow>
   eligible \<and> \<not> paused \<and> current \<noteq> Promoted \<and> hold = None \<and> clears_bar e \<and> \<not> isRegressing e"
  by (auto simp: evaluateLadder_def split: option.splits)

lemma demote_iff:
  "evaluateLadder current e eligible paused hold = Demote reason d \<Longrightarrow>
   current = Promoted \<and>
   (reason = Demoted_ineligible \<and> \<not> eligible \<or>
    reason = Demoted_on_regression \<and> eligible \<and> \<not> paused \<and> isRegressing e)"
  by (auto simp: evaluateLadder_def split: option.splits if_splits)

end
