(* ===== verification/Row_History.thy ===== *)
theory Row_History
  imports Run_Store
begin

text \<open>
  What a table promises about a row over time, whatever operations run in between: the interface
  the grants and the approvals share. A state has steps and a table, its rows have keys, and
  \<open>later r r'\<close> says that \<open>r'\<close> is what \<open>r\<close> may have become.
\<close>

locale row_history =
  fixes step :: "'s \<Rightarrow> 's \<Rightarrow> bool"
    and table :: "'s \<Rightarrow> 'r list"
    and key :: "'r \<Rightarrow> 'k"
    and later :: "'r \<Rightarrow> 'r \<Rightarrow> bool"
  assumes later_refl: "later r r"
    and later_trans: "later r s \<Longrightarrow> later s t \<Longrightarrow> later r t"
    and step_later: "step st st' \<Longrightarrow> distinct (map key (table st)) \<Longrightarrow> r \<in> set (table st) \<Longrightarrow>
      \<exists>r' \<in> set (table st'). key r' = key r \<and> later r r'"
    and step_distinct: "step st st' \<Longrightarrow> distinct (map key (table st)) \<Longrightarrow> distinct (map key (table st'))"
begin

lemma steps_distinct:
  "step\<^sup>*\<^sup>* st st' \<Longrightarrow> distinct (map key (table st)) \<Longrightarrow> distinct (map key (table st'))"
  by (induction rule: rtranclp_induct) (simp_all add: step_distinct)

lemma steps_later:
  "step\<^sup>*\<^sup>* st st' \<Longrightarrow> distinct (map key (table st)) \<Longrightarrow> r \<in> set (table st) \<Longrightarrow>
   \<exists>r' \<in> set (table st'). key r' = key r \<and> later r r'"
proof (induction rule: rtranclp_induct)
  case (step y z)
  then obtain s where "s \<in> set (table y)" "key s = key r" "later r s" by blast
  moreover from step_later[OF step.hyps(2) steps_distinct[OF step.hyps(1) step.prems(1)] this(1)] obtain t where
    "t \<in> set (table z)" "key t = key s" "later s t" by blast
  ultimately show ?case using later_trans[of r s t] by auto
qed (use later_refl in blast)

text \<open>With unique keys the row under a key is that later version.\<close>

lemma row_under_key:
  assumes "step\<^sup>*\<^sup>* st st'" "distinct (map key (table st))" "r \<in> set (table st)" "r' \<in> set (table st')"
    "key r' = key r"
  shows "later r r'"
proof -
  obtain s where s: "s \<in> set (table st')" "key s = key r" "later r s"
    using steps_later[OF assms(1-3)] by blast
  have "s = r'"
    using distinct_map_eqD[OF steps_distinct[OF assms(1,2)] s(1) assms(4)] s(2) assms(5) by simp
  with s(3) show ?thesis by simp
qed

end

text \<open>
  Most steps update some rows in place, each to a later version under its key, and may add one row
  under a fresh key.
\<close>

definition table_update ::
  "('r \<Rightarrow> 'k) \<Rightarrow> ('r \<Rightarrow> 'r \<Rightarrow> bool) \<Rightarrow> 'r list \<Rightarrow> 'r list \<Rightarrow> bool" where
  "table_update key later rows rows' \<longleftrightarrow>
     list_all2 (\<lambda>r r'. key r' = key r \<and> later r r') rows rows'"

definition table_step ::
  "('r \<Rightarrow> 'k) \<Rightarrow> ('r \<Rightarrow> 'r \<Rightarrow> bool) \<Rightarrow> 'r list \<Rightarrow> 'r list \<Rightarrow> bool" where
  "table_step key later rows rows' \<longleftrightarrow>
     table_update key later rows rows' \<or>
     (\<exists>mid r. table_update key later rows mid \<and> rows' = mid @ [r] \<and> key r \<notin> key ` set rows)"

lemma table_update_refl: "(\<And>r. later r r) \<Longrightarrow> table_update key later rows rows"
  by (simp add: table_update_def list.rel_refl)

lemma table_updateI:
  assumes "\<And>r. r \<in> set rows \<Longrightarrow> P r \<Longrightarrow> key (f r) = key r \<and> later r (f r)" "\<And>r. later r r"
  shows "table_update key later rows (snd (update_many P f rows))"
  using assms by (auto simp: table_update_def update_many_def list_all2_map2 intro!: list.rel_refl_strong)

lemma table_update_keys: "table_update key later rows rows' \<Longrightarrow> map key rows' = map key rows"
  unfolding table_update_def by (induction rule: list_all2_induct) auto

lemma table_update_row:
  "table_update key later rows rows' \<Longrightarrow> r \<in> set rows \<Longrightarrow> \<exists>r' \<in> set rows'. key r' = key r \<and> later r r'"
  unfolding table_update_def by (induction rule: list_all2_induct) auto

lemma table_update_row_back:
  "table_update key later rows rows' \<Longrightarrow> r' \<in> set rows' \<Longrightarrow> \<exists>r \<in> set rows. key r' = key r \<and> later r r'"
  unfolding table_update_def by (induction rule: list_all2_induct) auto

lemma table_update_trans:
  assumes "table_update key later a b" "table_update key later b c"
    "\<And>r s t. later r s \<Longrightarrow> later s t \<Longrightarrow> later r t"
  shows "table_update key later a c"
  using assms unfolding table_update_def
  by (auto simp: list_all2_conv_all_nth)

lemma table_update_snoc:
  assumes "table_update key later (rows @ [r]) rows'"
  obtains mid r' where "rows' = mid @ [r']" "table_update key later rows mid" "key r' = key r" "later r r'"
  using assms unfolding table_update_def by (auto simp: list_all2_append1 list_all2_Cons1)

lemma table_step_snoc:
  assumes "table_update key later (rows @ [r]) rows'" "key r \<notin> key ` set rows"
  shows "table_step key later rows rows'"
proof -
  obtain mid r' where "rows' = mid @ [r']" "table_update key later rows mid" "key r' = key r"
    using table_update_snoc[OF assms(1)] by metis
  with assms(2) show ?thesis unfolding table_step_def by metis
qed

lemma table_step_row:
  "table_step key later rows rows' \<Longrightarrow> r \<in> set rows \<Longrightarrow> \<exists>r' \<in> set rows'. key r' = key r \<and> later r r'"
  unfolding table_step_def using table_update_row by fastforce

lemma table_step_distinct:
  assumes "table_step key later rows rows'" "distinct (map key rows)"
  shows "distinct (map key rows')"
proof -
  have "distinct (map key (mid @ [r]))" if "table_update key later rows mid" "key r \<notin> key ` set rows" for mid r
  proof -
    have "map key mid = map key rows" using table_update_keys[OF that(1)] .
    moreover from this have "key ` set mid = key ` set rows" by (metis set_map)
    ultimately show ?thesis using that(2) assms(2) by simp
  qed
  with assms show ?thesis
    unfolding table_step_def using table_update_keys by metis
qed

end
