(* ===== verification/Trust_Grants.thy ===== *)
theory Trust_Grants
  imports Never_Trustable Dispatch_Policy Promotion_Policy Row_History
begin

text \<open>
  Standing trust (\<open>trust/\<close>): the table of grants as the columns the service reads and writes, the
  rule that suspends a grant on its evidence (\<open>auto-revoke.ts\<close>), the attributes of a new grant
  (\<open>defaults.ts\<close>) and of a renewal (\<open>renewal.ts\<close>), and every operation of \<open>trust-grant.service.ts\<close>:
  a query is a list operation on the table, a transaction one state change, and an exception the
  left of a sum. A \<open>Decimal\<close> column is read through \<open>decimalToNumber\<close>, so it is a \<open>js_number\<close>;
  its rounding to the column's four decimals is left out, and so is \<open>updatedAt\<close>, which the client
  library writes.
\<close>

section \<open>Defaults\<close>

definition DEFAULT_GRANT_EXPIRY_DAYS :: int where "DEFAULT_GRANT_EXPIRY_DAYS = 14"
definition DEFAULT_GRANT_BUDGET_CEILING_USD :: usd where "DEFAULT_GRANT_BUDGET_CEILING_USD = 25"
definition DEFAULT_GRANT_MAX_FAILURE_RATE :: rat where "DEFAULT_GRANT_MAX_FAILURE_RATE = 34 / 100"
definition DEFAULT_GRANT_MAX_COST_PER_ACTION_USD :: usd where "DEFAULT_GRANT_MAX_COST_PER_ACTION_USD = 5"
definition DEFAULT_GRANT_MIN_ACTIONS_BEFORE_AUTO_REVOKE :: int where
  "DEFAULT_GRANT_MIN_ACTIONS_BEFORE_AUTO_REVOKE = 3"
definition NEAR_EXPIRY_WINDOW_MS :: int where "NEAR_EXPIRY_WINDOW_MS = 48 * 60 * 60 * 1000"
definition NEAR_BUDGET_HEADROOM_FRACTION :: rat where "NEAR_BUDGET_HEADROOM_FRACTION = 2 / 10"

record grant_attributes =
  ga_expiresAt :: instant
  ga_budgetCeilingUsd :: usd
  ga_maxFailureRate :: rat
  ga_maxCostPerActionUsd :: usd
  ga_minActions :: int

definition defaultGrantAttributes :: "instant \<Rightarrow> grant_attributes" where
  "defaultGrantAttributes now =
    \<lparr>ga_expiresAt = now + DEFAULT_GRANT_EXPIRY_DAYS * 24 * 60 * 60 * 1000,
     ga_budgetCeilingUsd = DEFAULT_GRANT_BUDGET_CEILING_USD,
     ga_maxFailureRate = DEFAULT_GRANT_MAX_FAILURE_RATE,
     ga_maxCostPerActionUsd = DEFAULT_GRANT_MAX_COST_PER_ACTION_USD,
     ga_minActions = DEFAULT_GRANT_MIN_ACTIONS_BEFORE_AUTO_REVOKE\<rparr>"

section \<open>The table\<close>

datatype grant_status = Grant_active | Grant_expired | Grant_revoked | Grant_suspended

datatype grant_end_reason =
    Manual_revocation | End_expired | Budget_exhausted_end | Failure_rate_exceeded
  | Cost_per_action_exceeded | Class_demoted | Superseded_by_renewal

datatype duration_text = Less_than_a_minute | Minutes int | Hours int | Days int

definition describeDuration :: "int \<Rightarrow> duration_text" where
  "describeDuration ms =
    (let minutes = \<bar>ms\<bar> div 60000; hours = minutes div 60 in
     if minutes < 1 then Less_than_a_minute
     else if minutes < 60 then Minutes minutes
     else if hours < 24 then Hours hours
     else Days (hours div 24))"

datatype grant_detail =
    Spent_out js_number js_number nat \<comment> \<open>spent, ceiling, actions\<close>
  | Too_many_failures nat nat rat js_number \<comment> \<open>failed, authorized, rate, threshold\<close>
  | Too_costly rat nat js_number js_number \<comment> \<open>average, actions, spent, threshold\<close>
  | Superseded_by string instant instant nat js_number js_number
  | Revoked_at instant "string option"
  | Lapsed_at instant duration_text
  | Class_was_demoted string ladder_detail

record trust_grant =
  tg_id :: string
  tg_actionClass :: string
  tg_repositoryId :: string
  tg_expiresAt :: instant
  tg_budgetCeilingUsd :: js_number
  tg_spentUsd :: js_number
  tg_actionsAuthorized :: nat
  tg_actionsFailed :: nat
  tg_maxFailureRate :: js_number
  tg_maxCostPerActionUsd :: js_number
  tg_minActions :: int
  tg_status :: grant_status
  tg_endedAt :: "instant option"
  tg_endReason :: "grant_end_reason option"
  tg_endDetail :: "grant_detail option"
  tg_revokedById :: "string option"
  tg_note :: "string option"
  tg_grantedById :: string
  tg_grantedFromProposalId :: "string option"
  tg_renewedFromId :: "string option"
  tg_renewalPromptedAt :: "instant option"
  tg_createdAt :: instant

definition find_grant :: "string \<Rightarrow> trust_grant list \<Rightarrow> trust_grant option" where
  "find_grant gid = find (\<lambda>g. tg_id g = gid)"

section \<open>The view\<close>

record trust_grant_view =
  tv_grant :: trust_grant \<comment> \<open>the columns, dates as instants\<close>
  remainingBudgetUsd :: js_number
  budgetHeadroomFraction :: js_number
  msUntilExpiry :: int
  failureRate :: "rat option"
  nearExpiry :: bool
  nearBudget :: bool

definition toTrustGrantView :: "trust_grant \<Rightarrow> instant \<Rightarrow> trust_grant_view" where
  "toTrustGrantView row now =
    (let remaining = num_op max (Some 0) (num_op (-) (tg_budgetCeilingUsd row) (tg_spentUsd row));
         fraction = (if num_cmp (>) (tg_budgetCeilingUsd row) (Some 0)
                     then num_op min (Some 1) (num_op max (Some 0)
                            (num_op (/) remaining (tg_budgetCeilingUsd row)))
                     else Some 0);
         ms = tg_expiresAt row - now
     in \<lparr>tv_grant = row, remainingBudgetUsd = remaining, budgetHeadroomFraction = fraction,
         msUntilExpiry = ms,
         failureRate = (if tg_actionsAuthorized row > 0
                        then Some (of_nat (tg_actionsFailed row) / of_nat (tg_actionsAuthorized row))
                        else None),
         nearExpiry = (tg_status row = Grant_active \<and> ms > 0 \<and> ms \<le> NEAR_EXPIRY_WINDOW_MS),
         nearBudget = (tg_status row = Grant_active \<and>
                       num_cmp (\<le>) fraction (Some NEAR_BUDGET_HEADROOM_FRACTION))\<rparr>)"

section \<open>Auto-revocation\<close>

record auto_revoke_verdict =
  av_reason :: grant_end_reason
  av_detail :: grant_detail

text \<open>Its inputs are columns of the row, converted.\<close>

definition evaluateAutoRevoke :: "trust_grant \<Rightarrow> instant \<Rightarrow> auto_revoke_verdict option" where
  "evaluateAutoRevoke g now =
    (if tg_expiresAt g \<le> now then None
     else if num_cmp (\<ge>) (tg_spentUsd g) (tg_budgetCeilingUsd g)
     then Some \<lparr>av_reason = Budget_exhausted_end,
                av_detail = Spent_out (tg_spentUsd g) (tg_budgetCeilingUsd g) (tg_actionsAuthorized g)\<rparr>
     else
       let enough = int (tg_actionsAuthorized g) \<ge> tg_minActions g;
           rate = of_nat (tg_actionsFailed g) / of_nat (tg_actionsAuthorized g);
           average = num_op (/) (tg_spentUsd g) (Some (of_nat (tg_actionsAuthorized g)))
       in if enough \<and> tg_actionsAuthorized g > 0 \<and> num_cmp (>) (Some rate) (tg_maxFailureRate g)
          then Some \<lparr>av_reason = Failure_rate_exceeded,
                     av_detail = Too_many_failures (tg_actionsFailed g) (tg_actionsAuthorized g) rate
                                   (tg_maxFailureRate g)\<rparr>
          else if enough \<and> tg_actionsAuthorized g > 0 \<and> num_cmp (>) average (tg_maxCostPerActionUsd g)
          then Some \<lparr>av_reason = Cost_per_action_exceeded,
                     av_detail = Too_costly (get_or 0 average) (tg_actionsAuthorized g) (tg_spentUsd g)
                                   (tg_maxCostPerActionUsd g)\<rparr>
          else None)"

section \<open>The narrower of two\<close>

definition narrower :: "js_number \<Rightarrow> rat \<Rightarrow> rat" where
  "narrower oldValue defaultValue =
    (case oldValue of None \<Rightarrow> defaultValue | Some v \<Rightarrow> min v defaultValue)"

definition narrowerOf :: "trust_grant \<Rightarrow> grant_attributes \<Rightarrow> instant \<Rightarrow> grant_attributes" where
  "narrowerOf old defaults now =
    (let defaultDuration = ga_expiresAt defaults - now;
         oldDuration = tg_expiresAt old - tg_createdAt old;
         usable = (if oldDuration > 0 then oldDuration else defaultDuration)
     in \<lparr>ga_expiresAt = now + min defaultDuration usable,
         ga_budgetCeilingUsd = narrower (tg_budgetCeilingUsd old) (ga_budgetCeilingUsd defaults),
         ga_maxFailureRate = narrower (tg_maxFailureRate old) (ga_maxFailureRate defaults),
         ga_maxCostPerActionUsd = narrower (tg_maxCostPerActionUsd old) (ga_maxCostPerActionUsd defaults),
         ga_minActions = min (tg_minActions old) (ga_minActions defaults)\<rparr>)"

section \<open>Errors\<close>

datatype not_renewable_reason = Nr_expired | Nr_revoked | Nr_suspended | Nr_class_ineligible

record grant_summary =
  gs_grantId :: string
  gs_actionClass :: string
  gs_status :: grant_status
  gs_expiresAt :: instant
  gs_endedAt :: "instant option"
  gs_endReason :: "grant_end_reason option"
  gs_endDetail :: "grant_detail option"

datatype not_renewable_text =
    Class_no_longer_eligible string string instant
  | Already_lapsed string instant duration_text
  | Ended_expired string instant duration_text
  | Ended_revoked string "instant option" "grant_detail option"
  | Ended_suspended string "instant option" "grant_end_reason option" "grant_detail option"
  | Lost_the_race string

datatype grant_error =
    Unknown_action_class string
  | Class_not_eligible string
  | Must_expire_in_future instant instant
  | Bad_budget_ceiling js_number
  | Bad_failure_rate js_number
  | Bad_cost_per_action js_number
  | Bad_min_actions js_number
  | No_such_repository string
  | No_such_grant string
  | Bad_usage_cost js_number
  | Bad_window js_number
  | Not_renewable not_renewable_reason not_renewable_text grant_summary

definition summarise :: "trust_grant \<Rightarrow> grant_summary" where
  "summarise row =
    \<lparr>gs_grantId = tg_id row, gs_actionClass = tg_actionClass row, gs_status = tg_status row,
     gs_expiresAt = tg_expiresAt row, gs_endedAt = tg_endedAt row,
     gs_endReason = tg_endReason row, gs_endDetail = tg_endDetail row\<rparr>"

definition notRenewableForStatus :: "trust_grant \<Rightarrow> instant \<Rightarrow> grant_error" where
  "notRenewableForStatus row now =
    (if tg_status row = Grant_expired
     then Not_renewable Nr_expired
            (Ended_expired (tg_id row) (tg_expiresAt row) (describeDuration (now - tg_expiresAt row)))
            (summarise row)
     else if tg_status row = Grant_revoked
     then Not_renewable Nr_revoked (Ended_revoked (tg_id row) (tg_endedAt row) (tg_endDetail row))
            (summarise row)
     else Not_renewable Nr_suspended
            (Ended_suspended (tg_id row) (tg_endedAt row) (tg_endReason row) (tg_endDetail row))
            (summarise row))"

section \<open>Operations\<close>

subsection \<open>Creation\<close>

record create_grant_input =
  cg_actionClass :: string
  cg_repositoryId :: string
  cg_grantedById :: string
  cg_expiresAt :: instant
  cg_budgetCeilingUsd :: js_number
  cg_maxFailureRate :: js_number
  cg_maxCostPerActionUsd :: js_number
  cg_minActions :: "js_number option"
  cg_grantedFromProposalId :: "string option"
  cg_renewedFromId :: "string option"
  cg_note :: "string option"

text \<open>What the database supplies for a new row: its id and its creation time.\<close>

record new_row =
  nr_id :: string
  nr_createdAt :: instant

definition fresh_grant :: "new_row \<Rightarrow> string \<Rightarrow> string \<Rightarrow> string \<Rightarrow> trust_grant" where
  "fresh_grant nr cls repo grantedBy =
    \<lparr>tg_id = nr_id nr, tg_actionClass = cls, tg_repositoryId = repo, tg_expiresAt = 0,
     tg_budgetCeilingUsd = None, tg_spentUsd = Some 0, tg_actionsAuthorized = 0, tg_actionsFailed = 0,
     tg_maxFailureRate = None, tg_maxCostPerActionUsd = None,
     tg_minActions = DEFAULT_GRANT_MIN_ACTIONS_BEFORE_AUTO_REVOKE, tg_status = Grant_active,
     tg_endedAt = None, tg_endReason = None, tg_endDetail = None, tg_revokedById = None,
     tg_note = None, tg_grantedById = grantedBy, tg_grantedFromProposalId = None,
     tg_renewedFromId = None, tg_renewalPromptedAt = None, tg_createdAt = nr_createdAt nr\<rparr>"

definition create_error :: "string list \<Rightarrow> create_grant_input \<Rightarrow> instant \<Rightarrow> grant_error option" where
  "create_error repositories input now =
    (if \<not> isActionClass (cg_actionClass input) then Some (Unknown_action_class (cg_actionClass input))
     else if \<not> isAutonomyEligible (cg_actionClass input) then Some (Class_not_eligible (cg_actionClass input))
     else if cg_expiresAt input \<le> now then Some (Must_expire_in_future (cg_expiresAt input) now)
     else if \<not> num_cmp (>) (cg_budgetCeilingUsd input) (Some 0)
       then Some (Bad_budget_ceiling (cg_budgetCeilingUsd input))
     else if \<not> (num_cmp (\<ge>) (cg_maxFailureRate input) (Some 0) \<and>
                num_cmp (\<le>) (cg_maxFailureRate input) (Some 1))
       then Some (Bad_failure_rate (cg_maxFailureRate input))
     else if \<not> num_cmp (>) (cg_maxCostPerActionUsd input) (Some 0)
       then Some (Bad_cost_per_action (cg_maxCostPerActionUsd input))
     else if (case cg_minActions input of None \<Rightarrow> False
              | Some m \<Rightarrow> \<not> is_integer m \<or> num_cmp (<) m (Some 1))
       then Some (Bad_min_actions (the (cg_minActions input)))
     else if cg_repositoryId input \<notin> set repositories
       then Some (No_such_repository (cg_repositoryId input))
     else None)"

definition create_grant ::
  "string list \<Rightarrow> new_row \<Rightarrow> create_grant_input \<Rightarrow> instant \<Rightarrow> trust_grant list \<Rightarrow>
   grant_error + (trust_grant_view \<times> trust_grant list)" where
  "create_grant repositories nr input now rows =
    (case create_error repositories input now of
       Some e \<Rightarrow> Inl e
     | None \<Rightarrow>
        let base = (fresh_grant nr (cg_actionClass input) (cg_repositoryId input) (cg_grantedById input))
                \<lparr>tg_expiresAt := cg_expiresAt input, tg_budgetCeilingUsd := cg_budgetCeilingUsd input,
                 tg_maxFailureRate := cg_maxFailureRate input,
                 tg_maxCostPerActionUsd := cg_maxCostPerActionUsd input,
                 tg_grantedFromProposalId := cg_grantedFromProposalId input,
                 tg_renewedFromId := cg_renewedFromId input, tg_note := cg_note input\<rparr>;
            row = (case cg_minActions input of Some (Some m) \<Rightarrow> base\<lparr>tg_minActions := \<lfloor>m\<rfloor>\<rparr> | _ \<Rightarrow> base)
        in Inr (toTrustGrantView row now, rows @ [row]))"

subsection \<open>Authorization\<close>

datatype authorization_denial =
  No_grant | Denied_expired | Denied_revoked | Denied_suspended | Denied_budget | Denied_class

datatype denial_detail =
    Class_ruled_out string
  | Unusable_projection js_number
  | Unreadable_budget string
  | Would_overspend string rat rat rat rat \<comment> \<open>grant, spent, ceiling, projected, projected total\<close>
  | Never_issued string string
  | Lapsed_ago string string duration_text instant
  | Was_revoked string string "instant option" "grant_detail option"
  | Was_suspended string string "instant option" "grant_end_reason option" "grant_detail option"

datatype authorization_result =
    Authorized trust_grant_view
  | Denied authorization_denial denial_detail

definition is_candidate :: "string \<Rightarrow> string \<Rightarrow> instant \<Rightarrow> trust_grant \<Rightarrow> bool" where
  "is_candidate cls repo now g \<longleftrightarrow>
     tg_actionClass g = cls \<and> tg_repositoryId g = repo \<and> tg_status g = Grant_active \<and> tg_expiresAt g > now"

definition grant_headroom :: "trust_grant \<Rightarrow> js_number" where
  "grant_headroom g = num_op (-) (tg_budgetCeilingUsd g) (tg_spentUsd g)"

text \<open>
  The comparator of the ranking: more headroom first, an unreadable one (\<open>-Infinity\<close>) last; then
  the later expiry; then the id.
\<close>

definition by_headroom :: "(string \<Rightarrow> string \<Rightarrow> int) \<Rightarrow> trust_grant \<Rightarrow> trust_grant \<Rightarrow> int" where
  "by_headroom lc a b =
    (let tie = (if tg_expiresAt a \<noteq> tg_expiresAt b then tg_expiresAt b - tg_expiresAt a
                else lc (tg_id a) (tg_id b))
     in case (grant_headroom a, grant_headroom b) of
          (Some x, Some y) \<Rightarrow> if x > y then -1 else if y > x then 1 else tie
        | (Some x, None) \<Rightarrow> -1
        | (None, Some y) \<Rightarrow> 1
        | (None, None) \<Rightarrow> tie)"

text \<open>\<open>orderBy: [{ expiresAt: 'desc' }, { id: 'desc' }]\<close>, and the same with \<open>createdAt\<close>.\<close>

definition latest_by :: "(trust_grant \<Rightarrow> int) \<Rightarrow> trust_grant \<Rightarrow> trust_grant \<Rightarrow> int" where
  "latest_by f a b = (if f a \<noteq> f b then f b - f a else code_unit_compare (tg_id b) (tg_id a))"

definition diagnoseNoGrant :: "string \<Rightarrow> string \<Rightarrow> instant \<Rightarrow> trust_grant list \<Rightarrow> authorization_result" where
  "diagnoseNoGrant cls repo now rows =
    (case js_sort (latest_by tg_expiresAt)
            (filter (\<lambda>g. tg_actionClass g = cls \<and> tg_repositoryId g = repo) rows) of
       [] \<Rightarrow> Denied No_grant (Never_issued cls repo)
     | row # _ \<Rightarrow>
        (let effective = (if tg_status row = Grant_active \<and> tg_expiresAt row \<le> now
                          then Grant_expired else tg_status row)
         in if effective = Grant_expired
            then Denied Denied_expired
                   (Lapsed_ago (tg_id row) cls (describeDuration (now - tg_expiresAt row)) (tg_expiresAt row))
            else if effective = Grant_revoked
            then Denied Denied_revoked (Was_revoked (tg_id row) cls (tg_endedAt row) (tg_endDetail row))
            else Denied Denied_suspended
                   (Was_suspended (tg_id row) cls (tg_endedAt row) (tg_endReason row) (tg_endDetail row))))"

definition authorize ::
  "(string \<Rightarrow> string \<Rightarrow> int) \<Rightarrow> string \<Rightarrow> string \<Rightarrow> js_number \<Rightarrow> instant \<Rightarrow> trust_grant list \<Rightarrow>
   authorization_result" where
  "authorize lc cls repo projected now rows =
    (if \<not> isAutonomyEligible cls then Denied Denied_class (Class_ruled_out cls)
     else if \<not> num_cmp (\<ge>) projected (Some 0) then Denied Denied_budget (Unusable_projection projected)
     else case js_sort (by_headroom lc) (filter (is_candidate cls repo now) rows) of
       [] \<Rightarrow> diagnoseNoGrant cls repo now rows
     | best # _ \<Rightarrow>
        (case (tg_budgetCeilingUsd best, tg_spentUsd best, projected) of
           (Some cap, Some spent, Some cost) \<Rightarrow>
             if spent + cost > cap
             then Denied Denied_budget (Would_overspend (tg_id best) spent cap cost (spent + cost))
             else Authorized (toTrustGrantView best now)
         | _ \<Rightarrow> Denied Denied_budget (Unreadable_budget (tg_id best))))"

subsection \<open>Ending a grant\<close>

text \<open>\<open>updateMany\<close> guarded by the id and \<open>status: 'active'\<close>.\<close>

definition active_grant :: "string \<Rightarrow> trust_grant \<Rightarrow> bool" where
  "active_grant gid g \<longleftrightarrow> tg_id g = gid \<and> tg_status g = Grant_active"

definition suspend ::
  "string \<Rightarrow> grant_end_reason \<Rightarrow> grant_detail \<Rightarrow> instant \<Rightarrow> trust_grant list \<Rightarrow> bool \<times> trust_grant list" where
  "suspend gid reason detail now rows =
    (let (n, rows') = update_many (active_grant gid)
           (\<lambda>g. g\<lparr>tg_status := Grant_suspended, tg_endedAt := Some now, tg_endReason := Some reason,
                  tg_endDetail := Some detail\<rparr>) rows
     in (n > 0, rows'))"

definition revoke ::
  "string \<Rightarrow> string \<Rightarrow> string option \<Rightarrow> instant \<Rightarrow> trust_grant list \<Rightarrow> bool \<times> trust_grant list" where
  "revoke gid actor note now rows =
    (let (n, rows') = update_many (active_grant gid)
           (\<lambda>g. g\<lparr>tg_status := Grant_revoked, tg_endedAt := Some now,
                  tg_endReason := Some Manual_revocation, tg_endDetail := Some (Revoked_at now note),
                  tg_revokedById := Some actor\<rparr>) rows
     in (n > 0, rows'))"

definition expire_one :: "instant \<Rightarrow> trust_grant \<Rightarrow> trust_grant list \<Rightarrow> nat \<times> trust_grant list" where
  "expire_one now grant rows =
    update_many (active_grant (tg_id grant))
      (\<lambda>g. g\<lparr>tg_status := Grant_expired, tg_endedAt := Some now, tg_endReason := Some End_expired,
             tg_endDetail := Some (Lapsed_at (tg_expiresAt grant)
                                     (describeDuration (now - tg_expiresAt grant)))\<rparr>) rows"

fun expire_all :: "instant \<Rightarrow> trust_grant list \<Rightarrow> trust_grant list \<Rightarrow> nat \<times> trust_grant list" where
  "expire_all now [] rows = (0, rows)"
| "expire_all now (grant # lapsed) rows =
    (let (n, rows1) = expire_one now grant rows; (m, rows2) = expire_all now lapsed rows1
     in (n + m, rows2))"

definition sweepExpired :: "instant \<Rightarrow> trust_grant list \<Rightarrow> nat \<times> trust_grant list" where
  "sweepExpired now rows =
    expire_all now (filter (\<lambda>g. tg_status g = Grant_active \<and> tg_expiresAt g \<le> now) rows) rows"

subsection \<open>Usage\<close>

record usage_record =
  us_costUsd :: js_number
  us_failed :: bool

record usage_result =
  ur_grant :: trust_grant_view
  ur_suspended :: bool
  ur_reason :: "grant_end_reason option"
  ur_detail :: "grant_detail option"

definition charge :: "usage_record \<Rightarrow> trust_grant \<Rightarrow> trust_grant" where
  "charge usage g = g\<lparr>tg_spentUsd := num_op (+) (tg_spentUsd g) (us_costUsd usage),
     tg_actionsAuthorized := tg_actionsAuthorized g + 1,
     tg_actionsFailed := tg_actionsFailed g + (if us_failed usage then 1 else 0)\<rparr>"

definition recordUsage ::
  "string \<Rightarrow> usage_record \<Rightarrow> instant \<Rightarrow> trust_grant list \<Rightarrow> grant_error + (usage_result \<times> trust_grant list)" where
  "recordUsage gid usage now rows =
    (if \<not> num_cmp (\<ge>) (us_costUsd usage) (Some 0) then Inl (Bad_usage_cost (us_costUsd usage))
     else case find_grant gid rows of
       None \<Rightarrow> Inl (No_such_grant gid)
     | Some before \<Rightarrow>
        (let row = charge usage before;
             rows1 = snd (update_many (\<lambda>g. tg_id g = gid) (charge usage) rows)
         in case evaluateAutoRevoke row now of
              None \<Rightarrow> Inr (\<lparr>ur_grant = toTrustGrantView row now, ur_suspended = False,
                            ur_reason = None, ur_detail = None\<rparr>, rows1)
            | Some av \<Rightarrow>
                (let (suspended, rows2) = suspend gid (av_reason av) (av_detail av) now rows1;
                     shown = (if suspended
                              then row\<lparr>tg_status := Grant_suspended, tg_endedAt := Some now,
                                       tg_endReason := Some (av_reason av),
                                       tg_endDetail := Some (av_detail av)\<rparr>
                              else row)
                 in Inr (\<lparr>ur_grant = toTrustGrantView shown now, ur_suspended = suspended,
                          ur_reason = Some (av_reason av), ur_detail = Some (av_detail av)\<rparr>,
                         rows2))))"

subsection \<open>Renewal\<close>

text \<open>
  The transaction, from the row it read: \<open>old\<close> is that snapshot and \<open>rows\<close> the table when it
  commits, so a revocation that lands between the two is the case \<open>n = 0\<close>, which rolls back.
\<close>

definition successor :: "trust_grant \<Rightarrow> string \<Rightarrow> string option \<Rightarrow> new_row \<Rightarrow> instant \<Rightarrow> trust_grant" where
  "successor old actor note nr now =
    (let a = narrowerOf old (defaultGrantAttributes now) now in
     (fresh_grant nr (tg_actionClass old) (tg_repositoryId old) actor)
       \<lparr>tg_expiresAt := ga_expiresAt a, tg_budgetCeilingUsd := Some (ga_budgetCeilingUsd a),
        tg_maxFailureRate := Some (ga_maxFailureRate a),
        tg_maxCostPerActionUsd := Some (ga_maxCostPerActionUsd a), tg_minActions := ga_minActions a,
        tg_renewedFromId := Some (tg_id old), tg_note := note\<rparr>)"

definition end_as_renewed :: "trust_grant \<Rightarrow> trust_grant \<Rightarrow> string \<Rightarrow> instant \<Rightarrow> trust_grant \<Rightarrow> trust_grant" where
  "end_as_renewed old created actor now g =
    g\<lparr>tg_status := Grant_revoked, tg_endedAt := Some now, tg_endReason := Some Superseded_by_renewal,
      tg_endDetail := Some (Superseded_by (tg_id created) now (tg_expiresAt created)
                              (tg_actionsAuthorized old) (tg_spentUsd old) (tg_budgetCeilingUsd old)),
      tg_revokedById := Some actor\<rparr>"

definition renew_from ::
  "trust_grant \<Rightarrow> string \<Rightarrow> string option \<Rightarrow> new_row \<Rightarrow> instant \<Rightarrow> trust_grant list \<Rightarrow>
   grant_error + (trust_grant_view \<times> trust_grant_view \<times> trust_grant list)" where
  "renew_from old actor note nr now rows =
    (if \<not> isAutonomyEligible (tg_actionClass old)
     then Inl (Not_renewable Nr_class_ineligible
                 (Class_no_longer_eligible (tg_id old) (tg_actionClass old) (tg_expiresAt old)) (summarise old))
     else if tg_status old = Grant_active \<and> tg_expiresAt old \<le> now
     then Inl (Not_renewable Nr_expired
                 (Already_lapsed (tg_id old) (tg_expiresAt old) (describeDuration (now - tg_expiresAt old)))
                 (summarise old))
     else if tg_status old \<noteq> Grant_active then Inl (notRenewableForStatus old now)
     else
       let created = successor old actor note nr now;
           (n, rows') = update_many (active_grant (tg_id old)) (end_as_renewed old created actor now)
                          (rows @ [created])
       in if n = 0 then Inl (Not_renewable Nr_revoked (Lost_the_race (tg_id old)) (summarise old))
          else Inr (toTrustGrantView created now,
                    toTrustGrantView (end_as_renewed old created actor now old) now, rows'))"

definition renew ::
  "string \<Rightarrow> string \<Rightarrow> string option \<Rightarrow> new_row \<Rightarrow> instant \<Rightarrow> trust_grant list \<Rightarrow>
   grant_error + (trust_grant_view \<times> trust_grant_view \<times> trust_grant list)" where
  "renew gid actor note nr now rows =
    (case find_grant gid rows of
       None \<Rightarrow> Inl (No_such_grant gid)
     | Some old \<Rightarrow> renew_from old actor note nr now rows)"

subsection \<open>The renewal prompt\<close>

definition claimRenewalPrompt :: "string \<Rightarrow> instant \<Rightarrow> trust_grant list \<Rightarrow> bool \<times> trust_grant list" where
  "claimRenewalPrompt gid now rows =
    (let (n, rows') = update_many (\<lambda>g. active_grant gid g \<and> tg_renewalPromptedAt g = None)
           (\<lambda>g. g\<lparr>tg_renewalPromptedAt := Some now\<rparr>) rows
     in (n > 0, rows'))"

definition earliest_by :: "(trust_grant \<Rightarrow> int) \<Rightarrow> trust_grant \<Rightarrow> trust_grant \<Rightarrow> int" where
  "earliest_by f a b = (if f a \<noteq> f b then f a - f b else code_unit_compare (tg_id a) (tg_id b))"

definition expiringSoon ::
  "js_number \<Rightarrow> instant \<Rightarrow> trust_grant list \<Rightarrow> grant_error + trust_grant_view list" where
  "expiringSoon withinMs now rows =
    (case withinMs of
       None \<Rightarrow> Inl (Bad_window None)
     | Some w \<Rightarrow>
        if w < 0 then Inl (Bad_window (Some w))
        else Inr (map (\<lambda>g. toTrustGrantView g now)
               (js_sort (earliest_by tg_expiresAt)
                 (filter (\<lambda>g. tg_status g = Grant_active \<and> tg_expiresAt g > now \<and>
                              of_int (tg_expiresAt g) \<le> of_int now + w) rows))))"

text \<open>
  \<open>RenewalPromptTask.run\<close>: claim, then notify; \<open>deliver\<close> is what the notifier answers for a
  grant. The result is the number accepted, the grants it was handed, and the table.
\<close>

fun prompt_all ::
  "(trust_grant_view \<Rightarrow> bool) \<Rightarrow> instant \<Rightarrow> trust_grant_view list \<Rightarrow> trust_grant list \<Rightarrow>
   nat \<times> string list \<times> trust_grant list" where
  "prompt_all deliver now [] rows = (0, [], rows)"
| "prompt_all deliver now (v # vs) rows =
    (let (claimed, rows1) = claimRenewalPrompt (tg_id (tv_grant v)) now rows in
     if \<not> claimed then prompt_all deliver now vs rows1
     else let (sent, ids, rows2) = prompt_all deliver now vs rows1
          in (sent + (if deliver v then 1 else 0), tg_id (tv_grant v) # ids, rows2))"

definition run_prompts ::
  "(trust_grant_view \<Rightarrow> bool) \<Rightarrow> instant \<Rightarrow> trust_grant list \<Rightarrow> nat \<times> string list \<times> trust_grant list" where
  "run_prompts deliver now rows =
    (case expiringSoon (Some (of_int NEAR_EXPIRY_WINDOW_MS)) now rows of
       Inl _ \<Rightarrow> (0, [], rows)
     | Inr vs \<Rightarrow> prompt_all deliver now vs rows)"

subsection \<open>Reading\<close>

record list_grants_query =
  lg_repositoryId :: "string option"
  lg_actionClass :: "string option"
  lg_status :: "grant_status option"
  lg_includeEnded :: bool

text \<open>An absent filter and the empty string both leave the filter out.\<close>

definition matches_filter :: "string option \<Rightarrow> string \<Rightarrow> bool" where
  "matches_filter f v \<longleftrightarrow> (case f of None \<Rightarrow> True | Some s \<Rightarrow> s = '''' \<or> v = s)"

definition list_grants :: "list_grants_query \<Rightarrow> instant \<Rightarrow> trust_grant list \<Rightarrow> trust_grant_view list" where
  "list_grants query now rows =
    map (\<lambda>g. toTrustGrantView g now) (js_sort (latest_by tg_createdAt)
      (filter (\<lambda>g. matches_filter (lg_repositoryId query) (tg_repositoryId g) \<and>
                   matches_filter (lg_actionClass query) (tg_actionClass g) \<and>
                   (case lg_status query of Some s \<Rightarrow> tg_status g = s
                    | None \<Rightarrow> lg_includeEnded query \<or> tg_status g = Grant_active)) rows))"

definition get_grant :: "string \<Rightarrow> instant \<Rightarrow> trust_grant list \<Rightarrow> grant_error + trust_grant_view" where
  "get_grant gid now rows =
    (case find_grant gid rows of None \<Rightarrow> Inl (No_such_grant gid)
     | Some g \<Rightarrow> Inr (toTrustGrantView g now))"

record renewal_link =
  rl_id :: string
  rl_status :: grant_status
  rl_expiresAt :: instant
  rl_createdAt :: instant

definition renewalsOf :: "string \<Rightarrow> trust_grant list \<Rightarrow> renewal_link list" where
  "renewalsOf gid rows =
    map (\<lambda>g. \<lparr>rl_id = tg_id g, rl_status = tg_status g, rl_expiresAt = tg_expiresAt g,
              rl_createdAt = tg_createdAt g\<rparr>)
      (js_sort (latest_by tg_createdAt) (filter (\<lambda>g. tg_renewedFromId g = Some gid) rows))"

section \<open>Lemmas\<close>

subsection \<open>A grant over time\<close>

text \<open>
  What a grant may become: its terms never change, its counters only grow, it is prompted about
  once, and an ended grant keeps the way it ended.
\<close>

definition grant_terms :: "trust_grant \<Rightarrow> trust_grant" where
  "grant_terms g = g\<lparr>tg_spentUsd := None, tg_actionsAuthorized := 0, tg_actionsFailed := 0,
     tg_status := Grant_active, tg_endedAt := None, tg_endReason := None, tg_endDetail := None,
     tg_revokedById := None, tg_renewalPromptedAt := None\<rparr>"

definition grant_end :: "trust_grant \<Rightarrow> grant_status \<times> instant option \<times> grant_end_reason option \<times>
    grant_detail option \<times> string option" where
  "grant_end g = (tg_status g, tg_endedAt g, tg_endReason g, tg_endDetail g, tg_revokedById g)"

definition later_grant :: "trust_grant \<Rightarrow> trust_grant \<Rightarrow> bool" where
  "later_grant g g' \<longleftrightarrow>
     grant_terms g' = grant_terms g \<and>
     tg_actionsAuthorized g \<le> tg_actionsAuthorized g' \<and> tg_actionsFailed g \<le> tg_actionsFailed g' \<and>
     (\<forall>x. tg_spentUsd g = Some x \<longrightarrow> (\<exists>y \<ge> x. tg_spentUsd g' = Some y)) \<and>
     (tg_renewalPromptedAt g \<noteq> None \<longrightarrow> tg_renewalPromptedAt g' = tg_renewalPromptedAt g) \<and>
     (tg_status g \<noteq> Grant_active \<longrightarrow> grant_end g' = grant_end g)"

lemma later_grant_refl: "later_grant g g"
  by (auto simp: later_grant_def)

lemma later_grant_trans:
  assumes "later_grant f g" "later_grant g h"
  shows "later_grant f h"
proof -
  have fixed: "tg_status f \<noteq> Grant_active \<Longrightarrow> tg_status g \<noteq> Grant_active"
    using assms(1) by (auto simp: later_grant_def grant_end_def)
  have "\<exists>y \<ge> x. tg_spentUsd h = Some y" if "tg_spentUsd f = Some x" for x
    using assms that unfolding later_grant_def by (meson order_trans)
  with assms fixed show ?thesis unfolding later_grant_def by (auto intro: order_trans)
qed

lemma grant_terms_sel [simp]:
  "tg_id (grant_terms g) = tg_id g" "tg_actionClass (grant_terms g) = tg_actionClass g"
  "tg_repositoryId (grant_terms g) = tg_repositoryId g" "tg_expiresAt (grant_terms g) = tg_expiresAt g"
  "tg_budgetCeilingUsd (grant_terms g) = tg_budgetCeilingUsd g"
  "tg_maxFailureRate (grant_terms g) = tg_maxFailureRate g"
  "tg_maxCostPerActionUsd (grant_terms g) = tg_maxCostPerActionUsd g"
  "tg_minActions (grant_terms g) = tg_minActions g" "tg_grantedById (grant_terms g) = tg_grantedById g"
  "tg_createdAt (grant_terms g) = tg_createdAt g"
  by (simp_all add: grant_terms_def)

lemma later_grant_terms:
  assumes "later_grant g g'"
  shows "tg_id g' = tg_id g" "tg_actionClass g' = tg_actionClass g" "tg_repositoryId g' = tg_repositoryId g"
    "tg_expiresAt g' = tg_expiresAt g" "tg_budgetCeilingUsd g' = tg_budgetCeilingUsd g"
    "tg_maxFailureRate g' = tg_maxFailureRate g" "tg_maxCostPerActionUsd g' = tg_maxCostPerActionUsd g"
    "tg_minActions g' = tg_minActions g" "tg_createdAt g' = tg_createdAt g"
  using assms grant_terms_sel unfolding later_grant_def by metis+

text \<open>Ending an active grant and charging a grant are such changes.\<close>

lemma later_grant_end:
  "tg_status g = Grant_active \<Longrightarrow>
   later_grant g (g\<lparr>tg_status := s, tg_endedAt := e, tg_endReason := r, tg_endDetail := d\<rparr>)"
  "tg_status g = Grant_active \<Longrightarrow>
   later_grant g (g\<lparr>tg_status := s, tg_endedAt := e, tg_endReason := r, tg_endDetail := d, tg_revokedById := a\<rparr>)"
  by (auto simp: later_grant_def grant_terms_def)

lemma later_grant_charge: "0 \<le> cost \<Longrightarrow> later_grant g (charge \<lparr>us_costUsd = Some cost, us_failed = f\<rparr> g)"
  by (cases "tg_spentUsd g") (auto simp: later_grant_def grant_terms_def charge_def grant_end_def)

lemma charge_id [simp]: "tg_id (charge u g) = tg_id g"
  by (simp add: charge_def)

lemma later_grant_prompt:
  "tg_renewalPromptedAt g = None \<Longrightarrow> later_grant g (g\<lparr>tg_renewalPromptedAt := p\<rparr>)"
  by (auto simp: later_grant_def grant_terms_def grant_end_def)

subsection \<open>Steps of the table\<close>

text \<open>
  One committed statement: a charge and the suspension that may follow it are separate steps, and a
  renewal or a sweep works from rows it read earlier, so any interleaving of the operations is a
  sequence of these steps.
\<close>

inductive grant_step :: "trust_grant list \<Rightarrow> trust_grant list \<Rightarrow> bool" where
  created: "\<lbrakk>create_grant repositories nr input now rows = Inr (v, rows'); nr_id nr \<notin> tg_id ` set rows\<rbrakk>
     \<Longrightarrow> grant_step rows rows'"
| charged: "\<lbrakk>0 \<le> cost\<rbrakk> \<Longrightarrow> grant_step rows
       (snd (update_many (\<lambda>g. tg_id g = gid) (charge \<lparr>us_costUsd = Some cost, us_failed = failed\<rparr>) rows))"
| suspended: "grant_step rows (snd (suspend gid reason detail now rows))"
| revoked: "grant_step rows (snd (revoke gid actor note now rows))"
| expired: "grant_step rows (snd (expire_one now grant rows))"
| prompted: "grant_step rows (snd (claimRenewalPrompt gid now rows))"
| renewed: "\<lbrakk>renew_from old actor note nr now rows = Inr (v, w, rows'); g \<in> set rows; later_grant old g;
     nr_id nr \<notin> tg_id ` set rows\<rbrakk> \<Longrightarrow> grant_step rows rows'"

lemma create_grant_rows:
  assumes "create_grant repositories nr input now rows = Inr (v, rows')"
  shows "\<exists>g. rows' = rows @ [g] \<and> tg_id g = nr_id nr"
  using assms by (auto simp: create_grant_def fresh_grant_def Let_def split: option.splits)

lemma renew_from_rows:
  assumes "renew_from old actor note nr now rows = Inr (v, w, rows')"
  shows "rows' = map (\<lambda>g. if active_grant (tg_id old) g
       then end_as_renewed old (successor old actor note nr now) actor now g else g)
      (rows @ [successor old actor note nr now])"
  using assms by (auto simp: renew_from_def Let_def update_many_def split: if_splits)

lemma successor_id [simp]: "tg_id (successor old actor note nr now) = nr_id nr"
  by (simp add: successor_def fresh_grant_def Let_def)

lemma end_as_renewed_id [simp]: "tg_id (end_as_renewed old c actor now g) = tg_id g"
  by (simp add: end_as_renewed_def)

lemma later_end_as_renewed: "tg_status g = Grant_active \<Longrightarrow> later_grant g (end_as_renewed old c actor now g)"
  unfolding end_as_renewed_def by (rule later_grant_end)

lemma ends_snd:
  "snd (suspend gid reason detail now rows) = snd (update_many (active_grant gid)
           (\<lambda>g. g\<lparr>tg_status := Grant_suspended, tg_endedAt := Some now, tg_endReason := Some reason,
                  tg_endDetail := Some detail\<rparr>) rows)"
  "snd (revoke gid actor note now rows) = snd (update_many (active_grant gid)
           (\<lambda>g. g\<lparr>tg_status := Grant_revoked, tg_endedAt := Some now,
                  tg_endReason := Some Manual_revocation, tg_endDetail := Some (Revoked_at now note),
                  tg_revokedById := Some actor\<rparr>) rows)"
  "snd (claimRenewalPrompt gid now rows) =
     snd (update_many (\<lambda>g. active_grant gid g \<and> tg_renewalPromptedAt g = None)
           (\<lambda>g. g\<lparr>tg_renewalPromptedAt := Some now\<rparr>) rows)"
  by (simp_all add: suspend_def revoke_def claimRenewalPrompt_def update_many_def)

lemma active_grantD: "active_grant gid g \<Longrightarrow> tg_status g = Grant_active"
  by (simp add: active_grant_def)

lemma grant_updates:
  "0 \<le> cost \<Longrightarrow> table_update tg_id later_grant rows
     (snd (update_many (\<lambda>g. tg_id g = gid) (charge \<lparr>us_costUsd = Some cost, us_failed = failed\<rparr>) rows))"
  "table_update tg_id later_grant rows (snd (suspend gid reason detail now rows))"
  "table_update tg_id later_grant rows (snd (revoke gid actor note now rows))"
  "table_update tg_id later_grant rows (snd (expire_one now grant rows))"
  "table_update tg_id later_grant rows (snd (claimRenewalPrompt gid now rows))"
  unfolding ends_snd expire_one_def
  by (rule table_updateI; simp add: later_grant_charge later_grant_end later_grant_prompt active_grant_def
        later_grant_refl)+

lemma grant_step_shape:
  assumes "grant_step rows rows'"
  shows "table_step tg_id later_grant rows rows'"
  using assms
proof cases
  case (created repositories nr input now v)
  then obtain g where "rows' = rows @ [g]" "tg_id g = nr_id nr" using create_grant_rows by blast
  with created show ?thesis
    using table_update_refl[where key = tg_id and later = later_grant, OF later_grant_refl, of rows]
    by (auto simp: table_step_def)
next
  case (renewed old actor nt nr now v w g)
  let ?c = "successor old actor nt nr now"
  let ?f = "end_as_renewed old ?c actor now"
  have "table_update tg_id later_grant rows (snd (update_many (active_grant (tg_id old)) ?f rows))"
    by (rule table_updateI) (auto intro: later_end_as_renewed later_grant_refl dest: active_grantD)
  moreover let ?g = "if active_grant (tg_id old) ?c then ?f ?c else ?c"
  have "rows' = snd (update_many (active_grant (tg_id old)) ?f rows) @ [?g]"
    using renew_from_rows[OF renewed(1)] by simp
  moreover have "tg_id ?g \<notin> tg_id ` set rows" using renewed(4) by simp
  ultimately show ?thesis unfolding table_step_def by blast
qed (simp_all add: grant_updates table_step_def del: update_many_snd)

interpretation grants: row_history grant_step "\<lambda>rows. rows" tg_id later_grant
proof
  show "later_grant g g" for g by (rule later_grant_refl)
  show "later_grant f g \<Longrightarrow> later_grant g h \<Longrightarrow> later_grant f h" for f g h by (rule later_grant_trans)
qed (blast dest: grant_step_shape table_step_row table_step_distinct)+

text \<open>The operations of several statements are runs of steps.\<close>

lemma expire_all_steps: "grant_step\<^sup>*\<^sup>* rows (snd (expire_all now lapsed rows))"
proof (induction lapsed arbitrary: rows)
  case (Cons grant lapsed)
  have "grant_step rows (snd (expire_one now grant rows))" by (rule grant_step.expired)
  with Cons show ?case
    by (auto simp: case_prod_beta Let_def intro: converse_rtranclp_into_rtranclp)
qed simp

lemma recordUsage_steps:
  assumes "recordUsage gid u now rows = Inr (r, rows')"
  shows "grant_step\<^sup>*\<^sup>* rows rows'"
proof -
  obtain cost where u: "u = \<lparr>us_costUsd = Some cost, us_failed = us_failed u\<rparr>" "0 \<le> cost"
    using assms by (cases u) (auto simp: recordUsage_def num_cmp_iff split: if_splits)
  let ?rows1 = "snd (update_many (\<lambda>g. tg_id g = gid) (charge u) rows)"
  have "grant_step rows ?rows1" using grant_step.charged[OF u(2), of rows gid "us_failed u"] u(1) by simp
  moreover have "rows' = ?rows1 \<or> (\<exists>reason detail. rows' = snd (suspend gid reason detail now ?rows1))"
    using assms by (auto simp: recordUsage_def Let_def case_prod_beta split: if_splits option.splits)
  ultimately show ?thesis
    using grant_step.suspended by (metis rtranclp.simps)
qed

lemma prompt_all_steps: "grant_step\<^sup>*\<^sup>* rows (snd (snd (prompt_all deliver now vs rows)))"
proof (induction vs arbitrary: rows)
  case (Cons v vs)
  have "grant_step rows (snd (claimRenewalPrompt (tg_id (tv_grant v)) now rows))" by (rule grant_step.prompted)
  with Cons show ?case
    by (auto simp: case_prod_beta Let_def intro: converse_rtranclp_into_rtranclp)
qed simp

subsection \<open>Authorization\<close>

sublocale collation \<subseteq> headroom: js_comparator "by_headroom lc"
proof
  fix a b c :: trust_grant
  show "by_headroom lc a b \<le> 0 \<or> by_headroom lc b a \<le> 0"
    using lc_total[of "tg_id a" "tg_id b"]
    by (cases "grant_headroom a"; cases "grant_headroom b") (auto simp: by_headroom_def)
  assume "by_headroom lc a b \<le> 0" "by_headroom lc b c \<le> 0"
  then show "by_headroom lc a c \<le> 0"
    using lc_trans[of "tg_id a" "tg_id b" "tg_id c"]
    by (cases "grant_headroom a"; cases "grant_headroom b"; cases "grant_headroom c")
       (auto simp: by_headroom_def split: if_splits)
qed

context collation
begin

lemma best_has_most_headroom:
  assumes "js_sort (by_headroom lc) cs = best # rest" "g \<in> set cs" "grant_headroom g = Some x"
  shows "\<exists>y \<ge> x. grant_headroom best = Some y"
proof -
  have "by_headroom lc best g \<le> 0" using headroom.sort_head_min[OF assms(1,2)] .
  with assms(3) show ?thesis
    by (cases "grant_headroom best") (auto simp: by_headroom_def split: if_splits)
qed

end

text \<open>A grant that could pay: live, readable, and with room for the cost.\<close>

definition covers :: "string \<Rightarrow> string \<Rightarrow> rat \<Rightarrow> instant \<Rightarrow> trust_grant \<Rightarrow> bool" where
  "covers cls repo cost now g \<longleftrightarrow> is_candidate cls repo now g \<and>
     (\<exists>cap spent. tg_budgetCeilingUsd g = Some cap \<and> tg_spentUsd g = Some spent \<and> spent + cost \<le> cap)"

lemma covers_headroom:
  "covers cls repo cost now g \<longleftrightarrow> is_candidate cls repo now g \<and> (\<exists>h. grant_headroom g = Some h \<and> cost \<le> h)"
  by (auto simp: covers_def grant_headroom_def num_op_Some_iff)

lemma authorized_covers:
  assumes "authorize lc cls repo projected now rows = Authorized v"
  shows "isAutonomyEligible cls \<and> (\<exists>g \<in> set rows. \<exists>cost. projected = Some cost \<and> 0 \<le> cost \<and>
     covers cls repo cost now g \<and> v = toTrustGrantView g now)"
proof -
  let ?cs = "filter (is_candidate cls repo now) rows"
  from assms obtain best rest where s: "js_sort (by_headroom lc) ?cs = best # rest"
    by (auto simp: authorize_def diagnoseNoGrant_def Let_def split: if_splits list.splits)
  then have "best \<in> set (js_sort (by_headroom lc) ?cs)" by simp
  then have b: "best \<in> set rows" "is_candidate cls repo now best" by simp_all
  from assms s show ?thesis using b
    by (auto simp: authorize_def covers_def num_cmp_iff split: if_splits option.splits)
qed

lemma covered_is_authorized:
  assumes "collation lc" "isAutonomyEligible cls" "0 \<le> cost" "g \<in> set rows" "covers cls repo cost now g"
  shows "\<exists>v. authorize lc cls repo (Some cost) now rows = Authorized v"
proof -
  let ?cs = "filter (is_candidate cls repo now) rows"
  from assms(5) obtain h where h: "grant_headroom g = Some h" "cost \<le> h" "g \<in> set ?cs"
    using assms(4) by (auto simp: covers_headroom)
  then have "?cs \<noteq> []" by (metis empty_iff empty_set)
  then obtain best rest where s: "js_sort (by_headroom lc) ?cs = best # rest"
    by (metis js_sort_eq_Nil neq_Nil_conv)
  obtain y where "y \<ge> h" "grant_headroom best = Some y"
    using collation.best_has_most_headroom[OF assms(1) s h(3,1)] by blast
  with h(2) s assms(2,3) show ?thesis
    by (auto simp: authorize_def grant_headroom_def num_op_Some_iff num_cmp_iff)
qed

lemma authorize_iff_covers:
  assumes "collation lc"
  shows "(\<exists>v. authorize lc cls repo projected now rows = Authorized v) \<longleftrightarrow>
     isAutonomyEligible cls \<and> (\<exists>cost \<ge> 0. projected = Some cost \<and> (\<exists>g \<in> set rows. covers cls repo cost now g))"
    (is "?auth \<longleftrightarrow> ?covered")
proof
  assume ?auth
  then show ?covered using authorized_covers[of lc cls repo projected now rows] by blast
next
  assume ?covered
  then show ?auth using covered_is_authorized[OF assms, of cls _ _ rows repo now] by auto
qed

text \<open>Ids are unique, so a lookup finds the row.\<close>

lemma find_grant_unique:
  "distinct (map tg_id rows) \<Longrightarrow> g \<in> set rows \<Longrightarrow> find_grant (tg_id g) rows = Some g"
  by (induction rows) (auto simp: find_grant_def)

lemma find_grantD: "find_grant gid rows = Some g \<Longrightarrow> g \<in> set rows \<and> tg_id g = gid"
  unfolding find_grant_def by (rule find_Some_iff_mem)

end
