(* ===== verification/Keyed_Buckets.thy ===== *)
theory Keyed_Buckets
  imports Opifex_Prelude
begin

text \<open>
  Counting into a \<open>Map\<close> of buckets, as the read models do it: the map in insertion order, a bucket
  made when its key is first met, and every item added to the bucket of its key. Also the counts of
  a \<open>groupBy\<close>.
\<close>

fun upsert :: "('b \<Rightarrow> 'k) \<Rightarrow> ('k \<Rightarrow> 'b) \<Rightarrow> 'k \<Rightarrow> ('b \<Rightarrow> 'b) \<Rightarrow> 'b list \<Rightarrow> 'b list" where
  "upsert key new k f [] = [f (new k)]"
| "upsert key new k f (b # bs) = (if key b = k then f b # bs else b # upsert key new k f bs)"

text \<open>The bucket of a key, or the one that would be made for it.\<close>

definition bucket_of :: "('b \<Rightarrow> 'k) \<Rightarrow> ('k \<Rightarrow> 'b) \<Rightarrow> 'k \<Rightarrow> 'b list \<Rightarrow> 'b" where
  "bucket_of key new k bs = get_or (new k) (find (\<lambda>b. key b = k) bs)"

text \<open>\<open>groupBy\<close>: one group per key that occurs, with its count.\<close>

definition group_counts :: "'k list \<Rightarrow> ('k \<times> nat) list" where
  "group_counts ks = map (\<lambda>k. (k, count_list ks k)) (remdups ks)"

lemma upsert_keys:
  assumes "\<And>b. key (f b) = key b" "key (new k) = k"
  shows "key ` set (upsert key new k f bs) = insert k (key ` set bs)"
  by (induction bs) (auto simp: assms)

lemma upsert_distinct:
  assumes "\<And>b. key (f b) = key b" "key (new k) = k"
  shows "distinct (map key bs) \<Longrightarrow> distinct (map key (upsert key new k f bs))"
proof (induction bs)
  case (Cons b bs)
  have "key b \<notin> key ` set (upsert key new k f bs)" if "key b \<noteq> k"
    using upsert_keys[of key f new k bs] assms that Cons.prems by auto
  with Cons assms show ?case by auto
qed simp

lemma bucket_of_upsert:
  assumes "\<And>b. key (f b) = key b" "key (new k') = k'"
  shows "bucket_of key new k (upsert key new k' f bs) =
    (if k' = k then f (bucket_of key new k bs) else bucket_of key new k bs)"
  by (induction bs) (auto simp: bucket_of_def assms)

text \<open>A loop of upserts leaves in each bucket what the items of its key made of it.\<close>

lemma bucket_of_fold:
  assumes "\<And>x b. key (f x b) = key b" "\<And>k. key (new k) = k"
  shows "bucket_of key new k (fold (\<lambda>x. upsert key new (kx x) (f x)) xs bs) =
    fold (\<lambda>x b. if kx x = k then f x b else b) xs (bucket_of key new k bs)"
proof (induction xs arbitrary: bs)
  case (Cons x xs)
  then show ?case using bucket_of_upsert[of key "f x" new "kx x" k bs] assms by auto
qed simp

lemma fold_upsert_keys:
  assumes "\<And>x b. key (f x b) = key b" "\<And>k. key (new k) = k"
  shows "key ` set (fold (\<lambda>x. upsert key new (kx x) (f x)) xs bs) = key ` set bs \<union> kx ` set xs"
proof (induction xs arbitrary: bs)
  case (Cons x xs)
  then show ?case using upsert_keys[of key "f x" new "kx x" bs] assms by auto
qed simp

lemma fold_upsert_distinct:
  assumes "\<And>x b. key (f x b) = key b" "\<And>k. key (new k) = k"
  shows "distinct (map key bs) \<Longrightarrow> distinct (map key (fold (\<lambda>x. upsert key new (kx x) (f x)) xs bs))"
proof (induction xs arbitrary: bs)
  case (Cons x xs)
  then show ?case using upsert_distinct[of key "f x" new "kx x" bs] assms by auto
qed simp

text \<open>A counter of a bucket is the sum of what the items add to it.\<close>

lemma fold_counter:
  assumes "\<And>x b. m (f x b) = m b + d x"
  shows "m (fold (\<lambda>x b. if kx x = k then f x b else b) xs b) =
    m b + sum_list (map d (filter (\<lambda>x. kx x = k) xs) :: nat list)"
  by (induction xs arbitrary: b) (auto simp: assms)

lemma bucket_of_mem:
  assumes "b \<in> set bs" "distinct (map key bs)"
  shows "bucket_of key new (key b) bs = b"
proof -
  have "find (\<lambda>c. key c = key b) bs = Some b"
    using assms by (induction bs) (auto simp: image_iff)
  then show ?thesis by (simp add: bucket_of_def)
qed

lemma bucket_of_map:
  assumes "\<And>b. key (g b) = key b" "k \<in> key ` set bs"
  shows "bucket_of key new k (map g bs) = g (bucket_of key new k bs)"
  using assms(2) by (induction bs) (auto simp: bucket_of_def assms(1))

lemma bucket_of_absent: "k \<notin> key ` set bs \<Longrightarrow> bucket_of key new k bs = new k"
  by (induction bs) (auto simp: bucket_of_def)

lemma bucket_of_seed:
  assumes "\<And>k. key (new k) = k"
  shows "bucket_of key new k (map (\<lambda>x. new (g x)) xs) = new k"
  by (induction xs) (auto simp: bucket_of_def assms)

lemma sum_filter_if:
  "sum_list (map (\<lambda>x. if Q x then f x else 0) (filter P xs)) =
   sum_list (map (\<lambda>x. if P x \<and> Q x then f x else (0 :: nat)) xs)"
  by (induction xs) auto

text \<open>Sorting a map's values keeps what is under each key.\<close>

lemma bucket_of_sort:
  assumes "distinct (map key bs)"
  shows "bucket_of key new k (js_sort cmp bs) = bucket_of key new k bs"
proof (cases "k \<in> key ` set bs")
  case True
  then obtain b where b: "b \<in> set bs" "key b = k" by auto
  moreover have "distinct (map key (js_sort cmp bs))"
    using assms by (metis mset_js_sort mset_map mset_eq_imp_distinct_iff)
  ultimately show ?thesis using bucket_of_mem[of b] assms by (metis set_js_sort)
qed (simp add: bucket_of_absent)

text \<open>With one row per key, the rows of a key are its bucket.\<close>

lemma sum_under_key:
  assumes "distinct (map key rows)" "d (new k) = 0"
  shows "sum_list (map d (filter (\<lambda>row. key row = k) rows)) = (d (bucket_of key new k rows) :: nat)"
  using assms
proof (induction rows)
  case (Cons r rows)
  show ?case
  proof (cases "key r = k")
    case True
    then have "filter (\<lambda>row. key row = k) rows = []"
      using Cons.prems(1) by (simp add: filter_empty_conv) (metis image_eqI)
    with True show ?thesis by (simp add: bucket_of_def)
  qed (use Cons in \<open>simp add: bucket_of_def\<close>)
qed (simp add: bucket_of_def)

lemma sum_group_counts:
  "sum_list (map (\<lambda>g. if P (fst g) then snd g else 0) (group_counts ks)) = length (filter P ks)"
proof -
  have kept: "count_list (filter P ks) k = (if P k then count_list ks k else 0)" for k
    by (induction ks) auto
  have "sum_list (map (\<lambda>k. if P k then count_list ks k else 0) (remdups ks)) =
    (\<Sum>k\<in>set ks. if P k then count_list ks k else 0)"
    by (simp add: sum.distinct_set_conv_list[symmetric] sum_list_distinct_conv_sum_set)
  also have "\<dots> = (\<Sum>k\<in>set ks. count_list (filter P ks) k)"
    by (simp only: kept)
  also have "\<dots> = length (filter P ks)"
  proof -
    have "(\<Sum>k\<in>set ks. count_list (filter P ks) k) = (\<Sum>k\<in>set (filter P ks). count_list (filter P ks) k)"
      by (rule sum.mono_neutral_right) (auto simp: count_list_0_iff)
    then show ?thesis by (simp add: sum_count_set)
  qed
  finally show ?thesis by (simp add: group_counts_def comp_def cong: if_cong)
qed

end
