(* ===== verification/Approvals.thy ===== *)
theory Approvals
  imports Trust_Grants Keyed_Buckets
begin

text \<open>
  The approval gate (\<open>approvals/\<close>): what silence means for an action class (\<open>timeout-policy.ts\<close>), the
  gate an action passes, the decision of a human, the timeout sweep, the backfill of lost
  escalations, supersession and the read models (\<open>approval-gate.service.ts\<close>), and the exception that
  says why a request cannot be decided (\<open>approval-not-pending.exception.ts\<close>). The state is the
  approvals, the grants, the audit rows of refusals, the system escalations and the notifications
  sent. What may fail outside (the audit write, raising an escalation, linking it, the notifier) is
  an argument of the operation.
\<close>

section \<open>What silence means\<close>

datatype timeout_policy = Auto_approve | Deny_on_timeout | Park_and_escalate

definition TIMEOUT_WINDOW_MS :: int where "TIMEOUT_WINDOW_MS = 4 * 60 * 60 * 1000"

definition resolveTimeoutPolicy :: "string \<Rightarrow> timeout_policy" where
  "resolveTimeoutPolicy actionClass =
    (case getActionClass actionClass of
       None \<Rightarrow> Park_and_escalate
     | Some registered \<Rightarrow>
         if ac_reversibility registered = Irreversible then Park_and_escalate
         else if ac_spendsMoney registered then Deny_on_timeout
         else if ac_reversibility registered = Reversible_with_effort then Deny_on_timeout
         else Auto_approve)"

definition timeoutAtFor :: "timeout_policy \<Rightarrow> instant \<Rightarrow> instant option" where
  "timeoutAtFor policy now = (if policy = Park_and_escalate then None else Some (now + TIMEOUT_WINDOW_MS))"

section \<open>The table\<close>

datatype approval_status =
    Ap_pending | Ap_approved | Ap_denied | Ap_auto_approved | Ap_auto_denied | Ap_parked | Ap_superseded

datatype decided_via = By_human | By_timeout | By_grant

datatype decision_note =
    Note string
  | Note_authorized string string instant \<comment> \<open>grant, class, expiry\<close>
  | Note_nobody_answered "instant option" approval_status timeout_policy

record approval_row =
  ap_id :: string
  ap_actionClass :: string
  ap_repositoryId :: string
  ap_proposalId :: "string option"
  ap_targetKind :: "string option"
  ap_targetRef :: "string option"
  ap_summary :: string
  ap_reasoning :: string
  ap_blastRadius :: string
  ap_effects :: "autonomy_effect list"
  ap_estimatedCostUsd :: "js_number option"
  ap_timeoutPolicy :: timeout_policy
  ap_timeoutAt :: "instant option"
  ap_status :: approval_status
  ap_decidedAt :: "instant option"
  ap_decidedById :: "string option"
  ap_decidedVia :: "decided_via option"
  ap_decisionNote :: "decision_note option"
  ap_grantId :: "string option"
  ap_createdGrantId :: "string option"
  ap_escalationId :: "string option"
  ap_createdAt :: instant

definition OPEN_STATUSES :: "approval_status list" where
  "OPEN_STATUSES = [Ap_pending, Ap_parked]"

definition SWEEP_BATCH_LIMIT :: nat where "SWEEP_BATCH_LIMIT = 200"
definition PARKED_BACKFILL_WINDOW_HOURS :: int where "PARKED_BACKFILL_WINDOW_HOURS = 24"
definition PARKED_BACKFILL_WINDOW_MS :: int where
  "PARKED_BACKFILL_WINDOW_MS = PARKED_BACKFILL_WINDOW_HOURS * 60 * 60 * 1000"
definition PARKED_BACKFILL_BATCH_LIMIT :: nat where "PARKED_BACKFILL_BATCH_LIMIT = 25"

text \<open>
  The detail of a system escalation: the one of a parked approval (its reasoning, its blast radius,
  where it came from and the approval it is about), or any other text.
\<close>

datatype provenance_text =
    No_grant_because denial_detail
  | Raised_late "int option" \<comment> \<open>minutes\<close>

datatype escalation_detail =
    Parked_detail string string provenance_text string
  | Free_detail string

record system_escalation =
  se_id :: string
  se_summary :: string
  se_detail :: escalation_detail

record approval_notice =
  an_id :: string
  an_actionClass :: string
  an_actionClassTitle :: "string option"
  an_summary :: string
  an_reasoning :: string
  an_blastRadius :: string
  an_timeoutPolicy :: timeout_policy
  an_timeoutAt :: "instant option"
  an_status :: approval_status
  an_escalationId :: "string option"
  an_createdAt :: instant

record approvals_state =
  approvals :: "approval_row list"
  grants :: "trust_grant list"
  audit :: "refusal_audit list"
  escalations :: "system_escalation list"
  notices :: "approval_notice list"

definition find_approval :: "string \<Rightarrow> approval_row list \<Rightarrow> approval_row option" where
  "find_approval aid = find (\<lambda>a. ap_id a = aid)"

section \<open>The gate\<close>

record raise_input =
  ri_actionClass :: string
  ri_repositoryId :: string
  ri_effects :: "autonomy_effect list"
  ri_summary :: string
  ri_reasoning :: string
  ri_blastRadius :: string
  ri_estimatedCostUsd :: "js_number option"
  ri_proposalId :: "string option"
  ri_targetKind :: "string option"
  ri_targetRef :: "string option"

datatype gate_outcome =
    Gate_refused "never_trustable_refusal list"
  | Gate_authorized string string \<comment> \<open>grant, approval\<close>
  | Gate_pending string timeout_policy "instant option"

text \<open>
  The world around one call: whether the audit row can be written, the ceiling in force, what the
  database gives a new approval, what raising an escalation answers (\<open>None\<close>: it throws), whether the
  link can be written, and whether the notifier throws.
\<close>

record gate_world =
  gw_auditWritable :: bool
  gw_ceiling :: hard_ceiling
  gw_newApproval :: new_row
  gw_escalation :: "string option"
  gw_linkWritable :: bool
  gw_notifies :: bool

definition nonempty_text :: "string option \<Rightarrow> string option" where
  "nonempty_text s = (if s = Some '''' then None else s)"

definition enforcement_of :: "raise_input \<Rightarrow> enforcement_request" where
  "enforcement_of input =
    \<lparr>er_actionClass = ri_actionClass input, er_effects = ri_effects input,
     er_proposalId = nonempty_text (ri_proposalId input), er_grantId = None,
     er_targetRef = nonempty_text (ri_targetRef input), er_actorUserId = None\<rparr>"

definition projectedCostFor :: "raise_input \<Rightarrow> js_number" where
  "projectedCostFor input =
    (case ri_estimatedCostUsd input of
       Some estimate \<Rightarrow> estimate
     | None \<Rightarrow> if spendsMoney (ri_actionClass input) then None else Some 0)"

text \<open>The row the input makes, before its status and its deadline.\<close>

definition baseData :: "new_row \<Rightarrow> raise_input \<Rightarrow> timeout_policy \<Rightarrow> approval_row" where
  "baseData nr input policy =
    \<lparr>ap_id = nr_id nr, ap_actionClass = ri_actionClass input, ap_repositoryId = ri_repositoryId input,
     ap_proposalId = ri_proposalId input, ap_targetKind = ri_targetKind input,
     ap_targetRef = ri_targetRef input, ap_summary = ri_summary input,
     ap_reasoning = ri_reasoning input, ap_blastRadius = ri_blastRadius input,
     ap_effects = ri_effects input, ap_estimatedCostUsd = ri_estimatedCostUsd input,
     ap_timeoutPolicy = policy, ap_timeoutAt = None, ap_status = Ap_pending, ap_decidedAt = None,
     ap_decidedById = None, ap_decidedVia = None, ap_decisionNote = None, ap_grantId = None,
     ap_createdGrantId = None, ap_escalationId = None, ap_createdAt = nr_createdAt nr\<rparr>"

definition parkedApprovalMarker :: "string \<Rightarrow> string" where
  "parkedApprovalMarker aid = ''Approval: '' @ aid"

definition lateNotice :: "instant option \<Rightarrow> instant option \<Rightarrow> provenance_text" where
  "lateNotice parkedAt now =
    (case (parkedAt, now) of
       (Some p, Some n) \<Rightarrow> Raised_late (Some (max 0 (math_round (of_int (n - p) / 60000))))
     | _ \<Rightarrow> Raised_late None)"

definition parkedEscalationContent ::
  "string \<Rightarrow> string \<Rightarrow> string \<Rightarrow> string \<Rightarrow> provenance_text \<Rightarrow> string \<times> escalation_detail" where
  "parkedEscalationContent aid summary reasoning blast provenance =
    (''Approval parked, waiting on a human: '' @ summary, Parked_detail reasoning blast provenance aid)"

text \<open>\<open>raiseSystem\<close> writes the escalation; the link is a guarded update.\<close>

definition raiseSystem :: "string \<Rightarrow> string \<times> escalation_detail \<Rightarrow> system_escalation list \<Rightarrow> system_escalation list" where
  "raiseSystem eid content es = es @ [\<lparr>se_id = eid, se_summary = fst content, se_detail = snd content\<rparr>]"

datatype link_outcome = Linked | Lost | Link_failed

definition linkEscalation ::
  "bool \<Rightarrow> string \<Rightarrow> string \<Rightarrow> approval_row list \<Rightarrow> link_outcome \<times> approval_row list" where
  "linkEscalation writable aid eid rows =
    (if \<not> writable then (Link_failed, rows)
     else let (n, rows') = update_many
                (\<lambda>a. ap_id a = aid \<and> ap_status a = Ap_parked \<and> ap_escalationId a = None)
                (\<lambda>a. a\<lparr>ap_escalationId := Some eid\<rparr>) rows
          in (if n = 1 then Linked else Lost, rows'))"

definition escalateParked ::
  "gate_world \<Rightarrow> string \<Rightarrow> raise_input \<Rightarrow> denial_detail \<Rightarrow> approvals_state \<Rightarrow> string option \<times> approvals_state" where
  "escalateParked world aid input noGrant st =
    (case gw_escalation world of
       None \<Rightarrow> (None, st)
     | Some eid \<Rightarrow>
        (let st1 = st\<lparr>escalations := raiseSystem eid
                (parkedEscalationContent aid (ri_summary input) (ri_reasoning input) (ri_blastRadius input)
                   (No_grant_because noGrant)) (escalations st)\<rparr>
         in (Some eid, st1\<lparr>approvals := snd (linkEscalation (gw_linkWritable world) aid eid (approvals st1))\<rparr>)))"

definition notify :: "gate_world \<Rightarrow> approval_notice \<Rightarrow> approvals_state \<Rightarrow> approvals_state" where
  "notify world notice st = (if gw_notifies world then st\<lparr>notices := notices st @ [notice]\<rparr> else st)"

text \<open>What happens to an action no grant covers: it is recorded, escalated when parked, and pushed.\<close>

definition raise_request ::
  "gate_world \<Rightarrow> raise_input \<Rightarrow> timeout_policy \<Rightarrow> denial_detail \<Rightarrow> instant \<Rightarrow> approvals_state \<Rightarrow>
   gate_outcome \<times> approvals_state" where
  "raise_request world input policy noGrant now st =
    (let timeoutAt = timeoutAtFor policy now;
         parked = policy = Park_and_escalate;
         row = (baseData (gw_newApproval world) input policy)
                 \<lparr>ap_timeoutAt := timeoutAt, ap_status := if parked then Ap_parked else Ap_pending\<rparr>;
         st1 = st\<lparr>approvals := approvals st @ [row]\<rparr>;
         (escalationId, st2) = (if parked then escalateParked world (ap_id row) input noGrant st1
                                else (None, st1));
         st3 = notify world
                 \<lparr>an_id = ap_id row, an_actionClass = ri_actionClass input,
                  an_actionClassTitle = map_option ac_title (getActionClass (ri_actionClass input)),
                  an_summary = ri_summary input, an_reasoning = ri_reasoning input,
                  an_blastRadius = ri_blastRadius input, an_timeoutPolicy = policy,
                  an_timeoutAt = timeoutAt, an_status = ap_status row,
                  an_escalationId = escalationId, an_createdAt = ap_createdAt row\<rparr> st2
     in (Gate_pending (ap_id row) policy timeoutAt, st3))"

definition gate ::
  "(string \<Rightarrow> string \<Rightarrow> int) \<Rightarrow> gate_world \<Rightarrow> raise_input \<Rightarrow> instant \<Rightarrow> approvals_state \<Rightarrow>
   gate_outcome \<times> approvals_state" where
  "gate lc world input now st =
    (let (verdict, audit') = enforce (gw_auditWritable world) (gw_ceiling world) (enforcement_of input) (audit st);
         st0 = st\<lparr>audit := audit'\<rparr>
     in case verdict of
       Not_permitted refusals \<Rightarrow> (Gate_refused refusals, st0)
     | Permitted \<Rightarrow>
        (let policy = resolveTimeoutPolicy (ri_actionClass input) in
         case authorize lc (ri_actionClass input) (ri_repositoryId input) (projectedCostFor input) now (grants st0) of
           Authorized v \<Rightarrow>
             (let g = tv_grant v;
                  row = (baseData (gw_newApproval world) input policy)
                    \<lparr>ap_timeoutAt := None, ap_status := Ap_approved, ap_decidedAt := Some now,
                     ap_decidedById := None, ap_decidedVia := Some By_grant,
                     ap_decisionNote := Some (Note_authorized (tg_id g) (ri_actionClass input) (tg_expiresAt g)),
                     ap_grantId := Some (tg_id g)\<rparr>
              in (Gate_authorized (tg_id g) (ap_id row), st0\<lparr>approvals := approvals st0 @ [row]\<rparr>))
         | Denied reason detail \<Rightarrow> raise_request world input policy detail now st0))"

section \<open>Views and refusals to decide\<close>

record approval_view =
  av_row :: approval_row \<comment> \<open>the columns, dates as instants\<close>
  escalationMissing :: bool

definition toView :: "approval_row \<Rightarrow> approval_view" where
  "toView row = \<lparr>av_row = row,
     escalationMissing = (ap_status row = Ap_parked \<and> ap_escalationId row = None)\<rparr>"

datatype approval_not_pending =
    Np_superseded string "instant option"
  | Np_timed_out string "instant option" bool timeout_policy \<comment> \<open>approved?\<close>
  | Np_by_grant string "instant option"
  | Np_by_human string bool "string option" "instant option"
  | Np_inconsistent string approval_status

definition notPendingFor :: "approval_row \<Rightarrow> approval_not_pending" where
  "notPendingFor row =
    (if ap_status row = Ap_superseded then Np_superseded (ap_id row) (ap_decidedAt row)
     else if ap_status row \<in> {Ap_auto_approved, Ap_auto_denied}
     then Np_timed_out (ap_id row) (ap_decidedAt row) (ap_status row = Ap_auto_approved) (ap_timeoutPolicy row)
     else if ap_decidedVia row = Some By_grant then Np_by_grant (ap_id row) (ap_decidedAt row)
     else if ap_decidedVia row = Some By_human
     then Np_by_human (ap_id row) (ap_status row = Ap_approved) (ap_decidedById row) (ap_decidedAt row)
     else Np_inconsistent (ap_id row) (ap_status row))"

datatype approval_error =
    Approval_not_found string
  | Approval_not_pending approval_not_pending

section \<open>A human decides\<close>

datatype human_decision = Approve | Deny

record decide_input =
  dc_decision :: human_decision
  dc_actorUserId :: string
  dc_note :: "string option"
  dc_alwaysApprove :: bool

datatype grant_skipped =
    Only_applies_to_approvals
  | Class_never_eligible string
  | Grant_not_created grant_error
  | Grant_not_linked

record decide_result =
  dr_approval :: approval_view
  dr_createdGrantId :: "string option"
  dr_grantSkipped :: "grant_skipped option"
  dr_decidedAfterTimeout :: bool

definition open_approval :: "string \<Rightarrow> approval_row \<Rightarrow> bool" where
  "open_approval aid a \<longleftrightarrow> ap_id a = aid \<and> ap_status a \<in> set OPEN_STATUSES"

definition minted_input :: "approval_row \<Rightarrow> decide_input \<Rightarrow> instant \<Rightarrow> create_grant_input" where
  "minted_input approval input now =
    (let a = defaultGrantAttributes now in
     \<lparr>cg_actionClass = ap_actionClass approval, cg_repositoryId = ap_repositoryId approval,
      cg_grantedById = dc_actorUserId input, cg_expiresAt = ga_expiresAt a,
      cg_budgetCeilingUsd = Some (ga_budgetCeilingUsd a), cg_maxFailureRate = Some (ga_maxFailureRate a),
      cg_maxCostPerActionUsd = Some (ga_maxCostPerActionUsd a),
      cg_minActions = Some (Some (of_int (ga_minActions a))),
      cg_grantedFromProposalId = ap_proposalId approval, cg_renewedFromId = None,
      cg_note = Some (get_or (''Created from \"Always approve this class\" on approval '' @ ap_id approval @ ''.'')
                        (dc_note input))\<rparr>)"

text \<open>\<open>linkable\<close> is whether the grant that was created can be written on the request.\<close>

definition maybeMintGrant ::
  "bool \<Rightarrow> string list \<Rightarrow> new_row \<Rightarrow> approval_row \<Rightarrow> decide_input \<Rightarrow> instant \<Rightarrow> approvals_state \<Rightarrow>
   string option \<times> grant_skipped option \<times> approvals_state" where
  "maybeMintGrant linkable repositories nr approval input now st =
    (if \<not> dc_alwaysApprove input then (None, None, st)
     else if \<not> isActionClass (ap_actionClass approval) \<or> \<not> isAutonomyEligible (ap_actionClass approval)
     then (None, Some (Class_never_eligible (ap_actionClass approval)), st)
     else case create_grant repositories nr (minted_input approval input now) now (grants st) of
       Inl e \<Rightarrow> (None, Some (Grant_not_created e), st)
     | Inr (created, gs) \<Rightarrow>
         if \<not> linkable then (None, Some Grant_not_linked, st\<lparr>grants := gs\<rparr>)
         else
         (Some (tg_id (tv_grant created)), None,
          st\<lparr>grants := gs,
             approvals := snd (update_many (\<lambda>a. ap_id a = ap_id approval)
                (\<lambda>a. a\<lparr>ap_createdGrantId := Some (tg_id (tv_grant created))\<rparr>) (approvals st))\<rparr>))"

text \<open>From the row it read, \<open>existing\<close>: the table may have moved since.\<close>

definition decide_from ::
  "approval_row \<Rightarrow> bool \<Rightarrow> string list \<Rightarrow> new_row \<Rightarrow> decide_input \<Rightarrow> instant \<Rightarrow> approvals_state \<Rightarrow>
   approval_error + (decide_result \<times> approvals_state)" where
  "decide_from existing linkable repositories nr input now st =
    (if ap_status existing \<notin> set OPEN_STATUSES then Inl (Approval_not_pending (notPendingFor existing))
     else
       let aid = ap_id existing;
           late = (case ap_timeoutAt existing of None \<Rightarrow> False | Some t \<Rightarrow> t \<le> now);
           (n, rows) = update_many (open_approval aid)
             (\<lambda>a. a\<lparr>ap_status := if dc_decision input = Approve then Ap_approved else Ap_denied,
                    ap_decidedAt := Some now, ap_decidedById := Some (dc_actorUserId input),
                    ap_decidedVia := Some By_human, ap_decisionNote := map_option Note (dc_note input)\<rparr>)
             (approvals st)
       in if n = 0
          then (case find_approval aid (approvals st) of
                  None \<Rightarrow> Inl (Approval_not_found aid)
                | Some current \<Rightarrow> Inl (Approval_not_pending (notPendingFor current)))
          else
            let st1 = st\<lparr>approvals := rows\<rparr>;
                (created, skipped, st2) =
                  (if dc_decision input = Approve then maybeMintGrant linkable repositories nr existing input now st1
                   else (None, if dc_alwaysApprove input then Some Only_applies_to_approvals else None, st1))
            in case find_approval aid (approvals st2) of
                 None \<Rightarrow> Inl (Approval_not_found aid)
               | Some updated \<Rightarrow>
                   Inr (\<lparr>dr_approval = toView updated, dr_createdGrantId = created,
                         dr_grantSkipped = skipped, dr_decidedAfterTimeout = late\<rparr>, st2))"

definition decide ::
  "string \<Rightarrow> bool \<Rightarrow> string list \<Rightarrow> new_row \<Rightarrow> decide_input \<Rightarrow> instant \<Rightarrow> approvals_state \<Rightarrow>
   approval_error + (decide_result \<times> approvals_state)" where
  "decide aid linkable repositories nr input now st =
    (case find_approval aid (approvals st) of
       None \<Rightarrow> Inl (Approval_not_found aid)
     | Some existing \<Rightarrow> decide_from existing linkable repositories nr input now st)"

section \<open>The clock\<close>

record sweep_timeouts_result =
  sw_examined :: nat
  sw_autoApproved :: nat
  sw_autoDenied :: nat
  sw_skippedParked :: nat
  sw_raced :: nat

definition is_due :: "instant \<Rightarrow> approval_row \<Rightarrow> bool" where
  "is_due now a \<longleftrightarrow> ap_status a = Ap_pending \<and>
     (case ap_timeoutAt a of None \<Rightarrow> False | Some t \<Rightarrow> t \<le> now)"

definition due_approvals :: "instant \<Rightarrow> approval_row list \<Rightarrow> approval_row list" where
  "due_approvals now rows =
    take SWEEP_BATCH_LIMIT (js_sort (by_key (\<lambda>a. get_or 0 (ap_timeoutAt a))) (filter (is_due now) rows))"

definition resolve_on_timeout :: "instant \<Rightarrow> approval_row \<Rightarrow> approval_row list \<Rightarrow> nat \<times> approval_row list" where
  "resolve_on_timeout now row rows =
    (let status = (if ap_timeoutPolicy row = Auto_approve then Ap_auto_approved else Ap_auto_denied)
     in update_many (\<lambda>a. ap_id a = ap_id row \<and> ap_status a = Ap_pending)
          (\<lambda>a. a\<lparr>ap_status := status, ap_decidedAt := Some now, ap_decidedById := None,
                 ap_decidedVia := Some By_timeout,
                 ap_decisionNote := Some (Note_nobody_answered (ap_timeoutAt row) status (ap_timeoutPolicy row))\<rparr>)
          rows)"

fun sweep_due ::
  "instant \<Rightarrow> approval_row list \<Rightarrow> approval_row list \<Rightarrow> sweep_timeouts_result \<Rightarrow>
   sweep_timeouts_result \<times> approval_row list" where
  "sweep_due now [] rows res = (res, rows)"
| "sweep_due now (row # due) rows res =
    (if ap_timeoutPolicy row = Park_and_escalate
     then sweep_due now due rows (res\<lparr>sw_skippedParked := sw_skippedParked res + 1\<rparr>)
     else let (n, rows') = resolve_on_timeout now row rows
          in if n = 0 then sweep_due now due rows' (res\<lparr>sw_raced := sw_raced res + 1\<rparr>)
             else if ap_timeoutPolicy row = Auto_approve
             then sweep_due now due rows' (res\<lparr>sw_autoApproved := sw_autoApproved res + 1\<rparr>)
             else sweep_due now due rows' (res\<lparr>sw_autoDenied := sw_autoDenied res + 1\<rparr>))"

definition sweepTimeouts :: "instant \<Rightarrow> approvals_state \<Rightarrow> sweep_timeouts_result \<times> approvals_state" where
  "sweepTimeouts now st =
    (let due = due_approvals now (approvals st);
         (res, rows) = sweep_due now due (approvals st)
            \<lparr>sw_examined = length due, sw_autoApproved = 0, sw_autoDenied = 0, sw_skippedParked = 0, sw_raced = 0\<rparr>
     in (res, st\<lparr>approvals := rows\<rparr>))"

section \<open>Lost escalations\<close>

record backfill_result =
  bf_examined :: nat
  bf_raised :: nat
  bf_linked :: nat
  bf_raced :: nat
  bf_failed :: nat
  bf_abandoned :: nat

text \<open>
  \<open>detail contains marker\<close>: the marker closes the detail of a parked approval, and could occur in
  the two texts an agent wrote; the fixed prose around them does not contain one.
\<close>

definition detail_contains :: "string \<Rightarrow> escalation_detail \<Rightarrow> bool" where
  "detail_contains marker d =
    (case d of
       Parked_detail reasoning blast provenance aid \<Rightarrow>
         str_includes marker reasoning \<or> str_includes marker blast \<or>
         str_includes marker (parkedApprovalMarker aid)
     | Free_detail s \<Rightarrow> str_includes marker s)"

text \<open>The oldest first: escalations are kept in the order they were raised.\<close>

definition findEscalationFor :: "string \<Rightarrow> system_escalation list \<Rightarrow> string option" where
  "findEscalationFor aid es =
    map_option se_id (find (\<lambda>e. detail_contains (parkedApprovalMarker aid) (se_detail e)) es)"

definition count_link :: "link_outcome \<Rightarrow> (backfill_result \<Rightarrow> backfill_result) \<Rightarrow> backfill_result \<Rightarrow> backfill_result" where
  "count_link link on_linked res =
    (case link of
       Linked \<Rightarrow> on_linked res
     | Lost \<Rightarrow> res\<lparr>bf_raced := bf_raced res + 1\<rparr>
     | Link_failed \<Rightarrow> res\<lparr>bf_failed := bf_failed res + 1\<rparr>)"

text \<open>\<open>raise_as\<close> is what raising an escalation for an approval answers, \<open>linkable\<close> whether its link
  can be written.\<close>

definition backfill_one ::
  "(string \<Rightarrow> string option) \<Rightarrow> (string \<Rightarrow> bool) \<Rightarrow> instant \<Rightarrow> approval_row \<Rightarrow> backfill_result \<times> approvals_state \<Rightarrow>
   backfill_result \<times> approvals_state" where
  "backfill_one raise_as linkable now approval acc =
    (let (res, st) = acc; aid = ap_id approval in
     case findEscalationFor aid (escalations st) of
       Some existing \<Rightarrow>
         (let (link, rows) = linkEscalation (linkable aid) aid existing (approvals st)
          in (count_link link (\<lambda>r. r\<lparr>bf_linked := bf_linked r + 1\<rparr>) res, st\<lparr>approvals := rows\<rparr>))
     | None \<Rightarrow>
         (case raise_as aid of
            None \<Rightarrow> (res\<lparr>bf_failed := bf_failed res + 1\<rparr>, st)
          | Some eid \<Rightarrow>
              (let es = raiseSystem eid (parkedEscalationContent aid (ap_summary approval)
                          (ap_reasoning approval) (ap_blastRadius approval)
                          (lateNotice (Some (ap_createdAt approval)) (Some now))) (escalations st);
                   (link, rows) = linkEscalation (linkable aid) aid eid (approvals st)
               in (count_link link (\<lambda>r. r\<lparr>bf_raised := bf_raised r + 1\<rparr>) res,
                   st\<lparr>escalations := es, approvals := rows\<rparr>))))"

definition unescalated :: "approval_row \<Rightarrow> bool" where
  "unescalated a \<longleftrightarrow> ap_status a = Ap_parked \<and> ap_escalationId a = None"

definition stale_parked :: "instant \<Rightarrow> approval_row list \<Rightarrow> approval_row list" where
  "stale_parked cutoff rows =
    take PARKED_BACKFILL_BATCH_LIMIT (js_sort (by_key ap_createdAt)
      (filter (\<lambda>a. unescalated a \<and> ap_createdAt a \<ge> cutoff) rows))"

definition backfillParkedEscalations ::
  "(string \<Rightarrow> string option) \<Rightarrow> (string \<Rightarrow> bool) \<Rightarrow> instant \<Rightarrow> approvals_state \<Rightarrow> backfill_result \<times> approvals_state" where
  "backfillParkedEscalations raise_as linkable now st =
    (let cutoff = now - PARKED_BACKFILL_WINDOW_MS;
         stale = stale_parked cutoff (approvals st);
         res = \<lparr>bf_examined = length stale, bf_raised = 0, bf_linked = 0, bf_raced = 0, bf_failed = 0,
                bf_abandoned = length (filter (\<lambda>a. unescalated a \<and> ap_createdAt a < cutoff) (approvals st))\<rparr>
     in fold (backfill_one raise_as linkable now) stale (res, st))"

section \<open>Supersession and reading\<close>

definition supersede :: "string \<Rightarrow> string \<Rightarrow> instant \<Rightarrow> approvals_state \<Rightarrow> (approval_error + approval_view) \<times> approvals_state" where
  "supersede aid reason now st =
    (let rows = snd (update_many (open_approval aid)
           (\<lambda>a. a\<lparr>ap_status := Ap_superseded, ap_decidedAt := Some now, ap_decidedById := None,
                  ap_decidedVia := None, ap_decisionNote := Some (Note reason)\<rparr>) (approvals st))
     in (case find_approval aid rows of
           None \<Rightarrow> Inl (Approval_not_found aid)
         | Some row \<Rightarrow> Inr (toView row), st\<lparr>approvals := rows\<rparr>))"

record list_pending_query =
  lp_repositoryId :: "string option"
  lp_actionClass :: "string option"
  lp_status :: "approval_status option"

definition listPending :: "list_pending_query \<Rightarrow> approval_row list \<Rightarrow> approval_view list" where
  "listPending query rows =
    map toView (js_sort (by_key ap_createdAt)
      (filter (\<lambda>a. (case lp_status query of None \<Rightarrow> ap_status a \<in> set OPEN_STATUSES
                     | Some s \<Rightarrow> ap_status a = s) \<and>
                   matches_filter (lp_repositoryId query) (ap_repositoryId a) \<and>
                   matches_filter (lp_actionClass query) (ap_actionClass a)) rows))"

definition get_approval :: "string \<Rightarrow> approval_row list \<Rightarrow> approval_error + approval_view" where
  "get_approval aid rows =
    (case find_approval aid rows of None \<Rightarrow> Inl (Approval_not_found aid) | Some row \<Rightarrow> Inr (toView row))"

section \<open>Approval rates\<close>

record class_rates =
  cr_actionClass :: string
  cr_approved :: nat
  cr_denied :: nat
  cr_humanDecisions :: nat
  cr_approvalRate :: "rat option"
  cr_autoApproved :: nat
  cr_autoDenied :: nat
  cr_grantAuthorized :: nat
  cr_pending :: nat
  cr_parked :: nat
  cr_superseded :: nat

definition emptyRates :: "string \<Rightarrow> class_rates" where
  "emptyRates cls =
    \<lparr>cr_actionClass = cls, cr_approved = 0, cr_denied = 0, cr_humanDecisions = 0, cr_approvalRate = None,
     cr_autoApproved = 0, cr_autoDenied = 0, cr_grantAuthorized = 0, cr_pending = 0, cr_parked = 0,
     cr_superseded = 0\<rparr>"

fun count_group :: "approval_status \<Rightarrow> decided_via option \<Rightarrow> nat \<Rightarrow> class_rates \<Rightarrow> class_rates" where
  "count_group Ap_approved via n b =
     (if via = Some By_human then b\<lparr>cr_approved := cr_approved b + n\<rparr>
      else b\<lparr>cr_grantAuthorized := cr_grantAuthorized b + n\<rparr>)"
| "count_group Ap_denied via n b = (if via = Some By_human then b\<lparr>cr_denied := cr_denied b + n\<rparr> else b)"
| "count_group Ap_auto_approved via n b = b\<lparr>cr_autoApproved := cr_autoApproved b + n\<rparr>"
| "count_group Ap_auto_denied via n b = b\<lparr>cr_autoDenied := cr_autoDenied b + n\<rparr>"
| "count_group Ap_pending via n b = b\<lparr>cr_pending := cr_pending b + n\<rparr>"
| "count_group Ap_parked via n b = b\<lparr>cr_parked := cr_parked b + n\<rparr>"
| "count_group Ap_superseded via n b = b\<lparr>cr_superseded := cr_superseded b + n\<rparr>"

text \<open>\<open>groupBy\<close>: one group per combination that occurs, with its count.\<close>

type_synonym approval_group = "(string \<times> approval_status \<times> decided_via option) \<times> nat"

definition group_key :: "approval_row \<Rightarrow> string \<times> approval_status \<times> decided_via option" where
  "group_key a = (ap_actionClass a, ap_status a, ap_decidedVia a)"

definition approval_groups :: "instant \<Rightarrow> approval_row list \<Rightarrow> approval_group list" where
  "approval_groups since rows = group_counts (map group_key (filter (\<lambda>a. since \<le> ap_createdAt a) rows))"

text \<open>The map from class to bucket, in insertion order.\<close>

fun add_group :: "approval_group \<Rightarrow> class_rates list \<Rightarrow> class_rates list" where
  "add_group ((cls, status, via), n) bs =
    upsert cr_actionClass emptyRates cls (count_group status via n) bs"

definition finish_rates :: "class_rates \<Rightarrow> class_rates" where
  "finish_rates b =
    (let decisions = cr_approved b + cr_denied b in
     b\<lparr>cr_humanDecisions := decisions,
       cr_approvalRate := if decisions = 0 then None else Some (of_nat (cr_approved b) / of_nat decisions)\<rparr>)"

definition approvalRatesByClass ::
  "(string \<Rightarrow> string \<Rightarrow> int) \<Rightarrow> int \<Rightarrow> instant \<Rightarrow> approval_row list \<Rightarrow> class_rates list" where
  "approvalRatesByClass lc sinceDays now rows =
    js_sort (\<lambda>a b. lc (cr_actionClass a) (cr_actionClass b))
      (map finish_rates (fold add_group (approval_groups (now - sinceDays * 24 * 60 * 60 * 1000) rows) []))"

section \<open>Lemmas\<close>

subsection \<open>An approval over time\<close>

text \<open>What the request was raised with, and its verdict.\<close>

definition ap_terms :: "approval_row \<Rightarrow> approval_row" where
  "ap_terms a = a\<lparr>ap_status := Ap_pending, ap_decidedAt := None, ap_decidedById := None,
     ap_decidedVia := None, ap_decisionNote := None, ap_createdGrantId := None, ap_escalationId := None\<rparr>"

definition ap_verdict where
  "ap_verdict a = (ap_status a, ap_decidedAt a, ap_decidedById a, ap_decidedVia a, ap_decisionNote a)"

definition is_open :: "approval_row \<Rightarrow> bool" where
  "is_open a \<longleftrightarrow> ap_status a = Ap_pending \<or> ap_status a = Ap_parked"

definition later_approval :: "approval_row \<Rightarrow> approval_row \<Rightarrow> bool" where
  "later_approval a a' \<longleftrightarrow>
     ap_terms a' = ap_terms a \<and>
     (\<not> is_open a \<longrightarrow> ap_verdict a' = ap_verdict a) \<and>
     (ap_status a = Ap_parked \<longrightarrow> ap_status a' \<in> {Ap_parked, Ap_approved, Ap_denied, Ap_superseded}) \<and>
     (ap_status a = Ap_pending \<longrightarrow> ap_status a' \<noteq> Ap_parked) \<and>
     (ap_status a' = Ap_auto_approved \<and> is_open a \<longrightarrow> ap_timeoutPolicy a = Auto_approve) \<and>
     (ap_status a' \<in> {Ap_approved, Ap_denied} \<and> is_open a \<longrightarrow>
        ap_decidedVia a' = Some By_human \<and> ap_decidedById a' \<noteq> None) \<and>
     (ap_status a' \<in> {Ap_auto_approved, Ap_auto_denied} \<and> is_open a \<longrightarrow> ap_decidedVia a' = Some By_timeout) \<and>
     (is_open a' \<or> ap_decidedVia a' = Some By_grant \<longrightarrow> ap_decidedVia a' = ap_decidedVia a)"

lemma later_approval_refl: "later_approval a a"
  by (auto simp: later_approval_def is_open_def)

lemma ap_terms_policy: "ap_terms a' = ap_terms a \<Longrightarrow> ap_timeoutPolicy a' = ap_timeoutPolicy a"
  by (auto simp: ap_terms_def dest: arg_cong[where f = ap_timeoutPolicy])

lemma ap_terms_sel:
  assumes "ap_terms a' = ap_terms a"
  shows "ap_id a' = ap_id a" "ap_actionClass a' = ap_actionClass a" "ap_repositoryId a' = ap_repositoryId a"
    "ap_effects a' = ap_effects a" "ap_timeoutPolicy a' = ap_timeoutPolicy a"
    "ap_timeoutAt a' = ap_timeoutAt a" "ap_grantId a' = ap_grantId a" "ap_createdAt a' = ap_createdAt a"
    "ap_estimatedCostUsd a' = ap_estimatedCostUsd a" "ap_summary a' = ap_summary a"
    "ap_reasoning a' = ap_reasoning a" "ap_blastRadius a' = ap_blastRadius a"
    "ap_proposalId a' = ap_proposalId a" "ap_targetKind a' = ap_targetKind a" "ap_targetRef a' = ap_targetRef a"
  using assms by (cases a; cases a'; simp add: ap_terms_def)+

lemma later_approvalD:
  assumes "later_approval a a'"
  shows "ap_terms a' = ap_terms a" "\<not> is_open a \<Longrightarrow> ap_verdict a' = ap_verdict a"
    "ap_status a = Ap_parked \<Longrightarrow> ap_status a' \<in> {Ap_parked, Ap_approved, Ap_denied, Ap_superseded}"
    "ap_status a = Ap_pending \<Longrightarrow> ap_status a' \<noteq> Ap_parked"
    "ap_status a' = Ap_auto_approved \<Longrightarrow> is_open a \<Longrightarrow> ap_timeoutPolicy a = Auto_approve"
    "ap_status a' \<in> {Ap_approved, Ap_denied} \<Longrightarrow> is_open a \<Longrightarrow>
       ap_decidedVia a' = Some By_human \<and> ap_decidedById a' \<noteq> None"
    "is_open a' \<or> ap_decidedVia a' = Some By_grant \<Longrightarrow> ap_decidedVia a' = ap_decidedVia a"
    "ap_status a' \<in> {Ap_auto_approved, Ap_auto_denied} \<Longrightarrow> is_open a \<Longrightarrow> ap_decidedVia a' = Some By_timeout"
  using assms unfolding later_approval_def by blast+

lemma ap_verdict_sel:
  "ap_verdict a' = ap_verdict a \<Longrightarrow> ap_status a' = ap_status a \<and> ap_decidedVia a' = ap_decidedVia a \<and>
     ap_decidedById a' = ap_decidedById a \<and> (is_open a' \<longleftrightarrow> is_open a)"
  by (simp add: ap_verdict_def is_open_def)

lemma later_approval_trans:
  assumes "later_approval f g" "later_approval g h"
  shows "later_approval f h"
proof -
  note fg = later_approvalD[OF assms(1)] and gh = later_approvalD[OF assms(2)]
  have terms: "ap_terms h = ap_terms f" using fg(1) gh(1) by simp
  show ?thesis
  proof (cases "is_open g")
    case False
    then have v: "ap_status h = ap_status g" "ap_decidedVia h = ap_decidedVia g" "is_open h \<longleftrightarrow> is_open g"
      "ap_decidedById h = ap_decidedById g"
      "ap_verdict h = ap_verdict g" using ap_verdict_sel[OF gh(2)] gh(2) by simp_all
    show ?thesis unfolding later_approval_def using terms v fg(2-8) by (intro conjI impI) simp_all
  next
    case True
    then have open_f: "is_open f" using fg(2) ap_verdict_sel by blast
    have "ap_status h \<in> {Ap_parked, Ap_approved, Ap_denied, Ap_superseded}" if "ap_status f = Ap_parked"
      using fg(3)[OF that] True gh(3) by (auto simp: is_open_def)
    moreover have "ap_status h \<noteq> Ap_parked" if "ap_status f = Ap_pending"
      using fg(4)[OF that] True gh(4) by (auto simp: is_open_def)
    moreover have "ap_timeoutPolicy f = Auto_approve" if "ap_status h = Ap_auto_approved"
      using gh(5)[OF that True] ap_terms_sel(5)[OF fg(1)] by simp
    moreover have "ap_decidedVia h = ap_decidedVia f" if "is_open h \<or> ap_decidedVia h = Some By_grant"
      using gh(7)[OF that] fg(7) that True by simp
    ultimately show ?thesis unfolding later_approval_def using terms open_f gh(6,8) True by blast
  qed
qed

text \<open>The updates of the handlers.\<close>

lemma later_approval_updates:
  "is_open a \<Longrightarrow> later_approval a (a\<lparr>ap_status := if b then Ap_approved else Ap_denied,
      ap_decidedAt := t, ap_decidedById := Some u, ap_decidedVia := Some By_human, ap_decisionNote := n\<rparr>)"
  "is_open a \<Longrightarrow> later_approval a (a\<lparr>ap_status := Ap_superseded,
      ap_decidedAt := t, ap_decidedById := v, ap_decidedVia := None, ap_decisionNote := n\<rparr>)"
  "ap_status a = Ap_pending \<Longrightarrow> ap_timeoutPolicy a = p \<Longrightarrow>
    later_approval a (a\<lparr>ap_status := if p = Auto_approve then Ap_auto_approved else Ap_auto_denied,
      ap_decidedAt := t, ap_decidedById := v, ap_decidedVia := Some By_timeout, ap_decisionNote := n\<rparr>)"
  "later_approval a (a\<lparr>ap_createdGrantId := g\<rparr>)"
  "later_approval a (a\<lparr>ap_escalationId := e\<rparr>)"
  by (auto simp: later_approval_def is_open_def ap_terms_def ap_verdict_def)

subsection \<open>Steps of the state\<close>

text \<open>
  A handler from the rows it read, whatever happened since: a decision from an earlier version of
  the request, one turn of the sweep or of the backfill, and the grants moving on their own.
\<close>

inductive approval_step :: "approvals_state \<Rightarrow> approvals_state \<Rightarrow> bool" where
  gated: "nr_id (gw_newApproval world) \<notin> ap_id ` set (approvals st) \<Longrightarrow>
     approval_step st (snd (gate lc world input now st))"
| decided: "decide_from existing linkable repositories nr input now st = Inr (r, st') \<Longrightarrow>
     nr_id nr \<notin> tg_id ` set (grants st) \<Longrightarrow> approval_step st st'"
| timed_out: "\<lbrakk>a \<in> set (approvals st); later_approval row a; is_due now row;
     ap_timeoutPolicy row \<noteq> Park_and_escalate\<rbrakk> \<Longrightarrow>
     approval_step st (st\<lparr>approvals := snd (resolve_on_timeout now row (approvals st))\<rparr>)"
| backfilled: "approval_step st (snd (backfill_one raise_as linkable now row (res, st)))"
| superseded: "approval_step st (snd (supersede aid reason now st))"
| grants_moved: "grant_step (grants st) gs \<Longrightarrow> approval_step st (st\<lparr>grants := gs\<rparr>)"

lemma approval_update_refl: "table_update ap_id later_approval rows rows"
  by (simp add: table_update_refl later_approval_refl)

lemma approval_update_trans:
  "table_update ap_id later_approval a b \<Longrightarrow> table_update ap_id later_approval b c \<Longrightarrow>
   table_update ap_id later_approval a c"
  by (erule table_update_trans) (auto intro: later_approval_trans)

lemma open_approval_iff: "open_approval aid a \<longleftrightarrow> ap_id a = aid \<and> is_open a"
  by (simp add: open_approval_def OPEN_STATUSES_def is_open_def)

lemma link_update: "table_update ap_id later_approval rows (snd (linkEscalation w aid eid rows))"
proof (cases w)
  case True
  have "table_update ap_id later_approval rows (snd (update_many
      (\<lambda>a. ap_id a = aid \<and> ap_status a = Ap_parked \<and> ap_escalationId a = None)
      (\<lambda>a. a\<lparr>ap_escalationId := Some eid\<rparr>) rows))"
    by (rule table_updateI) (simp_all add: later_approval_updates later_approval_refl)
  with True show ?thesis by (simp add: linkEscalation_def Let_def case_prod_beta)
qed (simp add: linkEscalation_def approval_update_refl)

lemma timeout_update:
  assumes "a \<in> set rows" "later_approval row a" "distinct (map ap_id rows)"
  shows "table_update ap_id later_approval rows (snd (resolve_on_timeout now row rows))"
  unfolding resolve_on_timeout_def Let_def
proof (rule table_updateI)
  fix b assume b: "b \<in> set rows" "ap_id b = ap_id row \<and> ap_status b = Ap_pending"
  have "ap_terms a = ap_terms row" using assms(2) by (simp add: later_approval_def)
  note same = ap_terms_sel[OF this]
  have "b = a" using distinct_map_eqD[OF assms(3) b(1) assms(1)] b(2) same(1) by simp
  with b(2) same(5) show "ap_id (b\<lparr>ap_status := if ap_timeoutPolicy row = Auto_approve then Ap_auto_approved else Ap_auto_denied,
        ap_decidedAt := Some now, ap_decidedById := None, ap_decidedVia := Some By_timeout,
        ap_decisionNote := Some (Note_nobody_answered (ap_timeoutAt row)
          (if ap_timeoutPolicy row = Auto_approve then Ap_auto_approved else Ap_auto_denied)
          (ap_timeoutPolicy row))\<rparr>) = ap_id b \<and>
      later_approval b (b\<lparr>ap_status := if ap_timeoutPolicy row = Auto_approve then Ap_auto_approved else Ap_auto_denied,
        ap_decidedAt := Some now, ap_decidedById := None, ap_decidedVia := Some By_timeout,
        ap_decisionNote := Some (Note_nobody_answered (ap_timeoutAt row)
          (if ap_timeoutPolicy row = Auto_approve then Ap_auto_approved else Ap_auto_denied)
          (ap_timeoutPolicy row))\<rparr>)"
    using later_approval_updates(3)[of b "ap_timeoutPolicy row"] by simp
qed (rule later_approval_refl)

lemma supersede_update:
  "table_update ap_id later_approval (approvals st) (approvals (snd (supersede aid reason now st)))"
proof -
  have "table_update ap_id later_approval (approvals st) (snd (update_many (open_approval aid)
           (\<lambda>a. a\<lparr>ap_status := Ap_superseded, ap_decidedAt := Some now, ap_decidedById := None,
                  ap_decidedVia := None, ap_decisionNote := Some (Note reason)\<rparr>) (approvals st)))"
    by (rule table_updateI) (simp_all add: later_approval_updates later_approval_refl open_approval_iff)
  then show ?thesis by (simp add: supersede_def Let_def)
qed

lemma backfill_update:
  "table_update ap_id later_approval (approvals st)
     (approvals (snd (backfill_one raise_as linkable now row (res, st))))"
  by (simp add: backfill_one_def Let_def case_prod_beta link_update approval_update_refl
      split: option.splits)

lemma raise_request_step:
  assumes "nr_id (gw_newApproval world) \<notin> ap_id ` set (approvals st)"
  shows "table_step ap_id later_approval (approvals st)
     (approvals (snd (raise_request world input policy noGrant now st)))"
proof -
  let ?row = "(baseData (gw_newApproval world) input policy)
     \<lparr>ap_timeoutAt := timeoutAtFor policy now, ap_status := if policy = Park_and_escalate then Ap_parked else Ap_pending\<rparr>"
  have "table_update ap_id later_approval (approvals st @ [?row])
     (approvals (snd (raise_request world input policy noGrant now st)))"
    by (simp add: raise_request_def Let_def case_prod_beta notify_def escalateParked_def link_update
        later_approval_refl table_update_refl split: option.splits)
  moreover have "ap_id ?row \<notin> ap_id ` set (approvals st)" using assms by (simp add: baseData_def)
  ultimately show ?thesis by (rule table_step_snoc)
qed

lemma gate_step:
  assumes "nr_id (gw_newApproval world) \<notin> ap_id ` set (approvals st)"
  shows "table_step ap_id later_approval (approvals st) (approvals (snd (gate lc world input now st)))"
proof -
  have same: "table_step ap_id later_approval (approvals st) (approvals st)"
    by (simp add: table_step_def approval_update_refl)
  have raised: "table_step ap_id later_approval (approvals st)
     (approvals (snd (raise_request world input policy noGrant now (st\<lparr>audit := a\<rparr>))))" for policy noGrant a
    using raise_request_step[of world "st\<lparr>audit := a\<rparr>"] assms by simp
  have "table_step ap_id later_approval (approvals st) (approvals st @ [row])" if "ap_id row = nr_id (gw_newApproval world)" for row
    using table_step_snoc[where key = ap_id and later = later_approval and rows = "approvals st" and r = row]
      that assms by (simp add: approval_update_refl)
  with same raised show ?thesis
    by (simp add: gate_def Let_def case_prod_beta baseData_def
        split: never_trustable_verdict.splits authorization_result.splits)
qed

lemma mint_update:
  "table_update ap_id later_approval (approvals st)
     (approvals (snd (snd (maybeMintGrant linkable repositories nr approval input now st))))"
proof -
  have "table_update ap_id later_approval (approvals st) (snd (update_many (\<lambda>a. ap_id a = aid)
      (\<lambda>a. a\<lparr>ap_createdGrantId := g\<rparr>) (approvals st)))" for aid g
    by (rule table_updateI) (simp_all add: later_approval_updates later_approval_refl)
  then show ?thesis
    by (simp add: maybeMintGrant_def Let_def approval_update_refl del: update_many_snd
        split: option.splits sum.splits)
qed

text \<open>A decision that goes through: the guarded update, then perhaps a grant.\<close>

definition decided_rows :: "string \<Rightarrow> decide_input \<Rightarrow> instant \<Rightarrow> approval_row list \<Rightarrow> approval_row list" where
  "decided_rows aid input now rows = snd (update_many (open_approval aid)
     (\<lambda>a. a\<lparr>ap_status := if dc_decision input = Approve then Ap_approved else Ap_denied,
            ap_decidedAt := Some now, ap_decidedById := Some (dc_actorUserId input),
            ap_decidedVia := Some By_human, ap_decisionNote := map_option Note (dc_note input)\<rparr>) rows)"

lemma decideD:
  assumes "decide_from existing linkable repositories nr input now st = Inr (r, st')"
  shows "ap_status existing \<in> set OPEN_STATUSES \<and> filter (open_approval (ap_id existing)) (approvals st) \<noteq> [] \<and>
    (let st1 = st\<lparr>approvals := decided_rows (ap_id existing) input now (approvals st)\<rparr> in
     st' = (if dc_decision input = Approve
            then snd (snd (maybeMintGrant linkable repositories nr existing input now st1)) else st1))"
proof -
  have o: "ap_status existing \<in> set OPEN_STATUSES"
    using assms by (simp add: decide_from_def split: if_splits)
  have ne: "filter (open_approval (ap_id existing)) (approvals st) \<noteq> []"
  proof
    assume "filter (open_approval (ap_id existing)) (approvals st) = []"
    with assms o show False
      unfolding decide_from_def Let_def update_many_def by (simp split: option.splits)
  qed
  let ?st1 = "st\<lparr>approvals := decided_rows (ap_id existing) input now (approvals st)\<rparr>"
  obtain c sk st2 where t: "(if dc_decision input = Approve
      then maybeMintGrant linkable repositories nr existing input now ?st1
      else (None, if dc_alwaysApprove input then Some Only_applies_to_approvals else None, ?st1)) = (c, sk, st2)"
    using prod_cases3 by blast
  have "st' = st2"
    using assms o ne t unfolding decide_from_def Let_def update_many_def decided_rows_def
    by (cases "dc_decision input") (simp_all split: option.splits)
  moreover have "st2 = (if dc_decision input = Approve
      then snd (snd (maybeMintGrant linkable repositories nr existing input now ?st1)) else ?st1)"
    using arg_cong[OF t, of "\<lambda>p. snd (snd p)"] by (simp split: if_splits)
  ultimately show ?thesis using o ne by (simp add: Let_def)
qed

lemma decided_update: "table_update ap_id later_approval rows (decided_rows aid input now rows)"
  unfolding decided_rows_def
  by (rule table_updateI) (simp_all add: later_approval_updates later_approval_refl open_approval_iff)

lemma decide_update:
  assumes "decide_from existing linkable repositories nr input now st = Inr (r, st')"
  shows "table_update ap_id later_approval (approvals st) (approvals st')"
proof -
  let ?st1 = "st\<lparr>approvals := decided_rows (ap_id existing) input now (approvals st)\<rparr>"
  have st': "st' = (if dc_decision input = Approve
      then snd (snd (maybeMintGrant linkable repositories nr existing input now ?st1)) else ?st1)"
    using decideD[OF assms] by (simp only: Let_def)
  have "table_update ap_id later_approval (approvals ?st1) (approvals st')"
    unfolding st' using mint_update[of ?st1]
    by (cases "dc_decision input") (simp_all add: approval_update_refl)
  moreover have "table_update ap_id later_approval (approvals st) (approvals ?st1)" by (simp add: decided_update)
  ultimately show ?thesis by (rule approval_update_trans[rotated])
qed

lemma approval_step_shape:
  assumes "approval_step st st'" "distinct (map ap_id (approvals st))"
  shows "table_step ap_id later_approval (approvals st) (approvals st')"
  using assms(1)
proof cases
  case (gated world lc input now)
  then show ?thesis using gate_step by simp
next
  case (decided existing linkable repositories nr input now r)
  then show ?thesis using decide_update unfolding table_step_def by blast
next
  case (timed_out a row now)
  then show ?thesis using timeout_update[OF timed_out(2,3) assms(2)] by (simp add: table_step_def)
qed (simp_all add: table_step_def backfill_update supersede_update approval_update_refl)

interpretation approvals: row_history approval_step approvals ap_id later_approval
proof
  show "later_approval a a" for a by (rule later_approval_refl)
  show "later_approval f g \<Longrightarrow> later_approval g h \<Longrightarrow> later_approval f h" for f g h by (rule later_approval_trans)
qed (blast dest: approval_step_shape table_step_row table_step_distinct)+

subsection \<open>What every row of the table says\<close>

text \<open>An effect some ceiling lets through: the effects outside are refused whatever is configured.\<close>

definition approvable :: "autonomy_effect \<Rightarrow> bool" where
  "approvable e \<longleftrightarrow> (\<exists>cap. harmless cap e)"

definition approval_ok :: "trust_grant list \<Rightarrow> approval_row \<Rightarrow> bool" where
  "approval_ok gs a \<longleftrightarrow>
     (\<forall>e \<in> set (ap_effects a). approvable e) \<and>
     ap_timeoutPolicy a = resolveTimeoutPolicy (ap_actionClass a) \<and>
     (is_open a \<longrightarrow> ap_decidedVia a = None) \<and>
     (ap_status a = Ap_pending \<longrightarrow> ap_timeoutPolicy a \<noteq> Park_and_escalate) \<and>
     (ap_status a = Ap_parked \<longrightarrow> ap_timeoutPolicy a = Park_and_escalate \<and> ap_timeoutAt a = None) \<and>
     (ap_status a = Ap_auto_approved \<longrightarrow> ap_timeoutPolicy a = Auto_approve) \<and>
     (ap_status a = Ap_approved \<longrightarrow> ap_decidedVia a = Some By_human \<or> ap_decidedVia a = Some By_grant) \<and>
     (ap_decidedVia a = Some By_grant \<longrightarrow> isAutonomyEligible (ap_actionClass a) \<and>
        (\<exists>g \<in> set gs. ap_grantId a = Some (tg_id g) \<and> tg_actionClass g = ap_actionClass a \<and>
           tg_repositoryId g = ap_repositoryId a))"

lemma approval_ok_later:
  assumes "approval_ok gs a" "later_approval a a'"
  shows "approval_ok gs a'"
proof -
  note l = later_approvalD[OF assms(2)]
  note same = ap_terms_sel[OF l(1)]
  show ?thesis
  proof (cases "is_open a")
    case False
    with l(2) ap_verdict_sel[of a' a] have v: "ap_status a' = ap_status a" "ap_decidedVia a' = ap_decidedVia a"
      "is_open a' \<longleftrightarrow> is_open a" by simp_all
    show ?thesis using assms(1) unfolding approval_ok_def same v .
  next
    case True
    with assms(1) have none: "ap_decidedVia a = None" by (simp add: approval_ok_def)
    have not_grant: "ap_decidedVia a' \<noteq> Some By_grant" using l(7) none by auto
    have "ap_decidedVia a' = None" if "is_open a'" using l(7) none that by simp
    moreover have "ap_timeoutPolicy a \<noteq> Park_and_escalate" if "ap_status a' = Ap_pending"
      using that True l(3) assms(1) by (auto simp: is_open_def approval_ok_def)
    moreover have "ap_timeoutPolicy a = Park_and_escalate \<and> ap_timeoutAt a = None" if "ap_status a' = Ap_parked"
      using that True l(4) assms(1) by (auto simp: is_open_def approval_ok_def)
    moreover have "ap_timeoutPolicy a = Auto_approve" if "ap_status a' = Ap_auto_approved" using l(5) that True by simp
    moreover have "ap_decidedVia a' = Some By_human" if "ap_status a' = Ap_approved" using l(6) that True by simp
    moreover have "\<forall>e \<in> set (ap_effects a). approvable e"
      "ap_timeoutPolicy a = resolveTimeoutPolicy (ap_actionClass a)"
      using assms(1) by (simp_all add: approval_ok_def)
    ultimately show ?thesis unfolding approval_ok_def same using not_grant by blast
  qed
qed

lemma approval_ok_grants:
  assumes "approval_ok gs a"
    "\<And>g. g \<in> set gs \<Longrightarrow> \<exists>g' \<in> set gs'. tg_id g' = tg_id g \<and> tg_actionClass g' = tg_actionClass g \<and>
       tg_repositoryId g' = tg_repositoryId g"
  shows "approval_ok gs' a"
  using assms unfolding approval_ok_def by metis

lemma update_ok:
  assumes "table_update ap_id later_approval rows rows'" "\<forall>a \<in> set rows. approval_ok gs a"
  shows "\<forall>a \<in> set rows'. approval_ok gs a"
  using table_update_row_back[OF assms(1)] assms(2) approval_ok_later by blast

lemma link_keeps [simp]:
  "grants (snd (escalateParked w aid input d st)) = grants st"
  by (simp add: escalateParked_def Let_def split: option.splits)

lemma raise_request_ok:
  assumes "\<forall>a \<in> set (approvals st). approval_ok (grants st) a" "\<forall>e \<in> set (ri_effects input). approvable e"
    "policy = resolveTimeoutPolicy (ri_actionClass input)"
  shows "\<forall>a \<in> set (approvals (snd (raise_request world input policy noGrant now st))). approval_ok (grants st) a"
proof -
  let ?row = "(baseData (gw_newApproval world) input policy)
     \<lparr>ap_timeoutAt := timeoutAtFor policy now, ap_status := if policy = Park_and_escalate then Ap_parked else Ap_pending\<rparr>"
  have u: "table_update ap_id later_approval (approvals st @ [?row])
     (approvals (snd (raise_request world input policy noGrant now st)))"
    by (simp add: raise_request_def Let_def case_prod_beta notify_def escalateParked_def link_update
        approval_update_refl split: option.splits)
  have "approval_ok (grants st) ?row"
    using assms(2,3) by (simp add: approval_ok_def baseData_def is_open_def timeoutAtFor_def)
  with assms(1) have "\<forall>a \<in> set (approvals st @ [?row]). approval_ok (grants st) a" by simp
  with u show ?thesis by (rule update_ok)
qed

lemma permitted_approvable:
  "fst (enforce w cap request au) = Permitted \<Longrightarrow> e \<in> set (er_effects request) \<Longrightarrow> approvable e"
  by (auto simp: enforce_Permitted_iff list_all_iff approvable_def)

lemma gate_grants [simp]: "grants (snd (gate lc world input now st)) = grants st"
  by (simp add: gate_def raise_request_def notify_def Let_def case_prod_beta
      split: never_trustable_verdict.splits authorization_result.splits)

lemma gate_ok:
  assumes "\<forall>a \<in> set (approvals st). approval_ok (grants st) a"
  shows "\<forall>a \<in> set (approvals (snd (gate lc world input now st))). approval_ok (grants st) a"
proof (cases "fst (enforce (gw_auditWritable world) (gw_ceiling world) (enforcement_of input) (audit st))")
  case Permitted
  let ?au = "snd (enforce (gw_auditWritable world) (gw_ceiling world) (enforcement_of input) (audit st))"
  have e: "\<forall>e \<in> set (ri_effects input). approvable e"
    using permitted_approvable[OF Permitted] by (simp add: enforcement_of_def)
  show ?thesis
  proof (cases "authorize lc (ri_actionClass input) (ri_repositoryId input) (projectedCostFor input) now (grants st)")
    case (Authorized v)
    from authorized_covers[OF this] obtain g where g: "g \<in> set (grants st)" "tv_grant v = g"
      "tg_actionClass g = ri_actionClass input" "tg_repositoryId g = ri_repositoryId input"
      "isAutonomyEligible (ri_actionClass input)"
      by (auto simp: covers_def is_candidate_def toTrustGrantView_def Let_def)
    let ?row = "(baseData (gw_newApproval world) input (resolveTimeoutPolicy (ri_actionClass input)))
                    \<lparr>ap_timeoutAt := None, ap_status := Ap_approved, ap_decidedAt := Some now,
                     ap_decidedById := None, ap_decidedVia := Some By_grant,
                     ap_decisionNote := Some (Note_authorized (tg_id g) (ri_actionClass input) (tg_expiresAt g)),
                     ap_grantId := Some (tg_id g)\<rparr>"
    have "approval_ok (grants st) ?row"
      using e g(1,3-5) by (auto simp: approval_ok_def baseData_def is_open_def)
    then show ?thesis using assms g(2) Permitted Authorized by (simp add: gate_def Let_def case_prod_beta)
  next
    case (Denied reason detail)
    have "\<forall>a \<in> set (approvals (snd (raise_request world input (resolveTimeoutPolicy (ri_actionClass input)) detail now
         (st\<lparr>audit := ?au\<rparr>)))). approval_ok (grants (st\<lparr>audit := ?au\<rparr>)) a"
      by (rule raise_request_ok) (use assms e in simp_all)
    with Permitted Denied show ?thesis by (simp add: gate_def Let_def case_prod_beta)
  qed
qed (use assms in \<open>simp add: gate_def Let_def case_prod_beta\<close>)

lemma mint_grants:
  "g \<in> set (grants st) \<Longrightarrow> g \<in> set (grants (snd (snd (maybeMintGrant linkable repositories nr approval input now st))))"
  by (auto simp: maybeMintGrant_def dest: create_grant_rows split: option.splits sum.splits)

lemma step_grants:
  assumes "approval_step st st'" "distinct (map tg_id (grants st))" "g \<in> set (grants st)"
  shows "\<exists>g' \<in> set (grants st'). tg_id g' = tg_id g \<and> tg_actionClass g' = tg_actionClass g \<and>
     tg_repositoryId g' = tg_repositoryId g"
  using assms(1)
proof cases
  case (decided existing linkable repositories nr input now r)
  from decideD[OF decided(1)] assms(3) show ?thesis
    by (auto simp: Let_def intro!: bexI[of _ g] mint_grants split: if_splits)
next
  case (grants_moved gs)
  from table_step_row[OF grant_step_shape[OF grants_moved(2)] assms(3)] obtain g' where
    "g' \<in> set gs" "later_grant g g'" by blast
  then show ?thesis using later_grant_terms[of g g'] grants_moved(1) by auto
qed (use assms(3) in \<open>auto simp: backfill_one_def supersede_def Let_def case_prod_beta split: option.splits\<close>)

lemma step_ok:
  assumes "approval_step st st'" "distinct (map ap_id (approvals st))" "distinct (map tg_id (grants st))"
    "\<forall>a \<in> set (approvals st). approval_ok (grants st) a"
  shows "\<forall>a \<in> set (approvals st'). approval_ok (grants st') a"
proof -
  have "\<forall>a \<in> set (approvals st'). approval_ok (grants st) a"
    using assms(1)
  proof cases
    case (gated world lc input now)
    then show ?thesis using gate_ok[OF assms(4)] by simp
  next
    case (decided existing linkable repositories nr input now r)
    then show ?thesis using update_ok[OF decide_update assms(4)] by blast
  next
    case (timed_out a row now)
    then show ?thesis using update_ok[OF timeout_update[OF timed_out(2,3) assms(2)] assms(4)] by simp
  next
    case (backfilled raise_as linkable now row res)
    then show ?thesis using update_ok[OF backfill_update assms(4)] by simp
  next
    case (superseded aid reason now)
    then show ?thesis using update_ok[OF supersede_update assms(4)] by simp
  qed (use assms(4) in simp)
  then show ?thesis using approval_ok_grants step_grants[OF assms(1,3)] by blast
qed

lemma mint_grants_step:
  assumes "nr_id nr \<notin> tg_id ` set (grants st)"
  shows "table_step tg_id later_grant (grants st)
     (grants (snd (snd (maybeMintGrant linkable repositories nr approval input now st))))"
proof -
  have refl: "table_step tg_id later_grant (grants st) (grants st)"
    by (simp add: table_step_def table_update_refl later_grant_refl)
  show ?thesis
  proof (cases "create_grant repositories nr (minted_input approval input now) now (grants st)")
    case (Inr p)
    then obtain v gs where p: "create_grant repositories nr (minted_input approval input now) now (grants st) = Inr (v, gs)"
      by (cases p) auto
    have "table_step tg_id later_grant (grants st) gs"
      by (rule grant_step_shape[OF grant_step.created[OF p assms]])
    with refl p show ?thesis by (simp add: maybeMintGrant_def)
  qed (use refl in \<open>simp add: maybeMintGrant_def\<close>)
qed

lemma approval_step_grants:
  assumes "approval_step st st'"
  shows "table_step tg_id later_grant (grants st) (grants st')"
  using assms
proof cases
  case (decided existing linkable repositories nr input now r)
  let ?st1 = "st\<lparr>approvals := decided_rows (ap_id existing) input now (approvals st)\<rparr>"
  have "st' = (if dc_decision input = Approve
      then snd (snd (maybeMintGrant linkable repositories nr existing input now ?st1)) else ?st1)"
    using decideD[OF decided(1)] by (simp only: Let_def)
  then show ?thesis using mint_grants_step[of nr ?st1] decided(2)
    by (cases "dc_decision input") (simp_all add: table_step_def table_update_refl later_grant_refl)
next
  case (grants_moved gs)
  then show ?thesis by (simp add: grant_step_shape)
qed (auto simp: backfill_one_def supersede_def Let_def case_prod_beta table_step_def table_update_refl
       later_grant_refl split: option.splits)

lemma steps_ok:
  assumes "approval_step\<^sup>*\<^sup>* st st'" "distinct (map ap_id (approvals st))" "distinct (map tg_id (grants st))"
    "\<forall>a \<in> set (approvals st). approval_ok (grants st) a"
  shows "\<forall>a \<in> set (approvals st'). approval_ok (grants st') a"
proof -
  have "(\<forall>a \<in> set (approvals st'). approval_ok (grants st') a) \<and> distinct (map tg_id (grants st'))"
    using assms(1)
  proof (induction rule: rtranclp_induct)
    case (step y z)
    have "distinct (map ap_id (approvals y))" by (rule approvals.steps_distinct[OF step.hyps(1) assms(2)])
    with step show ?case using step_ok[OF step.hyps(2)] table_step_distinct[OF approval_step_grants[OF step.hyps(2)]]
      by blast
  qed (use assms in simp)
  then show ?thesis ..
qed

subsection \<open>The clock and the backfill\<close>

text \<open>The sweep and the backfill are runs of steps.\<close>

lemma sweep_due_steps:
  assumes "distinct (map ap_id (approvals st))" "\<forall>row \<in> set due. is_due now row \<and>
      (\<exists>a \<in> set (approvals st). later_approval row a)"
  shows "approval_step\<^sup>*\<^sup>* st (st\<lparr>approvals := snd (sweep_due now due (approvals st) res)\<rparr>)"
  using assms
proof (induction due arbitrary: st res)
  case (Cons row due)
  show ?case
  proof (cases "ap_timeoutPolicy row = Park_and_escalate")
    case True
    with Cons show ?thesis by simp
  next
    case False
    let ?st1 = "st\<lparr>approvals := snd (resolve_on_timeout now row (approvals st))\<rparr>"
    from Cons.prems obtain a where a: "a \<in> set (approvals st)" "later_approval row a" "is_due now row" by auto
    have s: "approval_step st ?st1" by (rule approval_step.timed_out[OF a False])
    have d: "distinct (map ap_id (approvals ?st1))" by (rule approvals.step_distinct[OF s Cons.prems(1)])
    have l: "\<forall>r \<in> set due. is_due now r \<and> (\<exists>b \<in> set (approvals ?st1). later_approval r b)"
    proof
      fix r assume "r \<in> set due"
      with Cons.prems(2) obtain b where "is_due now r" "b \<in> set (approvals st)" "later_approval r b" by auto
      moreover from approvals.step_later[OF s Cons.prems(1) this(2)] obtain c where
        "c \<in> set (approvals ?st1)" "later_approval b c" by blast
      ultimately show "is_due now r \<and> (\<exists>b \<in> set (approvals ?st1). later_approval r b)"
        using later_approval_trans by blast
    qed
    have "approval_step\<^sup>*\<^sup>* ?st1 (?st1\<lparr>approvals := snd (sweep_due now due (approvals ?st1) res')\<rparr>)" for res'
      by (rule Cons.IH[OF d l])
    then have "approval_step\<^sup>*\<^sup>* st (st\<lparr>approvals := snd (sweep_due now due (snd (resolve_on_timeout now row (approvals st))) res')\<rparr>)" for res'
      using s by (auto intro: converse_rtranclp_into_rtranclp)
    with False show ?thesis by (simp add: case_prod_beta Let_def)
  qed
qed simp

lemma due_approvals_mem: "row \<in> set (due_approvals now rows) \<Longrightarrow> row \<in> set rows \<and> is_due now row"
  by (auto simp: due_approvals_def dest: in_set_takeD)

lemma sweepTimeouts_steps:
  "distinct (map ap_id (approvals st)) \<Longrightarrow> approval_step\<^sup>*\<^sup>* st (snd (sweepTimeouts now st))"
  unfolding sweepTimeouts_def Let_def case_prod_beta snd_conv
  by (rule sweep_due_steps) (auto dest: due_approvals_mem intro: later_approval_refl)

lemma backfill_steps:
  "approval_step\<^sup>*\<^sup>* (snd acc) (snd (fold (backfill_one raise_as linkable now) rows acc))"
proof (induction rows arbitrary: acc)
  case (Cons row rows)
  have "approval_step (snd acc) (snd (backfill_one raise_as linkable now row (fst acc, snd acc)))"
    by (rule approval_step.backfilled)
  with Cons[of "backfill_one raise_as linkable now row acc"] show ?case
    by (auto intro: converse_rtranclp_into_rtranclp)
qed simp

text \<open>A sweep leaves nothing it took pending.\<close>

lemma resolve_not_pending:
  assumes "a \<in> set (snd (resolve_on_timeout now row rows))" "ap_status a = Ap_pending"
  shows "a \<in> set rows \<and> ap_id a \<noteq> ap_id row"
  using assms by (auto simp: resolve_on_timeout_def Let_def split: if_splits)

lemma sweep_due_not_pending:
  assumes "a \<in> set (snd (sweep_due now due rows res))" "ap_status a = Ap_pending"
  shows "a \<in> set rows \<and> (\<forall>row \<in> set due. ap_timeoutPolicy row \<noteq> Park_and_escalate \<longrightarrow> ap_id a \<noteq> ap_id row)"
  using assms
proof (induction due arbitrary: rows res)
  case (Cons row due)
  show ?case
  proof (cases "ap_timeoutPolicy row = Park_and_escalate")
    case True
    with Cons show ?thesis by auto
  next
    case False
    with Cons.prems(1) obtain res' where
      "a \<in> set (snd (sweep_due now due (snd (resolve_on_timeout now row rows)) res'))"
      by (auto simp: case_prod_beta Let_def split: if_splits)
    from Cons.IH[OF this Cons.prems(2)] resolve_not_pending[OF _ Cons.prems(2), of now row rows]
    show ?thesis by auto
  qed
qed simp

lemma due_approvals_all:
  "length (filter (is_due now) rows) \<le> SWEEP_BATCH_LIMIT \<Longrightarrow>
   set (due_approvals now rows) = {a \<in> set rows. is_due now a}"
  by (simp add: due_approvals_def)

lemma sweep_leaves_none_due:
  assumes "length (filter (is_due now) (approvals st)) \<le> SWEEP_BATCH_LIMIT"
    "\<forall>a \<in> set (approvals st). approval_ok (grants st) a"
    "a \<in> set (approvals (snd (sweepTimeouts now st)))"
  shows "\<not> is_due now a"
proof
  assume d: "is_due now a"
  then have "ap_status a = Ap_pending" by (simp add: is_due_def)
  with assms(3) sweep_due_not_pending[of a now "due_approvals now (approvals st)" "approvals st"]
  have "a \<in> set (approvals st)"
    "\<forall>row \<in> set (due_approvals now (approvals st)). ap_timeoutPolicy row \<noteq> Park_and_escalate \<longrightarrow> ap_id a \<noteq> ap_id row"
    by (auto simp: sweepTimeouts_def Let_def case_prod_beta)
  moreover from this(1) d have "a \<in> set (due_approvals now (approvals st))"
    using due_approvals_all[OF assms(1)] by simp
  moreover have "ap_timeoutPolicy a \<noteq> Park_and_escalate"
    using assms(2) \<open>a \<in> set (approvals st)\<close> \<open>ap_status a = Ap_pending\<close>
    unfolding approval_ok_def by blast
  ultimately show False by blast
qed
end
