(* ===== verification/Autonomy_Properties.thy ===== *)
theory Autonomy_Properties
  imports Approvals
begin

text \<open>
  What holds of unattended action: the grants that stand in for a human (\<open>trust\<close>), the effects no
  grant reaches (\<open>autonomy\<close>), and the gate that puts the two together with the approvals
  (\<open>approvals\<close>). Each property is followed by a witness at a concrete input.
\<close>

section \<open>Grants\<close>

definition sample_grant :: trust_grant where
  "sample_grant = (fresh_grant \<lparr>nr_id = ''g1'', nr_createdAt = 0\<rparr> ''re-dispatch'' ''r1'' ''u1'')
     \<lparr>tg_expiresAt := 1000, tg_budgetCeilingUsd := Some 25, tg_maxFailureRate := Some (1 / 2),
      tg_maxCostPerActionUsd := Some 5\<rparr>"

lemma grant_samples:
  "tg_id sample_grant = ''g1''" "tg_actionClass sample_grant = ''re-dispatch''"
  "tg_repositoryId sample_grant = ''r1''" "tg_expiresAt sample_grant = 1000"
  "tg_budgetCeilingUsd sample_grant = Some 25" "tg_spentUsd sample_grant = Some 0"
  "tg_actionsAuthorized sample_grant = 0" "tg_actionsFailed sample_grant = 0"
  "tg_maxCostPerActionUsd sample_grant = Some 5" "tg_minActions sample_grant = 3"
  "tg_status sample_grant = Grant_active" "tg_createdAt sample_grant = 0"
  by (simp_all add: sample_grant_def fresh_grant_def DEFAULT_GRANT_MIN_ACTIONS_BEFORE_AUTO_REVOKE_def)

text \<open>C23: whatever sequence of creations, charges, suspensions, revocations, expiries, prompts and renewals
  runs, from rows read at any earlier point: a grant keeps its class, its repository, its expiry, its
  ceiling and its thresholds, its spend never goes down, and once it has ended it stays ended, with the
  status, time, reason and detail it ended with. Nothing reactivates a grant.\<close>
theorem ended_grants_stay_ended:
  assumes "grant_step\<^sup>*\<^sup>* rows rows'" "distinct (map tg_id rows)"
    "g \<in> set rows" "g' \<in> set rows'" "tg_id g' = tg_id g"
  shows "tg_actionClass g' = tg_actionClass g \<and> tg_repositoryId g' = tg_repositoryId g \<and>
    tg_expiresAt g' = tg_expiresAt g \<and> tg_budgetCeilingUsd g' = tg_budgetCeilingUsd g \<and>
    tg_maxFailureRate g' = tg_maxFailureRate g \<and> tg_maxCostPerActionUsd g' = tg_maxCostPerActionUsd g \<and>
    (\<forall>x. tg_spentUsd g = Some x \<longrightarrow> (\<exists>y \<ge> x. tg_spentUsd g' = Some y)) \<and>
    (tg_status g \<noteq> Grant_active \<longrightarrow> tg_status g' = tg_status g \<and> tg_endedAt g' = tg_endedAt g \<and>
       tg_endReason g' = tg_endReason g \<and> tg_endDetail g' = tg_endDetail g)"
proof -
  have l: "later_grant g g'" using grants.row_under_key[OF assms] .
  then show ?thesis using later_grant_terms[OF l] by (simp add: later_grant_def grant_end_def)
qed

lemma ended_grants_stay_ended_witness:
  "tg_status (charge \<lparr>us_costUsd = Some 3, us_failed = False\<rparr> (sample_grant\<lparr>tg_status := Grant_revoked\<rparr>)) =
     Grant_revoked"
proof -
  let ?g = "sample_grant\<lparr>tg_status := Grant_revoked\<rparr>"
  have "grant_step [?g] (snd (update_many (\<lambda>g. tg_id g = ''g1'')
      (charge \<lparr>us_costUsd = Some 3, us_failed = False\<rparr>) [?g]))"
    by (rule grant_step.charged) simp
  then have "grant_step\<^sup>*\<^sup>* [?g] [charge \<lparr>us_costUsd = Some 3, us_failed = False\<rparr> ?g]"
    by (simp add: grant_samples r_into_rtranclp)
  from ended_grants_stay_ended[OF this, of ?g "charge \<lparr>us_costUsd = Some 3, us_failed = False\<rparr> ?g"]
  show ?thesis by (simp add: grant_samples)
qed

lemma authorized_exactly_when:
  assumes "collation lc"
  shows "(\<exists>v. authorize lc cls repo projected now rows = Authorized v) \<longleftrightarrow>
    isAutonomyEligible cls \<and>
    (\<exists>cost \<ge> 0. projected = Some cost \<and>
       (\<exists>g \<in> set rows. tg_actionClass g = cls \<and> tg_repositoryId g = repo \<and>
          tg_status g = Grant_active \<and> now < tg_expiresAt g \<and>
          (\<exists>cap spent. tg_budgetCeilingUsd g = Some cap \<and> tg_spentUsd g = Some spent \<and> spent + cost \<le> cap)))"
  using authorize_iff_covers[OF assms] unfolding covers_def is_candidate_def by (simp add: conj_assoc)

lemma authorized_exactly_when_witness:
  "\<exists>v. authorize code_unit_compare ''re-dispatch'' ''r1'' (Some 4) 5 [sample_grant] = Authorized v"
  using authorized_exactly_when[OF code_units.collation_axioms, of "''re-dispatch''" "''r1''" "Some 4" 5 "[sample_grant]"]
  by (simp add: grant_samples isAutonomyEligible_def getActionClass_def ACTION_CLASSES_def)

text \<open>A grant within its ceiling.\<close>

definition within_ceiling :: "trust_grant \<Rightarrow> bool" where
  "within_ceiling g \<longleftrightarrow> num_cmp (\<le>) (tg_spentUsd g) (tg_budgetCeilingUsd g)"

lemma recordUsage_rows:
  assumes "recordUsage gid u now rows = Inr (r, rows')" "distinct (map tg_id rows)" "g' \<in> set rows'"
  obtains g where "g \<in> set rows" "tg_id g = tg_id g'"
    "tg_spentUsd g' = (if tg_id g = gid then num_op (+) (tg_spentUsd g) (us_costUsd u) else tg_spentUsd g)"
    "tg_budgetCeilingUsd g' = tg_budgetCeilingUsd g" "tg_expiresAt g' = tg_expiresAt g"
    "tg_id g = gid \<Longrightarrow> evaluateAutoRevoke (charge u g) now \<noteq> None \<Longrightarrow> tg_status g' \<noteq> Grant_active"
proof -
  from assms(1) obtain b where b: "find_grant gid rows = Some b"
    by (auto simp: recordUsage_def split: if_splits option.splits)
  let ?rows1 = "map (\<lambda>g. if tg_id g = gid then charge u g else g) rows"
  show ?thesis
  proof (cases "evaluateAutoRevoke (charge u b) now")
    case None
    with assms(1) b have "rows' = ?rows1" by (auto simp: recordUsage_def Let_def split: if_splits)
    with assms(3) obtain g where g: "g \<in> set rows" "g' = (if tg_id g = gid then charge u g else g)" by auto
    have "g = b" if "tg_id g = gid"
      using that b find_grant_unique[OF assms(2) g(1)] by simp
    with None g show ?thesis by (intro that[of g]) (auto simp: charge_def)
  next
    case (Some av)
    with assms(1) b have "rows' = snd (suspend gid (av_reason av) (av_detail av) now ?rows1)"
      by (auto simp: recordUsage_def Let_def split: if_splits prod.splits)
    with assms(3) obtain g where "g \<in> set rows"
      "g' = (let h = (if tg_id g = gid then charge u g else g) in
         if active_grant gid h then h\<lparr>tg_status := Grant_suspended, tg_endedAt := Some now,
           tg_endReason := Some (av_reason av), tg_endDetail := Some (av_detail av)\<rparr> else h)"
      by (auto simp: ends_snd Let_def)
    then show ?thesis by (intro that[of g]) (auto simp: charge_def active_grant_def Let_def)
  qed
qed

text \<open>when an action is authorized for a projected cost and then charged at most that, every grant that
  was within its budget ceiling still is, and the one charged is no longer active if the charge has
  used the ceiling up before its expiry. (Two authorizations before the first charge are outside:
  the check and the charge are separate calls.)\<close>
theorem charge_keeps_ceiling:
  assumes "authorize lc cls repo (Some projected) now rows = Authorized v"
    "recordUsage (tg_id (tv_grant v)) \<lparr>us_costUsd = Some cost, us_failed = failed\<rparr> end rows = Inr (r, rows')"
    "cost \<le> projected" "distinct (map tg_id rows)" "list_all within_ceiling rows"
  shows "list_all within_ceiling rows' \<and>
    (\<forall>g \<in> set rows'. \<not> (tg_id g = tg_id (tv_grant v) \<and> tg_spentUsd g = tg_budgetCeilingUsd g \<and>
        end < tg_expiresAt g \<and> tg_status g = Grant_active))"
proof -
  obtain b where b: "b \<in> set rows" "covers cls repo projected now b" "tg_id (tv_grant v) = tg_id b"
    using authorized_covers[OF assms(1)] by (auto simp: toTrustGrantView_def Let_def)
  have "within_ceiling g' \<and> \<not> (tg_id g' = tg_id (tv_grant v) \<and> tg_spentUsd g' = tg_budgetCeilingUsd g' \<and>
        end < tg_expiresAt g' \<and> tg_status g' = Grant_active)" if m: "g' \<in> set rows'" for g'
  proof -
    obtain g where g: "g \<in> set rows" "tg_id g = tg_id g'"
      "tg_spentUsd g' = (if tg_id g = tg_id b then num_op (+) (tg_spentUsd g) (Some cost) else tg_spentUsd g)"
      "tg_budgetCeilingUsd g' = tg_budgetCeilingUsd g" "tg_expiresAt g' = tg_expiresAt g"
      "tg_id g = tg_id b \<Longrightarrow> evaluateAutoRevoke (charge \<lparr>us_costUsd = Some cost, us_failed = failed\<rparr> g) end \<noteq> None
         \<Longrightarrow> tg_status g' \<noteq> Grant_active"
      by (rule recordUsage_rows[OF assms(2,4) m, unfolded b(3) usage_record.select_convs]) (rule that)
    have w: "within_ceiling g" using g(1) assms(5) by (simp add: list_all_iff)
    have e: "g = b" if "tg_id g = tg_id b" using distinct_map_eqD[OF assms(4) g(1) b(1) that] .
    show ?thesis
    proof (cases "tg_id g = tg_id b")
      case True
      with e b(2) g(3,4) assms(3) have "within_ceiling g'"
        by (auto simp: within_ceiling_def covers_def num_cmp_iff)
      moreover have "evaluateAutoRevoke (charge \<lparr>us_costUsd = Some cost, us_failed = failed\<rparr> g) end \<noteq> None"
        if "tg_spentUsd g' = tg_budgetCeilingUsd g'" "end < tg_expiresAt g'"
        using that g(3-5) True e b(2)
        by (auto simp: evaluateAutoRevoke_def charge_def covers_def num_cmp_iff)
      ultimately show ?thesis using g(6)[OF True] by blast
    next
      case False
      with g(2-4) w b(3) show ?thesis by (simp add: within_ceiling_def)
    qed
  qed
  then show ?thesis by (simp add: list_all_iff)
qed

lemma charge_keeps_ceiling_witness:
  "\<exists>r rows'. recordUsage ''g1'' \<lparr>us_costUsd = Some 25, us_failed = False\<rparr> 6 [sample_grant] = Inr (r, rows') \<and>
     list_all within_ceiling rows'"
proof -
  obtain v where v: "authorize code_unit_compare ''re-dispatch'' ''r1'' (Some 25) 5 [sample_grant] = Authorized v"
      "tg_id (tv_grant v) = ''g1''"
    by (simp add: authorize_def grant_samples isAutonomyEligible_def getActionClass_def ACTION_CLASSES_def
        is_candidate_def toTrustGrantView_def Let_def)
  obtain r rows' where r: "recordUsage ''g1'' \<lparr>us_costUsd = Some 25, us_failed = False\<rparr> 6 [sample_grant] = Inr (r, rows')"
    by (simp add: recordUsage_def find_grant_def grant_samples evaluateAutoRevoke_def charge_def Let_def
        suspend_def update_many_def)
  show ?thesis
    using charge_keeps_ceiling[OF v(1), unfolded v(2), OF r] r
    by (auto simp: within_ceiling_def grant_samples)
qed

text \<open>A renewal.\<close>

lemma renewD:
  assumes "renew gid actor nt nr now rows = Inr (v, w, rows')"
  obtains old where "find_grant gid rows = Some old" "tg_id old = gid" "old \<in> set rows"
    "isAutonomyEligible (tg_actionClass old)" "tg_status old = Grant_active" "now < tg_expiresAt old"
    "v = toTrustGrantView (successor old actor nt nr now) now"
    "rows' = map (\<lambda>g. if active_grant (tg_id old) g
       then end_as_renewed old (successor old actor nt nr now) actor now g else g)
      (rows @ [successor old actor nt nr now])"
proof -
  from assms obtain old where o: "find_grant gid rows = Some old"
    "renew_from old actor nt nr now rows = Inr (v, w, rows')"
    by (auto simp: renew_def split: option.splits)
  moreover have "old \<in> set rows" "tg_id old = gid" using find_grantD[OF o(1)] by auto
  moreover have "isAutonomyEligible (tg_actionClass old)" "tg_status old = Grant_active" "now < tg_expiresAt old"
    "v = toTrustGrantView (successor old actor nt nr now) now"
    using o(2) by (auto simp: renew_from_def Let_def update_many_def split: if_splits)
  ultimately show ?thesis using renew_from_rows[OF o(2)] by (intro that) 
qed

definition live :: "trust_grant \<Rightarrow> bool" where
  "live g \<longleftrightarrow> tg_status g = Grant_active"

lemma narrower_le: "narrower a d \<le> d" "a = Some x \<Longrightarrow> narrower a d \<le> x"
  by (auto simp: narrower_def split: option.splits)

lemma count_after_end:
  assumes "distinct (map tg_id rows)" "old \<in> set rows" "live old" "\<And>g. \<not> live (f g)"
  shows "Suc (length (filter live (map (\<lambda>g. if active_grant (tg_id old) g then f g else g) rows))) =
     length (filter live rows)"
proof -
  from assms(2) obtain us vs where rows: "rows = us @ old # vs" by (meson split_list)
  with assms(1) have "tg_id old \<notin> tg_id ` (set us \<union> set vs)" by auto
  then have "tg_id g \<noteq> tg_id old" if "g \<in> set us \<union> set vs" for g using that by (metis image_eqI)
  then have "\<And>g. g \<in> set us \<union> set vs \<Longrightarrow> \<not> active_grant (tg_id old) g" by (auto simp: active_grant_def)
  then have "map (\<lambda>g. if active_grant (tg_id old) g then f g else g) us = us"
    "map (\<lambda>g. if active_grant (tg_id old) g then f g else g) vs = vs"
    by (simp_all add: map_idI)
  moreover have "active_grant (tg_id old) old" using assms(3) by (simp add: live_def active_grant_def)
  ultimately have "map (\<lambda>g. if active_grant (tg_id old) g then f g else g) rows = us @ f old # vs"
    by (simp add: rows)
  then show ?thesis using assms(3,4) by (simp add: rows)
qed

lemma successor_terms:
  fixes old actor nt nr now
  defines "new \<equiv> successor old actor nt nr now"
  shows "tg_actionClass new = tg_actionClass old" "tg_repositoryId new = tg_repositoryId old"
    "tg_expiresAt new - now \<le> 14 * 24 * 60 * 60 * 1000"
    "tg_createdAt old < tg_expiresAt old \<longrightarrow> tg_expiresAt new - now \<le> tg_expiresAt old - tg_createdAt old"
    "\<forall>x. tg_budgetCeilingUsd old = Some x \<longrightarrow> (\<exists>y. tg_budgetCeilingUsd new = Some y \<and> y \<le> x \<and> y \<le> 25)"
    "\<forall>x. tg_maxFailureRate old = Some x \<longrightarrow> (\<exists>y \<le> x. tg_maxFailureRate new = Some y)"
    "\<forall>x. tg_maxCostPerActionUsd old = Some x \<longrightarrow> (\<exists>y \<le> x. tg_maxCostPerActionUsd new = Some y)"
    "tg_minActions new \<le> tg_minActions old"
  by (simp_all add: new_def successor_def fresh_grant_def narrowerOf_def defaultGrantAttributes_def Let_def
      narrower_def DEFAULT_GRANT_EXPIRY_DAYS_def DEFAULT_GRANT_BUDGET_CEILING_USD_def)

text \<open>C27: a renewal that succeeds ends an active, unexpired grant and creates one of the same class and
  repository, which lives no longer than the old one did nor than 14 days, whose budget ceiling is at
  most the old one and 25 dollars, and whose failure rate, cost and evidence thresholds are at most
  the old ones. The number of active grants is what it was, and the old one is ended as superseded.\<close>
theorem renewal_never_widens:
  assumes "renew gid actor nt nr now rows = Inr (v, w, rows')"
    "distinct (map tg_id rows)" "nr_id nr \<notin> tg_id ` set rows"
  shows "\<exists>old \<in> set rows. \<exists>new \<in> set rows'. tg_id old = gid \<and> new = tv_grant v \<and> 
    tg_status old = Grant_active \<and> now < tg_expiresAt old \<and>
    tg_actionClass new = tg_actionClass old \<and> tg_repositoryId new = tg_repositoryId old \<and>
    tg_expiresAt new - now \<le> 14 * 24 * 60 * 60 * 1000 \<and>
    (tg_createdAt old < tg_expiresAt old \<longrightarrow> tg_expiresAt new - now \<le> tg_expiresAt old - tg_createdAt old) \<and>
    (\<forall>x. tg_budgetCeilingUsd old = Some x \<longrightarrow> (\<exists>y. tg_budgetCeilingUsd new = Some y \<and> y \<le> x \<and> y \<le> 25)) \<and>
    (\<forall>x. tg_maxFailureRate old = Some x \<longrightarrow> (\<exists>y \<le> x. tg_maxFailureRate new = Some y)) \<and>
    (\<forall>x. tg_maxCostPerActionUsd old = Some x \<longrightarrow> (\<exists>y \<le> x. tg_maxCostPerActionUsd new = Some y)) \<and>
    tg_minActions new \<le> tg_minActions old \<and>
    length (filter (\<lambda>g. tg_status g = Grant_active) rows') = length (filter (\<lambda>g. tg_status g = Grant_active) rows) \<and>
    (\<forall>g \<in> set rows'. tg_id g = gid \<longrightarrow> tg_status g = Grant_revoked \<and> tg_endReason g = Some Superseded_by_renewal)"
proof -
  obtain old where o: "tg_id old = gid" "old \<in> set rows" "tg_status old = Grant_active" "now < tg_expiresAt old"
    "v = toTrustGrantView (successor old actor nt nr now) now"
    "rows' = map (\<lambda>g. if active_grant (tg_id old) g
       then end_as_renewed old (successor old actor nt nr now) actor now g else g)
      (rows @ [successor old actor nt nr now])"
    by (rule renewD[OF assms(1)], rule that; assumption)
  let ?new = "successor old actor nt nr now"
  let ?f = "end_as_renewed old ?new actor now"
  have fresh: "nr_id nr \<noteq> gid" using assms(3) o(1,2) by auto
  have inactive: "\<not> active_grant (tg_id old) ?new" using fresh o(1) by (simp add: active_grant_def)
  have new: "?new \<in> set rows'" "?new = tv_grant v"
    using inactive by (simp_all add: o(5,6) toTrustGrantView_def Let_def)
  have "length (filter live rows') = length (filter live rows)"
  proof -
    have "live ?new" by (simp add: live_def successor_def fresh_grant_def Let_def)
    moreover have "live old" "\<And>g. \<not> live (?f g)" using o(3) by (simp_all add: live_def end_as_renewed_def)
    ultimately show ?thesis
      using count_after_end[OF assms(2) o(2), of ?f] inactive by (simp add: o(6))
  qed
  moreover have "\<forall>g \<in> set rows'. tg_id g = gid \<longrightarrow> tg_status g = Grant_revoked \<and> tg_endReason g = Some Superseded_by_renewal"
  proof (intro ballI impI)
    fix g assume m: "g \<in> set rows'" "tg_id g = gid"
    from m(1) obtain h where h: "g = (if active_grant (tg_id old) h then ?f h else h)" "h \<in> set (rows @ [?new])"
      unfolding o(6) set_map by (rule imageE)
    from h(1) m(2) have id: "tg_id h = gid" by (cases "active_grant (tg_id old) h") simp_all
    with fresh h(2) have "h \<in> set rows" by auto
    then have "h = old" using distinct_map_eqD[OF assms(2) _ o(2)] o(1) id by simp
    with h(1) o(1,3) show "tg_status g = Grant_revoked \<and> tg_endReason g = Some Superseded_by_renewal"
      by (simp add: active_grant_def end_as_renewed_def)
  qed
  ultimately show ?thesis using o(1-4) new(2) successor_terms[of old actor nt nr now]
    by (intro bexI[OF _ o(2)] bexI[OF _ new(1)] conjI) (simp_all only: live_def[abs_def])
qed

lemma renewal_never_widens_witness:
  "\<exists>new v w rows'. renew ''g1'' ''u2'' None \<lparr>nr_id = ''g2'', nr_createdAt = 7\<rparr> 7 [sample_grant] = Inr (v, w, rows') \<and>
     tg_expiresAt new \<le> 1007 \<and> new \<in> set rows' \<and> tg_id new = ''g2''"
proof -
  let ?nr = "\<lparr>nr_id = ''g2'', nr_createdAt = 7\<rparr>"
  obtain v w rows' where r: "renew ''g1'' ''u2'' None ?nr 7 [sample_grant] = Inr (v, w, rows')"
    "tg_id (tv_grant v) = ''g2''"
    by (simp add: renew_def renew_from_def find_grant_def grant_samples isAutonomyEligible_def getActionClass_def
        ACTION_CLASSES_def Let_def update_many_def active_grant_def toTrustGrantView_def)
  from renewal_never_widens[OF r(1)] r show ?thesis by (fastforce simp: grant_samples)
qed

text \<open>The cost threshold is an average over the evidence, so the first action charged to a grant that
  asks for more than one does not suspend it, whatever it cost below the ceiling.\<close>
theorem one_costly_action_is_not_enough:
  assumes "tg_spentUsd g = Some 0" "tg_actionsAuthorized g = 0" "1 < tg_minActions g"
    "tg_budgetCeilingUsd g = Some cap" "0 \<le> cost" "cost < cap" "distinct (map tg_id rows)" "g \<in> set rows"
  shows "\<exists>r rows'. recordUsage (tg_id g) \<lparr>us_costUsd = Some cost, us_failed = failed\<rparr> now rows = Inr (r, rows') \<and>
    ur_suspended r = False \<and> ur_reason r = None"
proof -
  have "evaluateAutoRevoke (charge \<lparr>us_costUsd = Some cost, us_failed = failed\<rparr> g) now = None"
    using assms(1-6) by (simp add: evaluateAutoRevoke_def charge_def Let_def)
  then show ?thesis
    using assms(5) find_grant_unique[OF assms(7,8)] by (simp add: recordUsage_def Let_def)
qed

lemma one_costly_action_is_not_enough_witness:
  "\<exists>r rows'. recordUsage ''g1'' \<lparr>us_costUsd = Some 24, us_failed = False\<rparr> 5 [sample_grant] = Inr (r, rows') \<and>
     ur_reason r = None \<and> tg_maxCostPerActionUsd sample_grant = Some 5"
  using one_costly_action_is_not_enough[of sample_grant 25 24 "[sample_grant]" False 5]
  unfolding grant_samples by simp blast

section \<open>What no grant permits\<close>

lemma permitted_exactly:
  "(fst (enforce writable cap request rows) = Permitted \<longleftrightarrow>
      (\<forall>effect \<in> set (er_effects request). harmless cap effect)) \<and>
   (\<forall>refusals. fst (enforce writable cap request rows) = Not_permitted refusals \<longrightarrow>
      nt_effect ` set refusals = {effect \<in> set (er_effects request). \<not> harmless cap effect})"
  using check_effects[of "er_effects request" cap]
  by (auto simp: enforce_Permitted_iff list_all_iff) (auto simp: enforce_def Let_def split: if_splits)

lemma permitted_exactly_witness:
  "fst (enforce True \<lparr>limitUsd = Some 5, windowDays = 30, malformed = None\<rparr>
      \<lparr>er_actionClass = ''issue-shaping'', er_effects = [File_write ''r'' ''./docs//a.md'', Spend (Some 5)],
       er_proposalId = None, er_grantId = None, er_targetRef = None, er_actorUserId = None\<rparr> []) = Permitted \<and>
   fst (enforce True \<lparr>limitUsd = Some 5, windowDays = 30, malformed = None\<rparr>
      \<lparr>er_actionClass = ''issue-shaping'', er_effects = [File_write ''r'' ''./scripts//./a.mjs''],
       er_proposalId = None, er_grantId = None, er_targetRef = None, er_actorUserId = None\<rparr> []) \<noteq> Permitted"
proof -
  have "path_segments ''./docs//a.md'' = [''docs'', ''a.md'']" "\<not> str_includes ''..'' (unify_slashes ''./docs//a.md'')"
    "\<not> env_name ''a.md''" "protected_place (path_segments ''./scripts//./a.mjs'')"
    by code_simp+
  then show ?thesis
    using permitted_exactly[of True "\<lparr>limitUsd = Some 5, windowDays = 30, malformed = None\<rparr>"]
    by (simp add: protected_place_def)
qed

text \<open>C22: an input with a forbidden effect (a force push, a write to a protected branch or place, a
  credential, a quarantine release, a grant, a budget setting, a spend the ceiling does not cover) is
  refused at the gate whatever grants stand; every such effect is named in the refusals, no request is
  recorded, no grant changes, and the audit row, when it can be written, holds exactly the refused
  effects.\<close>
theorem forbidden_effects_are_absolute:
  assumes "e \<in> set (ri_effects input)" "\<not> harmless (gw_ceiling world) e"
  shows "\<exists>refusals. gate lc world input now st = (Gate_refused refusals, snd (gate lc world input now st)) \<and>
    nt_effect ` set refusals = {e \<in> set (ri_effects input). \<not> harmless (gw_ceiling world) e} \<and>
    approvals (snd (gate lc world input now st)) = approvals st \<and>
    grants (snd (gate lc world input now st)) = grants st \<and>
    (gw_auditWritable world \<longrightarrow> (\<exists>row. audit (snd (gate lc world input now st)) = audit st @ [row] \<and>
       ra_effects row = map nt_effect refusals))"
proof -
  let ?rs = "checkNeverTrustable (ri_effects input) (gw_ceiling world)"
  have "?rs \<noteq> []" using assms by (auto simp: check_Nil list_all_iff)
  then have "enforce (gw_auditWritable world) (gw_ceiling world) (enforcement_of input) (audit st) =
      (Not_permitted ?rs, record_refusal (gw_auditWritable world) (enforcement_of input) ?rs (audit st))"
    by (simp add: enforce_def enforcement_of_def Let_def)
  then have "gate lc world input now st = (Gate_refused ?rs,
      st\<lparr>audit := record_refusal (gw_auditWritable world) (enforcement_of input) ?rs (audit st)\<rparr>)"
    by (simp only: gate_def Let_def prod.case never_trustable_verdict.case)
  then show ?thesis
    using check_effects[of "ri_effects input" "gw_ceiling world"]
    by (intro exI[of _ ?rs]) (simp add: record_refusal_def audit_of_def)
qed

definition sample_world :: gate_world where
  "sample_world = \<lparr>gw_auditWritable = True, gw_ceiling = \<lparr>limitUsd = Some 50, windowDays = 30, malformed = None\<rparr>,
     gw_newApproval = \<lparr>nr_id = ''a1'', nr_createdAt = 5\<rparr>, gw_escalation = Some ''e1'',
     gw_linkWritable = True, gw_notifies = True\<rparr>"

definition sample_raise :: "action_class_id \<Rightarrow> action_effect_params \<Rightarrow> raise_input" where
  "sample_raise cls params = \<lparr>ri_actionClass = class_name cls, ri_repositoryId = ''r1'',
     ri_effects = effectsFor cls params, ri_summary = ''s'', ri_reasoning = ''why'', ri_blastRadius = ''small'',
     ri_estimatedCostUsd = aep_estimatedCostUsd params, ri_proposalId = None, ri_targetKind = None,
     ri_targetRef = None\<rparr>"

definition sample_params :: "js_number option \<Rightarrow> action_effect_params" where
  "sample_params cost = \<lparr>aep_repository = Some ''r1'', aep_workOrder = Some ''w1'', aep_issueRef = None,
     aep_childCount = None, aep_estimatedCostUsd = cost, aep_direction = Some Release\<rparr>"

definition sample_approvals :: approvals_state where
  "sample_approvals = \<lparr>approvals = [], grants = [sample_grant], audit = [], escalations = [], notices = []\<rparr>"

lemmas approval_samples = sample_world_def sample_raise_def sample_params_def sample_approvals_def UNKNOWN_def

lemma forbidden_effects_are_absolute_witness:
  "approvals (snd (gate code_unit_compare sample_world
      (sample_raise Quarantine_decision (sample_params None)) 5 sample_approvals)) = []"
  using forbidden_effects_are_absolute[of "Quarantine_clear ''w1''"
      "sample_raise Quarantine_decision (sample_params None)" sample_world code_unit_compare 5 sample_approvals]
  by (auto simp: approval_samples)

text \<open>C25: the gate lets an action run with nobody asked exactly when every effect of it is harmless under
  the ceiling, its class is eligible, its cost is known (an unknown one counts as zero only for a class
  that spends nothing), and some active, unexpired grant for the class in the repository has the room.\<close>
theorem runs_unattended_exactly_when:
  assumes "collation lc"
  shows "(\<exists>g a. fst (gate lc world input now st) = Gate_authorized g a) \<longleftrightarrow>
    (\<forall>e \<in> set (ri_effects input). harmless (gw_ceiling world) e) \<and>
    isAutonomyEligible (ri_actionClass input) \<and>
    (\<exists>cost \<ge> 0. (ri_estimatedCostUsd input = Some (Some cost) \<or>
        (ri_estimatedCostUsd input = None \<and> \<not> spendsMoney (ri_actionClass input) \<and> cost = 0)) \<and>
      (\<exists>g \<in> set (grants st). covers (ri_actionClass input) (ri_repositoryId input) cost now g))"
proof -
  have perm: "fst (enforce w cap (enforcement_of input) au) = Permitted \<longleftrightarrow>
      (\<forall>e \<in> set (ri_effects input). harmless cap e)" for w cap au
    by (simp add: enforce_Permitted_iff enforcement_of_def list_all_iff)
  have "(\<exists>g a. fst (gate lc world input now st) = Gate_authorized g a) \<longleftrightarrow>
    (\<forall>e \<in> set (ri_effects input). harmless (gw_ceiling world) e) \<and>
    (\<exists>v. authorize lc (ri_actionClass input) (ri_repositoryId input) (projectedCostFor input) now (grants st) = Authorized v)"
    unfolding gate_def Let_def case_prod_beta perm[symmetric, of _ "gw_auditWritable world" "audit st"]
    by (auto simp: raise_request_def Let_def case_prod_beta
        split: never_trustable_verdict.splits authorization_result.splits)
  moreover note authorize_iff_covers[OF assms, of "ri_actionClass input" "ri_repositoryId input" "projectedCostFor input" now "grants st"]
  moreover have "projectedCostFor input = Some cost \<longleftrightarrow> ri_estimatedCostUsd input = Some (Some cost) \<or>
        (ri_estimatedCostUsd input = None \<and> \<not> spendsMoney (ri_actionClass input) \<and> cost = 0)" for cost
    by (auto simp: projectedCostFor_def split: option.splits)
  ultimately show ?thesis by simp
qed

lemma runs_unattended_exactly_when_witness:
  "\<exists>g a. fst (gate code_unit_compare sample_world (sample_raise Re_dispatch (sample_params (Some (Some 4)))) 5
     sample_approvals) = Gate_authorized g a"
proof -
  have "covers ''re-dispatch'' ''r1'' 4 5 sample_grant"
    by (simp add: covers_def is_candidate_def grant_samples)
  then show ?thesis
    by (subst runs_unattended_exactly_when[OF code_units.collation_axioms])
       (auto simp: approval_samples spend_effect_def isAutonomyEligible_def getActionClass_def ACTION_CLASSES_def)
qed

lemma auto_approve_classes:
  "resolveTimeoutPolicy cls = Auto_approve \<Longrightarrow> cls \<in> class_name ` {Run_diagnosis, Spec_quality_feedback, Daily_brief}"
  by (auto simp: resolveTimeoutPolicy_def getActionClass_def ACTION_CLASSES_def split: if_splits)

text \<open>C24: over any interleaving of gating, deciding, sweeping, backfilling, superseding and grant
  operations, no request in the table carries an effect that no ceiling would let through, a request
  answered yes by silence is of one of the three classes that are reversible and spend nothing, and an
  approved one was approved by a human or names a grant on record for its class and repository, the
  class being eligible.\<close>
theorem approvals_keep_their_promises:
  assumes "approval_step\<^sup>*\<^sup>* st st'" "distinct (map ap_id (approvals st))" "distinct (map tg_id (grants st))"
    "\<forall>a \<in> set (approvals st). approval_ok (grants st) a" "a \<in> set (approvals st')"
  shows "(\<forall>e \<in> set (ap_effects a). \<exists>cap. harmless cap e) \<and>
    (ap_status a = Ap_auto_approved \<longrightarrow>
       ap_actionClass a \<in> class_name ` {Run_diagnosis, Spec_quality_feedback, Daily_brief}) \<and>
    (ap_status a = Ap_approved \<longrightarrow> ap_decidedVia a = Some By_human \<or>
       (isAutonomyEligible (ap_actionClass a) \<and>
        (\<exists>g \<in> set (grants st'). ap_grantId a = Some (tg_id g) \<and> tg_actionClass g = ap_actionClass a \<and>
           tg_repositoryId g = ap_repositoryId a)))"
proof -
  have ok: "approval_ok (grants st') a" using steps_ok[OF assms(1-4)] assms(5) by blast
  have "ap_actionClass a \<in> class_name ` {Run_diagnosis, Spec_quality_feedback, Daily_brief}"
    if "ap_status a = Ap_auto_approved"
    using ok that by (intro auto_approve_classes) (auto simp: approval_ok_def)
  with ok show ?thesis unfolding approval_ok_def approvable_def by blast
qed

lemma approvals_keep_their_promises_witness:
  "\<exists>a. approvals (snd (sweepTimeouts 14400005 (snd (gate code_unit_compare sample_world
       (sample_raise Daily_brief (sample_params None)) 5 sample_approvals)))) = [a] \<and>
     ap_status a = Ap_auto_approved \<and> ap_actionClass a \<in> class_name ` {Run_diagnosis, Spec_quality_feedback, Daily_brief}"
proof -
  let ?st1 = "snd (gate code_unit_compare sample_world (sample_raise Daily_brief (sample_params None)) 5 sample_approvals)"
  let ?st2 = "snd (sweepTimeouts 14400005 ?st1)"
  have s1: "approval_step sample_approvals ?st1" by (rule approval_step.gated) (simp add: approval_samples)
  have "distinct (map ap_id (approvals ?st1))"
    by (rule approvals.step_distinct[OF s1]) (simp add: approval_samples)
  then have steps: "approval_step\<^sup>*\<^sup>* sample_approvals ?st2"
    using s1 sweepTimeouts_steps by (meson converse_rtranclp_into_rtranclp)
  obtain a where a: "approvals ?st2 = [a]" "ap_status a = Ap_auto_approved"
  proof -
    have "length (approvals ?st2) = 1 \<and> ap_status (hd (approvals ?st2)) = Ap_auto_approved" by code_simp
    then show ?thesis using that by (cases "approvals ?st2") auto
  qed
  have "ap_actionClass a \<in> class_name ` {Run_diagnosis, Spec_quality_feedback, Daily_brief}"
    using approvals_keep_their_promises[OF steps, of a] a by (simp add: approval_samples)
  with a show ?thesis by blast
qed

text \<open>C26: a request keeps every column it was raised with: its class, repository, proposal, target, summary,
  reasoning, blast radius, effects, cost, policy, deadline, grant and time. Once it has a verdict it
  keeps the verdict, its time, its author and its note. An open one that is approved or denied was
  answered by a human, who is named; one answered by its timeout says so; and a parked one is never
  answered by the clock: it stays parked until a human approves or denies it or it is superseded.\<close>
theorem verdicts_are_final:
  assumes "approval_step\<^sup>*\<^sup>* st st'" "distinct (map ap_id (approvals st))"
    "a \<in> set (approvals st)" "a' \<in> set (approvals st')" "ap_id a' = ap_id a"
  shows "ap_actionClass a' = ap_actionClass a \<and> ap_repositoryId a' = ap_repositoryId a \<and>
    ap_proposalId a' = ap_proposalId a \<and> ap_targetKind a' = ap_targetKind a \<and> ap_targetRef a' = ap_targetRef a \<and>
    ap_summary a' = ap_summary a \<and> ap_reasoning a' = ap_reasoning a \<and> ap_blastRadius a' = ap_blastRadius a \<and>
    ap_effects a' = ap_effects a \<and> ap_estimatedCostUsd a' = ap_estimatedCostUsd a \<and>
    ap_timeoutPolicy a' = ap_timeoutPolicy a \<and> ap_timeoutAt a' = ap_timeoutAt a \<and>
    ap_grantId a' = ap_grantId a \<and> ap_createdAt a' = ap_createdAt a \<and>
    (ap_status a \<notin> {Ap_pending, Ap_parked} \<longrightarrow> ap_status a' = ap_status a \<and> ap_decidedAt a' = ap_decidedAt a \<and>
       ap_decidedById a' = ap_decidedById a \<and> ap_decidedVia a' = ap_decidedVia a \<and>
       ap_decisionNote a' = ap_decisionNote a) \<and>
    (ap_status a \<in> {Ap_pending, Ap_parked} \<longrightarrow>
       (ap_status a' \<in> {Ap_approved, Ap_denied} \<longrightarrow>
          ap_decidedVia a' = Some By_human \<and> (\<exists>who. ap_decidedById a' = Some who)) \<and>
       (ap_status a' \<in> {Ap_auto_approved, Ap_auto_denied} \<longrightarrow> ap_decidedVia a' = Some By_timeout)) \<and>
    (ap_status a = Ap_parked \<longrightarrow> ap_status a' \<in> {Ap_parked, Ap_approved, Ap_denied, Ap_superseded})"
proof -
  note l = later_approvalD[OF approvals.row_under_key[OF assms]]
  show ?thesis using ap_terms_sel[OF l(1)] l(2,3,6,8) unfolding is_open_def ap_verdict_def
    by (intro conjI impI) auto
qed

definition sample_parked :: approval_row where
  "sample_parked = (baseData \<lparr>nr_id = ''a9'', nr_createdAt = 1\<rparr>
     \<lparr>ri_actionClass = ''merge'', ri_repositoryId = ''r1'', ri_effects = [], ri_summary = ''s'',
      ri_reasoning = ''why'', ri_blastRadius = ''all'', ri_estimatedCostUsd = None, ri_proposalId = None,
      ri_targetKind = None, ri_targetRef = None\<rparr> Park_and_escalate)\<lparr>ap_status := Ap_parked\<rparr>"

lemma verdicts_are_final_witness:
  "\<exists>a. approvals (snd (supersede ''a9'' ''gone'' 7 (sample_approvals\<lparr>approvals := [sample_parked]\<rparr>))) = [a] \<and>
     ap_status a \<in> {Ap_parked, Ap_approved, Ap_denied, Ap_superseded}"
proof -
  let ?st = "sample_approvals\<lparr>approvals := [sample_parked]\<rparr>"
  let ?st' = "snd (supersede ''a9'' ''gone'' 7 ?st)"
  have steps: "approval_step\<^sup>*\<^sup>* ?st ?st'" using approval_step.superseded by blast
  obtain a where a: "approvals ?st' = [a]" "ap_id a = ''a9''"
    by (auto simp: supersede_def Let_def update_many_def sample_parked_def baseData_def)
  have "ap_status a \<in> {Ap_parked, Ap_approved, Ap_denied, Ap_superseded}"
    using verdicts_are_final[OF steps, of sample_parked a] a by (simp add: sample_parked_def baseData_def)
  with a show ?thesis by blast
qed

text \<open>C28: after one timeout sweep over at most 200 overdue requests, no pending request is past its
  deadline.\<close>
theorem sweep_answers_silence:
  assumes "\<forall>a \<in> set (approvals st). approval_ok (grants st) a"
    "length (filter (is_due now) (approvals st)) \<le> 200"
    "a \<in> set (approvals (snd (sweepTimeouts now st)))"
  shows "\<not> (ap_status a = Ap_pending \<and> (\<exists>t \<le> now. ap_timeoutAt a = Some t))"
  using sweep_leaves_none_due[OF _ assms(1,3)] assms(2)
  by (auto simp: SWEEP_BATCH_LIMIT_def is_due_def)

lemma sweep_answers_silence_witness:
  "\<exists>a. approvals (snd (sweepTimeouts 14400005 (sample_approvals\<lparr>approvals :=
      [sample_parked\<lparr>ap_actionClass := ''issue-shaping'', ap_timeoutPolicy := Deny_on_timeout,
         ap_status := Ap_pending, ap_timeoutAt := Some 3\<rparr>]\<rparr>))) = [a] \<and> ap_status a \<noteq> Ap_pending"
proof -
  let ?a = "sample_parked\<lparr>ap_actionClass := ''issue-shaping'', ap_timeoutPolicy := Deny_on_timeout,
         ap_status := Ap_pending, ap_timeoutAt := Some 3\<rparr>"
  let ?st = "sample_approvals\<lparr>approvals := [?a]\<rparr>"
  have ok: "\<forall>a \<in> set (approvals ?st). approval_ok (grants ?st) a"
    by (simp add: approval_ok_def is_open_def sample_parked_def baseData_def resolveTimeoutPolicy_def
        getActionClass_def ACTION_CLASSES_def)
  have "length (approvals (snd (sweepTimeouts 14400005 ?st))) = 1 \<and>
      map ap_timeoutAt (approvals (snd (sweepTimeouts 14400005 ?st))) = [Some 3]" by code_simp
  then obtain a where a: "approvals (snd (sweepTimeouts 14400005 ?st)) = [a]" "ap_timeoutAt a = Some 3"
    by (cases "approvals (snd (sweepTimeouts 14400005 ?st))") auto
  have "\<not> (ap_status a = Ap_pending \<and> (\<exists>t \<le> 14400005. ap_timeoutAt a = Some t))"
    by (rule sweep_answers_silence[OF ok]) (simp_all add: a)
  with a show ?thesis by auto
qed

section \<open>What modelling showed\<close>

text \<open>
  When the grant a decision asked for is created and the write of its id on the request fails, the
  answer is that no grant was created and nothing runs unattended, and the grant stands active.
\<close>

lemma unlinked_grant_stands:
  "(case decide ''a9'' False [''r1''] \<lparr>nr_id = ''g9'', nr_createdAt = 9\<rparr>
      \<lparr>dc_decision = Approve, dc_actorUserId = ''u1'', dc_note = None, dc_alwaysApprove = True\<rparr> 9
      (sample_approvals\<lparr>grants := [], approvals := [sample_parked\<lparr>ap_actionClass := ''re-dispatch''\<rparr>]\<rparr>) of
      Inr (res, st) \<Rightarrow> (dr_createdGrantId res, dr_grantSkipped res, map tg_status (grants st))) =
   (None, Some Grant_not_linked, [Grant_active])"
  by code_simp

end
