(* ===== verification/Decision_Log.thy ===== *)
theory Decision_Log
  imports Action_Classes Keyed_Buckets Row_History
begin

text \<open>
  The supervisor's log (\<open>supervisor/decision-log/\<close>): its two tables and the six operations of the
  service. \<open>Json\<close> details are text. What the database and the runtime supply is an argument: ids
  and creation times of new rows, the clock of a review, the digest of a snapshot
  (\<open>createHash('sha256')\<close>), the collation of \<open>localeCompare\<close>.
\<close>

section \<open>The tables\<close>

datatype proposal_outcome = Proposed | Declined

datatype proposal_review = Pending_review | Would_approve | Would_reject

datatype invocation_outcome =
  Completed | Partial | Invocation_failed | Skipped_disabled | Skipped_quota | Skipped_budget

record invocation_draft =
  id_startedAt :: instant
  id_finishedAt :: instant
  id_outcome :: invocation_outcome
  id_model :: string
  id_snapshotText :: string
  id_snapshotGeneratedAt :: "instant option"
  id_snapshotTruncated :: "bool option"
  id_snapshotCharacters :: "nat option"
  id_costUsd :: "usd option"
  id_unpricedCalls :: "nat option"
  id_tokensInput :: "nat option"
  id_tokensOutput :: "nat option"
  id_failureReason :: "string option"

record proposal_draft =
  pd_actionClass :: string
  pd_outcome :: proposal_outcome
  pd_summary :: string
  pd_reasoning :: string
  pd_targetKind :: "string option"
  pd_targetRef :: "string option"
  pd_details :: "string option"

record invocation_row =
  iv_id :: string
  iv_startedAt :: instant
  iv_finishedAt :: instant
  iv_durationMs :: int
  iv_outcome :: invocation_outcome
  iv_model :: string
  iv_snapshotText :: string
  iv_snapshotHash :: string
  iv_snapshotGeneratedAt :: "instant option"
  iv_snapshotTruncated :: bool
  iv_snapshotCharacters :: nat
  iv_costUsd :: "usd option"
  iv_unpricedCalls :: nat
  iv_tokensInput :: "nat option"
  iv_tokensOutput :: "nat option"
  iv_failureReason :: "string option"

record proposal_row =
  pr_id :: string
  pr_invocationId :: string
  pr_actionClass :: string
  pr_outcome :: proposal_outcome
  pr_summary :: string
  pr_reasoning :: string
  pr_targetKind :: "string option"
  pr_targetRef :: "string option"
  pr_details :: "string option"
  pr_review :: proposal_review
  pr_reviewedAt :: "instant option"
  pr_reviewedById :: "string option"
  pr_reviewNote :: "string option"
  pr_createdAt :: instant

record decision_log =
  invocations :: "invocation_row list"
  proposals :: "proposal_row list"

datatype log_error =
    Bad_class string
  | No_such_proposal string
  | No_such_invocation string

section \<open>Recording\<close>

definition invocation_of :: "(string \<Rightarrow> string) \<Rightarrow> string \<Rightarrow> invocation_draft \<Rightarrow> invocation_row" where
  "invocation_of hashSnapshot new_id d =
    \<lparr>iv_id = new_id, iv_startedAt = id_startedAt d, iv_finishedAt = id_finishedAt d,
     iv_durationMs = max 0 (id_finishedAt d - id_startedAt d), iv_outcome = id_outcome d,
     iv_model = id_model d, iv_snapshotText = id_snapshotText d,
     iv_snapshotHash = hashSnapshot (id_snapshotText d),
     iv_snapshotGeneratedAt = id_snapshotGeneratedAt d,
     iv_snapshotTruncated = get_or False (id_snapshotTruncated d),
     iv_snapshotCharacters = get_or (length (id_snapshotText d)) (id_snapshotCharacters d),
     iv_costUsd = id_costUsd d, iv_unpricedCalls = get_or 0 (id_unpricedCalls d),
     iv_tokensInput = id_tokensInput d, iv_tokensOutput = id_tokensOutput d,
     iv_failureReason = id_failureReason d\<rparr>"

definition proposal_of :: "string \<Rightarrow> string \<times> instant \<Rightarrow> proposal_draft \<Rightarrow> proposal_row" where
  "proposal_of invocation_id fresh d =
    \<lparr>pr_id = fst fresh, pr_invocationId = invocation_id, pr_actionClass = pd_actionClass d,
     pr_outcome = pd_outcome d, pr_summary = pd_summary d, pr_reasoning = pd_reasoning d,
     pr_targetKind = pd_targetKind d, pr_targetRef = pd_targetRef d, pr_details = pd_details d,
     pr_review = Pending_review, pr_reviewedAt = None, pr_reviewedById = None, pr_reviewNote = None,
     pr_createdAt = snd fresh\<rparr>"

text \<open>
  \<open>fresh\<close> gives each new row its id and time. Every class is checked before the transaction opens.
\<close>

definition record_invocation ::
  "(string \<Rightarrow> string) \<Rightarrow> string \<Rightarrow> (nat \<Rightarrow> string \<times> instant) \<Rightarrow> invocation_draft \<Rightarrow> proposal_draft list \<Rightarrow>
   decision_log \<Rightarrow> log_error + ((string \<times> string list) \<times> decision_log)" where
  "record_invocation hashSnapshot new_id fresh invocation drafts dl =
    (case find (\<lambda>d. \<not> isActionClass (pd_actionClass d)) drafts of
       Some d \<Rightarrow> Inl (Bad_class (pd_actionClass d))
     | None \<Rightarrow>
        let rows = map (\<lambda>(i, d). proposal_of new_id (fresh i) d) (enumerate 0 drafts)
        in Inr ((new_id, map pr_id rows),
                dl\<lparr>invocations := invocations dl @ [invocation_of hashSnapshot new_id invocation],
                   proposals := proposals dl @ rows\<rparr>))"

section \<open>Review\<close>

text \<open>The verdict a reviewer may give: \<open>Exclude<ProposalReview, 'pending'>\<close>.\<close>

datatype review_verdict = Approves | Rejects

definition review_of :: "review_verdict \<Rightarrow> proposal_review" where
  "review_of v = (case v of Approves \<Rightarrow> Would_approve | Rejects \<Rightarrow> Would_reject)"

definition review_proposal ::
  "string \<Rightarrow> review_verdict \<Rightarrow> string option \<Rightarrow> string option \<Rightarrow> instant \<Rightarrow> decision_log \<Rightarrow>
   log_error + decision_log" where
  "review_proposal pid v reviewer rnote now dl =
    (let (n, rows) = update_many (\<lambda>p. pr_id p = pid)
           (\<lambda>p. p\<lparr>pr_review := review_of v, pr_reviewedAt := Some now, pr_reviewedById := reviewer,
                  pr_reviewNote := rnote\<rparr>) (proposals dl)
     in if n = 0 then Inl (No_such_proposal pid) else Inr (dl\<lparr>proposals := rows\<rparr>))"

section \<open>Rates\<close>

record action_class_rate =
  ar_actionClass :: string
  ar_proposed :: nat
  ar_declined :: nat
  ar_wouldApprove :: nat
  ar_wouldReject :: nat
  ar_pendingReview :: nat
  ar_approvalRate :: "rat option"

definition no_rates :: "string \<Rightarrow> action_class_rate" where
  "no_rates cls =
    \<lparr>ar_actionClass = cls, ar_proposed = 0, ar_declined = 0, ar_wouldApprove = 0, ar_wouldReject = 0,
     ar_pendingReview = 0, ar_approvalRate = None\<rparr>"

type_synonym proposal_key = "string \<times> proposal_outcome \<times> proposal_review"

definition proposal_key :: "proposal_row \<Rightarrow> proposal_key" where
  "proposal_key p = (pr_actionClass p, pr_outcome p, pr_review p)"

definition count_proposals :: "proposal_key \<times> nat \<Rightarrow> action_class_rate \<Rightarrow> action_class_rate" where
  "count_proposals row e =
    (case row of ((cls, what, review), n) \<Rightarrow>
       let e1 = (if what = Proposed then e\<lparr>ar_proposed := ar_proposed e + n\<rparr>
                 else e\<lparr>ar_declined := ar_declined e + n\<rparr>)
       in case review of
            Would_approve \<Rightarrow> e1\<lparr>ar_wouldApprove := ar_wouldApprove e1 + n\<rparr>
          | Would_reject \<Rightarrow> e1\<lparr>ar_wouldReject := ar_wouldReject e1 + n\<rparr>
          | Pending_review \<Rightarrow> e1\<lparr>ar_pendingReview := ar_pendingReview e1 + n\<rparr>)"

definition finish_rate :: "action_class_rate \<Rightarrow> action_class_rate" where
  "finish_rate e =
    (let judged = ar_wouldApprove e + ar_wouldReject e in
     e\<lparr>ar_approvalRate := if judged = 0 then None else Some (of_nat (ar_wouldApprove e) / of_nat judged)\<rparr>)"

definition since_filter :: "instant option \<Rightarrow> proposal_row list \<Rightarrow> proposal_row list" where
  "since_filter since rows =
    (case since of None \<Rightarrow> rows | Some t \<Rightarrow> filter (\<lambda>p. t \<le> pr_createdAt p) rows)"

definition rate_buckets :: "instant option \<Rightarrow> proposal_row list \<Rightarrow> action_class_rate list" where
  "rate_buckets since rows =
    fold (\<lambda>row. upsert ar_actionClass no_rates (fst (fst row)) (count_proposals row))
      (group_counts (map proposal_key (since_filter since rows)))
      (map (\<lambda>c. no_rates (class_name (ac_id c))) ACTION_CLASSES)"

definition approvalRates ::
  "(string \<Rightarrow> string \<Rightarrow> int) \<Rightarrow> instant option \<Rightarrow> decision_log \<Rightarrow> action_class_rate list" where
  "approvalRates lc since dl =
    js_sort (\<lambda>a b. lc (ar_actionClass a) (ar_actionClass b))
      (map finish_rate (rate_buckets since (proposals dl)))"

section \<open>Reading\<close>

record proposal_view =
  pw_proposal :: proposal_row \<comment> \<open>the columns rendered, dates as instants\<close>
  pw_snapshotTruncated :: bool

definition find_invocation :: "string \<Rightarrow> decision_log \<Rightarrow> invocation_row option" where
  "find_invocation iid dl = find (\<lambda>v. iv_id v = iid) (invocations dl)"

text \<open>The join is on a required relation, so the invocation is there.\<close>

definition toProposalView :: "decision_log \<Rightarrow> proposal_row \<Rightarrow> proposal_view" where
  "toProposalView dl p =
    \<lparr>pw_proposal = p,
     pw_snapshotTruncated =
       (case find_invocation (pr_invocationId p) dl of None \<Rightarrow> False | Some v \<Rightarrow> iv_snapshotTruncated v)\<rparr>"

definition newest_proposal_first :: "proposal_row \<Rightarrow> proposal_row \<Rightarrow> int" where
  "newest_proposal_first a b =
    (if pr_createdAt a \<noteq> pr_createdAt b then pr_createdAt b - pr_createdAt a
     else code_unit_compare (pr_id b) (pr_id a))"

record proposal_query =
  pq_page :: nat
  pq_pageSize :: nat
  pq_actionClass :: "string option"
  pq_review :: "proposal_review option"
  pq_outcome :: "proposal_outcome option"

definition asked_for :: "proposal_query \<Rightarrow> proposal_row \<Rightarrow> bool" where
  "asked_for q p \<longleftrightarrow>
     (case pq_actionClass q of None \<Rightarrow> True | Some c \<Rightarrow> c = '''' \<or> pr_actionClass p = c) \<and>
     (case pq_review q of None \<Rightarrow> True | Some r \<Rightarrow> pr_review p = r) \<and>
     (case pq_outcome q of None \<Rightarrow> True | Some x \<Rightarrow> pr_outcome p = x)"

definition listProposals :: "proposal_query \<Rightarrow> decision_log \<Rightarrow> proposal_view list \<times> nat" where
  "listProposals q dl =
    (let rows = js_sort newest_proposal_first (filter (asked_for q) (proposals dl)) in
     (map (toProposalView dl) (take (pq_pageSize q) (drop ((pq_page q - 1) * pq_pageSize q) rows)),
      length rows))"

definition latestProposalFor ::
  "string \<Rightarrow> string \<Rightarrow> string \<Rightarrow> decision_log \<Rightarrow> proposal_view option" where
  "latestProposalFor kind target cls dl =
    (case js_sort newest_proposal_first
       (filter (\<lambda>p. pr_targetKind p = Some kind \<and> pr_targetRef p = Some target \<and>
                    pr_actionClass p = cls \<and> pr_outcome p = Proposed) (proposals dl)) of
       [] \<Rightarrow> None
     | p # _ \<Rightarrow> Some (toProposalView dl p))"

definition getInvocation :: "string \<Rightarrow> decision_log \<Rightarrow> log_error + invocation_row" where
  "getInvocation iid dl =
    (case find_invocation iid dl of None \<Rightarrow> Inl (No_such_invocation iid) | Some v \<Rightarrow> Inr v)"

section \<open>Lemmas\<close>

lemma no_rates_class [simp]: "ar_actionClass (no_rates cls) = cls"
  by (simp add: no_rates_def)

lemma count_proposals_class [simp]: "ar_actionClass (count_proposals row e) = ar_actionClass e"
  by (simp add: count_proposals_def Let_def split: prod.splits proposal_review.splits)

lemma count_proposals_judged:
  "ar_wouldApprove (count_proposals row e) =
     ar_wouldApprove e + (if snd (snd (fst row)) = Would_approve then snd row else 0)"
  "ar_wouldReject (count_proposals row e) =
     ar_wouldReject e + (if snd (snd (fst row)) = Would_reject then snd row else 0)"
  "ar_pendingReview (count_proposals row e) =
     ar_pendingReview e + (if snd (snd (fst row)) = Pending_review then snd row else 0)"
  by (simp_all add: count_proposals_def Let_def split: prod.splits proposal_review.splits)

lemma finish_rate_sel [simp]:
  "ar_actionClass (finish_rate e) = ar_actionClass e" "ar_wouldApprove (finish_rate e) = ar_wouldApprove e"
  "ar_wouldReject (finish_rate e) = ar_wouldReject e" "ar_pendingReview (finish_rate e) = ar_pendingReview e"
  by (simp_all add: finish_rate_def Let_def)

lemma registry_keys_distinct:
  "distinct (map ar_actionClass (map (\<lambda>c. no_rates (class_name (ac_id c))) ACTION_CLASSES))"
  by (simp add: ACTION_CLASSES_def)

lemma rate_buckets_distinct: "distinct (map ar_actionClass (rate_buckets since rows))"
  unfolding rate_buckets_def by (rule fold_upsert_distinct) (simp_all only: registry_keys_distinct count_proposals_class no_rates_class)

lemma rate_buckets_keys:
  "ar_actionClass ` set (rate_buckets since rows) =
    (\<lambda>c. class_name (ac_id c)) ` set ACTION_CLASSES \<union> pr_actionClass ` set (since_filter since rows)"
proof -
  have "(\<lambda>g. fst (fst g)) ` set (group_counts (map proposal_key (since_filter since rows))) =
      pr_actionClass ` set (since_filter since rows)"
    by (auto simp: group_counts_def proposal_key_def image_image)
  then show ?thesis unfolding rate_buckets_def
    by (subst fold_upsert_keys) (simp_all add: image_image)
qed

text \<open>The judgements of a class, which is what its bucket counts.\<close>

definition judged :: "proposal_review \<Rightarrow> string \<Rightarrow> proposal_row list \<Rightarrow> nat" where
  "judged r cls rows = length (filter (\<lambda>p. pr_actionClass p = cls \<and> pr_review p = r) rows)"

lemma bucket_counter:
  assumes "\<And>row e. m (count_proposals row e) = m e + (if snd (snd (fst row)) = r then snd row else 0)"
    "\<And>cls. m (no_rates cls) = 0"
  shows "m (bucket_of ar_actionClass no_rates cls (rate_buckets since rows)) = judged r cls (since_filter since rows)"
proof -
  let ?gs = "group_counts (map proposal_key (since_filter since rows))"
  let ?seed = "map (\<lambda>c. no_rates (class_name (ac_id c))) ACTION_CLASSES"
  have seed: "bucket_of ar_actionClass no_rates cls ?seed = no_rates cls"
    by (rule bucket_of_seed) simp
  have "m (bucket_of ar_actionClass no_rates cls (rate_buckets since rows)) =
      m (fold (\<lambda>row e. if fst (fst row) = cls then count_proposals row e else e) ?gs (no_rates cls))"
    unfolding rate_buckets_def by (subst bucket_of_fold) (simp_all only: seed count_proposals_class no_rates_class)
  also have "\<dots> = sum_list (map (\<lambda>g. if snd (snd (fst g)) = r then snd g else 0)
      (filter (\<lambda>g. fst (fst g) = cls) ?gs))"
    by (subst fold_counter[of m, OF assms(1)]) (simp add: assms(2))
  also have "\<dots> = sum_list (map (\<lambda>g. if (\<lambda>k. fst k = cls \<and> snd (snd k) = r) (fst g) then snd g else 0) ?gs)"
    by (rule sum_filter_if)
  also have "\<dots> = length (filter (\<lambda>k. fst k = cls \<and> snd (snd k) = r) (map proposal_key (since_filter since rows)))"
    by (rule sum_group_counts)
  also have "\<dots> = judged r cls (since_filter since rows)"
    by (simp add: judged_def filter_map comp_def proposal_key_def)
  finally show ?thesis .
qed

subsection \<open>The log over time\<close>

text \<open>The ids the database makes are new and different.\<close>

inductive log_step :: "decision_log \<Rightarrow> decision_log \<Rightarrow> bool" where
  records: "record_invocation hashSnapshot new_id fresh invocation drafts dl = Inr (ids, dl') \<Longrightarrow>
    distinct (map (\<lambda>i. fst (fresh i)) [0..<length drafts]) \<Longrightarrow>
    (\<forall>i < length drafts. fst (fresh i) \<notin> pr_id ` set (proposals dl)) \<Longrightarrow> log_step dl dl'"
| reviews: "review_proposal pid v reviewer rnote now dl = Inr dl' \<Longrightarrow> log_step dl dl'"

text \<open>A review leaves what was proposed.\<close>

definition as_proposed :: "proposal_row \<Rightarrow> proposal_row" where
  "as_proposed p =
    p\<lparr>pr_review := Pending_review, pr_reviewedAt := None, pr_reviewedById := None, pr_reviewNote := None\<rparr>"

definition later_proposal :: "proposal_row \<Rightarrow> proposal_row \<Rightarrow> bool" where
  "later_proposal p p' \<longleftrightarrow>
     as_proposed p' = as_proposed p \<and> (pr_review p \<noteq> Pending_review \<longrightarrow> pr_review p' \<noteq> Pending_review)"

lemma record_invocationD:
  assumes "record_invocation hashSnapshot new_id fresh invocation drafts dl = Inr (ids, dl')"
  shows "proposals dl' = proposals dl @ map (\<lambda>(i, d). proposal_of new_id (fresh i) d) (enumerate 0 drafts)"
    "\<forall>d \<in> set drafts. isActionClass (pd_actionClass d)"
  using assms by (auto simp: record_invocation_def Let_def find_None_iff split: option.splits)

lemma review_proposalD:
  assumes "review_proposal pid v reviewer rnote now dl = Inr dl'"
  shows "proposals dl' = map (\<lambda>p. if pr_id p = pid then p\<lparr>pr_review := review_of v, pr_reviewedAt := Some now,
    pr_reviewedById := reviewer, pr_reviewNote := rnote\<rparr> else p) (proposals dl)"
  using assms by (auto simp: review_proposal_def update_many_def Let_def split: if_splits)

lemma later_proposal_refl: "later_proposal p p"
  by (simp add: later_proposal_def)

lemma later_proposal_review:
  "later_proposal p (p\<lparr>pr_review := review_of v, pr_reviewedAt := a, pr_reviewedById := b, pr_reviewNote := c\<rparr>)"
  by (simp add: later_proposal_def as_proposed_def review_of_def split: review_verdict.splits)

lemma new_proposal_ids:
  "map pr_id (map (\<lambda>(i, d). proposal_of new_id (fresh i) d) (enumerate 0 drafts)) =
   map (\<lambda>i. fst (fresh i)) [0..<length drafts]"
  by (rule nth_equalityI) (simp_all add: nth_enumerate_eq proposal_of_def)

lemma log_step_rows:
  assumes "log_step dl dl'" "p \<in> set (proposals dl)"
  shows "\<exists>p' \<in> set (proposals dl'). pr_id p' = pr_id p \<and> later_proposal p p'"
  using assms
proof cases
  case (records hashSnapshot new_id fresh invocation drafts ids)
  have "p \<in> set (proposals dl')" unfolding record_invocationD(1)[OF records(1)] using assms(2) by simp
  then show ?thesis using later_proposal_refl by blast
next
  case (reviews pid v reviewer rnote now)
  let ?f = "\<lambda>p. if pr_id p = pid then p\<lparr>pr_review := review_of v, pr_reviewedAt := Some now,
    pr_reviewedById := reviewer, pr_reviewNote := rnote\<rparr> else p"
  have "?f p \<in> set (proposals dl')"
    unfolding review_proposalD[OF reviews] set_map using assms(2) by (rule imageI)
  moreover have "pr_id (?f p) = pr_id p" by simp
  moreover have "later_proposal p (?f p)" by (simp add: later_proposal_refl later_proposal_review)
  ultimately show ?thesis by (intro bexI conjI)
qed

lemma log_step_distinct:
  assumes "log_step dl dl'" "distinct (map pr_id (proposals dl))"
  shows "distinct (map pr_id (proposals dl'))"
  using assms(1)
proof cases
  case (records hashSnapshot new_id fresh invocation drafts ids)
  have "map pr_id (proposals dl') = map pr_id (proposals dl) @ map (\<lambda>i. fst (fresh i)) [0..<length drafts]"
    unfolding record_invocationD(1)[OF records(1)] map_append new_proposal_ids ..
  moreover have "set (map pr_id (proposals dl)) \<inter> set (map (\<lambda>i. fst (fresh i)) [0..<length drafts]) = {}"
  proof -
    have "fst (fresh i) \<notin> set (map pr_id (proposals dl))" if "i < length drafts" for i
      using records(3) that by simp
    then show ?thesis unfolding set_map[of "\<lambda>i. fst (fresh i)"] set_upt by fastforce
  qed
  ultimately show ?thesis using records(2) assms(2) by (simp only: distinct_append simp_thms)
next
  case (reviews pid v reviewer rnote now)
  have "map pr_id (proposals dl') = map pr_id (proposals dl)"
    unfolding review_proposalD[OF reviews] by simp
  with assms(2) show ?thesis by simp
qed

interpretation proposal_log: row_history log_step proposals pr_id later_proposal
proof
  fix dl dl' p
  show "later_proposal p p" by (rule later_proposal_refl)
  assume "log_step dl dl'" "distinct (map pr_id (proposals dl))"
  then show "distinct (map pr_id (proposals dl'))" by (rule log_step_distinct)
  assume "p \<in> set (proposals dl)"
  with \<open>log_step dl dl'\<close> show "\<exists>p' \<in> set (proposals dl'). pr_id p' = pr_id p \<and> later_proposal p p'"
    by (rule log_step_rows)
qed (simp add: later_proposal_def)

lemma log_step_classes:
  assumes "log_step dl dl'" "\<forall>p \<in> set (proposals dl). isActionClass (pr_actionClass p)"
  shows "\<forall>p \<in> set (proposals dl'). isActionClass (pr_actionClass p)"
  using assms(1)
proof cases
  case (records hashSnapshot new_id fresh invocation drafts ids)
  have "isActionClass (pr_actionClass (proposal_of new_id (fresh i) d))" if "(i, d) \<in> set (enumerate 0 drafts)" for i d
    using record_invocationD(2)[OF records(1)] that by (auto simp: proposal_of_def in_set_enumerate_eq)
  with assms(2) show ?thesis unfolding record_invocationD(1)[OF records(1)] by auto
next
  case (reviews pid v reviewer rnote now)
  with assms(2) review_proposalD show ?thesis by fastforce
qed

end
