(* ===== verification/Promotion.thy ===== *)
theory Promotion
  imports Promotion_Policy Decision_Log Approvals
begin

text \<open>
  The promotion ladder (\<open>promotion/promotion.service.ts\<close>): the evidence it gathers from the review
  queue and from the approval gate, the hourly evaluation that moves classes between rungs, the
  demotion by hand, and the reads. The state is the ladder's table beside the approvals and the
  log it reads and the grants it suspends. What the outside answers is a \<open>ladder_world\<close>: whether the
  ladder is switched on, whether the grants can be read and each one written, and what the
  transports say of a notification.
\<close>

section \<open>The table and the world\<close>

record promotion_row =
  ps_actionClass :: string
  ps_rung :: promotion_rung
  ps_changedAt :: instant
  ps_changeReason :: "promotion_change_reason option"
  ps_changeDetail :: "ladder_detail option"
  ps_changedById :: "string option"
  ps_evidence :: "class_evidence option"
  ps_manualHoldUntil :: "instant option"
  ps_promotedAt :: "instant option"
  ps_demotedAt :: "instant option"
  ps_demotionCount :: nat

datatype notice_priority = Normal_priority | High_priority

datatype notice_why = Earned ladder_detail "order_anomaly option" | Lost_it ladder_detail

datatype notice_reach = No_reach_yet | Suspended_grants nat | No_active_grants

datatype if_ignored = Nothing_changes | Held_for int | Recovers_on_its_own

record ladder_notice =
  ln_priority :: notice_priority
  ln_actionClass :: string
  ln_reason :: "promotion_change_reason option"
  ln_why :: notice_why
  ln_reach :: notice_reach
  ln_ifIgnored :: if_ignored
  ln_raisedAt :: instant

text \<open>
  Reading the targets throws (\<open>None\<close>) or gives the answer of each, where \<open>None\<close> is a target whose
  sending throws.
\<close>

record transports =
  tr_targets :: "bool option list option"
  tr_pushConfigured :: bool
  tr_fallbackConfigured :: bool
  tr_fallback :: "bool option"

record ladder_world =
  lw_enabled :: bool
  lw_grantsReadable :: "string \<Rightarrow> bool"
  lw_grantWritable :: "string \<Rightarrow> bool"
  lw_transports :: "ladder_notice \<Rightarrow> transports"

record ladder_state =
  rungs :: "promotion_row list"
  desk :: approvals_state
  dlog :: decision_log
  told :: "ladder_notice list"

definition find_rung :: "string \<Rightarrow> promotion_row list \<Rightarrow> promotion_row option" where
  "find_rung cls rows = find (\<lambda>r. ps_actionClass r = cls) rows"

section \<open>Evidence\<close>

definition add_lifetime_proposals :: "action_class_rate \<Rightarrow> class_evidence \<Rightarrow> class_evidence" where
  "add_lifetime_proposals row e =
    e\<lparr>ev_approved := ev_approved e + ar_wouldApprove row, ev_rejected := ev_rejected e + ar_wouldReject row,
      ev_fromProposals := ev_fromProposals e + (ar_wouldApprove row + ar_wouldReject row)\<rparr>"

definition add_lifetime_approvals :: "class_rates \<Rightarrow> class_evidence \<Rightarrow> class_evidence" where
  "add_lifetime_approvals row e =
    e\<lparr>ev_approved := ev_approved e + cr_approved row, ev_rejected := ev_rejected e + cr_denied row,
      ev_fromApprovals := ev_fromApprovals e + (cr_approved row + cr_denied row)\<rparr>"

definition add_recent_proposals :: "action_class_rate \<Rightarrow> class_evidence \<Rightarrow> class_evidence" where
  "add_recent_proposals row e =
    e\<lparr>ev_recentApproved := ev_recentApproved e + ar_wouldApprove row,
      ev_recentRejected := ev_recentRejected e + ar_wouldReject row\<rparr>"

definition add_recent_approvals :: "class_rates \<Rightarrow> class_evidence \<Rightarrow> class_evidence" where
  "add_recent_approvals row e =
    e\<lparr>ev_recentApproved := ev_recentApproved e + cr_approved row,
      ev_recentRejected := ev_recentRejected e + cr_denied row\<rparr>"

definition finish_evidence :: "class_evidence \<Rightarrow> class_evidence" where
  "finish_evidence e =
    e\<lparr>ev_sample := ev_approved e + ev_rejected e, ev_rate := rateOf (ev_approved e) (ev_rejected e),
      ev_recentSample := ev_recentApproved e + ev_recentRejected e,
      ev_recentRate := rateOf (ev_recentApproved e) (ev_recentRejected e)\<rparr>"

text \<open>The loop over one source.\<close>

definition pour ::
  "('row \<Rightarrow> string) \<Rightarrow> ('row \<Rightarrow> class_evidence \<Rightarrow> class_evidence) \<Rightarrow> 'row list \<Rightarrow>
   class_evidence list \<Rightarrow> class_evidence list" where
  "pour cls add rows = fold (\<lambda>row. upsert ev_actionClass emptyEvidence (cls row) (add row)) rows"

definition evidence_buckets ::
  "(string \<Rightarrow> string \<Rightarrow> int) \<Rightarrow> instant \<Rightarrow> decision_log \<Rightarrow> approval_row list \<Rightarrow> class_evidence list" where
  "evidence_buckets lc now dl rows =
    (let recentSince = now - REGRESSION_WINDOW_DAYS * 24 * 60 * 60 * 1000 in
     pour cr_actionClass add_recent_approvals (approvalRatesByClass lc REGRESSION_WINDOW_DAYS now rows)
      (pour ar_actionClass add_recent_proposals (approvalRates lc (Some recentSince) dl)
        (pour cr_actionClass add_lifetime_approvals (approvalRatesByClass lc LIFETIME_WINDOW_DAYS now rows)
          (pour ar_actionClass add_lifetime_proposals (approvalRates lc None dl)
            (map emptyEvidence LADDER_CLASSES)))))"

definition gatherEvidence ::
  "(string \<Rightarrow> string \<Rightarrow> int) \<Rightarrow> instant \<Rightarrow> ladder_state \<Rightarrow> class_evidence list" where
  "gatherEvidence lc now st =
    js_sort (\<lambda>a b. lc (ev_actionClass a) (ev_actionClass b))
      (map finish_evidence (evidence_buckets lc now (dlog st) (approvals (desk st))))"

section \<open>Writing a rung\<close>

definition demoting :: "promotion_change_reason option \<Rightarrow> bool" where
  "demoting reason \<longleftrightarrow> reason \<in> {Some Demoted_on_regression, Some Demoted_ineligible, Some Demoted_manually}"

text \<open>The columns of one change; \<open>human\<close> is the actor and the end of the hold placed.\<close>

definition changed_row ::
  "class_evidence \<Rightarrow> promotion_rung \<Rightarrow> promotion_change_reason option \<Rightarrow> ladder_detail \<Rightarrow> instant \<Rightarrow>
   (string \<times> instant) option \<Rightarrow> promotion_row \<Rightarrow> promotion_row" where
  "changed_row e rung reason detail now human r =
    r\<lparr>ps_rung := rung, ps_changedAt := now, ps_changeReason := reason, ps_changeDetail := Some detail,
      ps_changedById := map_option fst human,
      ps_manualHoldUntil := (case human of None \<Rightarrow> ps_manualHoldUntil r | Some h \<Rightarrow> Some (snd h)),
      ps_evidence := Some e,
      ps_promotedAt := (if reason = Some Promoted_on_evidence then Some now else ps_promotedAt r),
      ps_demotedAt := (if demoting reason then Some now else ps_demotedAt r)\<rparr>"

definition blank_row :: "string \<Rightarrow> promotion_row" where
  "blank_row cls =
    \<lparr>ps_actionClass = cls, ps_rung = Observe, ps_changedAt = 0, ps_changeReason = None,
     ps_changeDetail = None, ps_changedById = None, ps_evidence = None, ps_manualHoldUntil = None,
     ps_promotedAt = None, ps_demotedAt = None, ps_demotionCount = 0\<rparr>"

text \<open>\<open>upsert\<close>; \<open>existing\<close> is the row read before, whose count the new one is computed from.\<close>

definition persist_rung ::
  "class_evidence \<Rightarrow> promotion_rung \<Rightarrow> promotion_change_reason option \<Rightarrow> ladder_detail \<Rightarrow> instant \<Rightarrow>
   promotion_row option \<Rightarrow> (string \<times> instant) option \<Rightarrow> promotion_row list \<Rightarrow> promotion_row list" where
  "persist_rung e rung reason detail now existing human rows =
    (let change = changed_row e rung reason detail now human;
         counted = (case existing of None \<Rightarrow> 0 | Some x \<Rightarrow> ps_demotionCount x) + 1
     in case find_rung (ev_actionClass e) rows of
          None \<Rightarrow> rows @ [(change (blank_row (ev_actionClass e)))
                           \<lparr>ps_demotionCount := (if demoting reason then 1 else 0)\<rparr>]
        | Some _ \<Rightarrow>
            map (\<lambda>r. if ps_actionClass r = ev_actionClass e
                     then (if demoting reason then (change r)\<lparr>ps_demotionCount := counted\<rparr> else change r)
                     else r) rows)"

section \<open>Suspending the grants of a class\<close>

fun suspend_each ::
  "(string \<Rightarrow> bool) \<Rightarrow> grant_detail \<Rightarrow> instant \<Rightarrow> string list \<Rightarrow> trust_grant list \<Rightarrow> nat \<times> trust_grant list" where
  "suspend_each writable detail now [] rows = (0, rows)"
| "suspend_each writable detail now (gid # gids) rows =
    (if writable gid then
       let (ended, rows1) = suspend gid Class_demoted detail now rows;
           (n, rows2) = suspend_each writable detail now gids rows1
       in ((if ended then 1 else 0) + n, rows2)
     else suspend_each writable detail now gids rows)"

definition suspendGrantsFor ::
  "ladder_world \<Rightarrow> string \<Rightarrow> ladder_detail \<Rightarrow> instant \<Rightarrow> trust_grant list \<Rightarrow> nat \<times> trust_grant list" where
  "suspendGrantsFor w cls detail now rows =
    (if lw_grantsReadable w cls
     then suspend_each (lw_grantWritable w) (Class_was_demoted cls detail) now
            (map tg_id (filter (\<lambda>g. tg_actionClass g = cls \<and> tg_status g = Grant_active) rows)) rows
     else (0, rows))"

section \<open>Telling the operator\<close>

text \<open>The loop over the targets; a throw ends it and keeps what was accepted.\<close>

fun push_all :: "bool option list \<Rightarrow> bool \<Rightarrow> bool" where
  "push_all [] accepted = accepted"
| "push_all (None # _) accepted = accepted"
| "push_all (Some a # rest) accepted = push_all rest (accepted \<or> a)"

definition deliver :: "transports \<Rightarrow> bool" where
  "deliver t =
    (let accepted = (case tr_targets t of None \<Rightarrow> False
                     | Some targets \<Rightarrow> tr_pushConfigured t \<and> push_all targets False)
     in if \<not> accepted \<and> tr_fallbackConfigured t then tr_fallback t = Some True else accepted)"

definition promotion_notice :: "class_evidence \<Rightarrow> ladder_detail \<Rightarrow> order_anomaly option \<Rightarrow> instant \<Rightarrow> ladder_notice" where
  "promotion_notice e reason anomaly now =
    \<lparr>ln_priority = Normal_priority, ln_actionClass = ev_actionClass e, ln_reason = None,
     ln_why = Earned reason anomaly, ln_reach = No_reach_yet, ln_ifIgnored = Nothing_changes,
     ln_raisedAt = now\<rparr>"

definition demotion_notice ::
  "class_evidence \<Rightarrow> promotion_change_reason \<Rightarrow> ladder_detail \<Rightarrow> nat \<Rightarrow> instant \<Rightarrow> ladder_notice" where
  "demotion_notice e reason detail suspended now =
    \<lparr>ln_priority = High_priority, ln_actionClass = ev_actionClass e, ln_reason = Some reason,
     ln_why = Lost_it detail,
     ln_reach = (if suspended > 0 then Suspended_grants suspended else No_active_grants),
     ln_ifIgnored = (if reason = Demoted_manually then Held_for MANUAL_HOLD_DAYS else Recovers_on_its_own),
     ln_raisedAt = now\<rparr>"

definition send_notice :: "ladder_world \<Rightarrow> ladder_notice \<Rightarrow> ladder_state \<Rightarrow> bool \<times> ladder_state" where
  "send_notice w notice st = (deliver (lw_transports w notice), st\<lparr>told := told st @ [notice]\<rparr>)"

section \<open>Evaluation\<close>

text \<open>Strictly in the future: a hold that ends at \<open>now\<close> has lapsed.\<close>

definition activeHold :: "instant option \<Rightarrow> string option \<Rightarrow> instant \<Rightarrow> manual_hold option" where
  "activeHold until by now =
    (case until of None \<Rightarrow> None
     | Some t \<Rightarrow> if t \<le> now then None else Some \<lparr>heldUntil = t, heldById = by\<rparr>)"

definition hold_of :: "promotion_row option \<Rightarrow> instant \<Rightarrow> manual_hold option" where
  "hold_of existing now =
    (case existing of None \<Rightarrow> None
     | Some r \<Rightarrow> activeHold (ps_manualHoldUntil r) (ps_changedById r) now)"

definition rung_of :: "promotion_row option \<Rightarrow> promotion_rung" where
  "rung_of existing = (case existing of None \<Rightarrow> Observe | Some r \<Rightarrow> ps_rung r)"

record ladder_change =
  lc_actionClass :: string
  lc_from :: promotion_rung
  lc_to :: promotion_rung
  lc_reason :: "promotion_change_reason option"
  lc_detail :: ladder_detail
  lc_evidence :: class_evidence
  lc_notified :: bool
  lc_grantsSuspended :: nat

record ladder_hold =
  lh_actionClass :: string
  lh_rung :: promotion_rung
  lh_detail :: ladder_detail

record evaluate_result =
  er_evaluatedAt :: instant
  er_paused :: bool
  er_changes :: "ladder_change list"
  er_holds :: "ladder_hold list"

text \<open>One turn of the loop: \<open>states\<close> are the rows read before the loop began.\<close>

definition evaluate_class ::
  "ladder_world \<Rightarrow> instant \<Rightarrow> promotion_row list \<Rightarrow> class_evidence \<Rightarrow> ladder_state \<Rightarrow>
   (ladder_hold + ladder_change) \<times> ladder_state" where
  "evaluate_class w now states item st =
    (let cls = ev_actionClass item;
         existing = find_rung cls states;
         current = rung_of existing;
         verdict = evaluateLadder current item (isAutonomyEligible cls) (\<not> lw_enabled w) (hold_of existing now);
         promoted = (case verdict of Promote _ \<Rightarrow> True | Demote _ _ \<Rightarrow> False | Hold _ \<Rightarrow> current = Promoted);
         target = rungFor promoted item
     in case verdict of
          Hold detail \<Rightarrow>
            if target = current
            then (Inl \<lparr>lh_actionClass = cls, lh_rung = current, lh_detail = detail\<rparr>, st)
            else (Inr \<lparr>lc_actionClass = cls, lc_from = current, lc_to = target, lc_reason = None,
                       lc_detail = detail, lc_evidence = item, lc_notified = False, lc_grantsSuspended = 0\<rparr>,
                  st\<lparr>rungs := persist_rung item target None detail now existing None (rungs st)\<rparr>)
        | Promote reason \<Rightarrow>
            let st1 = st\<lparr>rungs := persist_rung item target (Some Promoted_on_evidence) reason now existing
                                    None (rungs st)\<rparr>;
                promotedNow = map ps_actionClass
                  (filter (\<lambda>r. ps_rung r = Promoted \<and> ps_actionClass r \<noteq> cls) states) @ [cls];
                (notified, st2) = send_notice w
                  (promotion_notice item reason (promotionOrderAnomaly promotedNow) now) st1
            in (Inr \<lparr>lc_actionClass = cls, lc_from = current, lc_to = target,
                     lc_reason = Some Promoted_on_evidence, lc_detail = reason, lc_evidence = item,
                     lc_notified = notified, lc_grantsSuspended = 0\<rparr>, st2)
        | Demote reason detail \<Rightarrow>
            let st1 = st\<lparr>rungs := persist_rung item target (Some reason) detail now existing None (rungs st)\<rparr>;
                (suspended, gs) = suspendGrantsFor w cls detail now (grants (desk st1));
                st2 = st1\<lparr>desk := (desk st1)\<lparr>grants := gs\<rparr>\<rparr>;
                (notified, st3) = send_notice w (demotion_notice item reason detail suspended now) st2
            in (Inr \<lparr>lc_actionClass = cls, lc_from = current, lc_to = target, lc_reason = Some reason,
                     lc_detail = detail, lc_evidence = item, lc_notified = notified,
                     lc_grantsSuspended = suspended\<rparr>, st3))"

fun evaluate_all ::
  "ladder_world \<Rightarrow> instant \<Rightarrow> promotion_row list \<Rightarrow> class_evidence list \<Rightarrow> ladder_state \<Rightarrow>
   (ladder_change list \<times> ladder_hold list) \<times> ladder_state" where
  "evaluate_all w now states [] st = (([], []), st)"
| "evaluate_all w now states (item # items) st =
    (let (outcome, st1) = evaluate_class w now states item st;
         ((changes, holds), st2) = evaluate_all w now states items st1
     in (case outcome of Inl h \<Rightarrow> (changes, h # holds) | Inr c \<Rightarrow> (c # changes, holds), st2))"

definition evaluate ::
  "(string \<Rightarrow> string \<Rightarrow> int) \<Rightarrow> ladder_world \<Rightarrow> instant \<Rightarrow> ladder_state \<Rightarrow> evaluate_result \<times> ladder_state" where
  "evaluate lc w now st =
    (let ((changes, holds), st') = evaluate_all w now (rungs st) (gatherEvidence lc now st) st
     in (\<lparr>er_evaluatedAt = now, er_paused = \<not> lw_enabled w, er_changes = changes, er_holds = holds\<rparr>, st'))"

text \<open>The hourly task.\<close>

definition handleEvaluation ::
  "(string \<Rightarrow> string \<Rightarrow> int) \<Rightarrow> ladder_world \<Rightarrow> instant \<Rightarrow> ladder_state \<Rightarrow> ladder_state" where
  "handleEvaluation lc w now st = (if \<not> lw_enabled w then st else snd (evaluate lc w now st))"

section \<open>Reading\<close>

text \<open>A row as it is rendered: its columns (dates as instants) and its class's eligibility.\<close>

record promotion_state_view =
  sv_row :: promotion_row
  sv_eligible :: bool

definition rung_view :: "promotion_row \<Rightarrow> promotion_state_view" where
  "rung_view r = \<lparr>sv_row = r, sv_eligible = isAutonomyEligible (ps_actionClass r)\<rparr>"

text \<open>The default view's explanatory sentence is left out.\<close>

definition defaultView :: "string \<Rightarrow> promotion_state_view" where
  "defaultView cls = \<lparr>sv_row = blank_row cls, sv_eligible = isAutonomyEligible cls\<rparr>"

definition stateFor :: "string \<Rightarrow> ladder_state \<Rightarrow> promotion_state_view" where
  "stateFor cls st =
    (case find_rung cls (rungs st) of None \<Rightarrow> defaultView cls | Some r \<Rightarrow> rung_view r)"

definition allStates :: "ladder_state \<Rightarrow> promotion_state_view list" where
  "allStates st =
    map (\<lambda>cls. stateFor cls st) LADDER_CLASSES @
    map rung_view (filter (\<lambda>r. ps_actionClass r \<notin> set LADDER_CLASSES) (rungs st))"

datatype forecast = Would_promote | Would_demote

record ladder_state_view =
  lv_state :: promotion_state_view
  lv_title :: "string option"
  lv_currentEvidence :: class_evidence
  lv_requirement :: ladder_detail
  lv_wouldChange :: "forecast option"

definition withRequirement ::
  "promotion_state_view \<Rightarrow> class_evidence option \<Rightarrow> instant \<Rightarrow> ladder_state_view" where
  "withRequirement state live now =
    (let r = sv_row state;
         e = get_or (emptyEvidence (ps_actionClass r)) live;
         verdict = evaluateLadder (ps_rung r) e (sv_eligible state) False
                     (activeHold (ps_manualHoldUntil r) (ps_changedById r) now)
     in \<lparr>lv_state = state,
         lv_title = map_option ac_title (getActionClass (ps_actionClass r)),
         lv_currentEvidence = e,
         lv_requirement = (case verdict of Promote d \<Rightarrow> d | Demote _ d \<Rightarrow> d | Hold d \<Rightarrow> d),
         lv_wouldChange = (case verdict of Promote _ \<Rightarrow> Some Would_promote
                           | Demote _ _ \<Rightarrow> Some Would_demote | Hold _ \<Rightarrow> None)\<rparr>)"

definition evidence_for :: "string \<Rightarrow> class_evidence list \<Rightarrow> class_evidence option" where
  "evidence_for cls = find (\<lambda>e. ev_actionClass e = cls)"

record promotion_ladder_view =
  pv_enabled :: bool
  pv_readAt :: instant
  pv_states :: "ladder_state_view list"

definition ladder_view ::
  "(string \<Rightarrow> string \<Rightarrow> int) \<Rightarrow> ladder_world \<Rightarrow> instant \<Rightarrow> ladder_state \<Rightarrow> promotion_ladder_view" where
  "ladder_view lc w now st =
    (let evidence = gatherEvidence lc now st in
     \<lparr>pv_enabled = lw_enabled w, pv_readAt = now,
      pv_states = map (\<lambda>s. withRequirement s (evidence_for (ps_actionClass (sv_row s)) evidence) now)
                    (allStates st)\<rparr>)"

datatype promotion_error =
    No_such_class string
  | Not_promoted string promotion_rung

definition ladderStateFor ::
  "(string \<Rightarrow> string \<Rightarrow> int) \<Rightarrow> string \<Rightarrow> instant \<Rightarrow> ladder_state \<Rightarrow> promotion_error + ladder_state_view" where
  "ladderStateFor lc cls now st =
    (if \<not> isActionClass cls \<and> find_rung cls (rungs st) = None then Inl (No_such_class cls)
     else Inr (withRequirement (stateFor cls st) (evidence_for cls (gatherEvidence lc now st)) now))"

section \<open>Demotion by hand\<close>

record manual_demotion_result =
  md_state :: ladder_state_view
  md_grantsSuspended :: nat
  md_notified :: bool
  md_manualHoldUntil :: instant
  md_rungMayBeRestored :: bool

definition demoteManually ::
  "(string \<Rightarrow> string \<Rightarrow> int) \<Rightarrow> ladder_world \<Rightarrow> string \<Rightarrow> string \<Rightarrow> string option \<Rightarrow> instant \<Rightarrow> ladder_state \<Rightarrow>
   (promotion_error + manual_demotion_result) \<times> ladder_state" where
  "demoteManually lc w cls actor dnote now st =
    (let existing = find_rung cls (rungs st) in
     if rung_of existing \<noteq> Promoted then (Inl (Not_promoted cls (rung_of existing)), st)
     else
       let e = get_or (emptyEvidence cls) (evidence_for cls (gatherEvidence lc now st));
           until = now + MANUAL_HOLD_DAYS * 24 * 60 * 60 * 1000;
           detail = Demoted_by_hand now actor (ev_approved e) (ev_sample e) (pct (ev_rate e))
                      (ev_recentApproved e) (ev_recentSample e) (pct (ev_recentRate e)) dnote until;
           st1 = st\<lparr>rungs := persist_rung e (rungFor False e) (Some Demoted_manually) detail now existing
                              (Some (actor, until)) (rungs st)\<rparr>;
           (suspended, gs) = suspendGrantsFor w cls detail now (grants (desk st1));
           st2 = st1\<lparr>desk := (desk st1)\<lparr>grants := gs\<rparr>\<rparr>;
           (notified, st3) = send_notice w (demotion_notice e Demoted_manually detail suspended now) st2;
           next = evaluateLadder (rungFor False e) e (isAutonomyEligible cls) False
                    (activeHold (Some until) (Some actor) now)
       in (case ladderStateFor lc cls now st3 of
             Inl err \<Rightarrow> Inl err
           | Inr view \<Rightarrow>
               Inr \<lparr>md_state = view, md_grantsSuspended = suspended, md_notified = notified,
                    md_manualHoldUntil = until,
                    md_rungMayBeRestored = (case next of Promote _ \<Rightarrow> True | _ \<Rightarrow> False)\<rparr>,
           st3))"

section \<open>Lemmas\<close>

subsection \<open>Evidence\<close>

lemma evidence_adds [simp]:
  "ev_actionClass (add_lifetime_proposals p e) = ev_actionClass e"
  "ev_actionClass (add_lifetime_approvals a e) = ev_actionClass e"
  "ev_actionClass (add_recent_proposals p e) = ev_actionClass e"
  "ev_actionClass (add_recent_approvals a e) = ev_actionClass e"
  "ev_actionClass (finish_evidence e) = ev_actionClass e"
  by (simp_all add: add_lifetime_proposals_def add_lifetime_approvals_def add_recent_proposals_def
      add_recent_approvals_def finish_evidence_def)

lemma pour_distinct:
  assumes "\<And>row e. ev_actionClass (add row e) = ev_actionClass e" "distinct (map ev_actionClass bs)"
  shows "distinct (map ev_actionClass (pour cls add rows bs))"
  unfolding pour_def
  by (rule fold_upsert_distinct) (simp_all only: assms evidence_class_sel)

lemma ladder_classes_distinct: "distinct LADDER_CLASSES"
  by (simp add: LADDER_CLASSES_def ACTION_CLASSES_def)

lemma evidence_buckets_distinct: "distinct (map ev_actionClass (evidence_buckets lc now dl rows))"
  unfolding evidence_buckets_def Let_def
  by (intro pour_distinct evidence_adds) (simp add: comp_def ladder_classes_distinct)

lemma gatherEvidence_distinct: "distinct (map ev_actionClass (gatherEvidence lc now st))"
proof -
  have "distinct (map ev_actionClass (map finish_evidence (evidence_buckets lc now (dlog st) (approvals (desk st)))))"
    using evidence_buckets_distinct by (simp add: comp_def)
  then show ?thesis unfolding gatherEvidence_def
    by (metis mset_js_sort mset_map mset_eq_imp_distinct_iff)
qed

lemma gatherEvidence_cong:
  "dlog st' = dlog st \<Longrightarrow> approvals (desk st') = approvals (desk st) \<Longrightarrow>
   gatherEvidence lc now st' = gatherEvidence lc now st"
  by (simp add: gatherEvidence_def)

subsection \<open>One row\<close>

lemma changed_row_sel [simp]:
  "ps_actionClass (changed_row e rung reason detail now human r) = ps_actionClass r"
  "ps_rung (changed_row e rung reason detail now human r) = rung"
  "ps_changeReason (changed_row e rung reason detail now human r) = reason"
  "ps_evidence (changed_row e rung reason detail now human r) = Some e"
  "ps_changedById (changed_row e rung reason detail now human r) = map_option fst human"
  "ps_manualHoldUntil (changed_row e rung reason detail now human r) =
     (case human of None \<Rightarrow> ps_manualHoldUntil r | Some h \<Rightarrow> Some (snd h))"
  "ps_demotionCount (changed_row e rung reason detail now human r) = ps_demotionCount r"
  by (simp_all add: changed_row_def)

lemma blank_row_sel [simp]:
  "ps_actionClass (blank_row cls) = cls" "ps_manualHoldUntil (blank_row cls) = None"
  "ps_demotionCount (blank_row cls) = 0" "ps_rung (blank_row cls) = Observe"
  by (simp_all add: blank_row_def)

lemma find_rung_SomeD: "find_rung cls rows = Some r \<Longrightarrow> r \<in> set rows \<and> ps_actionClass r = cls"
  unfolding find_rung_def by (rule find_Some_iff_mem)

lemma find_rung_None_iff: "find_rung cls rows = None \<longleftrightarrow> cls \<notin> ps_actionClass ` set rows"
  by (auto simp: find_rung_def find_None_iff)

lemma find_rung_mem:
  assumes "distinct (map ps_actionClass rows)" "r \<in> set rows"
  shows "find_rung (ps_actionClass r) rows = Some r"
  using assms by (induction rows) (auto simp: find_rung_def)

text \<open>What a change makes of the row of its class.\<close>

definition row_after ::
  "class_evidence \<Rightarrow> promotion_rung \<Rightarrow> promotion_change_reason option \<Rightarrow> ladder_detail \<Rightarrow> instant \<Rightarrow>
   promotion_row option \<Rightarrow> (string \<times> instant) option \<Rightarrow> promotion_row" where
  "row_after e rung reason detail now existing human =
    (let r = (case existing of None \<Rightarrow> blank_row (ev_actionClass e) | Some r \<Rightarrow> r)
     in (changed_row e rung reason detail now human r)
          \<lparr>ps_demotionCount := ps_demotionCount r + (if demoting reason then 1 else 0)\<rparr>)"

lemma row_after_sel [simp]:
  "ps_rung (row_after e rung reason detail now existing human) = rung"
  "ps_changeReason (row_after e rung reason detail now existing human) = reason"
  "ps_evidence (row_after e rung reason detail now existing human) = Some e"
  "ps_changedById (row_after e rung reason detail now existing human) = map_option fst human"
  "ps_manualHoldUntil (row_after e rung reason detail now existing human) =
     (case human of Some h \<Rightarrow> Some (snd h)
      | None \<Rightarrow> (case existing of None \<Rightarrow> None | Some r \<Rightarrow> ps_manualHoldUntil r))"
  by (simp_all add: row_after_def Let_def split: option.splits)

lemma find_rung_upd:
  assumes "\<And>r. ps_actionClass (f r) = ps_actionClass r"
  shows "find_rung c (map (\<lambda>r. if ps_actionClass r = k then f r else r) rows) =
    (if c = k then map_option f (find_rung c rows) else find_rung c rows)"
  by (induction rows) (auto simp: find_rung_def assms)

lemma find_rung_snoc:
  "find_rung c (rows @ [r]) =
    (case find_rung c rows of Some x \<Rightarrow> Some x | None \<Rightarrow> if ps_actionClass r = c then Some r else None)"
  by (induction rows) (auto simp: find_rung_def)

lemma find_rung_persist:
  assumes "existing = find_rung (ev_actionClass e) rows"
  shows "find_rung c (persist_rung e rung reason detail now existing human rows) =
    (if c = ev_actionClass e then Some (row_after e rung reason detail now existing human)
     else find_rung c rows)"
proof (cases existing)
  case None
  then show ?thesis using assms
    by (auto simp: persist_rung_def find_rung_snoc row_after_def Let_def split: option.splits)
next
  case (Some x)
  let ?f = "\<lambda>r. if demoting reason
      then (changed_row e rung reason detail now human r)\<lparr>ps_demotionCount := ps_demotionCount x + 1\<rparr>
      else changed_row e rung reason detail now human r"
  have "persist_rung e rung reason detail now existing human rows =
      map (\<lambda>r. if ps_actionClass r = ev_actionClass e then ?f r else r) rows"
    using Some assms unfolding persist_rung_def Let_def by (simp only: option.case)
  moreover have "find_rung c (map (\<lambda>r. if ps_actionClass r = ev_actionClass e then ?f r else r) rows) =
      (if c = ev_actionClass e then map_option ?f (find_rung c rows) else find_rung c rows)"
    by (rule find_rung_upd) simp
  moreover have "?f x = row_after e rung reason detail now existing human"
    using Some by (simp add: row_after_def changed_row_def)
  ultimately show ?thesis using Some assms by auto
qed

lemma persist_distinct:
  assumes "distinct (map ps_actionClass rows)"
  shows "distinct (map ps_actionClass (persist_rung e rung reason detail now existing human rows))"
proof (cases "find_rung (ev_actionClass e) rows")
  case None
  then have "ev_actionClass e \<notin> ps_actionClass ` set rows" by (simp add: find_rung_None_iff)
  with None assms show ?thesis by (simp add: persist_rung_def Let_def)
next
  case (Some x)
  have "map ps_actionClass (persist_rung e rung reason detail now existing human rows) = map ps_actionClass rows"
    using Some by (simp add: persist_rung_def Let_def)
  with assms show ?thesis by metis
qed

subsection \<open>The evaluation of a class\<close>

text \<open>What the evaluation decides to write for a class, if anything.\<close>

definition rung_write ::
  "bool \<Rightarrow> instant \<Rightarrow> promotion_row option \<Rightarrow> class_evidence \<Rightarrow>
   (promotion_rung \<times> promotion_change_reason option \<times> ladder_detail) option" where
  "rung_write paused now existing item =
    (case evaluateLadder (rung_of existing) item (isAutonomyEligible (ev_actionClass item)) paused
            (hold_of existing now) of
       Promote d \<Rightarrow> Some (Promoted, Some Promoted_on_evidence, d)
     | Demote reason d \<Rightarrow> Some (rungFor False item, Some reason, d)
     | Hold d \<Rightarrow>
         let target = rungFor (rung_of existing = Promoted) item in
         if target = rung_of existing then None else Some (target, None, d))"

definition evaluated_row :: "bool \<Rightarrow> instant \<Rightarrow> promotion_row option \<Rightarrow> class_evidence \<Rightarrow> promotion_row option" where
  "evaluated_row paused now existing item =
    (case rung_write paused now existing item of
       None \<Rightarrow> existing
     | Some (rung, reason, d) \<Rightarrow> Some (row_after item rung reason d now existing None))"

lemma send_notice_sel [simp]:
  "rungs (snd (send_notice w n st)) = rungs st" "desk (snd (send_notice w n st)) = desk st"
  "dlog (snd (send_notice w n st)) = dlog st"
  by (simp_all add: send_notice_def)

lemma evaluate_class_rungs:
  "rungs (snd (evaluate_class w now states item st)) =
    (case rung_write (\<not> lw_enabled w) now (find_rung (ev_actionClass item) states) item of
       None \<Rightarrow> rungs st
     | Some (rung, reason, d) \<Rightarrow>
         persist_rung item rung reason d now (find_rung (ev_actionClass item) states) None (rungs st))"
  by (cases "evaluateLadder (rung_of (find_rung (ev_actionClass item) states)) item
        (isAutonomyEligible (ev_actionClass item)) (\<not> lw_enabled w)
        (hold_of (find_rung (ev_actionClass item) states) now)")
     (simp_all add: evaluate_class_def rung_write_def Let_def split_beta)

lemma evaluate_class_keeps [simp]:
  "dlog (snd (evaluate_class w now states item st)) = dlog st"
  "approvals (desk (snd (evaluate_class w now states item st))) = approvals (desk st)"
  "audit (desk (snd (evaluate_class w now states item st))) = audit (desk st)"
  "escalations (desk (snd (evaluate_class w now states item st))) = escalations (desk st)"
  "notices (desk (snd (evaluate_class w now states item st))) = notices (desk st)"
  by (simp_all add: evaluate_class_def Let_def split_beta split: ladder_verdict.splits)

lemma evaluate_class_idle:
  assumes "rung_write (\<not> lw_enabled w) now (find_rung (ev_actionClass item) states) item = None"
  shows "\<exists>h. evaluate_class w now states item st = (Inl h, st)"
  using assms
  by (auto simp: evaluate_class_def rung_write_def Let_def split: ladder_verdict.splits if_splits)

lemma evaluate_all_keeps [simp]:
  "dlog (snd (evaluate_all w now states items st)) = dlog st"
  "approvals (desk (snd (evaluate_all w now states items st))) = approvals (desk st)"
  by (induction items arbitrary: st) (simp_all add: split_beta Let_def)

lemma evaluate_all_idle:
  assumes "\<And>item. item \<in> set items \<Longrightarrow>
    rung_write (\<not> lw_enabled w) now (find_rung (ev_actionClass item) states) item = None"
  shows "\<exists>holds. evaluate_all w now states items st = (([], holds), st)"
  using assms
proof (induction items)
  case (Cons item items)
  obtain h where "evaluate_class w now states item st = (Inl h, st)"
    using evaluate_class_idle Cons.prems by (metis list.set_intros(1))
  moreover obtain holds where "evaluate_all w now states items st = (([], holds), st)"
    using Cons.IH Cons.prems by (metis list.set_intros(2))
  ultimately show ?case by simp
qed simp

lemma find_rung_evaluate_class:
  assumes "find_rung (ev_actionClass item) (rungs st) = find_rung (ev_actionClass item) states"
  shows "find_rung c (rungs (snd (evaluate_class w now states item st))) =
    (if c = ev_actionClass item then evaluated_row (\<not> lw_enabled w) now (find_rung c states) item
     else find_rung c (rungs st))"
  using assms
  by (auto simp: evaluate_class_rungs evaluated_row_def find_rung_persist split: option.splits)

text \<open>After the loop every class has the row its own evidence and its own old row decide.\<close>

lemma find_rung_evaluate_all:
  assumes "distinct (map ev_actionClass items)"
    "\<And>item. item \<in> set items \<Longrightarrow>
      find_rung (ev_actionClass item) (rungs st) = find_rung (ev_actionClass item) states"
  shows "find_rung c (rungs (snd (evaluate_all w now states items st))) =
    (case evidence_for c items of
       None \<Rightarrow> find_rung c (rungs st)
     | Some item \<Rightarrow> evaluated_row (\<not> lw_enabled w) now (find_rung c states) item)"
  using assms
proof (induction items arbitrary: st)
  case (Cons item items)
  let ?st1 = "snd (evaluate_class w now states item st)"
  have here: "find_rung d (rungs ?st1) =
      (if d = ev_actionClass item then evaluated_row (\<not> lw_enabled w) now (find_rung d states) item
       else find_rung d (rungs st))" for d
    using find_rung_evaluate_class[of item st states d w now] Cons.prems(2)[of item] by simp
  have "find_rung (ev_actionClass i) (rungs ?st1) = find_rung (ev_actionClass i) states" if "i \<in> set items" for i
  proof -
    have "ev_actionClass i \<noteq> ev_actionClass item" using Cons.prems(1) that by (simp, metis image_eqI)
    then show ?thesis using here[of "ev_actionClass i"] Cons.prems(2)[of i] that by simp
  qed
  then have rest: "find_rung c (rungs (snd (evaluate_all w now states items ?st1))) =
      (case evidence_for c items of
         None \<Rightarrow> find_rung c (rungs ?st1)
       | Some i \<Rightarrow> evaluated_row (\<not> lw_enabled w) now (find_rung c states) i)"
    using Cons.IH[of ?st1] Cons.prems(1) by simp
  have step: "rungs (snd (evaluate_all w now states (item # items) st)) =
      rungs (snd (evaluate_all w now states items ?st1))"
    by (simp add: split_beta Let_def)
  show ?case
  proof (cases "ev_actionClass item = c")
    case True
    then have "evidence_for c items = None"
      using Cons.prems(1) by (simp add: evidence_for_def find_None_iff) (metis image_eqI)
    then show ?thesis unfolding step rest using True here[of c] by (simp add: evidence_for_def)
  next
    case False
    then have "find_rung c (rungs ?st1) = find_rung c (rungs st)"
      "evidence_for c (item # items) = evidence_for c items"
      using here[of c] by (auto simp: evidence_for_def)
    then show ?thesis unfolding step rest by (simp only:)
  qed
qed (simp add: evidence_for_def)

lemma evaluate_snd: "snd (evaluate lc w now st) = snd (evaluate_all w now (rungs st) (gatherEvidence lc now st) st)"
  by (simp add: evaluate_def split_beta Let_def)

lemma find_rung_evaluate:
  "find_rung c (rungs (snd (evaluate lc w now st))) =
    (case evidence_for c (gatherEvidence lc now st) of
       None \<Rightarrow> find_rung c (rungs st)
     | Some item \<Rightarrow> evaluated_row (\<not> lw_enabled w) now (find_rung c (rungs st)) item)"
  unfolding evaluate_snd by (rule find_rung_evaluate_all) (simp_all add: gatherEvidence_distinct)

lemma evidence_for_mem:
  assumes "item \<in> set (gatherEvidence lc now st)"
  shows "evidence_for (ev_actionClass item) (gatherEvidence lc now st) = Some item"
proof -
  have "distinct (map ev_actionClass es) \<Longrightarrow> item \<in> set es \<Longrightarrow>
      find (\<lambda>e. ev_actionClass e = ev_actionClass item) es = Some item" for es
    by (induction es) auto
  with assms gatherEvidence_distinct show ?thesis unfolding evidence_for_def by blast
qed

text \<open>The rung the rules give a class.\<close>

definition next_promoted :: "bool \<Rightarrow> instant \<Rightarrow> promotion_row option \<Rightarrow> class_evidence \<Rightarrow> bool" where
  "next_promoted paused now existing e \<longleftrightarrow>
    (if \<not> isAutonomyEligible (ev_actionClass e) then False
     else if paused then rung_of existing = Promoted
     else if rung_of existing = Promoted then \<not> isRegressing e
     else hold_of existing now = None \<and> clears_bar e \<and> \<not> isRegressing e)"

lemma rung_write_rung:
  "rungFor (next_promoted paused now existing item) item =
   (case rung_write paused now existing item of None \<Rightarrow> rung_of existing | Some (rung, _) \<Rightarrow> rung)"
proof -
  let ?v = "evaluateLadder (rung_of existing) item (isAutonomyEligible (ev_actionClass item)) paused (hold_of existing now)"
  have "next_promoted paused now existing item \<longleftrightarrow>
      (case ?v of Promote _ \<Rightarrow> True | Demote _ _ \<Rightarrow> False | Hold _ \<Rightarrow> rung_of existing = Promoted)"
    unfolding verdict_rung next_promoted_def ..
  then show ?thesis by (cases ?v) (auto simp: rung_write_def Let_def)
qed

lemma evaluated_row_rung:
  "rung_of (evaluated_row paused now existing item) = rungFor (next_promoted paused now existing item) item"
  unfolding rung_write_rung by (auto simp: evaluated_row_def rung_of_def split: option.splits)

text \<open>A second evaluation of what an evaluation wrote finds nothing to write.\<close>

lemma hold_of_evaluated: "hold_of (evaluated_row paused now existing item) now = None \<longleftrightarrow> hold_of existing now = None"
  by (auto simp: evaluated_row_def hold_of_def activeHold_def split: option.splits)

lemma next_promoted_again:
  "next_promoted paused now (evaluated_row paused now existing item) item = next_promoted paused now existing item"
  unfolding next_promoted_def[of paused now "evaluated_row paused now existing item"]
    evaluated_row_rung rungFor_iff hold_of_evaluated
  by (auto simp: next_promoted_def)

lemma evaluated_row_settled:
  "rung_write paused now (evaluated_row paused now existing item) item = None"
proof -
  let ?r = "evaluated_row paused now existing item"
  let ?v = "evaluateLadder (rung_of ?r) item (isAutonomyEligible (ev_actionClass item)) paused (hold_of ?r now)"
  have rung: "rung_of ?r = rungFor (next_promoted paused now existing item) item"
    by (rule evaluated_row_rung)
  have "?v \<noteq> Promote d" for d
  proof
    assume "?v = Promote d"
    then have "\<not> next_promoted paused now existing item" "isAutonomyEligible (ev_actionClass item)" "\<not> paused"
        "hold_of existing now = None" "clears_bar item" "\<not> isRegressing item"
      using promote_iff[of "rung_of ?r" item "isAutonomyEligible (ev_actionClass item)" paused "hold_of ?r now"]
      unfolding rung rungFor_iff hold_of_evaluated by blast+
    then show False by (auto simp: next_promoted_def split: if_splits)
  qed
  moreover have "?v \<noteq> Demote reason d" for reason d
  proof
    assume "?v = Demote reason d"
    from demote_iff[OF this] show False
      unfolding rung rungFor_iff by (auto simp only: next_promoted_def simp_thms if_True if_False split: if_splits)
  qed
  ultimately obtain d where v: "?v = Hold d" by (meson ladder_verdict.exhaust)
  have "rung_write paused now ?r item =
      (if rungFor (rung_of ?r = Promoted) item = rung_of ?r then None
       else Some (rungFor (rung_of ?r = Promoted) item, None, d))"
    unfolding rung_write_def v Let_def by (simp only: ladder_verdict.case)
  moreover have "rungFor (rung_of ?r = Promoted) item = rung_of ?r"
    unfolding rung rungFor_iff ..
  ultimately show ?thesis by (simp only: if_True refl)
qed

subsection \<open>Suspending grants\<close>

lemma suspend_each_active:
  "g' \<in> set (snd (suspend_each writable detail now gids rows)) \<Longrightarrow> tg_status g' = Grant_active \<Longrightarrow>
   g' \<in> set rows \<and> (\<forall>gid \<in> set gids. writable gid \<longrightarrow> tg_id g' \<noteq> gid)"
proof (induction gids arbitrary: rows)
  case (Cons gid gids)
  show ?case
  proof (cases "writable gid")
    case True
    let ?rows1 = "snd (suspend gid Class_demoted detail now rows)"
    have "g' \<in> set ?rows1 \<and> (\<forall>i \<in> set gids. writable i \<longrightarrow> tg_id g' \<noteq> i)"
      using Cons True by (simp add: split_beta Let_def)
    moreover have "g' \<in> set ?rows1 \<Longrightarrow> g' \<in> set rows \<and> tg_id g' \<noteq> gid"
      using Cons.prems(2) by (auto simp: suspend_def active_grant_def update_many_def Let_def split: if_splits)
    ultimately show ?thesis by auto
  qed (use Cons in simp)
qed simp

text \<open>No active grant of a demoted class is left, and none of another class appears.\<close>

lemma suspendGrantsFor_active:
  assumes "g \<in> set (snd (suspendGrantsFor w cls detail now rows))" "tg_status g = Grant_active"
  shows "g \<in> set rows" "lw_grantsReadable w cls \<Longrightarrow> (\<And>gid. lw_grantWritable w gid) \<Longrightarrow> tg_actionClass g \<noteq> cls"
proof -
  let ?ids = "map tg_id (filter (\<lambda>g. tg_actionClass g = cls \<and> tg_status g = Grant_active) rows)"
  note each = suspend_each_active[of g "lw_grantWritable w" "Class_was_demoted cls detail" now ?ids rows]
  show mem: "g \<in> set rows"
  proof (cases "lw_grantsReadable w cls")
    case True
    with assms(1) have "g \<in> set (snd (suspend_each (lw_grantWritable w) (Class_was_demoted cls detail) now ?ids rows))"
      by (simp add: suspendGrantsFor_def)
    then show ?thesis using each assms(2) by blast
  qed (use assms(1) in \<open>simp add: suspendGrantsFor_def\<close>)
  assume readable: "lw_grantsReadable w cls" and writable: "\<And>gid. lw_grantWritable w gid"
  from readable assms(1) have "g \<in> set (snd (suspend_each (lw_grantWritable w) (Class_was_demoted cls detail) now ?ids rows))"
    by (simp add: suspendGrantsFor_def)
  with each assms(2) writable have "tg_id g \<notin> set ?ids" by blast
  then show "tg_actionClass g \<noteq> cls" using mem assms(2) by auto
qed

lemma evaluate_class_grants:
  "grants (desk (snd (evaluate_class w now states item st))) =
    (case evaluateLadder (rung_of (find_rung (ev_actionClass item) states)) item
        (isAutonomyEligible (ev_actionClass item)) (\<not> lw_enabled w)
        (hold_of (find_rung (ev_actionClass item) states) now) of
       Demote reason d \<Rightarrow> snd (suspendGrantsFor w (ev_actionClass item) d now (grants (desk st)))
     | _ \<Rightarrow> grants (desk st))"
  by (cases "evaluateLadder (rung_of (find_rung (ev_actionClass item) states)) item
        (isAutonomyEligible (ev_actionClass item)) (\<not> lw_enabled w)
        (hold_of (find_rung (ev_actionClass item) states) now)")
     (simp_all add: evaluate_class_def Let_def split_beta)

lemma evaluate_class_change:
  assumes "fst (evaluate_class w now states item st) = Inr c"
  shows "lc_actionClass c = ev_actionClass item \<and>
    lc_reason c = (case evaluateLadder (rung_of (find_rung (ev_actionClass item) states)) item
        (isAutonomyEligible (ev_actionClass item)) (\<not> lw_enabled w)
        (hold_of (find_rung (ev_actionClass item) states) now) of
       Promote _ \<Rightarrow> Some Promoted_on_evidence | Demote reason _ \<Rightarrow> Some reason | Hold _ \<Rightarrow> None)"
  using assms
  by (cases "evaluateLadder (rung_of (find_rung (ev_actionClass item) states)) item
        (isAutonomyEligible (ev_actionClass item)) (\<not> lw_enabled w)
        (hold_of (find_rung (ev_actionClass item) states) now)")
     (auto simp: evaluate_class_def Let_def split_beta split: if_splits)

lemma evaluate_class_active:
  assumes "g \<in> set (grants (desk (snd (evaluate_class w now states item st))))" "tg_status g = Grant_active"
  shows "g \<in> set (grants (desk st))"
  using assms suspendGrantsFor_active(1) unfolding evaluate_class_grants
  by (auto split: ladder_verdict.splits)

lemma evaluate_all_active:
  "g \<in> set (grants (desk (snd (evaluate_all w now states items st)))) \<Longrightarrow> tg_status g = Grant_active \<Longrightarrow>
   g \<in> set (grants (desk st))"
proof (induction items arbitrary: st)
  case (Cons item items)
  then show ?case
    using evaluate_class_active[of g w now states item st]
    by (auto simp: split_beta Let_def)
qed simp

lemma evaluate_all_demoted:
  assumes "c \<in> set (fst (fst (evaluate_all w now states items st)))" "demoting (lc_reason c)"
    "lw_grantsReadable w (lc_actionClass c)" "\<And>gid. lw_grantWritable w gid"
    "g \<in> set (grants (desk (snd (evaluate_all w now states items st))))" "tg_status g = Grant_active"
  shows "tg_actionClass g \<noteq> lc_actionClass c"
  using assms(1,5)
proof (induction items arbitrary: st)
  case (Cons item items)
  let ?st1 = "snd (evaluate_class w now states item st)"
  have g: "g \<in> set (grants (desk (snd (evaluate_all w now states items ?st1))))"
    using Cons.prems(2) by (simp add: split_beta Let_def)
  show ?case
  proof (cases "c \<in> set (fst (fst (evaluate_all w now states items ?st1)))")
    case True
    then show ?thesis using Cons.IH g by blast
  next
    case False
    then have "fst (evaluate_class w now states item st) = Inr c"
      using Cons.prems(1) by (auto simp: split_beta Let_def split: sum.splits)
    from evaluate_class_change[OF this] assms(2) obtain detail where
      "grants (desk ?st1) = snd (suspendGrantsFor w (lc_actionClass c) detail now (grants (desk st)))"
      unfolding evaluate_class_grants by (auto simp: demoting_def split: ladder_verdict.splits)
    then show ?thesis
      using suspendGrantsFor_active(2)[of g w "lc_actionClass c" detail now "grants (desk st)"]
        evaluate_all_active[OF g assms(6)] assms(3,4,6) by simp
  qed
qed simp

end
