(* ===== verification/Promotion_Ladder.thy ===== *)
theory Promotion_Ladder
  imports Promotion
begin

text \<open>
  The ladder proved: what its evidence counts, and the ladder over time beside the approvals and the
  log (the relation \<open>ladder_at\<close>), with the invariant of the rungs, the hold a human places, and the
  table as a row history.
\<close>

section \<open>Evidence\<close>

subsection \<open>What the rates count\<close>

definition count_of :: "approval_group \<Rightarrow> class_rates \<Rightarrow> class_rates" where
  "count_of g = count_group (fst (snd (fst g))) (snd (snd (fst g))) (snd g)"

lemma add_group_upsert: "add_group g = upsert cr_actionClass emptyRates (fst (fst g)) (count_of g)"
proof -
  obtain cls status via n where "g = ((cls, status, via), n)" by (metis prod.exhaust)
  then show ?thesis by (simp add: count_of_def fun_eq_iff)
qed

lemma count_group_class [simp]: "cr_actionClass (count_group s v n b) = cr_actionClass b"
  by (cases s) simp_all

lemma rates_class [simp]:
  "cr_actionClass (emptyRates cls) = cls" "cr_actionClass (finish_rates b) = cr_actionClass b"
  "cr_approved (finish_rates b) = cr_approved b" "cr_denied (finish_rates b) = cr_denied b"
  by (simp_all add: emptyRates_def finish_rates_def Let_def)

lemma count_of_verdicts:
  "cr_approved (count_of g b) = cr_approved b + (if snd (fst g) = (Ap_approved, Some By_human) then snd g else 0)"
  "cr_denied (count_of g b) = cr_denied b + (if snd (fst g) = (Ap_denied, Some By_human) then snd g else 0)"
  unfolding count_of_def
  by (cases "fst (snd (fst g))"; cases "snd (fst g)"; simp)+

lemma approval_bucket_counter:
  assumes "\<And>g b. m (count_of g b) = m b + (if snd (fst g) = v then snd g else 0)" "\<And>cls. m (emptyRates cls) = 0"
  shows "m (bucket_of cr_actionClass emptyRates cls (fold add_group (approval_groups since rows) [])) =
    length (filter (\<lambda>a. ap_actionClass a = cls \<and> (ap_status a, ap_decidedVia a) = v \<and> since \<le> ap_createdAt a) rows)"
proof -
  let ?recent = "filter (\<lambda>a. since \<le> ap_createdAt a) rows"
  let ?gs = "group_counts (map group_key ?recent)"
  have groups: "fold add_group (approval_groups since rows) [] =
      fold (\<lambda>g. upsert cr_actionClass emptyRates (fst (fst g)) (count_of g)) ?gs []"
    by (simp add: approval_groups_def add_group_upsert[abs_def])
  have "m (bucket_of cr_actionClass emptyRates cls (fold add_group (approval_groups since rows) [])) =
      m (fold (\<lambda>g b. if fst (fst g) = cls then count_of g b else b) ?gs (emptyRates cls))"
    unfolding groups by (subst bucket_of_fold) (simp_all add: count_of_def bucket_of_def)
  also have "\<dots> = sum_list (map (\<lambda>g. if snd (fst g) = v then snd g else 0) (filter (\<lambda>g. fst (fst g) = cls) ?gs))"
    by (subst fold_counter[of m, OF assms(1)]) (simp add: assms(2))
  also have "\<dots> = sum_list (map (\<lambda>g. if (\<lambda>k. fst k = cls \<and> snd k = v) (fst g) then snd g else 0) ?gs)"
    by (rule sum_filter_if)
  also have "\<dots> = length (filter (\<lambda>k. fst k = cls \<and> snd k = v) (map group_key ?recent))"
    by (rule sum_group_counts)
  also have "\<dots> = length (filter (\<lambda>a. ap_actionClass a = cls \<and> (ap_status a, ap_decidedVia a) = v \<and>
      since \<le> ap_createdAt a) rows)"
    by (auto simp: filter_map comp_def group_key_def intro!: arg_cong[where f = length] filter_cong)
  finally show ?thesis .
qed

lemma approval_buckets_distinct: "distinct (map cr_actionClass (fold add_group gs []))"
  unfolding add_group_upsert[abs_def]
  by (rule fold_upsert_distinct) (simp_all add: count_of_def)

text \<open>What one source adds to a counter of the class's evidence is its own count for the class.\<close>

lemma pour_counter:
  assumes "\<And>row e. m (add row e) = m e + d row" "\<And>row e. ev_actionClass (add row e) = ev_actionClass e"
    "distinct (map key rows)" "d (new cls) = 0"
  shows "m (bucket_of ev_actionClass emptyEvidence cls (pour key add rows bs)) =
    m (bucket_of ev_actionClass emptyEvidence cls bs) + (d (bucket_of key new cls rows) :: nat)"
proof -
  have "m (bucket_of ev_actionClass emptyEvidence cls (pour key add rows bs)) =
      m (fold (\<lambda>row e. if key row = cls then add row e else e) rows (bucket_of ev_actionClass emptyEvidence cls bs))"
    unfolding pour_def by (subst bucket_of_fold) (simp_all add: assms(2))
  also have "\<dots> = m (bucket_of ev_actionClass emptyEvidence cls bs) + sum_list (map d (filter (\<lambda>row. key row = cls) rows))"
    by (rule fold_counter) (rule assms(1))
  also have "sum_list (map d (filter (\<lambda>row. key row = cls) rows)) = d (bucket_of key new cls rows)"
    using sum_under_key[of key rows d new cls] assms(3,4) by simp
  finally show ?thesis .
qed

lemma bucket_of_map_counter:
  assumes "\<And>b. key (g b) = key b" "\<And>b. m (g b) = m b"
  shows "m (bucket_of key new k (map g bs)) = m (bucket_of key new k bs)"
  by (induction bs) (simp_all add: bucket_of_def assms)

lemma distinct_map_sort: "distinct (map f (js_sort cmp xs)) \<longleftrightarrow> distinct (map f xs)"
  by (metis mset_js_sort mset_map mset_eq_imp_distinct_iff)

text \<open>The human verdicts on a class.\<close>

definition human_verdicts :: "approval_status \<Rightarrow> string \<Rightarrow> instant \<Rightarrow> approval_row list \<Rightarrow> nat" where
  "human_verdicts s cls since rows =
    length (filter (\<lambda>a. ap_actionClass a = cls \<and> ap_status a = s \<and> ap_decidedVia a = Some By_human \<and>
                         since \<le> ap_createdAt a) rows)"

lemma approval_rates_bucket:
  "cr_approved (bucket_of cr_actionClass emptyRates cls (approvalRatesByClass lc days now rows)) =
     human_verdicts Ap_approved cls (now - days * 24 * 60 * 60 * 1000) rows"
  "cr_denied (bucket_of cr_actionClass emptyRates cls (approvalRatesByClass lc days now rows)) =
     human_verdicts Ap_denied cls (now - days * 24 * 60 * 60 * 1000) rows"
proof -
  let ?since = "now - days * 24 * 60 * 60 * 1000"
  let ?bs = "fold add_group (approval_groups ?since rows) []"
  let ?under = "bucket_of cr_actionClass emptyRates cls"
  have dist: "distinct (map cr_actionClass (map finish_rates ?bs))"
    using approval_buckets_distinct by (simp add: comp_def)
  have sorted: "?under (approvalRatesByClass lc days now rows) = ?under (map finish_rates ?bs)"
    unfolding approvalRatesByClass_def by (rule bucket_of_sort[OF dist])
  show "cr_approved (?under (approvalRatesByClass lc days now rows)) = human_verdicts Ap_approved cls ?since rows"
    unfolding sorted bucket_of_map_counter[where key = cr_actionClass and g = finish_rates and m = cr_approved, OF rates_class(2) rates_class(3)] human_verdicts_def
    by (subst approval_bucket_counter[of cr_approved "(Ap_approved, Some By_human)"])
       (simp_all add: count_of_verdicts emptyRates_def conj_ac)
  show "cr_denied (?under (approvalRatesByClass lc days now rows)) = human_verdicts Ap_denied cls ?since rows"
    unfolding sorted bucket_of_map_counter[where key = cr_actionClass and g = finish_rates and m = cr_denied, OF rates_class(2) rates_class(4)] human_verdicts_def
    by (subst approval_bucket_counter[of cr_denied "(Ap_denied, Some By_human)"])
       (simp_all add: count_of_verdicts emptyRates_def conj_ac)
qed

lemma proposal_rates_bucket:
  "ar_wouldApprove (bucket_of ar_actionClass no_rates cls (approvalRates lc since dl)) =
     judged Would_approve cls (since_filter since (proposals dl))"
  "ar_wouldReject (bucket_of ar_actionClass no_rates cls (approvalRates lc since dl)) =
     judged Would_reject cls (since_filter since (proposals dl))"
proof -
  let ?bs = "rate_buckets since (proposals dl)"
  let ?under = "bucket_of ar_actionClass no_rates cls"
  have dist: "distinct (map ar_actionClass (map finish_rate ?bs))"
    using rate_buckets_distinct by (simp add: comp_def)
  have sorted: "?under (approvalRates lc since dl) = ?under (map finish_rate ?bs)"
    unfolding approvalRates_def by (rule bucket_of_sort[OF dist])
  show "ar_wouldApprove (?under (approvalRates lc since dl)) = judged Would_approve cls (since_filter since (proposals dl))"
    unfolding sorted bucket_of_map_counter[where key = ar_actionClass and g = finish_rate and m = ar_wouldApprove, OF finish_rate_sel(1) finish_rate_sel(2)]
    by (rule bucket_counter) (simp_all add: count_proposals_judged no_rates_def)
  show "ar_wouldReject (?under (approvalRates lc since dl)) = judged Would_reject cls (since_filter since (proposals dl))"
    unfolding sorted bucket_of_map_counter[where key = ar_actionClass and g = finish_rate and m = ar_wouldReject, OF finish_rate_sel(1) finish_rate_sel(3)]
    by (rule bucket_counter) (simp_all add: count_proposals_judged no_rates_def)
qed

lemma rates_distinct:
  "distinct (map cr_actionClass (approvalRatesByClass lc days now rows))"
  "distinct (map ar_actionClass (approvalRates lc since dl))"
  using approval_buckets_distinct rate_buckets_distinct
  by (simp_all add: approvalRatesByClass_def approvalRates_def distinct_map_sort comp_def)

text \<open>A counter of the evidence: what each of the four sources adds to it.\<close>

lemma evidence_counter:
  fixes m :: "class_evidence \<Rightarrow> nat"
  assumes "\<And>row e. m (add_lifetime_proposals row e) = m e + p row"
    "\<And>row e. m (add_lifetime_approvals row e) = m e + a row"
    "\<And>row e. m (add_recent_proposals row e) = m e + rp row"
    "\<And>row e. m (add_recent_approvals row e) = m e + ra row"
    "p (no_rates cls) = 0" "a (emptyRates cls) = 0" "rp (no_rates cls) = 0" "ra (emptyRates cls) = 0"
    "m (emptyEvidence cls) = 0"
  shows "m (bucket_of ev_actionClass emptyEvidence cls (evidence_buckets lc now dl rows)) =
    p (bucket_of ar_actionClass no_rates cls (approvalRates lc None dl)) +
    a (bucket_of cr_actionClass emptyRates cls (approvalRatesByClass lc LIFETIME_WINDOW_DAYS now rows)) +
    rp (bucket_of ar_actionClass no_rates cls
          (approvalRates lc (Some (now - REGRESSION_WINDOW_DAYS * 24 * 60 * 60 * 1000)) dl)) +
    ra (bucket_of cr_actionClass emptyRates cls (approvalRatesByClass lc REGRESSION_WINDOW_DAYS now rows))"
proof -
  have seed: "bucket_of ev_actionClass emptyEvidence cls (map emptyEvidence LADDER_CLASSES) = emptyEvidence cls"
    using bucket_of_seed[of ev_actionClass emptyEvidence cls "\<lambda>c. c" LADDER_CLASSES] by simp
  show ?thesis unfolding evidence_buckets_def Let_def
    by (simp only: pour_counter[where m = m and add = add_recent_approvals and d = ra and key = cr_actionClass and new = emptyRates,
        OF assms(4) evidence_adds(4) rates_distinct(1) assms(8)]
      pour_counter[where m = m and add = add_recent_proposals and d = rp and key = ar_actionClass and new = no_rates,
        OF assms(3) evidence_adds(3) rates_distinct(2) assms(7)]
      pour_counter[where m = m and add = add_lifetime_approvals and d = a and key = cr_actionClass and new = emptyRates,
        OF assms(2) evidence_adds(2) rates_distinct(1) assms(6)]
      pour_counter[where m = m and add = add_lifetime_proposals and d = p and key = ar_actionClass and new = no_rates,
        OF assms(1) evidence_adds(1) rates_distinct(2) assms(5)]
      seed assms(9) add_0 ac_simps)
qed

text \<open>Every write the evaluation decides is reported.\<close>

lemma evaluate_class_reports:
  assumes "rung_write (\<not> lw_enabled w) now (find_rung (ev_actionClass item) states) item = Some (g, h, d)"
  shows "\<exists>c. fst (evaluate_class w now states item st) = Inr c \<and> lc_actionClass c = ev_actionClass item \<and> lc_reason c = h"
  using assms
  by (cases "evaluateLadder (rung_of (find_rung (ev_actionClass item) states)) item
        (isAutonomyEligible (ev_actionClass item)) (\<not> lw_enabled w)
        (hold_of (find_rung (ev_actionClass item) states) now)")
     (auto simp: evaluate_class_def rung_write_def Let_def split_beta split: if_splits)

lemma evaluate_all_reports:
  assumes "item \<in> set items"
    "rung_write (\<not> lw_enabled w) now (find_rung (ev_actionClass item) states) item = Some (g, h, d)"
  shows "\<exists>c \<in> set (fst (fst (evaluate_all w now states items st))). lc_actionClass c = ev_actionClass item \<and> lc_reason c = h"
  using assms(1)
proof (induction items arbitrary: st)
  case (Cons i items)
  show ?case
  proof (cases "i = item")
    case True
    with evaluate_class_reports[OF assms(2), of st] show ?thesis by (auto simp: split_beta Let_def)
  next
    case False
    with Cons.prems have "item \<in> set items" by simp
    from Cons.IH[OF this, of "snd (evaluate_class w now states i st)"] show ?thesis
      by (auto simp: split_beta Let_def split: sum.splits)
  qed
qed simp

lemma evaluate_reports:
  assumes "item \<in> set (gatherEvidence lc now st)"
    "rung_write (\<not> lw_enabled w) now (find_rung (ev_actionClass item) (rungs st)) item = Some (g, h, d)"
  shows "\<exists>c \<in> set (er_changes (fst (evaluate lc w now st))). lc_actionClass c = ev_actionClass item \<and> lc_reason c = h"
  using evaluate_all_reports[OF assms, of st] by (simp add: evaluate_def split_beta Let_def)

lemma pour_keys:
  assumes "\<And>row e. ev_actionClass (add row e) = ev_actionClass e"
  shows "ev_actionClass ` set (pour key add rows bs) = ev_actionClass ` set bs \<union> key ` set rows"
  unfolding pour_def by (rule fold_upsert_keys) (simp_all add: assms)

text \<open>Every registered class has evidence, if only zeros.\<close>

lemma registered_class_has_evidence:
  assumes "cls \<in> set LADDER_CLASSES"
  obtains e where "e \<in> set (gatherEvidence lc now st)" "ev_actionClass e = cls"
proof -
  have "cls \<in> ev_actionClass ` set (evidence_buckets lc now (dlog st) (approvals (desk st)))"
    unfolding evidence_buckets_def Let_def
    by (simp only: pour_keys evidence_adds) (use assms in \<open>auto simp: image_image\<close>)
  then obtain b where "b \<in> set (evidence_buckets lc now (dlog st) (approvals (desk st)))" "ev_actionClass b = cls"
    by auto
  then have "finish_evidence b \<in> set (gatherEvidence lc now st)" "ev_actionClass (finish_evidence b) = cls"
    by (simp_all add: gatherEvidence_def)
  then show ?thesis by (rule that)
qed

lemma gathered_sums:
  assumes "e \<in> set (gatherEvidence lc now st)"
  shows "\<exists>b. e = finish_evidence b \<and>
    b = bucket_of ev_actionClass emptyEvidence (ev_actionClass e)
          (evidence_buckets lc now (dlog st) (approvals (desk st)))"
proof -
  obtain b where b: "b \<in> set (evidence_buckets lc now (dlog st) (approvals (desk st)))" "e = finish_evidence b"
    using assms by (auto simp: gatherEvidence_def)
  with bucket_of_mem[OF b(1) evidence_buckets_distinct, of emptyEvidence] show ?thesis by auto
qed

text \<open>The two tests, over the counts of gathered evidence.\<close>

lemma clears_bar_iff:
  "clears_bar (finish_evidence b) \<longleftrightarrow>
   20 \<le> ev_approved b + ev_rejected b \<and> 9 * ev_rejected b \<le> ev_approved b"
proof -
  have "clears_bar (finish_evidence b) \<longleftrightarrow>
      20 \<le> ev_approved b + ev_rejected b \<and> meetsPromotionRate (ev_approved b) (ev_rejected b)"
    by (simp add: clears_bar_def finish_evidence_def meetsPromotionRate_def MIN_SAMPLE_def)
  then show ?thesis by (auto simp: meets_iff)
qed

lemma isRegressing_iff:
  "isRegressing (finish_evidence b) \<longleftrightarrow>
   5 \<le> ev_recentApproved b + ev_recentRejected b \<and> 3 * ev_recentApproved b < 7 * ev_recentRejected b"
proof -
  let ?a = "ev_recentApproved b" and ?r = "ev_recentRejected b"
  have "((of_nat ?a :: rat) / of_nat (?a + ?r) < 7 / 10) \<longleftrightarrow> 3 * ?a < 7 * ?r" if "5 \<le> ?a + ?r"
  proof -
    have "(0::rat) < of_nat (?a + ?r)" using that by (simp only: of_nat_0_less_iff)
    then have "((of_nat ?a :: rat) / of_nat (?a + ?r) < 7 / 10) \<longleftrightarrow> 10 * (of_nat ?a :: rat) < 7 * of_nat (?a + ?r)"
      by (simp add: pos_divide_less_eq)
    also have "\<dots> \<longleftrightarrow> (of_nat (10 * ?a) :: rat) < of_nat (7 * (?a + ?r))" by simp
    also have "\<dots> \<longleftrightarrow> 10 * ?a < 7 * (?a + ?r)" by (rule of_nat_less_iff)
    finally show ?thesis by auto
  qed
  then show ?thesis
    by (auto simp: isRegressing_def finish_evidence_def rateOf_def DEMOTION_MIN_SAMPLE_def DEMOTION_RATE_def Let_def)
qed

text \<open>Every count of the evidence, in verdicts.\<close>

lemma gathered_counts:
  assumes "e \<in> set (gatherEvidence lc now st)"
  shows "ev_approved e = judged Would_approve (ev_actionClass e) (proposals (dlog st)) +
      human_verdicts Ap_approved (ev_actionClass e) (now - 3650 * 24 * 60 * 60 * 1000) (approvals (desk st)) \<and>
    ev_rejected e = judged Would_reject (ev_actionClass e) (proposals (dlog st)) +
      human_verdicts Ap_denied (ev_actionClass e) (now - 3650 * 24 * 60 * 60 * 1000) (approvals (desk st)) \<and>
    ev_recentApproved e =
      judged Would_approve (ev_actionClass e)
        (filter (\<lambda>p. now - 14 * 24 * 60 * 60 * 1000 \<le> pr_createdAt p) (proposals (dlog st))) +
      human_verdicts Ap_approved (ev_actionClass e) (now - 14 * 24 * 60 * 60 * 1000) (approvals (desk st)) \<and>
    ev_recentRejected e =
      judged Would_reject (ev_actionClass e)
        (filter (\<lambda>p. now - 14 * 24 * 60 * 60 * 1000 \<le> pr_createdAt p) (proposals (dlog st))) +
      human_verdicts Ap_denied (ev_actionClass e) (now - 14 * 24 * 60 * 60 * 1000) (approvals (desk st)) \<and>
    ev_sample e = ev_approved e + ev_rejected e \<and>
    ev_sample e = ev_fromProposals e + ev_fromApprovals e"
proof -
  let ?bs = "evidence_buckets lc now (dlog st) (approvals (desk st))"
  let ?b = "bucket_of ev_actionClass emptyEvidence (ev_actionClass e) ?bs"
  have e: "e = finish_evidence ?b" using gathered_sums[OF assms] by auto
  note windows = LIFETIME_WINDOW_DAYS_def REGRESSION_WINDOW_DAYS_def since_filter_def
  have zero: "ar_wouldApprove (no_rates c) = 0" "ar_wouldReject (no_rates c) = 0"
    "cr_approved (emptyRates c) = 0" "cr_denied (emptyRates c) = 0" for c
    by (simp_all add: no_rates_def emptyRates_def)
  note adds = add_lifetime_proposals_def add_lifetime_approvals_def add_recent_proposals_def
    add_recent_approvals_def emptyEvidence_def zero
  have "ev_approved ?b = judged Would_approve (ev_actionClass e) (proposals (dlog st)) +
      human_verdicts Ap_approved (ev_actionClass e) (now - 3650 * 24 * 60 * 60 * 1000) (approvals (desk st))"
    by (subst evidence_counter[where p = ar_wouldApprove and a = cr_approved and rp = "\<lambda>_. 0" and ra = "\<lambda>_. 0"])
       (simp_all add: adds windows approval_rates_bucket proposal_rates_bucket)
  moreover have "ev_rejected ?b = judged Would_reject (ev_actionClass e) (proposals (dlog st)) +
      human_verdicts Ap_denied (ev_actionClass e) (now - 3650 * 24 * 60 * 60 * 1000) (approvals (desk st))"
    by (subst evidence_counter[where p = ar_wouldReject and a = cr_denied and rp = "\<lambda>_. 0" and ra = "\<lambda>_. 0"])
       (simp_all add: adds windows approval_rates_bucket proposal_rates_bucket)
  moreover have "ev_recentApproved ?b = judged Would_approve (ev_actionClass e)
        (filter (\<lambda>p. now - 14 * 24 * 60 * 60 * 1000 \<le> pr_createdAt p) (proposals (dlog st))) +
      human_verdicts Ap_approved (ev_actionClass e) (now - 14 * 24 * 60 * 60 * 1000) (approvals (desk st))"
    by (subst evidence_counter[where p = "\<lambda>_. 0" and a = "\<lambda>_. 0" and rp = ar_wouldApprove and ra = cr_approved])
       (simp_all add: adds windows approval_rates_bucket proposal_rates_bucket)
  moreover have "ev_recentRejected ?b = judged Would_reject (ev_actionClass e)
        (filter (\<lambda>p. now - 14 * 24 * 60 * 60 * 1000 \<le> pr_createdAt p) (proposals (dlog st))) +
      human_verdicts Ap_denied (ev_actionClass e) (now - 14 * 24 * 60 * 60 * 1000) (approvals (desk st))"
    by (subst evidence_counter[where p = "\<lambda>_. 0" and a = "\<lambda>_. 0" and rp = ar_wouldReject and ra = cr_denied])
       (simp_all add: adds windows approval_rates_bucket proposal_rates_bucket)
  moreover have "ev_approved ?b + ev_rejected ?b = ev_fromProposals ?b + ev_fromApprovals ?b"
  proof -
    let ?m = "\<lambda>e. ev_approved e + ev_rejected e" and ?n = "\<lambda>e. ev_fromProposals e + ev_fromApprovals e"
    let ?p = "\<lambda>r. ar_wouldApprove r + ar_wouldReject r" and ?a = "\<lambda>r. cr_approved r + cr_denied r"
    show ?thesis
      using evidence_counter[where m = ?m and p = ?p and a = ?a and rp = "\<lambda>_. 0" and ra = "\<lambda>_. 0" and
          cls = "ev_actionClass e" and lc = lc and now = now and dl = "dlog st" and rows = "approvals (desk st)"]
        evidence_counter[where m = ?n and p = ?p and a = ?a and rp = "\<lambda>_. 0" and ra = "\<lambda>_. 0" and
          cls = "ev_actionClass e" and lc = lc and now = now and dl = "dlog st" and rows = "approvals (desk st)"]
      by (simp add: adds)
  qed
  moreover have "ev_approved e = ev_approved ?b" "ev_rejected e = ev_rejected ?b"
    "ev_recentApproved e = ev_recentApproved ?b" "ev_recentRejected e = ev_recentRejected ?b"
    "ev_fromProposals e = ev_fromProposals ?b" "ev_fromApprovals e = ev_fromApprovals ?b"
    "ev_sample e = ev_approved ?b + ev_rejected ?b"
    by (subst e, simp add: finish_evidence_def)+
  ultimately show ?thesis by simp
qed

text \<open>The rung of a class after an evaluation, in the counts.\<close>

lemma rung_after_evaluation:
  assumes "e \<in> set (gatherEvidence lc now st)"
  shows "rung_of (find_rung (ev_actionClass e) (rungs (snd (evaluate lc w now st)))) =
    (let old = find_rung (ev_actionClass e) (rungs st);
         regressing = (5 \<le> ev_recentApproved e + ev_recentRejected e \<and>
                       3 * ev_recentApproved e < 7 * ev_recentRejected e);
         good = (20 \<le> ev_approved e + ev_rejected e \<and> 9 * ev_rejected e \<le> ev_approved e);
         held = (\<exists>r until. old = Some r \<and> ps_manualHoldUntil r = Some until \<and> now < until)
     in if isAutonomyEligible (ev_actionClass e) \<and>
           (if \<not> lw_enabled w then rung_of old = Promoted
            else if rung_of old = Promoted then \<not> regressing
            else good \<and> \<not> regressing \<and> \<not> held)
        then Promoted
        else if 0 < ev_approved e + ev_rejected e then Measure else Observe)"
proof -
  let ?old = "find_rung (ev_actionClass e) (rungs st)"
  obtain b where b: "e = finish_evidence b" using gathered_sums[OF assms] by blast
  have counts: "ev_approved e = ev_approved b" "ev_rejected e = ev_rejected b"
    "ev_recentApproved e = ev_recentApproved b" "ev_recentRejected e = ev_recentRejected b"
    "ev_sample e = ev_approved b + ev_rejected b"
    by (simp_all add: b finish_evidence_def)
  have "rung_of (find_rung (ev_actionClass e) (rungs (snd (evaluate lc w now st)))) =
      rungFor (next_promoted (\<not> lw_enabled w) now ?old e) e"
    unfolding find_rung_evaluate evidence_for_mem[OF assms] by (simp add: evaluated_row_rung)
  moreover have "hold_of ?old now = None \<longleftrightarrow>
      \<not> (\<exists>r until. ?old = Some r \<and> ps_manualHoldUntil r = Some until \<and> now < until)"
    by (auto simp: hold_of_def activeHold_def split: option.splits)
  ultimately show ?thesis
    unfolding Let_def rungFor_def next_promoted_def counts clears_bar_iff[of b, folded b] isRegressing_iff[of b, folded b]
    by (simp only: conj_commute if_False if_True simp_thms) (auto split: if_splits)
qed

subsection \<open>The ladder over time\<close>

inductive ladder_at ::
  "(string \<Rightarrow> string \<Rightarrow> int) \<Rightarrow> instant \<Rightarrow> ladder_state \<Rightarrow> ladder_state \<Rightarrow> bool"
  for lc :: "string \<Rightarrow> string \<Rightarrow> int" and now :: instant where
  evaluates: "ladder_at lc now st (snd (evaluate lc w now st))"
| by_hand: "ladder_at lc now st (snd (demoteManually lc w cls actor dnote now st))"
| approves: "approval_step (desk st) d \<Longrightarrow> ladder_at lc now st (st\<lparr>desk := d\<rparr>)"
| records: "record_invocation hashSnapshot new_id fresh invocation drafts (dlog st) = Inr (ids, dl) \<Longrightarrow>
    ladder_at lc now st (st\<lparr>dlog := dl\<rparr>)"
| reviews: "review_proposal pid v reviewer rnote now (dlog st) = Inr dl \<Longrightarrow>
    ladder_at lc now st (st\<lparr>dlog := dl\<rparr>)"

text \<open>What a standing on the promoted rung rests on.\<close>

definition earned :: "promotion_row \<Rightarrow> bool" where
  "earned r \<longleftrightarrow>
     ps_rung r = Promoted \<longrightarrow>
       isAutonomyEligible (ps_actionClass r) \<and> ps_changeReason r = Some Promoted_on_evidence \<and>
       ps_changedById r = None \<and>
       (\<exists>e. ps_evidence r = Some e \<and> ev_actionClass e = ps_actionClass r \<and>
          20 \<le> ev_approved e + ev_rejected e \<and> 9 * ev_rejected e \<le> ev_approved e \<and>
          \<not> (5 \<le> ev_recentApproved e + ev_recentRejected e \<and>
             3 * ev_recentApproved e < 7 * ev_recentRejected e))"

definition ladder_ok :: "ladder_state \<Rightarrow> bool" where
  "ladder_ok st \<longleftrightarrow> distinct (map ps_actionClass (rungs st)) \<and> (\<forall>r \<in> set (rungs st). earned r)"

lemma row_after_class:
  "find_rung (ev_actionClass e) rows = existing \<Longrightarrow>
   ps_actionClass (row_after e rung reason d now existing human) = ev_actionClass e"
  by (auto simp: row_after_def Let_def dest: find_rung_SomeD split: option.splits)

lemma evaluated_row_earned:
  assumes "evaluated_row paused now (find_rung (ev_actionClass item) rows) item = Some r"
    "\<And>x. find_rung (ev_actionClass item) rows = Some x \<Longrightarrow> earned x" "item = finish_evidence b"
  shows "earned r"
proof -
  let ?existing = "find_rung (ev_actionClass item) rows"
  let ?v = "evaluateLadder (rung_of ?existing) item (isAutonomyEligible (ev_actionClass item)) paused (hold_of ?existing now)"
  show ?thesis
  proof (cases "rung_write paused now ?existing item")
    case None
    with assms show ?thesis by (simp add: evaluated_row_def)
  next
    case (Some x)
    obtain rung reason d where x: "x = (rung, reason, d)" by (metis prod.exhaust)
    have r: "r = row_after item rung reason d now ?existing None"
      using assms(1) Some x by (simp add: evaluated_row_def)
    show ?thesis
    proof (cases "rung = Promoted")
      case True
      have v: "?v = Promote d \<and> reason = Some Promoted_on_evidence"
        using Some x True unfolding rung_write_def Let_def
        by (cases ?v) (auto split: if_splits)
      then have "isAutonomyEligible (ev_actionClass item)" "clears_bar item" "\<not> isRegressing item"
        using promote_iff[of "rung_of ?existing" item "isAutonomyEligible (ev_actionClass item)" paused "hold_of ?existing now"]
        by blast+
      then show ?thesis
        using v assms(3) row_after_class[of item rows ?existing rung reason d now None]
        unfolding r earned_def by (auto simp: clears_bar_iff isRegressing_iff) (auto simp: finish_evidence_def)
    qed (simp add: r earned_def)
  qed
qed

lemma evaluate_distinct:
  "distinct (map ps_actionClass (rungs st)) \<Longrightarrow>
   distinct (map ps_actionClass (rungs (snd (evaluate_all w now states items st))))"
proof (induction items arbitrary: st)
  case (Cons item items)
  have "distinct (map ps_actionClass (rungs (snd (evaluate_class w now states item st))))"
    using Cons.prems unfolding evaluate_class_rungs
    by (auto intro: persist_distinct split: option.splits)
  from Cons.IH[OF this] show ?case by (simp add: split_beta Let_def)
qed simp

lemma evaluate_ladder_ok:
  assumes "ladder_ok st"
  shows "ladder_ok (snd (evaluate lc w now st))"
proof -
  let ?st' = "snd (evaluate lc w now st)"
  have dist: "distinct (map ps_actionClass (rungs ?st'))"
    unfolding evaluate_snd using assms evaluate_distinct by (simp add: ladder_ok_def)
  have "earned r" if "r \<in> set (rungs ?st')" for r
  proof (cases "evidence_for (ps_actionClass r) (gatherEvidence lc now st)")
    case None
    then have "find_rung (ps_actionClass r) (rungs st) = Some r"
      using find_rung_mem[OF dist that] find_rung_evaluate[of "ps_actionClass r" lc w now st] by simp
    then show ?thesis using assms find_rung_SomeD by (auto simp: ladder_ok_def)
  next
    case (Some item)
    have item: "ev_actionClass item = ps_actionClass r" "item \<in> set (gatherEvidence lc now st)"
      using Some unfolding evidence_for_def by (auto dest: find_Some_iff_mem)
    obtain b where b: "item = finish_evidence b" using gathered_sums[OF item(2)] by blast
    have "evaluated_row (\<not> lw_enabled w) now (find_rung (ev_actionClass item) (rungs st)) item = Some r"
      using find_rung_mem[OF dist that] find_rung_evaluate[of "ps_actionClass r" lc w now st] Some item(1) by simp
    from evaluated_row_earned[OF this _ b] assms find_rung_SomeD show ?thesis
      unfolding ladder_ok_def by blast
  qed
  with dist show ?thesis by (simp add: ladder_ok_def)
qed

text \<open>A demotion by hand.\<close>

definition evidence_now :: "(string \<Rightarrow> string \<Rightarrow> int) \<Rightarrow> string \<Rightarrow> instant \<Rightarrow> ladder_state \<Rightarrow> class_evidence" where
  "evidence_now lc cls now st = get_or (emptyEvidence cls) (evidence_for cls (gatherEvidence lc now st))"

lemma evidence_now_class [simp]: "ev_actionClass (evidence_now lc cls now st) = cls"
  unfolding evidence_now_def evidence_for_def
  by (cases "find (\<lambda>e. ev_actionClass e = cls) (gatherEvidence lc now st)")
     (auto dest: find_Some_iff_mem)

definition hold_end :: "instant \<Rightarrow> instant" where
  "hold_end now = now + MANUAL_HOLD_DAYS * 24 * 60 * 60 * 1000"

lemma demoteManually_refused:
  "rung_of (find_rung cls (rungs st)) \<noteq> Promoted \<Longrightarrow>
   demoteManually lc w cls actor dnote now st = (Inl (Not_promoted cls (rung_of (find_rung cls (rungs st)))), st)"
  by (simp add: demoteManually_def Let_def)

lemma demoteManually_rungs:
  assumes "rung_of (find_rung cls (rungs st)) = Promoted"
  shows "\<exists>d. rungs (snd (demoteManually lc w cls actor dnote now st)) =
    persist_rung (evidence_now lc cls now st) (rungFor False (evidence_now lc cls now st))
      (Some Demoted_manually) d now (find_rung cls (rungs st)) (Some (actor, hold_end now)) (rungs st)"
  using assms
  by (auto simp: demoteManually_def Let_def split_beta evidence_now_def hold_end_def)

lemma find_rung_demoteManually:
  assumes "rung_of (find_rung cls (rungs st)) = Promoted"
  shows "\<exists>d. \<forall>c. find_rung c (rungs (snd (demoteManually lc w cls actor dnote now st))) =
    (if c = cls then Some (row_after (evidence_now lc cls now st) (rungFor False (evidence_now lc cls now st))
        (Some Demoted_manually) d now (find_rung cls (rungs st)) (Some (actor, hold_end now)))
     else find_rung c (rungs st))"
proof -
  obtain d where d: "rungs (snd (demoteManually lc w cls actor dnote now st)) =
    persist_rung (evidence_now lc cls now st) (rungFor False (evidence_now lc cls now st))
      (Some Demoted_manually) d now (find_rung cls (rungs st)) (Some (actor, hold_end now)) (rungs st)"
    using demoteManually_rungs[OF assms] by blast
  show ?thesis unfolding d
    by (intro exI[of _ d] allI) (subst find_rung_persist, simp_all)
qed

lemma demoteManually_result:
  assumes "rung_of (find_rung cls (rungs st)) = Promoted"
    "demoteManually lc w cls actor dnote now st = (Inr res, st1)"
  shows "md_manualHoldUntil res = hold_end now \<and> \<not> md_rungMayBeRestored res"
proof -
  let ?e = "evidence_now lc cls now st"
  let ?next = "evaluateLadder (rungFor False ?e) ?e (isAutonomyEligible cls) False
      (activeHold (Some (hold_end now)) (Some actor) now)"
  have "md_manualHoldUntil res = hold_end now \<and>
      md_rungMayBeRestored res = (case ?next of Promote _ \<Rightarrow> True | _ \<Rightarrow> False)"
    using assms by (auto simp: demoteManually_def Let_def split_beta evidence_now_def hold_end_def split: sum.splits)
  moreover have "activeHold (Some (hold_end now)) (Some actor) now \<noteq> None"
    by (simp add: activeHold_def hold_end_def MANUAL_HOLD_DAYS_def REGRESSION_WINDOW_DAYS_def)
  ultimately show ?thesis
    using promote_iff[of "rungFor False ?e" ?e "isAutonomyEligible cls" False
        "activeHold (Some (hold_end now)) (Some actor) now"]
    by (auto split: ladder_verdict.splits)
qed

lemma demoteManually_ok:
  assumes "ladder_ok st"
  shows "ladder_ok (snd (demoteManually lc w cls actor dnote now st))"
proof (cases "rung_of (find_rung cls (rungs st)) = Promoted")
  case True
  let ?st' = "snd (demoteManually lc w cls actor dnote now st)" and ?e = "evidence_now lc cls now st"
  obtain d where d: "find_rung c (rungs ?st') =
    (if c = cls then Some (row_after ?e (rungFor False ?e) (Some Demoted_manually) d now
        (find_rung cls (rungs st)) (Some (actor, hold_end now)))
     else find_rung c (rungs st))" for c
    using find_rung_demoteManually[OF True] by blast
  obtain d' where d': "rungs ?st' = persist_rung ?e (rungFor False ?e)
      (Some Demoted_manually) d' now (find_rung cls (rungs st)) (Some (actor, hold_end now)) (rungs st)"
    using demoteManually_rungs[OF True] by blast
  have dist: "distinct (map ps_actionClass (rungs ?st'))"
    unfolding d' by (rule persist_distinct) (use assms in \<open>simp add: ladder_ok_def\<close>)
  have "earned r" if mem: "r \<in> set (rungs ?st')" for r
  proof (cases "ps_actionClass r = cls")
    case True
    then have "find_rung cls (rungs ?st') = Some r" using find_rung_mem[OF dist mem] by simp
    then have "ps_rung r = rungFor False ?e" unfolding d[of cls] by auto
    then show ?thesis by (simp add: earned_def)
  next
    case False
    then have "find_rung (ps_actionClass r) (rungs st) = Some r"
      using find_rung_mem[OF dist mem] unfolding d[of "ps_actionClass r"] by simp
    from find_rung_SomeD[OF this] show ?thesis using assms by (simp add: ladder_ok_def)
  qed
  with dist show ?thesis by (simp add: ladder_ok_def)
qed (simp add: demoteManually_refused assms)

lemma ladder_at_ok:
  assumes "ladder_at lc now st st'" "ladder_ok st"
  shows "ladder_ok st'"
  using assms(1)
proof cases
  case (evaluates w)
  then show ?thesis using evaluate_ladder_ok[OF assms(2)] by simp
next
  case (by_hand w cls actor dnote)
  then show ?thesis using demoteManually_ok[OF assms(2)] by simp
qed (use assms(2) in \<open>simp_all add: ladder_ok_def\<close>)

text \<open>A class a human has demoted stays down while the hold stands.\<close>

definition held_down :: "string \<Rightarrow> instant \<Rightarrow> ladder_state \<Rightarrow> bool" where
  "held_down cls limit st \<longleftrightarrow>
     (\<exists>r until. find_rung cls (rungs st) = Some r \<and> ps_rung r \<noteq> Promoted \<and>
        ps_manualHoldUntil r = Some until \<and> limit \<le> until)"

lemma evaluated_row_held:
  assumes "ps_rung r \<noteq> Promoted" "ps_manualHoldUntil r = Some until" "now < until"
  shows "\<exists>r'. evaluated_row paused now (Some r) item = Some r' \<and> ps_rung r' \<noteq> Promoted \<and>
    ps_manualHoldUntil r' = Some until"
proof -
  have "hold_of (Some r) now \<noteq> None" using assms by (simp add: hold_of_def activeHold_def)
  then have "\<not> next_promoted paused now (Some r) item"
    using assms(1) by (simp add: next_promoted_def rung_of_def)
  then have rung: "rung_of (evaluated_row paused now (Some r) item) \<noteq> Promoted"
    unfolding evaluated_row_rung by simp
  show ?thesis
  proof (cases "rung_write paused now (Some r) item")
    case None
    with assms show ?thesis by (simp add: evaluated_row_def)
  next
    case (Some x)
    obtain g h d where x: "x = (g, h, d)" by (metis prod.exhaust)
    with Some have eq: "evaluated_row paused now (Some r) item = Some (row_after item g h d now (Some r) None)"
      by (simp add: evaluated_row_def)
    with rung assms(2) show ?thesis by (simp add: rung_of_def)
  qed
qed

lemma ladder_at_held_down:
  assumes "ladder_at lc now st st'" "held_down cls limit st" "now < limit"
  shows "held_down cls limit st'"
proof -
  obtain r until where r: "find_rung cls (rungs st) = Some r" "ps_rung r \<noteq> Promoted"
    "ps_manualHoldUntil r = Some until" "limit \<le> until"
    using assms(2) unfolding held_down_def by blast
  have now: "now < until" using r(4) assms(3) by simp
  from assms(1) show ?thesis
  proof cases
    case (evaluates w)
    show ?thesis
    proof (cases "evidence_for cls (gatherEvidence lc now st)")
      case None
      then have "find_rung cls (rungs st') = Some r"
        using r(1) unfolding evaluates find_rung_evaluate by simp
      with r show ?thesis unfolding held_down_def by blast
    next
      case (Some item)
      then have "find_rung cls (rungs st') = evaluated_row (\<not> lw_enabled w) now (Some r) item"
        using r(1) unfolding evaluates find_rung_evaluate by simp
      with evaluated_row_held[OF r(2,3) now, of "\<not> lw_enabled w" item] r(4) show ?thesis
        unfolding held_down_def by auto
    qed
  next
    case (by_hand w c actor dnote)
    show ?thesis
    proof (cases "rung_of (find_rung c (rungs st)) = Promoted")
      case True
      then have "c \<noteq> cls" using r by (auto simp: rung_of_def)
      then have "find_rung cls (rungs st') = Some r"
        using find_rung_demoteManually[OF True] r(1) unfolding by_hand by metis
      with r show ?thesis unfolding held_down_def by blast
    qed (use assms(2) in \<open>simp add: by_hand demoteManually_refused\<close>)
  qed (use assms(2) in \<open>simp_all add: held_down_def\<close>)
qed

text \<open>
  The table as a row history: a class's row is never lost, its record of holds and of changes is
  never erased, and every fall from the promoted rung is counted.
\<close>

definition later_rung :: "promotion_row \<Rightarrow> promotion_row \<Rightarrow> bool" where
  "later_rung r r' \<longleftrightarrow>
     ps_demotionCount r \<le> ps_demotionCount r' \<and>
     (ps_rung r = Promoted \<and> ps_rung r' \<noteq> Promoted \<longrightarrow> ps_demotionCount r < ps_demotionCount r') \<and>
     (ps_manualHoldUntil r \<noteq> None \<longrightarrow> ps_manualHoldUntil r' \<noteq> None) \<and>
     (ps_promotedAt r \<noteq> None \<longrightarrow> ps_promotedAt r' \<noteq> None) \<and>
     (ps_demotedAt r \<noteq> None \<longrightarrow> ps_demotedAt r' \<noteq> None)"

lemma later_rung_refl: "later_rung r r"
  by (auto simp: later_rung_def)

lemma later_rung_trans: "later_rung r s \<Longrightarrow> later_rung s t \<Longrightarrow> later_rung r t"
  unfolding later_rung_def by (auto 0 3)

lemma row_after_later:
  assumes "ps_rung r = Promoted \<and> rung \<noteq> Promoted \<longrightarrow> demoting reason"
  shows "later_rung r (row_after e rung reason d now (Some r) human)"
  using assms by (auto simp: later_rung_def row_after_def changed_row_def split: option.splits)

lemma evaluated_row_later:
  "\<exists>r'. evaluated_row paused now (Some r) item = Some r' \<and> later_rung r r'"
proof (cases "rung_write paused now (Some r) item")
  case None
  then show ?thesis using later_rung_refl by (simp add: evaluated_row_def)
next
  case (Some x)
  let ?v = "evaluateLadder (rung_of (Some r)) item (isAutonomyEligible (ev_actionClass item)) paused (hold_of (Some r) now)"
  obtain g h d where x: "x = (g, h, d)" by (metis prod.exhaust)
  have "ps_rung r = Promoted \<and> g \<noteq> Promoted \<longrightarrow> demoting h"
  proof (cases ?v)
    case (Demote reason d')
    then have "reason = Demoted_ineligible \<or> reason = Demoted_on_regression" using demote_iff by blast
    with Demote Some x show ?thesis by (auto simp: rung_write_def demoting_def)
  qed (use Some x in \<open>auto simp: rung_write_def rung_of_def Let_def split: if_splits\<close>)
  from row_after_later[OF this] Some x show ?thesis by (simp add: evaluated_row_def)
qed

lemma ladder_at_row:
  assumes "ladder_at lc now st st'" "find_rung cls (rungs st) = Some r"
  shows "\<exists>r'. find_rung cls (rungs st') = Some r' \<and> later_rung r r'"
  using assms(1)
proof cases
  case (evaluates w)
  then show ?thesis
    using evaluated_row_later[of "\<not> lw_enabled w" now r] later_rung_refl assms(2)
    by (cases "evidence_for cls (gatherEvidence lc now st)") (simp_all add: find_rung_evaluate)
next
  case (by_hand w c actor dnote)
  show ?thesis
  proof (cases "rung_of (find_rung c (rungs st)) = Promoted")
    case True
    from find_rung_demoteManually[OF this] obtain d where
      "find_rung cls (rungs st') =
        (if cls = c then Some (row_after (evidence_now lc c now st) (rungFor False (evidence_now lc c now st))
            (Some Demoted_manually) d now (find_rung c (rungs st)) (Some (actor, hold_end now)))
         else find_rung cls (rungs st))"
      unfolding by_hand by blast
    then show ?thesis
      using assms(2) row_after_later[of r "rungFor False (evidence_now lc c now st)" "Some Demoted_manually"]
        later_rung_refl by (cases "cls = c") (auto simp: demoting_def)
  qed (use assms(2) later_rung_refl in \<open>simp add: by_hand demoteManually_refused\<close>)
qed (use assms(2) later_rung_refl in simp_all)

lemma ladder_at_distinct:
  assumes "ladder_at lc now st st'" "distinct (map ps_actionClass (rungs st))"
  shows "distinct (map ps_actionClass (rungs st'))"
  using assms(1)
proof cases
  case (evaluates w)
  then show ?thesis using evaluate_distinct[OF assms(2)] by (simp add: evaluate_snd)
next
  case (by_hand w cls actor dnote)
  show ?thesis
  proof (cases "rung_of (find_rung cls (rungs st)) = Promoted")
    case True
    from demoteManually_rungs[OF this] show ?thesis unfolding by_hand
      using persist_distinct[OF assms(2)] by metis
  qed (use assms(2) in \<open>simp add: by_hand demoteManually_refused\<close>)
qed (use assms(2) in simp_all)

definition ladder_step :: "(string \<Rightarrow> string \<Rightarrow> int) \<Rightarrow> ladder_state \<Rightarrow> ladder_state \<Rightarrow> bool" where
  "ladder_step lc st st' \<longleftrightarrow> (\<exists>now. ladder_at lc now st st')"

interpretation ladder: row_history "ladder_step lc" rungs ps_actionClass later_rung for lc
proof
  fix st st' r
  assume step: "ladder_step lc st st'" and dist: "distinct (map ps_actionClass (rungs st))"
  from step dist show "distinct (map ps_actionClass (rungs st'))"
    unfolding ladder_step_def using ladder_at_distinct by blast
  assume "r \<in> set (rungs st)"
  with dist step find_rung_mem obtain r' where "find_rung (ps_actionClass r) (rungs st') = Some r'" "later_rung r r'"
    unfolding ladder_step_def using ladder_at_row by metis
  with find_rung_SomeD show "\<exists>r' \<in> set (rungs st'). ps_actionClass r' = ps_actionClass r \<and> later_rung r r'"
    by blast
qed (auto intro: later_rung_refl later_rung_trans)

text \<open>A first call of the service finds an empty table.\<close>

definition empty_ladder :: "approvals_state \<Rightarrow> decision_log \<Rightarrow> ladder_state" where
  "empty_ladder d dl = \<lparr>rungs = [], desk = d, dlog = dl, told = []\<rparr>"

lemma empty_ladder_ok: "ladder_ok (empty_ladder d dl)"
  by (simp add: ladder_ok_def empty_ladder_def)

lemma ladder_steps_ok: "(ladder_step lc)\<^sup>*\<^sup>* st st' \<Longrightarrow> ladder_ok st \<Longrightarrow> ladder_ok st'"
  by (induction rule: rtranclp_induct) (auto simp: ladder_step_def dest: ladder_at_ok)

subsection \<open>Where the evidence on a row was gathered\<close>

text \<open>
  A row that stands promoted was written by an evaluation: what is frozen on it was gathered from the
  log and the approvals as they stood then.
\<close>

lemma evaluated_row_written:
  assumes "evaluated_row paused now existing item = Some r"
  shows "existing = Some r \<or> ps_evidence r = Some item \<and> ps_changedAt r = now"
  using assms
  by (cases "rung_write paused now existing item")
     (auto simp: evaluated_row_def row_after_def changed_row_def Let_def split: prod.splits)

lemma evaluate_written:
  assumes "ladder_ok st" "r \<in> set (rungs (snd (evaluate lc w now st)))"
  shows "r \<in> set (rungs st) \<or>
    (\<exists>e \<in> set (gatherEvidence lc now st). ps_evidence r = Some e \<and> ps_changedAt r = now)"
proof -
  let ?st' = "snd (evaluate lc w now st)"
  have "distinct (map ps_actionClass (rungs ?st'))"
    using evaluate_ladder_ok[OF assms(1)] by (simp add: ladder_ok_def)
  then have found: "find_rung (ps_actionClass r) (rungs ?st') = Some r" by (rule find_rung_mem[OF _ assms(2)])
  show ?thesis
  proof (cases "evidence_for (ps_actionClass r) (gatherEvidence lc now st)")
    case None
    then have "find_rung (ps_actionClass r) (rungs st) = Some r" using found by (simp add: find_rung_evaluate)
    then show ?thesis using find_rung_SomeD by blast
  next
    case (Some item)
    then have "item \<in> set (gatherEvidence lc now st)"
      unfolding evidence_for_def by (auto dest: find_Some_iff_mem)
    moreover have "evaluated_row (\<not> lw_enabled w) now (find_rung (ps_actionClass r) (rungs st)) item = Some r"
      using found Some by (simp add: find_rung_evaluate)
    ultimately show ?thesis using evaluated_row_written find_rung_SomeD by metis
  qed
qed

lemma by_hand_written:
  assumes "ladder_ok st" "r \<in> set (rungs (snd (demoteManually lc w cls actor dnote now st)))" "ps_rung r = Promoted"
  shows "r \<in> set (rungs st)"
proof (cases "rung_of (find_rung cls (rungs st)) = Promoted")
  case True
  let ?st' = "snd (demoteManually lc w cls actor dnote now st)" and ?e = "evidence_now lc cls now st"
  obtain d where d: "find_rung c (rungs ?st') =
    (if c = cls then Some (row_after ?e (rungFor False ?e) (Some Demoted_manually) d now
        (find_rung cls (rungs st)) (Some (actor, hold_end now)))
     else find_rung c (rungs st))" for c
    using find_rung_demoteManually[OF True] by blast
  have "distinct (map ps_actionClass (rungs ?st'))"
    using demoteManually_ok[OF assms(1)] by (simp add: ladder_ok_def)
  then have found: "find_rung (ps_actionClass r) (rungs ?st') = Some r" by (rule find_rung_mem[OF _ assms(2)])
  have "ps_actionClass r \<noteq> cls"
  proof
    assume "ps_actionClass r = cls"
    then have "find_rung cls (rungs ?st') = Some r" using found by simp
    then have "ps_rung r = rungFor False ?e" unfolding d[of cls] by auto
    then show False using assms(3) by (simp add: rungFor_def split: if_splits)
  qed
  then have "find_rung (ps_actionClass r) (rungs st) = Some r" using found unfolding d by simp
  then show ?thesis using find_rung_SomeD by blast
qed (use assms(2) in \<open>simp add: demoteManually_refused\<close>)

definition gathered_then :: "(string \<Rightarrow> string \<Rightarrow> int) \<Rightarrow> ladder_state \<Rightarrow> ladder_state \<Rightarrow> promotion_row \<Rightarrow> bool" where
  "gathered_then lc start st r \<longleftrightarrow>
     (\<exists>st0 e. (ladder_step lc)\<^sup>*\<^sup>* start st0 \<and> (ladder_step lc)\<^sup>*\<^sup>* st0 st \<and> ps_evidence r = Some e \<and>
        e \<in> set (gatherEvidence lc (ps_changedAt r) st0))"

lemma gathered_then_later:
  "gathered_then lc start st r \<Longrightarrow> ladder_step lc st st' \<Longrightarrow> gathered_then lc start st' r"
  unfolding gathered_then_def using rtranclp.rtrancl_into_rtrancl by (metis (no_types, lifting))

lemma promoted_rows_gathered:
  assumes "(ladder_step lc)\<^sup>*\<^sup>* (empty_ladder d dl) st" "r \<in> set (rungs st)" "ps_rung r = Promoted"
  shows "gathered_then lc (empty_ladder d dl) st r"
  using assms
proof (induction rule: rtranclp_induct)
  case base
  then show ?case by (simp add: empty_ladder_def)
next
  case (step y z)
  have ok: "ladder_ok y" by (rule ladder_steps_ok[OF step.hyps(1) empty_ladder_ok])
  have kept: ?case if "r \<in> set (rungs y)"
    using gathered_then_later[OF step.IH[OF that step.prems(2)] step.hyps(2)] .
  obtain now where "ladder_at lc now y z" using step.hyps(2) by (auto simp: ladder_step_def)
  then show ?case
  proof cases
    case (evaluates w)
    show ?thesis
    proof (cases "r \<in> set (rungs y)")
      case False
      with evaluate_written[OF ok] step.prems(1) evaluates obtain e where
        "e \<in> set (gatherEvidence lc now y)" "ps_evidence r = Some e" "ps_changedAt r = now" by blast
      then show ?thesis unfolding gathered_then_def using step.hyps by blast
    qed (rule kept)
  next
    case (by_hand w cls actor dnote)
    then show ?thesis using kept by_hand_written[OF ok _ step.prems(2)] step.prems(1) by blast
  qed (use kept step.prems(1) in simp_all)
qed

end
