(* ===== verification/Promotion_Properties.thy ===== *)
theory Promotion_Properties
  imports Promotion_Ladder
begin

text \<open>
  What holds of the promotion ladder (\<open>promotion/\<close>): what its evidence counts, when a rung moves,
  what a standing on the promoted rung rests on, and what a demotion does. Each property is followed
  by a witness at a concrete input.
\<close>

section \<open>Evidence\<close>

text \<open>the evidence about a class counts human verdicts and nothing else: its approvals are the
  proposals a reviewer would have approved plus the approval requests a human approved, its rejections
  the same with rejected and denied, over the lifetime window and over the last fortnight; an action
  approved by a timeout or carried by a grant, a request still open, and a proposal nobody has judged
  count on neither side, and the sample is the sum of the two sides and of the two sources.\<close>
theorem evidence_counts_human_verdicts:
  assumes "e \<in> set (gatherEvidence lc now st)"
  shows "ev_approved e = judged Would_approve (ev_actionClass e) (proposals (dlog st)) +
      human_verdicts Ap_approved (ev_actionClass e) (now - 3650 * 24 * 60 * 60 * 1000) (approvals (desk st)) \<and>
    ev_rejected e = judged Would_reject (ev_actionClass e) (proposals (dlog st)) +
      human_verdicts Ap_denied (ev_actionClass e) (now - 3650 * 24 * 60 * 60 * 1000) (approvals (desk st)) \<and>
    ev_recentApproved e =
      judged Would_approve (ev_actionClass e)
        (filter (\<lambda>p. now - 14 * 24 * 60 * 60 * 1000 \<le> pr_createdAt p) (proposals (dlog st))) +
      human_verdicts Ap_approved (ev_actionClass e) (now - 14 * 24 * 60 * 60 * 1000) (approvals (desk st)) \<and>
    ev_recentRejected e =
      judged Would_reject (ev_actionClass e)
        (filter (\<lambda>p. now - 14 * 24 * 60 * 60 * 1000 \<le> pr_createdAt p) (proposals (dlog st))) +
      human_verdicts Ap_denied (ev_actionClass e) (now - 14 * 24 * 60 * 60 * 1000) (approvals (desk st)) \<and>
    ev_sample e = ev_approved e + ev_rejected e \<and>
    ev_sample e = ev_fromProposals e + ev_fromApprovals e"
  by (rule gathered_counts[OF assms])

text \<open>Twenty proposals of one class that a reviewer would have approved, made at time 0.\<close>

definition sample_proposal :: "proposal_review \<Rightarrow> nat \<Rightarrow> proposal_row" where
  "sample_proposal v i =
    \<lparr>pr_id = replicate i CHR ''p'', pr_invocationId = ''i1'', pr_actionClass = ''re-dispatch'',
     pr_outcome = Proposed, pr_summary = ''again'', pr_reasoning = ''transient'', pr_targetKind = None,
     pr_targetRef = None, pr_details = None, pr_review = v, pr_reviewedAt = Some 1,
     pr_reviewedById = Some ''u1'', pr_reviewNote = None, pr_createdAt = 0\<rparr>"

definition sample_desk :: approvals_state where
  "sample_desk = \<lparr>approvals = [], grants = [], audit = [], escalations = [], notices = []\<rparr>"

definition sample_log :: "proposal_review \<Rightarrow> nat \<Rightarrow> decision_log" where
  "sample_log v n = \<lparr>invocations = [], proposals = map (sample_proposal v) [0..<n]\<rparr>"

definition sample_ladder :: ladder_state where
  "sample_ladder = empty_ladder sample_desk (sample_log Would_approve 20)"

definition sample_ladder_world :: ladder_world where
  "sample_ladder_world =
    \<lparr>lw_enabled = True, lw_grantsReadable = (\<lambda>_. True), lw_grantWritable = (\<lambda>_. True),
     lw_transports = (\<lambda>_. \<lparr>tr_targets = Some [], tr_pushConfigured = True, tr_fallbackConfigured = False,
       tr_fallback = None\<rparr>)\<rparr>"

lemma judged_sample:
  "judged w ''re-dispatch'' (map (sample_proposal v) [0..<n]) = (if w = v then n else 0)"
  "judged w ''re-dispatch'' (filter (\<lambda>p. t \<le> pr_createdAt p) (map (sample_proposal v) [0..<n])) =
    (if w = v \<and> t \<le> 0 then n else 0)"
  by (auto simp: judged_def sample_proposal_def filter_map comp_def)

lemma redispatch_registered: "''re-dispatch'' \<in> set LADDER_CLASSES"
  by (simp add: LADDER_CLASSES_def ACTION_CLASSES_def)

theorem evidence_counts_human_verdicts_witness:
  "\<exists>e \<in> set (gatherEvidence code_unit_compare 5 sample_ladder).
     ev_actionClass e = ''re-dispatch'' \<and> ev_approved e = 20 \<and> ev_sample e = 20 \<and> ev_rejected e = 0"
proof -
  obtain e where e: "e \<in> set (gatherEvidence code_unit_compare 5 sample_ladder)" "ev_actionClass e = ''re-dispatch''"
    using registered_class_has_evidence[OF redispatch_registered] .
  from evidence_counts_human_verdicts[OF e(1)] e(2) have "ev_approved e = 20 \<and> ev_sample e = 20 \<and> ev_rejected e = 0"
    by (simp add: sample_ladder_def empty_ladder_def sample_log_def sample_desk_def judged_sample human_verdicts_def)
  with e show ?thesis by blast
qed

text \<open>The evidence is about what was proposed. Whatever is recorded and reviewed later, a proposal keeps
  its class, outcome, summary, reasoning, target, details, invocation and time; a review can change a
  verdict and cannot take it back to unjudged.\<close>
theorem proposals_are_never_rewritten:
  assumes "log_step\<^sup>*\<^sup>* dl dl'" "distinct (map pr_id (proposals dl))" "p \<in> set (proposals dl)"
    "p' \<in> set (proposals dl')" "pr_id p' = pr_id p"
  shows "pr_actionClass p' = pr_actionClass p \<and> pr_outcome p' = pr_outcome p \<and> pr_summary p' = pr_summary p \<and>
    pr_reasoning p' = pr_reasoning p \<and> pr_targetKind p' = pr_targetKind p \<and> pr_targetRef p' = pr_targetRef p \<and>
    pr_details p' = pr_details p \<and> pr_invocationId p' = pr_invocationId p \<and> pr_createdAt p' = pr_createdAt p \<and>
    (pr_review p \<noteq> Pending_review \<longrightarrow> pr_review p' \<noteq> Pending_review)"
  using proposal_log.row_under_key[OF assms]
  by (cases p; cases p') (simp add: later_proposal_def as_proposed_def)

theorem proposals_are_never_rewritten_witness:
  "\<exists>dl'. review_proposal ''p'' Rejects (Some ''u2'') None 9 (sample_log Would_approve 2) = Inr dl' \<and>
     (\<forall>p' \<in> set (proposals dl'). pr_id p' = ''p'' \<longrightarrow> pr_summary p' = ''again'' \<and> pr_review p' \<noteq> Pending_review)"
proof -
  let ?dl = "sample_log Would_approve 2"
  let ?p = "sample_proposal Would_approve 1"
  have two: "proposals ?dl = [sample_proposal Would_approve 0, ?p]"
    by (simp add: sample_log_def upt_rec)
  then have dist: "distinct (map pr_id (proposals ?dl))" and mem: "?p \<in> set (proposals ?dl)"
    by (simp_all add: sample_proposal_def)
  have sel: "pr_id ?p = ''p''" "pr_summary ?p = ''again''" "pr_review ?p = Would_approve"
    by (simp_all add: sample_proposal_def)
  obtain dl' where dl': "review_proposal ''p'' Rejects (Some ''u2'') None 9 ?dl = Inr dl'"
    using two by (simp add: review_proposal_def update_many_def sample_proposal_def)
  then have step: "log_step\<^sup>*\<^sup>* ?dl dl'" using log_step.reviews by blast
  from proposals_are_never_rewritten[OF step dist mem] sel
  have "\<forall>p' \<in> set (proposals dl'). pr_id p' = ''p'' \<longrightarrow> pr_summary p' = ''again'' \<and> pr_review p' \<noteq> Pending_review"
    by simp
  with dl' show ?thesis by blast
qed

section \<open>Rungs\<close>

text \<open>an evaluation puts every class on the rung its own record decides. An ineligible class never
  stands promoted, whatever its record, and switched off the ladder promotes and demotes no eligible
  class. Switched on, a promoted class stays unless five or more human decisions of the last fortnight
  are under seventy per cent approvals; another class is promoted exactly when at least twenty human
  decisions are nine-tenths approvals, that recent test does not fail, and no hold placed by hand is
  still running. A class that is not promoted is on \<open>measure\<close> once a human has judged it and on
  \<open>observe\<close> until then.\<close>
theorem rungs_move_exactly_when:
  assumes "e \<in> set (gatherEvidence lc now st)"
  shows "rung_of (find_rung (ev_actionClass e) (rungs (snd (evaluate lc w now st)))) =
    (let old = find_rung (ev_actionClass e) (rungs st);
         regressing = (5 \<le> ev_recentApproved e + ev_recentRejected e \<and>
                       3 * ev_recentApproved e < 7 * ev_recentRejected e);
         good = (20 \<le> ev_approved e + ev_rejected e \<and> 9 * ev_rejected e \<le> ev_approved e);
         held = (\<exists>r until. old = Some r \<and> ps_manualHoldUntil r = Some until \<and> now < until)
     in if isAutonomyEligible (ev_actionClass e) \<and>
           (if \<not> lw_enabled w then rung_of old = Promoted
            else if rung_of old = Promoted then \<not> regressing
            else good \<and> \<not> regressing \<and> \<not> held)
        then Promoted
        else if 0 < ev_approved e + ev_rejected e then Measure else Observe)"
  by (rule rung_after_evaluation[OF assms])

text \<open>What the sample's evidence is when its log holds \<open>n\<close> verdicts \<open>v\<close>.\<close>

lemma sample_evidence:
  assumes "e \<in> set (gatherEvidence lc 5 st)" "ev_actionClass e = ''re-dispatch''"
    "dlog st = sample_log v n" "approvals (desk st) = []"
  shows "ev_approved e = (if v = Would_approve then n else 0) \<and> ev_rejected e = (if v = Would_reject then n else 0) \<and>
    ev_recentApproved e = (if v = Would_approve then n else 0) \<and>
    ev_recentRejected e = (if v = Would_reject then n else 0)"
  using gathered_counts[OF assms(1)] assms(2-4)
  by (simp add: sample_log_def judged_sample human_verdicts_def)

lemma redispatch_eligible: "isAutonomyEligible ''re-dispatch''"
  by (simp add: isAutonomyEligible_def getActionClass_def ACTION_CLASSES_def)

lemma sample_fields [simp]:
  "rungs sample_ladder = []" "dlog sample_ladder = sample_log Would_approve 20"
  "approvals (desk sample_ladder) = []" "lw_enabled sample_ladder_world"
  "find_rung c [] = None" "rung_of None = Observe"
  by (simp_all add: sample_ladder_def empty_ladder_def sample_desk_def sample_ladder_world_def find_rung_def rung_of_def)

theorem rungs_move_exactly_when_witness:
  "rung_of (find_rung ''re-dispatch''
     (rungs (snd (evaluate code_unit_compare sample_ladder_world 5 sample_ladder)))) = Promoted"
proof -
  obtain e where e: "e \<in> set (gatherEvidence code_unit_compare 5 sample_ladder)" "ev_actionClass e = ''re-dispatch''"
    using registered_class_has_evidence[OF redispatch_registered] .
  show ?thesis
    using rungs_move_exactly_when[OF e(1), of sample_ladder_world] sample_evidence[OF e, of Would_approve 20] e(2)
    by (simp add: redispatch_eligible)
qed

lemma sample_promoted:
  "rung_of (find_rung ''re-dispatch''
     (rungs (snd (evaluate code_unit_compare sample_ladder_world 5 sample_ladder)))) = Promoted"
proof -
  obtain e where e: "e \<in> set (gatherEvidence code_unit_compare 5 sample_ladder)" "ev_actionClass e = ''re-dispatch''"
    using registered_class_has_evidence[OF redispatch_registered] .
  show ?thesis
    using rung_after_evaluation[OF e(1), of sample_ladder_world] sample_evidence[OF e, of Would_approve 20] e(2)
    by (simp add: redispatch_eligible)
qed

text \<open>evaluating again over the same log, approvals and clock changes nothing: whatever the first
  evaluation found and did, the second reports no change, writes no row, suspends no grant and sends
  no notification. In particular a class that was just promoted is not demoted, and one just demoted is
  not promoted back.\<close>
theorem evaluation_is_idempotent:
  "er_changes (fst (evaluate lc w now (snd (evaluate lc w now st)))) = [] \<and>
   snd (evaluate lc w now (snd (evaluate lc w now st))) = snd (evaluate lc w now st)"
proof -
  let ?st' = "snd (evaluate lc w now st)"
  have evidence: "gatherEvidence lc now ?st' = gatherEvidence lc now st"
    unfolding evaluate_snd by (rule gatherEvidence_cong) simp_all
  have "rung_write (\<not> lw_enabled w) now (find_rung (ev_actionClass item) (rungs ?st')) item = None"
    if "item \<in> set (gatherEvidence lc now ?st')" for item
    using that unfolding evidence find_rung_evaluate
    by (simp only: evidence_for_mem option.case evaluated_row_settled)
  then obtain holds where
    "evaluate_all w now (rungs ?st') (gatherEvidence lc now ?st') ?st' = (([], holds), ?st')"
    using evaluate_all_idle by metis
  then show ?thesis by (simp add: evaluate_def)
qed

text \<open>C31: whatever evaluations, demotions by hand, approvals, proposals and reviews follow each other from
  an empty table: a class stands on the promoted rung only if it is autonomy-eligible, the ladder
  itself put it there on evidence and no human did, and the evidence frozen on its row are the human
  decisions of the history: when the row was changed there were at least twenty of them, the
  proposals a reviewer had judged and the requests of the last ten years a human had answered, nine
  in ten of them approvals, and those of the last fortnight were not failing. A request its timeout
  or a grant answered counts on neither side.\<close>
theorem promotion_is_earned:
  assumes "(ladder_step lc)\<^sup>*\<^sup>* (empty_ladder d dl) st" "find_rung cls (rungs st) = Some r" "ps_rung r = Promoted"
  shows "isAutonomyEligible cls \<and> ps_changeReason r = Some Promoted_on_evidence \<and> ps_changedById r = None \<and>
    (\<exists>st0 e. (ladder_step lc)\<^sup>*\<^sup>* (empty_ladder d dl) st0 \<and> (ladder_step lc)\<^sup>*\<^sup>* st0 st \<and>
       ps_evidence r = Some e \<and> ev_actionClass e = cls \<and>
       (let lifetime = ps_changedAt r - 3650 * 24 * 60 * 60 * 1000; recent = ps_changedAt r - 14 * 24 * 60 * 60 * 1000;
            made = proposals (dlog st0); asked = approvals (desk st0);
            new = filter (\<lambda>p. recent \<le> pr_createdAt p) made;
            yes = judged Would_approve cls made + human_verdicts Ap_approved cls lifetime asked;
            no = judged Would_reject cls made + human_verdicts Ap_denied cls lifetime asked;
            newYes = judged Would_approve cls new + human_verdicts Ap_approved cls recent asked;
            newNo = judged Would_reject cls new + human_verdicts Ap_denied cls recent asked
        in ev_approved e = yes \<and> ev_rejected e = no \<and> 20 \<le> yes + no \<and> 9 * no \<le> yes \<and>
           \<not> (5 \<le> newYes + newNo \<and> 3 * newYes < 7 * newNo)))"
proof -
  have row: "r \<in> set (rungs st)" "ps_actionClass r = cls" using find_rung_SomeD[OF assms(2)] by simp_all
  have earned: "earned r" using ladder_steps_ok[OF assms(1) empty_ladder_ok] row(1) by (simp add: ladder_ok_def)
  obtain st0 e where e: "(ladder_step lc)\<^sup>*\<^sup>* (empty_ladder d dl) st0" "(ladder_step lc)\<^sup>*\<^sup>* st0 st"
      "ps_evidence r = Some e" "e \<in> set (gatherEvidence lc (ps_changedAt r) st0)"
    using promoted_rows_gathered[OF assms(1) row(1) assms(3)] unfolding gathered_then_def by blast
  have bar: "isAutonomyEligible cls" "ps_changeReason r = Some Promoted_on_evidence" "ps_changedById r = None"
      "ev_actionClass e = cls" "20 \<le> ev_approved e + ev_rejected e" "9 * ev_rejected e \<le> ev_approved e"
      "\<not> (5 \<le> ev_recentApproved e + ev_recentRejected e \<and> 3 * ev_recentApproved e < 7 * ev_recentRejected e)"
    using earned assms(3) e(3) row(2) unfolding earned_def by simp_all
  show ?thesis
    using e(1-3) bar(1-3) bar(4-7)[unfolded gathered_counts[OF e(4), unfolded bar(4), THEN conjunct1]
      gathered_counts[OF e(4), unfolded bar(4), THEN conjunct2, THEN conjunct1]]
      gathered_counts[OF e(4)] unfolding Let_def
    by (intro conjI exI[of _ st0] exI[of _ e]) simp_all
qed

lemma sample_row:
  obtains r where "find_rung ''re-dispatch''
      (rungs (snd (evaluate code_unit_compare sample_ladder_world 5 sample_ladder))) = Some r" "ps_rung r = Promoted"
  using sample_promoted by (auto simp: rung_of_def split: option.splits)

theorem promotion_is_earned_witness:
  "\<exists>r. find_rung ''re-dispatch''
     (rungs (snd (evaluate code_unit_compare sample_ladder_world 5 sample_ladder))) = Some r \<and>
     ps_changeReason r = Some Promoted_on_evidence \<and> ps_changedById r = None"
proof -
  let ?st = "snd (evaluate code_unit_compare sample_ladder_world 5 sample_ladder)"
  obtain r where r: "find_rung ''re-dispatch'' (rungs ?st) = Some r" "ps_rung r = Promoted"
    by (rule sample_row)
  have "(ladder_step code_unit_compare)\<^sup>*\<^sup>* (empty_ladder sample_desk (sample_log Would_approve 20)) ?st"
    unfolding sample_ladder_def[symmetric] ladder_step_def using ladder_at.evaluates by blast
  from promotion_is_earned[OF this r] r(1) show ?thesis by blast
qed

section \<open>Demotion\<close>

text \<open>a demotion by hand stands. The answer names the end of the hold, fourteen days on, and says the
  ladder may not restore the rung; and through every sequence of evaluations, demotions, approvals,
  proposals and reviews before that instant, whatever evidence arrives, the class is not on the
  promoted rung.\<close>
theorem hand_demotion_holds:
  assumes "demoteManually lc w cls actor dnote now st = (Inr res, st1)"
    "(\<lambda>s s'. \<exists>t < md_manualHoldUntil res. ladder_at lc t s s')\<^sup>*\<^sup>* st1 st2"
  shows "md_manualHoldUntil res = now + 14 * 24 * 60 * 60 * 1000 \<and> \<not> md_rungMayBeRestored res \<and>
    rung_of (find_rung cls (rungs st2)) \<noteq> Promoted"
proof -
  have was: "rung_of (find_rung cls (rungs st)) = Promoted"
    using assms(1) demoteManually_refused by (metis Inl_Inr_False fst_conv)
  obtain d where "find_rung cls (rungs st1) =
      Some (row_after (evidence_now lc cls now st) (rungFor False (evidence_now lc cls now st))
        (Some Demoted_manually) d now (find_rung cls (rungs st)) (Some (actor, hold_end now)))"
    using find_rung_demoteManually[OF was, of lc w actor dnote now] assms(1) by (metis snd_conv)
  moreover have res: "md_manualHoldUntil res = hold_end now \<and> \<not> md_rungMayBeRestored res"
    by (rule demoteManually_result[OF was assms(1)])
  ultimately have "held_down cls (md_manualHoldUntil res) st1"
    by (simp add: held_down_def)
  with assms(2) have "held_down cls (md_manualHoldUntil res) st2"
    by (induction rule: rtranclp_induct) (auto dest: ladder_at_held_down)
  with res show ?thesis
    by (auto simp: held_down_def rung_of_def hold_end_def MANUAL_HOLD_DAYS_def REGRESSION_WINDOW_DAYS_def)
qed

text \<open>After the sample's class was promoted, its operator takes it back.\<close>

definition promoted_ladder :: ladder_state where
  "promoted_ladder = snd (evaluate code_unit_compare sample_ladder_world 5 sample_ladder)"

lemma sample_demoted:
  obtains res st1 where
    "demoteManually code_unit_compare sample_ladder_world ''re-dispatch'' ''u1'' None 6 promoted_ladder = (Inr res, st1)"
proof -
  let ?d = "demoteManually code_unit_compare sample_ladder_world ''re-dispatch'' ''u1'' None 6 promoted_ladder"
  have "rung_of (find_rung ''re-dispatch'' (rungs promoted_ladder)) = Promoted"
    unfolding promoted_ladder_def by (rule sample_promoted)
  moreover have "isActionClass ''re-dispatch''"
    by (simp add: isActionClass_def getActionClass_def ACTION_CLASSES_def)
  ultimately have "\<exists>res. fst ?d = Inr res"
    by (auto simp: demoteManually_def Let_def split_beta ladderStateFor_def)
  then show ?thesis using that by (metis prod.collapse)
qed

theorem hand_demotion_holds_witness:
  "\<exists>res st1. demoteManually code_unit_compare sample_ladder_world ''re-dispatch'' ''u1'' None 6 promoted_ladder =
     (Inr res, st1) \<and>
     rung_of (find_rung ''re-dispatch''
       (rungs (snd (evaluate code_unit_compare sample_ladder_world 7 st1)))) \<noteq> Promoted"
proof -
  obtain res st1 where d: "demoteManually code_unit_compare sample_ladder_world ''re-dispatch'' ''u1'' None 6
      promoted_ladder = (Inr res, st1)" by (rule sample_demoted)
  have "md_manualHoldUntil res = 6 + 14 * 24 * 60 * 60 * 1000"
    using hand_demotion_holds[OF d rtranclp.rtrancl_refl] by blast
  then have "\<exists>t < md_manualHoldUntil res. ladder_at code_unit_compare t st1
      (snd (evaluate code_unit_compare sample_ladder_world 7 st1))"
    using ladder_at.evaluates[of code_unit_compare 7 st1 sample_ladder_world] by (intro exI[of _ 7]) simp
  then have "(\<lambda>s s'. \<exists>t < md_manualHoldUntil res. ladder_at code_unit_compare t s s')\<^sup>*\<^sup>* st1
      (snd (evaluate code_unit_compare sample_ladder_world 7 st1))" by (rule r_into_rtranclp)
  from hand_demotion_holds[OF d this] d show ?thesis by blast
qed

text \<open>C30: a demotion the evaluation reports stops unattended work. When the grants could be read and written,
  no grant of the demoted class is active afterwards, so nothing of the class is authorized, in any
  repository, at any cost and time; and the evaluation activates no grant of any class.\<close>
theorem demotion_stops_unattended_work:
  assumes "c \<in> set (er_changes (fst (evaluate lc w now st)))"
    "lc_reason c \<in> {Some Demoted_on_regression, Some Demoted_ineligible}"
    "lw_grantsReadable w (lc_actionClass c)" "\<And>gid. lw_grantWritable w gid"
  shows "(\<forall>g \<in> set (grants (desk (snd (evaluate lc w now st)))).
       tg_actionClass g = lc_actionClass c \<longrightarrow> tg_status g \<noteq> Grant_active) \<and>
    \<not> (\<exists>v. authorize lc' (lc_actionClass c) repo cost t
      (grants (desk (snd (evaluate lc w now st)))) = Authorized v) \<and>
    {g \<in> set (grants (desk (snd (evaluate lc w now st)))). tg_status g = Grant_active} \<subseteq>
      {g \<in> set (grants (desk st)). tg_status g = Grant_active}"
proof -
  let ?gs = "grants (desk (snd (evaluate lc w now st)))"
  have c: "c \<in> set (fst (fst (evaluate_all w now (rungs st) (gatherEvidence lc now st) st)))"
    using assms(1) by (simp add: evaluate_def split_beta Let_def)
  have none: "tg_actionClass g \<noteq> lc_actionClass c" if "g \<in> set ?gs" "tg_status g = Grant_active" for g
    using evaluate_all_demoted[OF c _ assms(3,4) that[unfolded evaluate_snd]] assms(2) by (auto simp: demoting_def)
  then have "filter (is_candidate (lc_actionClass c) repo t) ?gs = []"
    by (auto simp: filter_empty_conv is_candidate_def)
  then have "\<not> (\<exists>v. authorize lc' (lc_actionClass c) repo cost t ?gs = Authorized v)"
    by (auto simp: authorize_def diagnoseNoGrant_def Let_def split: if_splits list.splits)
  moreover have "{g \<in> set ?gs. tg_status g = Grant_active} \<subseteq> {g \<in> set (grants (desk st)). tg_status g = Grant_active}"
    unfolding evaluate_snd using evaluate_all_active by blast
  ultimately show ?thesis using none by blast
qed

text \<open>A promoted class with ten rejections on its record and a grant in force.\<close>

definition failing_grant :: trust_grant where
  "failing_grant = (fresh_grant \<lparr>nr_id = ''g1'', nr_createdAt = 0\<rparr> ''re-dispatch'' ''r1'' ''u1'')
     \<lparr>tg_expiresAt := 1000, tg_budgetCeilingUsd := Some 25\<rparr>"

definition failing_ladder :: ladder_state where
  "failing_ladder =
    \<lparr>rungs = [(blank_row ''re-dispatch'')\<lparr>ps_rung := Promoted\<rparr>],
     desk = sample_desk\<lparr>grants := [failing_grant]\<rparr>, dlog = sample_log Would_reject 10, told = []\<rparr>"

lemma failing_demoted:
  obtains c where "c \<in> set (er_changes (fst (evaluate code_unit_compare sample_ladder_world 5 failing_ladder)))"
    "lc_actionClass c = ''re-dispatch''" "lc_reason c = Some Demoted_on_regression"
proof -
  obtain e where e: "e \<in> set (gatherEvidence code_unit_compare 5 failing_ladder)" "ev_actionClass e = ''re-dispatch''"
    using registered_class_has_evidence[OF redispatch_registered] .
  obtain b where b: "e = finish_evidence b" using gathered_sums[OF e(1)] by blast
  have "ev_recentApproved e = 0 \<and> ev_recentRejected e = 10"
    using sample_evidence[OF e, of Would_reject 10] by (simp add: failing_ladder_def sample_desk_def)
  then have "isRegressing e" unfolding b isRegressing_iff by (simp add: finish_evidence_def)
  moreover have "find_rung ''re-dispatch'' (rungs failing_ladder) = Some ((blank_row ''re-dispatch'')\<lparr>ps_rung := Promoted\<rparr>)"
    by (simp add: failing_ladder_def find_rung_def)
  ultimately have "\<exists>g d. rung_write False 5 (find_rung (ev_actionClass e) (rungs failing_ladder)) e =
      Some (g, Some Demoted_on_regression, d)"
    using e(2) redispatch_eligible by (simp add: rung_write_def evaluateLadder_def rung_of_def)
  then show ?thesis
    using evaluate_reports[of e code_unit_compare 5 failing_ladder sample_ladder_world] e that by auto
qed

theorem demotion_stops_unattended_work_witness:
  "\<not> (\<exists>v. authorize code_unit_compare ''re-dispatch'' ''r1'' (Some 1) 6
     (grants (desk (snd (evaluate code_unit_compare sample_ladder_world 5 failing_ladder)))) = Authorized v)"
proof -
  obtain c where c: "c \<in> set (er_changes (fst (evaluate code_unit_compare sample_ladder_world 5 failing_ladder)))"
    "lc_actionClass c = ''re-dispatch''" "lc_reason c = Some Demoted_on_regression"
    by (rule failing_demoted)
  show ?thesis
    using demotion_stops_unattended_work[OF c(1), of code_unit_compare "''r1''" "Some 1" 6] c(2,3)
    by (simp add: sample_ladder_world_def)
qed

text \<open>Nothing is struck from a class's record. Through any sequence of operations its row stays, its
  count of demotions never goes down, and it goes up whenever the class has left the promoted rung; the
  record of a hold, of a promotion and of a demotion, once made, is never blanked.\<close>
theorem falls_are_counted:
  assumes "(ladder_step lc)\<^sup>*\<^sup>* st st'" "distinct (map ps_actionClass (rungs st))"
    "find_rung cls (rungs st) = Some r"
  shows "\<exists>r'. find_rung cls (rungs st') = Some r' \<and> ps_demotionCount r \<le> ps_demotionCount r' \<and>
    (ps_rung r = Promoted \<and> ps_rung r' \<noteq> Promoted \<longrightarrow> ps_demotionCount r < ps_demotionCount r') \<and>
    (ps_manualHoldUntil r \<noteq> None \<longrightarrow> ps_manualHoldUntil r' \<noteq> None) \<and>
    (ps_promotedAt r \<noteq> None \<longrightarrow> ps_promotedAt r' \<noteq> None) \<and>
    (ps_demotedAt r \<noteq> None \<longrightarrow> ps_demotedAt r' \<noteq> None)"
proof -
  obtain r' where r': "r' \<in> set (rungs st')" "ps_actionClass r' = ps_actionClass r" "later_rung r r'"
    using ladder.steps_later[OF assms(1,2)] find_rung_SomeD[OF assms(3)] by blast
  moreover have "find_rung cls (rungs st') = Some r'"
    using find_rung_mem[OF ladder.steps_distinct[OF assms(1,2)] r'(1)] r'(2) find_rung_SomeD[OF assms(3)] by simp
  ultimately show ?thesis unfolding later_rung_def by blast
qed

theorem falls_are_counted_witness:
  "\<exists>r'. find_rung ''re-dispatch''
     (rungs (snd (evaluate code_unit_compare sample_ladder_world 5 failing_ladder))) = Some r' \<and>
     (ps_rung r' \<noteq> Promoted \<longrightarrow> 0 < ps_demotionCount r')"
proof -
  let ?st' = "snd (evaluate code_unit_compare sample_ladder_world 5 failing_ladder)"
  have "(ladder_step code_unit_compare)\<^sup>*\<^sup>* failing_ladder ?st'"
    unfolding ladder_step_def using ladder_at.evaluates by blast
  moreover have "distinct (map ps_actionClass (rungs failing_ladder))" by (simp add: failing_ladder_def)
  moreover have "find_rung ''re-dispatch'' (rungs failing_ladder) = Some ((blank_row ''re-dispatch'')\<lparr>ps_rung := Promoted\<rparr>)"
    by (simp add: failing_ladder_def find_rung_def)
  ultimately show ?thesis
    using falls_are_counted[of code_unit_compare failing_ladder ?st' "''re-dispatch''"
        "(blank_row ''re-dispatch'')\<lparr>ps_rung := Promoted\<rparr>"] by auto
qed

section \<open>How far off\<close>

text \<open>C40: the loop that looks for the number of missing approvals ends, for every record, and with the least
  number that reaches the promotion rate at the present count of rejections: nine times the
  rejections less the approvals, or a single one when nothing has been judged. A start that does not
  overshoot gives the same answer, so the rounding of the estimate it starts from does not matter.\<close>
theorem shortfall_is_least:
  "meetsPromotionRate (ev_approved e + shortfallCount e) (ev_rejected e) \<and>
   shortfallCount e = (LEAST n. meetsPromotionRate (ev_approved e + n) (ev_rejected e)) \<and>
   shortfallCount e = (if ev_approved e + ev_rejected e = 0 then 1 else 9 * ev_rejected e - ev_approved e) \<and>
   raise_until_met (ev_approved e) (ev_rejected e) 0 = shortfallCount e"
proof -
  let ?a = "ev_approved e" and ?r = "ev_rejected e"
  let ?start = "nat (max 0 (shortfall_estimate ?a ?r - 1))"
  have "\<not> meetsPromotionRate (?a + m) ?r" if "m < ?start" for m
    using that by (auto simp: meets_iff shortfall_estimate_eq)
  from raise_until_met_least[of ?start ?a ?r, OF this] have found: "meetsPromotionRate (?a + shortfallCount e) ?r"
    "\<And>m. m < shortfallCount e \<Longrightarrow> \<not> meetsPromotionRate (?a + m) ?r"
    unfolding shortfallCount_def by blast+
  have least: "n = (LEAST n. meetsPromotionRate (?a + n) ?r)"
    if "meetsPromotionRate (?a + n) ?r" "\<And>m. m < n \<Longrightarrow> \<not> meetsPromotionRate (?a + m) ?r" for n
    by (rule Least_equality[symmetric]) (use that leI in blast)+
  have "raise_until_met ?a ?r 0 = (LEAST n. meetsPromotionRate (?a + n) ?r)"
    using raise_until_met_least[of 0 ?a ?r] by (intro least) auto
  moreover have "(if ?a + ?r = 0 then 1 else 9 * ?r - ?a) = (LEAST n. meetsPromotionRate (?a + n) ?r)"
    by (rule least) (auto simp: meets_iff split: if_splits)
  ultimately show ?thesis using found(1) least[OF found] by simp
qed

section \<open>Where the code and its comments part\<close>

text \<open>
  The rules say an ineligible class leaves the promoted rung even while the ladder is switched off.
  The evaluation does that; the hourly task, its only caller, returns before evaluating.
\<close>

theorem ineligible_class_stays_while_off:
  assumes "\<not> lw_enabled w" "find_rung ''quarantine-decision'' (rungs st) = Some r" "ps_rung r = Promoted"
  shows "rung_of (find_rung ''quarantine-decision'' (rungs (handleEvaluation lc w now st))) = Promoted \<and>
    rung_of (find_rung ''quarantine-decision'' (rungs (snd (evaluate lc w now st)))) \<noteq> Promoted"
proof -
  have "''quarantine-decision'' \<in> set LADDER_CLASSES" by (simp add: LADDER_CLASSES_def ACTION_CLASSES_def)
  then obtain e where e: "e \<in> set (gatherEvidence lc now st)" "ev_actionClass e = ''quarantine-decision''"
    by (rule registered_class_has_evidence)
  have "rung_of (find_rung ''quarantine-decision'' (rungs (snd (evaluate lc w now st)))) \<noteq> Promoted"
    using rung_after_evaluation[OF e(1), of w] e(2) by (simp split: if_splits)
  with assms show ?thesis by (simp add: handleEvaluation_def rung_of_def)
qed

text \<open>
  The comment on \<open>activeHold\<close> says nothing writes a rung change while a hold stands, so the last
  change names who placed it. The first judgement of a class held on \<open>observe\<close> writes one, and blanks
  the name while the hold still stands.
\<close>

theorem hold_forgets_its_author:
  assumes "e \<in> set (gatherEvidence lc now st)" "isAutonomyEligible (ev_actionClass e)" "0 < ev_sample e"
    "find_rung (ev_actionClass e) (rungs st) = Some r" "ps_rung r = Observe"
    "ps_manualHoldUntil r = Some until" "now < until" "ps_changedById r = Some actor"
  shows "\<exists>r'. find_rung (ev_actionClass e) (rungs (snd (evaluate lc w now st))) = Some r' \<and>
    ps_rung r' = Measure \<and> hold_of (Some r) now = Some \<lparr>heldUntil = until, heldById = Some actor\<rparr> \<and>
    hold_of (Some r') now = Some \<lparr>heldUntil = until, heldById = None\<rparr>"
proof -
  have held: "hold_of (Some r) now = Some \<lparr>heldUntil = until, heldById = Some actor\<rparr>"
    using assms by (simp add: hold_of_def activeHold_def)
  have "\<exists>d. evaluateLadder Observe e True (\<not> lw_enabled w) (hold_of (Some r) now) = Hold d"
    by (simp add: evaluateLadder_def held)
  then obtain d where "evaluateLadder Observe e True (\<not> lw_enabled w) (hold_of (Some r) now) = Hold d" ..
  then have "rung_write (\<not> lw_enabled w) now (Some r) e = Some (Measure, None, d)"
    using assms by (simp add: rung_write_def rung_of_def rungFor_def)
  then have "find_rung (ev_actionClass e) (rungs (snd (evaluate lc w now st))) =
      Some (row_after e Measure None d now (Some r) None)"
    unfolding find_rung_evaluate evidence_for_mem[OF assms(1)] using assms(4) by (simp add: evaluated_row_def)
  with held assms(6,7) show ?thesis by (simp add: hold_of_def activeHold_def)
qed

text \<open>
  The notification of a demotion that found no grant says the class is no longer eligible for one. No
  rung is consulted when a grant is created: whatever would have been created before is created after.
\<close>

theorem demoted_class_is_granted:
  assumes "create_error repositories input now = None" "rung_of (find_rung (cg_actionClass input) (rungs st)) \<noteq> Promoted"
  shows "\<exists>v rows. create_grant repositories nr input now (grants (desk st)) = Inr (v, rows) \<and>
    (\<exists>g \<in> set rows. tg_actionClass g = cg_actionClass input \<and> tg_status g = Grant_active \<and>
       tg_expiresAt g > now)"
  using assms(1)
  by (auto simp: create_grant_def create_error_def fresh_grant_def Let_def split: option.splits if_splits)

end
