(* ===== verification/Quota.thy ===== *)
theory Quota
  imports Dispatch_Policy Row_History
begin

text \<open>
  The vendor's rate-limit windows (\<open>quota/quota-window.ts\<close>, \<open>quota/quota.service.ts\<close>): the sightings
  of a poll collapsed to windows, the table that remembers them, the one position routing reads off
  them, and the readings with what the runs put through each window. The identity of a window is
  its runner, its label and its reset instant, a triple where the code joins the three into one map
  key. A write that throws is a parameter: the code logs it and goes on to the next window.
\<close>

section \<open>Windows\<close>

definition WINDOW_LENGTH_MS :: "string \<Rightarrow> int option" where
  "WINDOW_LENGTH_MS kind =
    (if kind = ''five_hour'' then Some (5 * 60 * 60 * 1000)
     else if kind = ''weekly'' then Some (7 * 24 * 60 * 60 * 1000) else None)"

datatype window_start_basis = Vendor_window_length | First_observation

record window_span =
  sp_startedAt :: instant
  sp_startedAtBasis :: window_start_basis
  sp_partial :: bool

record quota_window =
  qw_runnerKey :: string
  qw_kind :: string
  qw_resetsAt :: instant
  qw_pressure :: quota_pressure
  qw_peakPressure :: quota_pressure
  qw_firstObservedAt :: instant
  qw_lastObservedAt :: instant
  qw_observations :: nat

type_synonym window_key = "string \<times> string \<times> instant"

definition window_key :: "quota_window \<Rightarrow> window_key" where
  "window_key w = (qw_runnerKey w, qw_kind w, qw_resetsAt w)"

definition windowSpan :: "quota_window \<Rightarrow> window_span" where
  "windowSpan w =
    (case WINDOW_LENGTH_MS (qw_kind w) of
       None \<Rightarrow> \<lparr>sp_startedAt = qw_firstObservedAt w, sp_startedAtBasis = First_observation, sp_partial = True\<rparr>
     | Some len \<Rightarrow> \<lparr>sp_startedAt = qw_resetsAt w - len, sp_startedAtBasis = Vendor_window_length,
                    sp_partial = False\<rparr>)"

definition worsePressure :: "quota_pressure \<Rightarrow> quota_pressure \<Rightarrow> quota_pressure" where
  "worsePressure a b = (if pressure_index b > pressure_index a then b else a)"

section \<open>Collapsing a batch\<close>

definition observation_key :: "runner_quota_observation \<Rightarrow> window_key" where
  "observation_key ob = (obs_runnerKey ob, obs_kind ob, obs_resetsAt ob)"

definition first_sighting :: "runner_quota_observation \<Rightarrow> quota_window" where
  "first_sighting ob =
    \<lparr>qw_runnerKey = obs_runnerKey ob, qw_kind = obs_kind ob, qw_resetsAt = obs_resetsAt ob,
     qw_pressure = obs_pressure ob, qw_peakPressure = obs_pressure ob,
     qw_firstObservedAt = obs_observedAt ob, qw_lastObservedAt = obs_observedAt ob, qw_observations = 1\<rparr>"

definition sighting :: "runner_quota_observation \<Rightarrow> quota_window \<Rightarrow> quota_window" where
  "sighting ob w =
    (let w1 = w\<lparr>qw_observations := qw_observations w + 1,
                qw_peakPressure := worsePressure (qw_peakPressure w) (obs_pressure ob)\<rparr>;
         w2 = (if obs_observedAt ob < qw_firstObservedAt w1
               then w1\<lparr>qw_firstObservedAt := obs_observedAt ob\<rparr> else w1)
     in if obs_observedAt ob \<ge> qw_lastObservedAt w2
        then w2\<lparr>qw_lastObservedAt := obs_observedAt ob, qw_pressure := obs_pressure ob\<rparr> else w2)"

text \<open>The loop over the sightings; the map is in insertion order.\<close>

fun add_sighting :: "runner_quota_observation \<Rightarrow> quota_window list \<Rightarrow> quota_window list" where
  "add_sighting ob [] = [first_sighting ob]"
| "add_sighting ob (w # ws) =
    (if window_key w = observation_key ob then sighting ob w # ws else w # add_sighting ob ws)"

definition collapseObservations :: "runner_quota_observation list \<Rightarrow> quota_window list" where
  "collapseObservations observations = fold add_sighting observations []"

section \<open>The position\<close>

definition quotaPositionFrom :: "quota_window \<Rightarrow> instant \<Rightarrow> runner_quota_position option" where
  "quotaPositionFrom w now =
    (if qw_resetsAt w \<le> now then None
     else if qw_pressure w = Pressure_unknown then None
     else Some \<lparr>exhausted = (qw_pressure w = Pressure_exhausted), rq_resumesAt = Some (qw_resetsAt w),
                basis = Window_status (qw_pressure w) (qw_kind w) (qw_lastObservedAt w)\<rparr>)"

definition QUOTA_METER_HEALTH_HORIZON_MS :: int where "QUOTA_METER_HEALTH_HORIZON_MS = 15 * 60000"

text \<open>\<open>reduce\<close> of a list that is not empty, from its first element.\<close>

fun reduce1 :: "('a \<Rightarrow> 'a \<Rightarrow> 'a) \<Rightarrow> 'a list \<Rightarrow> 'a option" where
  "reduce1 f [] = None"
| "reduce1 f (x # xs) = Some (foldl f x xs)"

definition later_reset :: "quota_window \<Rightarrow> quota_window \<Rightarrow> quota_window" where
  "later_reset a b = (if qw_resetsAt a > qw_resetsAt b then a else b)"

definition later_seen :: "quota_window \<Rightarrow> quota_window \<Rightarrow> quota_window" where
  "later_seen a b = (if qw_lastObservedAt a > qw_lastObservedAt b then a else b)"

definition worse_window :: "quota_window \<Rightarrow> quota_window \<Rightarrow> quota_window" where
  "worse_window a b =
    (if worsePressure (qw_pressure a) (qw_pressure b) \<noteq> qw_pressure a then b
     else if worsePressure (qw_pressure b) (qw_pressure a) \<noteq> qw_pressure b then a
     else if qw_lastObservedAt b > qw_lastObservedAt a then b else a)"

definition live_windows :: "instant \<Rightarrow> quota_window list \<Rightarrow> quota_window list" where
  "live_windows now = filter (\<lambda>w. qw_resetsAt w > now)"

definition spent_windows :: "instant \<Rightarrow> quota_window list \<Rightarrow> quota_window list" where
  "spent_windows now ws = filter (\<lambda>w. qw_pressure w = Pressure_exhausted) (live_windows now ws)"

definition fresh_windows :: "instant \<Rightarrow> int \<Rightarrow> quota_window list \<Rightarrow> quota_window list" where
  "fresh_windows now horizon ws =
    filter (\<lambda>w. qw_pressure w \<noteq> Pressure_unknown \<and> now - qw_lastObservedAt w \<le> horizon) (live_windows now ws)"

definition meterQuotaPosition ::
  "quota_window list \<Rightarrow> instant \<Rightarrow> int \<Rightarrow> runner_quota_position option" where
  "meterQuotaPosition ws now horizon =
    (let spent = spent_windows now ws in
     case (reduce1 later_reset spent, reduce1 later_seen spent) of
       (Some until, Some seen) \<Rightarrow>
         Some \<lparr>exhausted = True, rq_resumesAt = Some (qw_resetsAt until),
               basis = Windows_exhausted (js_sort code_unit_compare (remdups (map qw_kind spent)))
                         (qw_lastObservedAt seen) (length spent > 1)\<rparr>
     | _ \<Rightarrow>
         (case reduce1 worse_window (fresh_windows now horizon ws) of
            None \<Rightarrow> None
          | Some worst \<Rightarrow> quotaPositionFrom worst now))"

section \<open>The table\<close>

definition find_window :: "window_key \<Rightarrow> quota_window list \<Rightarrow> quota_window option" where
  "find_window k rows = find (\<lambda>w. window_key w = k) rows"

definition storedPeak :: "window_key \<Rightarrow> quota_window list \<Rightarrow> quota_pressure" where
  "storedPeak k rows = (case find_window k rows of None \<Rightarrow> Pressure_unknown | Some w \<Rightarrow> qw_peakPressure w)"

definition upsert_window :: "quota_window \<Rightarrow> quota_window list \<Rightarrow> quota_window list" where
  "upsert_window w rows =
    (let stored = storedPeak (window_key w) rows in
     case find_window (window_key w) rows of
       None \<Rightarrow> rows @ [w]
     | Some _ \<Rightarrow>
         map (\<lambda>r. if window_key r = window_key w
                  then r\<lparr>qw_pressure := qw_pressure w, qw_peakPressure := worsePressure stored (qw_peakPressure w),
                         qw_lastObservedAt := qw_lastObservedAt w,
                         qw_observations := qw_observations r + qw_observations w\<rparr>
                  else r) rows)"

fun record_each ::
  "(window_key \<Rightarrow> bool) \<Rightarrow> quota_window list \<Rightarrow> quota_window list \<Rightarrow> nat \<times> quota_window list" where
  "record_each writable [] rows = (0, rows)"
| "record_each writable (w # ws) rows =
    (if writable (window_key w)
     then let (n, rows') = record_each writable ws (upsert_window w rows) in (n + 1, rows')
     else record_each writable ws rows)"

definition record_quota ::
  "(window_key \<Rightarrow> bool) \<Rightarrow> runner_quota_observation list \<Rightarrow> quota_window list \<Rightarrow> nat \<times> quota_window list" where
  "record_quota writable observations rows =
    (if observations = [] then (0, rows) else record_each writable (collapseObservations observations) rows)"

section \<open>Readings\<close>

record opifex_consumption =
  oc_runs :: nat
  oc_runsWithoutCost :: nat
  oc_reportedUsd :: "rat option"
  oc_tokensInput :: "int option"
  oc_tokensOutput :: "int option"

record quota_window_reading =
  qr_window :: quota_window
  qr_span :: window_span
  qr_consumption :: opifex_consumption

record quota_runner_reading =
  qn_runnerKey :: string
  qn_position :: "runner_quota_position option"
  qn_windows :: "quota_window_reading list"

definition sumOrNull :: "'n :: comm_monoid_add option list \<Rightarrow> 'n option" where
  "sumOrNull vs =
    (let reported = map the (filter (\<lambda>v. v \<noteq> None) vs)
     in if reported \<noteq> [] then Some (sum_list reported) else None)"

text \<open>The service's own \<open>toCents\<close>, to four decimals.\<close>

definition to_hundredths_of_cents :: "rat \<Rightarrow> rat" where
  "to_hundredths_of_cents v = of_int (math_round (v * 10000)) / 10000"

record consumption_rows =
  cs_runs :: "run_row list"
  cs_events :: "(string \<times> event_row) list" \<comment> \<open>with the runner of the event's run\<close>

definition loadConsumption ::
  "quota_window list \<Rightarrow> instant \<Rightarrow> run_store \<Rightarrow> consumption_rows" where
  "loadConsumption ws now st =
    (let keys = remdups (map qw_runnerKey ws);
         starts = map (\<lambda>w. sp_startedAt (windowSpan w)) ws;
         earliest = (case starts of [] \<Rightarrow> now | s # ss \<Rightarrow> foldl (\<lambda>soonest t. if t < soonest then t else soonest) s ss);
         runner_of = (\<lambda>e. map_option run_runnerKey (find (\<lambda>r. run_id r = ev_runId e) (runs st)))
     in \<lparr>cs_runs = filter (\<lambda>r. run_runnerKey r \<in> set keys \<and> earliest \<le> run_startedAt r \<and> run_startedAt r \<le> now)
                    (runs st),
         cs_events = concat (map (\<lambda>e. case runner_of e of None \<Rightarrow> []
             | Some k \<Rightarrow> if k \<in> set keys \<and> earliest \<le> ev_occurredAt e \<and> ev_occurredAt e \<le> now \<and>
                          (ev_costUsd e \<noteq> None \<or> ev_tokensInput e \<noteq> None \<or> ev_tokensOutput e \<noteq> None)
                       then [(k, e)] else []) (events st))\<rparr>)"

definition reading :: "quota_window \<Rightarrow> instant \<Rightarrow> consumption_rows \<Rightarrow> quota_window_reading" where
  "reading w now rows =
    (let span = windowSpan w;
         until = (if qw_resetsAt w < now then qw_resetsAt w else now);
         inSpan = (\<lambda>t. sp_startedAt span \<le> t \<and> t \<le> until);
         rs = filter (\<lambda>r. run_runnerKey r = qw_runnerKey w \<and> inSpan (run_startedAt r)) (cs_runs rows);
         es = map snd (filter (\<lambda>(k, e). k = qw_runnerKey w \<and> inSpan (ev_occurredAt e)) (cs_events rows))
     in \<lparr>qr_window = w, qr_span = span,
         qr_consumption =
           \<lparr>oc_runs = length rs, oc_runsWithoutCost = length (filter (\<lambda>r. run_costUsd r = None) rs),
            oc_reportedUsd = map_option to_hundredths_of_cents (sumOrNull (map ev_costUsd es)),
            oc_tokensInput = sumOrNull (map ev_tokensInput es),
            oc_tokensOutput = sumOrNull (map ev_tokensOutput es)\<rparr>\<rparr>)"

definition soonest_first :: "quota_window \<Rightarrow> quota_window \<Rightarrow> int" where
  "soonest_first a b =
    (if qw_runnerKey a \<noteq> qw_runnerKey b then code_unit_compare (qw_runnerKey a) (qw_runnerKey b)
     else qw_resetsAt a - qw_resetsAt b)"

definition readings :: "instant \<Rightarrow> run_store \<Rightarrow> quota_window list \<Rightarrow> quota_runner_reading list" where
  "readings now st rows =
    (let ws = js_sort soonest_first (filter (\<lambda>w. qw_resetsAt w > now) rows);
         consumption = loadConsumption ws now st
     in map (\<lambda>key.
          let mine = filter (\<lambda>w. qw_runnerKey w = key) ws in
          \<lparr>qn_runnerKey = key,
           qn_position = meterQuotaPosition mine now QUOTA_METER_HEALTH_HORIZON_MS,
           qn_windows = map (\<lambda>w. reading w now consumption) mine\<rparr>)
        (rev (remdups (rev (map qw_runnerKey ws)))))"

section \<open>Lemmas\<close>

lemma worsePressure_max: "worsePressure a b = max a b"
  by (simp add: worsePressure_def max_def less_eq_quota_pressure_def)

lemma reduce1_None_iff [simp]: "reduce1 f xs = None \<longleftrightarrow> xs = []"
  by (cases xs) simp_all

text \<open>A reduction that keeps one of its two arguments answers an element of the list.\<close>

lemma foldl_choice_mem:
  assumes "\<And>a b. f a b = a \<or> f a b = b"
  shows "foldl f x xs \<in> set (x # xs)"
proof (induction xs arbitrary: x)
  case (Cons y ys)
  have "foldl f (f x y) ys \<in> insert (f x y) (set ys)" using Cons[of "f x y"] by simp
  moreover have "f x y = x \<or> f x y = y" by (rule assms)
  ultimately show ?case by (elim disjE) auto
qed simp

lemma le_first:
  fixes m :: "'a \<Rightarrow> 'b :: linorder"
  assumes "\<And>a b. m a \<le> m (f a b) \<and> m b \<le> m (f a b)"
  shows "m x \<le> m (foldl f x xs)"
proof (induction xs arbitrary: x)
  case (Cons z zs)
  have "m x \<le> m (f x z)" using assms by blast
  also have "\<dots> \<le> m (foldl f (f x z) zs)" by (rule Cons.IH)
  finally show ?case by simp
qed simp

lemma foldl_choice_greatest:
  fixes m :: "'a \<Rightarrow> 'b :: linorder"
  assumes "\<And>a b. m a \<le> m (f a b) \<and> m b \<le> m (f a b)"
  shows "y \<in> set (x # xs) \<Longrightarrow> m y \<le> m (foldl f x xs)"
proof (induction xs arbitrary: x)
  case (Cons z zs)
  have best: "m (f x z) \<le> m (foldl f (f x z) zs)" using le_first[of m f, OF assms] .
  from Cons.prems consider "y = x" | "y = z" | "y \<in> set zs" by auto
  then show ?case
  proof cases
    case 3
    then show ?thesis using Cons.IH[of "f x z"] by simp
  qed (use best assms[of x z] in \<open>auto intro: order_trans\<close>)
qed simp

lemma reduce1_mem: "(\<And>a b. f a b = a \<or> f a b = b) \<Longrightarrow> reduce1 f xs = Some y \<Longrightarrow> y \<in> set xs"
  using foldl_choice_mem[of f] by (cases xs) auto

lemma reduce1_greatest:
  fixes m :: "'a \<Rightarrow> 'b :: linorder"
  assumes "\<And>a b. m a \<le> m (f a b) \<and> m b \<le> m (f a b)" "reduce1 f xs = Some y" "x \<in> set xs"
  shows "m x \<le> m y"
  using foldl_choice_greatest[of m f, OF assms(1)] assms(2,3) by (cases xs) auto

lemma later_reset_choice: "later_reset a b = a \<or> later_reset a b = b"
  by (simp add: later_reset_def)

lemma worse_window_choice: "worse_window a b = a \<or> worse_window a b = b"
  by (simp add: worse_window_def)

lemma worse_window_pressure: "qw_pressure a \<le> qw_pressure (worse_window a b) \<and> qw_pressure b \<le> qw_pressure (worse_window a b)"
  by (auto simp: worse_window_def worsePressure_max max_def split: if_splits)

lemma later_reset_resets: "qw_resetsAt a \<le> qw_resetsAt (later_reset a b) \<and> qw_resetsAt b \<le> qw_resetsAt (later_reset a b)"
  by (auto simp: later_reset_def)

lemma spent_live: "w \<in> set (spent_windows now ws) \<longleftrightarrow>
    w \<in> set ws \<and> now < qw_resetsAt w \<and> qw_pressure w = Pressure_exhausted"
  by (auto simp: spent_windows_def live_windows_def)

lemma meter_exhausted:
  assumes "w \<in> set ws" "now < qw_resetsAt w" "qw_pressure w = Pressure_exhausted"
  shows "\<exists>u \<in> set ws. qw_pressure u = Pressure_exhausted \<and> now < qw_resetsAt u \<and>
    (\<forall>v \<in> set ws. now < qw_resetsAt v \<and> qw_pressure v = Pressure_exhausted \<longrightarrow> qw_resetsAt v \<le> qw_resetsAt u) \<and>
    (\<exists>b. meterQuotaPosition ws now horizon = Some \<lparr>exhausted = True, rq_resumesAt = Some (qw_resetsAt u), basis = b\<rparr>)"
proof -
  have ne: "spent_windows now ws \<noteq> []" using assms spent_live[of w now ws] by (metis empty_iff list.set(1))
  then obtain u s where u: "reduce1 later_reset (spent_windows now ws) = Some u"
    and s: "reduce1 later_seen (spent_windows now ws) = Some s"
    by (metis not_None_eq reduce1_None_iff)
  have "u \<in> set (spent_windows now ws)" by (rule reduce1_mem[OF later_reset_choice u])
  moreover have "qw_resetsAt v \<le> qw_resetsAt u" if "v \<in> set (spent_windows now ws)" for v
    by (rule reduce1_greatest[where m = qw_resetsAt, OF later_reset_resets u that])
  moreover have "\<exists>b. meterQuotaPosition ws now horizon =
      Some \<lparr>exhausted = True, rq_resumesAt = Some (qw_resetsAt u), basis = b\<rparr>"
    unfolding meterQuotaPosition_def Let_def u s by simp
  ultimately show ?thesis unfolding spent_live by blast
qed

lemma meter_healthy:
  assumes "spent_windows now ws = []"
  shows "meterQuotaPosition ws now horizon =
    (case reduce1 worse_window (fresh_windows now horizon ws) of
       None \<Rightarrow> None
     | Some w \<Rightarrow> Some \<lparr>exhausted = False, rq_resumesAt = Some (qw_resetsAt w),
         basis = Window_status (qw_pressure w) (qw_kind w) (qw_lastObservedAt w)\<rparr>)"
proof (cases "reduce1 worse_window (fresh_windows now horizon ws)")
  case (Some w)
  have "w \<in> set (fresh_windows now horizon ws)" by (rule reduce1_mem[OF worse_window_choice Some])
  then have "w \<in> set ws" "now < qw_resetsAt w" "qw_pressure w \<noteq> Pressure_unknown"
    by (auto simp: fresh_windows_def live_windows_def)
  moreover have "qw_pressure w \<noteq> Pressure_exhausted"
    using assms spent_live[of w now ws] calculation by auto
  ultimately show ?thesis using Some assms
    by (simp add: meterQuotaPosition_def quotaPositionFrom_def)
qed (simp add: meterQuotaPosition_def assms)

subsection \<open>A batch\<close>

definition sightings_of :: "window_key \<Rightarrow> runner_quota_observation list \<Rightarrow> runner_quota_observation list" where
  "sightings_of k = filter (\<lambda>ob. observation_key ob = k)"

lemma sighting_key [simp]: "window_key (sighting ob w) = window_key w"
  by (simp add: sighting_def window_key_def Let_def)

lemma first_sighting_key [simp]: "window_key (first_sighting ob) = observation_key ob"
  by (simp add: first_sighting_def window_key_def observation_key_def)

lemma find_window_add:
  "find_window k (add_sighting ob ws) =
    (if observation_key ob = k
     then Some (case find_window k ws of None \<Rightarrow> first_sighting ob | Some w \<Rightarrow> sighting ob w)
     else find_window k ws)"
  by (induction ws) (auto simp: find_window_def)

lemma add_sighting_keys: "window_key ` set (add_sighting ob ws) = insert (observation_key ob) (window_key ` set ws)"
  by (induction ws) auto

lemma add_sighting_distinct: "distinct (map window_key ws) \<Longrightarrow> distinct (map window_key (add_sighting ob ws))"
proof (induction ws)
  case (Cons w ws)
  have "window_key w \<notin> window_key ` set (add_sighting ob ws)" if "window_key w \<noteq> observation_key ob"
    unfolding add_sighting_keys using that Cons.prems by simp
  with Cons show ?case by auto
qed simp

lemma collapse_distinct: "distinct (map window_key (collapseObservations obs))"
proof -
  have "distinct (map window_key ws) \<Longrightarrow> distinct (map window_key (fold add_sighting obs ws))" for ws
    by (induction obs arbitrary: ws) (simp_all add: add_sighting_distinct)
  then show ?thesis by (simp add: collapseObservations_def)
qed

lemma find_window_fold:
  "find_window k (fold add_sighting obs ws) =
    (case find_window k ws of
       Some w \<Rightarrow> Some (fold sighting (sightings_of k obs) w)
     | None \<Rightarrow> (case sightings_of k obs of [] \<Rightarrow> None | ob # rest \<Rightarrow> Some (fold sighting rest (first_sighting ob))))"
  by (induction obs arbitrary: ws) (simp_all add: find_window_add sightings_of_def split: option.splits)

lemma find_window_collapse:
  "find_window k (collapseObservations obs) =
    (case sightings_of k obs of [] \<Rightarrow> None | ob # rest \<Rightarrow> Some (fold sighting rest (first_sighting ob)))"
  unfolding collapseObservations_def find_window_fold by (simp add: find_window_def)

text \<open>What the window holds of the sightings it was made of.\<close>

definition sums_up :: "runner_quota_observation list \<Rightarrow> quota_window \<Rightarrow> bool" where
  "sums_up obs w \<longleftrightarrow>
     qw_observations w = length obs \<and>
     qw_peakPressure w = Max (obs_pressure ` set obs) \<and>
     qw_firstObservedAt w = Min (obs_observedAt ` set obs) \<and>
     qw_lastObservedAt w = Max (obs_observedAt ` set obs) \<and>
     (\<exists>us ob vs. obs = us @ ob # vs \<and> qw_pressure w = obs_pressure ob \<and> qw_lastObservedAt w = obs_observedAt ob \<and>
        (\<forall>v \<in> set vs. obs_observedAt v < obs_observedAt ob))"

lemma sums_up_first: "sums_up [ob] (first_sighting ob)"
proof -
  have "\<exists>us x vs. [ob] = us @ x # vs \<and> obs_pressure ob = obs_pressure x \<and> obs_observedAt ob = obs_observedAt x \<and>
      (\<forall>v \<in> set vs. obs_observedAt v < obs_observedAt x)"
    by (intro exI[of _ "[]"] exI[of _ ob]) simp
  then show ?thesis by (simp add: sums_up_def first_sighting_def)
qed

lemma sighting_sel:
  "qw_observations (sighting ob w) = qw_observations w + 1"
  "qw_peakPressure (sighting ob w) = max (obs_pressure ob) (qw_peakPressure w)"
  "qw_firstObservedAt (sighting ob w) = min (obs_observedAt ob) (qw_firstObservedAt w)"
  "qw_lastObservedAt (sighting ob w) = max (obs_observedAt ob) (qw_lastObservedAt w)"
  by (simp_all add: sighting_def worsePressure_max max.commute max_def min_def Let_def)

lemma sums_up_snoc:
  assumes "sums_up obs w" "obs \<noteq> []"
  shows "sums_up (obs @ [ob]) (sighting ob w)"
proof -
  have grown: "Max (obs_pressure ` set (obs @ [ob])) = max (obs_pressure ob) (Max (obs_pressure ` set obs))"
    "Min (obs_observedAt ` set (obs @ [ob])) = min (obs_observedAt ob) (Min (obs_observedAt ` set obs))"
    "Max (obs_observedAt ` set (obs @ [ob])) = max (obs_observedAt ob) (Max (obs_observedAt ` set obs))"
    using assms(2) by simp_all
  have "qw_observations w = length obs" "qw_peakPressure w = Max (obs_pressure ` set obs)"
    "qw_firstObservedAt w = Min (obs_observedAt ` set obs)" "qw_lastObservedAt w = Max (obs_observedAt ` set obs)"
    using assms(1) unfolding sums_up_def by blast+
  then have "qw_observations (sighting ob w) = length (obs @ [ob])"
    "qw_peakPressure (sighting ob w) = Max (obs_pressure ` set (obs @ [ob]))"
    "qw_firstObservedAt (sighting ob w) = Min (obs_observedAt ` set (obs @ [ob]))"
    "qw_lastObservedAt (sighting ob w) = Max (obs_observedAt ` set (obs @ [ob]))"
    unfolding sighting_sel grown by simp_all
  moreover have "\<exists>us x vs. obs @ [ob] = us @ x # vs \<and> qw_pressure (sighting ob w) = obs_pressure x \<and>
      qw_lastObservedAt (sighting ob w) = obs_observedAt x \<and> (\<forall>v \<in> set vs. obs_observedAt v < obs_observedAt x)"
  proof (cases "obs_observedAt ob \<ge> qw_lastObservedAt w")
    case True
    then show ?thesis by (intro exI[of _ obs] exI[of _ ob] exI[of _ "[]"]) (simp add: sighting_def Let_def)
  next
    case False
    obtain us x vs where "obs = us @ x # vs" "qw_pressure w = obs_pressure x"
      "qw_lastObservedAt w = obs_observedAt x" "\<forall>v \<in> set vs. obs_observedAt v < obs_observedAt x"
      using assms(1) unfolding sums_up_def by blast
    with False show ?thesis
      by (intro exI[of _ us] exI[of _ x] exI[of _ "vs @ [ob]"]) (auto simp: sighting_def Let_def)
  qed
  ultimately show ?thesis unfolding sums_up_def by blast
qed

lemma sums_up_fold: "sums_up pre w \<Longrightarrow> pre \<noteq> [] \<Longrightarrow> sums_up (pre @ obs) (fold sighting obs w)"
proof (induction obs arbitrary: pre w)
  case (Cons ob obs)
  from Cons.IH[OF sums_up_snoc[OF Cons.prems]] show ?case by simp
qed simp

lemma collapse_sums_up:
  assumes "find_window k (collapseObservations obs) = Some w"
  shows "sums_up (sightings_of k obs) w"
proof -
  obtain ob rest where "sightings_of k obs = ob # rest" "w = fold sighting rest (first_sighting ob)"
    using assms unfolding find_window_collapse by (auto split: list.splits)
  with sums_up_fold[OF sums_up_first, of ob rest] show ?thesis by simp
qed

subsection \<open>The table over time\<close>

definition later_window :: "quota_window \<Rightarrow> quota_window \<Rightarrow> bool" where
  "later_window w w' \<longleftrightarrow>
     qw_firstObservedAt w' = qw_firstObservedAt w \<and> qw_peakPressure w \<le> qw_peakPressure w' \<and>
     qw_observations w \<le> qw_observations w'"

definition quota_step :: "quota_window list \<Rightarrow> quota_window list \<Rightarrow> bool" where
  "quota_step rows rows' \<longleftrightarrow> (\<exists>writable obs. rows' = snd (record_quota writable obs rows))"

lemma find_window_SomeD: "find_window k rows = Some w \<Longrightarrow> w \<in> set rows \<and> window_key w = k"
  unfolding find_window_def by (rule find_Some_iff_mem)

lemma find_window_mem:
  assumes "distinct (map window_key rows)" "w \<in> set rows"
  shows "find_window (window_key w) rows = Some w"
  using assms by (induction rows) (auto simp: find_window_def)

lemma find_window_None_iff: "find_window k rows = None \<longleftrightarrow> k \<notin> window_key ` set rows"
  by (auto simp: find_window_def find_None_iff)

text \<open>What the upsert makes of the stored row.\<close>

definition merged :: "quota_window \<Rightarrow> quota_window \<Rightarrow> quota_window" where
  "merged w r = r\<lparr>qw_pressure := qw_pressure w, qw_peakPressure := worsePressure (qw_peakPressure r) (qw_peakPressure w),
     qw_lastObservedAt := qw_lastObservedAt w, qw_observations := qw_observations r + qw_observations w\<rparr>"

lemma merged_key [simp]: "window_key (merged w r) = window_key r"
  by (simp add: merged_def window_key_def)

lemma merged_later: "later_window r (merged w r)"
  by (simp add: later_window_def merged_def worsePressure_max)

lemma find_window_upsert:
  assumes "distinct (map window_key rows)"
  shows "find_window k (upsert_window w rows) =
    (if k = window_key w
     then Some (case find_window k rows of None \<Rightarrow> w | Some r \<Rightarrow> merged w r)
     else find_window k rows)"
proof (cases "find_window (window_key w) rows")
  case None
  have "find_window k (rows @ [w]) = (case find_window k rows of None \<Rightarrow> if window_key w = k then Some w else None
      | Some r \<Rightarrow> Some r)"
    by (induction rows) (auto simp: find_window_def)
  with None show ?thesis by (auto simp: upsert_window_def Let_def split: option.splits)
next
  case (Some r)
  have upd: "find_window k (map (\<lambda>r. if window_key r = window_key w then f r else r) rows) =
      (if k = window_key w then map_option f (find_window k rows) else find_window k rows)"
    if "\<And>r. window_key (f r) = window_key r" for f
    using that by (induction rows) (auto simp: find_window_def)
  have "x = r" if "x \<in> set rows" "window_key x = window_key w" for x
    using find_window_mem[OF assms that(1)] that(2) Some by simp
  then have "upsert_window w rows = map (\<lambda>x. if window_key x = window_key w then merged w x else x) rows"
    using Some by (auto simp: upsert_window_def storedPeak_def merged_def intro!: map_cong)
  then show ?thesis
    using Some by (auto simp: upd[of "merged w", OF merged_key])
qed

lemma upsert_window_distinct:
  assumes "distinct (map window_key rows)"
  shows "distinct (map window_key (upsert_window w rows))"
proof (cases "find_window (window_key w) rows")
  case None
  then have "window_key w \<notin> window_key ` set rows" by (simp add: find_window_None_iff)
  with None assms show ?thesis by (simp add: upsert_window_def)
next
  case (Some r)
  then have "map window_key (upsert_window w rows) = map window_key rows"
    by (simp add: upsert_window_def window_key_def)
  with assms show ?thesis by metis
qed

lemma record_each_distinct:
  "distinct (map window_key rows) \<Longrightarrow> distinct (map window_key (snd (record_each writable ws rows)))"
  by (induction ws arbitrary: rows) (simp_all add: upsert_window_distinct split_beta Let_def)

lemma later_window_refl: "later_window w w"
  by (simp add: later_window_def)

lemma later_window_trans: "later_window a b \<Longrightarrow> later_window b c \<Longrightarrow> later_window a c"
  by (auto simp: later_window_def)

lemma record_each_row:
  assumes "distinct (map window_key rows)" "find_window k rows = Some r"
  shows "\<exists>r'. find_window k (snd (record_each writable ws rows)) = Some r' \<and> later_window r r'"
  using assms
proof (induction ws arbitrary: rows r)
  case (Cons w ws)
  show ?case
  proof (cases "writable (window_key w)")
    case True
    obtain x where x: "find_window k (upsert_window w rows) = Some x" "later_window r x"
      using find_window_upsert[OF Cons.prems(1), of k w] Cons.prems(2) merged_later later_window_refl
      by (cases "k = window_key w") auto
    from Cons.IH[OF upsert_window_distinct[OF Cons.prems(1)] x(1)] x(2) True show ?thesis
      by (auto simp: split_beta Let_def intro: later_window_trans)
  next
    case False
    with Cons show ?thesis by simp
  qed
qed (simp add: later_window_refl)

interpretation quota_table: row_history quota_step "\<lambda>rows. rows" window_key later_window
proof
  fix rows rows' :: "quota_window list" and w
  assume step: "quota_step rows rows'" and dist: "distinct (map window_key rows)"
  then obtain writable obs where rows': "rows' = snd (record_quota writable obs rows)"
    unfolding quota_step_def by blast
  show "distinct (map window_key rows')"
    unfolding rows' record_quota_def using dist record_each_distinct by simp
  assume "w \<in> set rows"
  with dist have "find_window (window_key w) rows = Some w" by (rule find_window_mem)
  with dist have "\<exists>w'. find_window (window_key w) rows' = Some w' \<and> later_window w w'"
    unfolding rows' record_quota_def using record_each_row later_window_refl by simp
  then show "\<exists>w' \<in> set rows'. window_key w' = window_key w \<and> later_window w w'"
    using find_window_SomeD by blast
qed (auto intro: later_window_refl later_window_trans)

text \<open>A batch that was written is in the table: what its window holds is merged into the stored one.\<close>

lemma record_each_window:
  assumes "distinct (map window_key rows)" "distinct (map window_key ws)" "\<And>key. writable key"
  shows "find_window k (snd (record_each writable ws rows)) =
    (case find_window k ws of
       None \<Rightarrow> find_window k rows
     | Some w \<Rightarrow> Some (case find_window k rows of None \<Rightarrow> w | Some r \<Rightarrow> merged w r))"
  using assms(1,2)
proof (induction ws arbitrary: rows)
  case (Cons w ws)
  have rest: "find_window k (snd (record_each writable (w # ws) rows)) =
    (case find_window k ws of
       None \<Rightarrow> find_window k (upsert_window w rows)
     | Some v \<Rightarrow> Some (case find_window k (upsert_window w rows) of None \<Rightarrow> v | Some r \<Rightarrow> merged v r))"
  proof -
    have "snd (record_each writable (w # ws) rows) = snd (record_each writable ws (upsert_window w rows))"
      by (simp add: assms(3) split_beta Let_def)
    moreover have "distinct (map window_key ws)" using Cons.prems(2) by simp
    ultimately show ?thesis using Cons.IH[OF upsert_window_distinct[OF Cons.prems(1)]] by (simp only:)
  qed
  show ?case
  proof (cases "k = window_key w")
    case True
    then have "find_window k ws = None" using Cons.prems(2) by (simp add: find_window_None_iff)
    moreover have "find_window k (w # ws) = Some w" using True by (simp add: find_window_def)
    ultimately show ?thesis using True unfolding rest by (simp add: find_window_upsert[OF Cons.prems(1)])
  next
    case False
    then have "find_window k (w # ws) = find_window k ws" by (simp add: find_window_def)
    moreover have "find_window k (upsert_window w rows) = find_window k rows"
      using False by (simp add: find_window_upsert[OF Cons.prems(1)])
    ultimately show ?thesis unfolding rest by (simp only:)
  qed
qed (simp add: find_window_def)

end
