(* ===== verification/Dispatch_Service.thy ===== *)
theory Dispatch_Service
  imports Quota Watchdog_Sweep
begin

text \<open>
  What the policy is asked about (\<open>dispatch/dispatch.service.ts\<close>): the pool of registered runners with
  their manifests read defensively, their load counted off the runs, and the one quota position per
  runner resolved from the blocked runs and from the meter. A query is a list operation on the tables;
  the settings the decision reads are arguments. The log lines are left out, and what the process
  remembers of the disagreements it has already reported is kept.
\<close>

section \<open>The manifest\<close>

record capability_row =
  cb_schemaVersion :: string
  cb_invocationModel :: invocation_model
  cb_executionLocus :: execution_locus
  cb_streamingFidelity :: streaming_fidelity
  cb_rateLimitSignal :: rate_limit_signal
  cb_stabilityTier :: stability_tier
  cb_reportsCost :: bool
  cb_resumable :: bool
  cb_maxConcurrency :: int
  cb_branchPatterns :: "string list"
  cb_manifest :: json

record runner_row =
  rn_key :: string
  rn_displayName :: string
  rn_version :: string
  rn_enabled :: bool
  rn_capability :: "capability_row option"

definition declaredIn :: "json \<Rightarrow> (string \<times> json) list option" where
  "declaredIn m = (case m of Json_object members \<Rightarrow> Some members | _ \<Rightarrow> None)"

definition known_tier :: "json \<Rightarrow> model_tier option" where
  "known_tier v = (case v of Json_string s \<Rightarrow> tier_named s | _ \<Rightarrow> None)"

definition modelTiersOf :: "json \<Rightarrow> model_tier list option" where
  "modelTiersOf m =
    (case Option.bind (declaredIn m) (\<lambda>members. map_of members ''modelTiers'') of
       Some (Json_array vs) \<Rightarrow>
         if vs \<noteq> [] \<and> list_all (\<lambda>v. known_tier v \<noteq> None) vs then Some (map (the \<circ> known_tier) vs) else None
     | _ \<Rightarrow> None)"

definition availabilityOf :: "json \<Rightarrow> bool option \<times> string option" where
  "availabilityOf m =
    (case declaredIn m of
       None \<Rightarrow> (None, None)
     | Some members \<Rightarrow>
         if map_of members ''available'' \<noteq> Some (Json_bool False) then (None, None)
         else (Some False,
               case map_of members ''unavailableReason'' of Some (Json_string s) \<Rightarrow> Some s | _ \<Rightarrow> None))"

definition toCapabilities :: "runner_row \<Rightarrow> capability_row \<Rightarrow> runner_capabilities" where
  "toCapabilities rn cb =
    \<lparr>rc_key = rn_key rn, displayName = rn_displayName rn, rc_version = rn_version rn,
     schemaVersion = cb_schemaVersion cb, invocationModel = cb_invocationModel cb,
     executionLocus = cb_executionLocus cb, streamingFidelity = cb_streamingFidelity cb,
     rateLimitSignal = cb_rateLimitSignal cb, stabilityTier = cb_stabilityTier cb,
     reportsCost = cb_reportsCost cb, resumable = cb_resumable cb,
     maxConcurrency = cb_maxConcurrency cb, branchPatterns = cb_branchPatterns cb,
     modelTiers = modelTiersOf (cb_manifest cb), rc_available = fst (availabilityOf (cb_manifest cb)),
     unavailableReason = snd (availabilityOf (cb_manifest cb)),
     manifest = (if cb_manifest cb = Json_null then Json_object [] else cb_manifest cb)\<rparr>"

section \<open>Quota\<close>

definition OCCUPYING_STATUSES :: "run_status list" where
  "OCCUPYING_STATUSES = [Run_running, Run_stalled, Run_blocked]"

definition QUOTA_BLOCK_REASONS :: "string list" where
  "QUOTA_BLOCK_REASONS = [''rate-limit'', ''quota-exhausted'']"

record blocked_run_row =
  bl_runnerKey :: string
  bl_resumesAt :: "instant option"
  bl_event :: "(string option \<times> instant option) option" \<comment> \<open>the newest block's reason and end\<close>

definition loadQuotaBlocks :: "run_store \<Rightarrow> blocked_run_row list" where
  "loadQuotaBlocks st =
    map (\<lambda>r. \<lparr>bl_runnerKey = run_runnerKey r, bl_resumesAt = run_resumesAt r,
              bl_event = map_option (\<lambda>e. (ev_blockedReason e, ev_blockedUntil e))
                           (newest_event (run_id r) (\<lambda>e. ev_type e = ''run_blocked'') st)\<rparr>)
      (filter (\<lambda>r. run_status r = Run_blocked) (runs st))"

definition loadQuotaMeter :: "instant \<Rightarrow> quota_window list \<Rightarrow> quota_window list" where
  "loadQuotaMeter now rows = filter (\<lambda>w. qw_resetsAt w > now) rows"

record block_tally =
  bt_until :: instant
  bt_reasons :: "string list"
  bt_runs :: nat

text \<open>The reason and the date a blocked run says its runner is out of quota for, if it does.\<close>

definition quota_block :: "instant \<Rightarrow> blocked_run_row \<Rightarrow> (string \<times> instant) option" where
  "quota_block now run =
    (case Option.bind (bl_event run) fst of
       None \<Rightarrow> None
     | Some reason \<Rightarrow>
         if reason \<notin> set QUOTA_BLOCK_REASONS then None
         else
           let dates = map the (filter (\<lambda>d. d \<noteq> None) [Option.bind (bl_event run) snd, bl_resumesAt run])
           in case reduce1 (\<lambda>a b. if a > b then a else b) dates of
                None \<Rightarrow> None
              | Some until \<Rightarrow> if until \<le> now then None else Some (reason, until))"

definition add_block ::
  "instant \<Rightarrow> blocked_run_row \<Rightarrow> (string \<rightharpoonup> block_tally) \<Rightarrow> (string \<rightharpoonup> block_tally)" where
  "add_block now run latest =
    (case quota_block now run of
       None \<Rightarrow> latest
     | Some (reason, until) \<Rightarrow>
         (case latest (bl_runnerKey run) of
            None \<Rightarrow> latest(bl_runnerKey run \<mapsto> \<lparr>bt_until = until, bt_reasons = [reason], bt_runs = 1\<rparr>)
          | Some seen \<Rightarrow> latest(bl_runnerKey run \<mapsto>
              \<lparr>bt_until = (if until > bt_until seen then until else bt_until seen),
               bt_reasons = (if reason \<in> set (bt_reasons seen) then bt_reasons seen else bt_reasons seen @ [reason]),
               bt_runs = bt_runs seen + 1\<rparr>)))"

definition quotaPositions :: "blocked_run_row list \<Rightarrow> instant \<Rightarrow> (string \<rightharpoonup> runner_quota_position)" where
  "quotaPositions blocked now = (\<lambda>k.
     map_option (\<lambda>seen. \<lparr>exhausted = True, rq_resumesAt = Some (bt_until seen),
         basis = Runs_blocked (bt_runs seen) (js_sort code_unit_compare (bt_reasons seen))\<rparr>)
       (fold (add_block now) blocked Map.empty k))"

definition meterPositions :: "quota_window list \<Rightarrow> instant \<Rightarrow> (string \<rightharpoonup> runner_quota_position)" where
  "meterPositions ws now = (\<lambda>k.
     meterQuotaPosition (filter (\<lambda>w. qw_runnerKey w = k) ws) now QUOTA_METER_HEALTH_HORIZON_MS)"

definition laterOf :: "instant option \<Rightarrow> instant option \<Rightarrow> instant option" where
  "laterOf a b =
    (case (a, b) of (None, _) \<Rightarrow> b | (_, None) \<Rightarrow> a | (Some x, Some y) \<Rightarrow> if x > y then Some x else Some y)"

definition resolveQuotaPosition ::
  "runner_quota_position option \<Rightarrow> runner_quota_position option \<Rightarrow> runner_quota_position option" where
  "resolveQuotaPosition derived meter =
    (case (derived, meter) of
       (None, None) \<Rightarrow> None
     | (None, Some m) \<Rightarrow> Some (m\<lparr>basis := From_meter (basis m)\<rparr>)
     | (Some d, None) \<Rightarrow> Some (d\<lparr>basis := From_blocked_runs (basis d)\<rparr>)
     | (Some d, Some m) \<Rightarrow>
         if exhausted d \<and> exhausted m
         then Some \<lparr>exhausted = True, rq_resumesAt = laterOf (rq_resumesAt d) (rq_resumesAt m),
                    basis = Both_agree (basis d) (basis m)\<rparr>
         else if exhausted d \<noteq> exhausted m
         then Some \<lparr>exhausted = True, rq_resumesAt = rq_resumesAt (if exhausted d then d else m),
                    basis = They_disagree (basis d) (basis m)\<rparr>
         else Some (m\<lparr>basis := From_meter (basis m)\<rparr>))"

text \<open>\<open>reported\<close> is what this process has already said of each runner.\<close>

definition resolveQuota ::
  "string \<Rightarrow> runner_quota_position option \<Rightarrow> runner_quota_position option \<Rightarrow> (string \<rightharpoonup> quota_basis) \<Rightarrow>
   runner_quota_position option \<times> (string \<rightharpoonup> quota_basis)" where
  "resolveQuota key derived meter reported =
    (let resolved = resolveQuotaPosition derived meter in
     (resolved,
      case (derived, meter) of
        (Some d, Some m) \<Rightarrow>
          if exhausted d \<noteq> exhausted m
          then (if reported key \<noteq> map_option basis resolved then reported(key := map_option basis resolved)
                else reported)
          else reported(key := None)
      | _ \<Rightarrow> reported(key := None)))"

section \<open>The pool\<close>

record dispatch_tables =
  dt_runners :: "runner_row list"
  dt_store :: run_store
  dt_windows :: "quota_window list"

record dispatch_settings =
  ds_maxConcurrent :: "int option"
  ds_allowPreview :: "bool option"

definition occupying :: "run_row \<Rightarrow> bool" where
  "occupying r \<longleftrightarrow> run_status r \<in> set OCCUPYING_STATUSES"

definition countLiveRuns :: "run_store \<Rightarrow> int" where
  "countLiveRuns st = int (length (filter occupying (runs st)))"

definition live_runs_of :: "string \<Rightarrow> run_store \<Rightarrow> int" where
  "live_runs_of key st = int (length (filter (\<lambda>r. run_runnerKey r = key \<and> occupying r) (runs st)))"

definition pool_entry ::
  "runner_row \<Rightarrow> capability_row \<Rightarrow> int \<Rightarrow> runner_quota_position option \<Rightarrow> runner_pool_entry" where
  "pool_entry rn cb live position =
    \<lparr>capabilities = toCapabilities rn cb, rp_enabled = rn_enabled rn, liveRuns = live, quota = position\<rparr>"

text \<open>The map over the runners that have a manifest; a runner without one is dropped.\<close>

fun load_entries ::
  "run_store \<Rightarrow> (string \<rightharpoonup> runner_quota_position) \<Rightarrow> (string \<rightharpoonup> runner_quota_position) \<Rightarrow> runner_row list \<Rightarrow>
   (string \<rightharpoonup> quota_basis) \<Rightarrow> runner_pool_entry list \<times> (string \<rightharpoonup> quota_basis)" where
  "load_entries st derived meter [] reported = ([], reported)"
| "load_entries st derived meter (rn # rns) reported =
    (case rn_capability rn of
       None \<Rightarrow> load_entries st derived meter rns reported
     | Some cb \<Rightarrow>
         let (position, reported1) = resolveQuota (rn_key rn) (derived (rn_key rn)) (meter (rn_key rn)) reported;
             (entries, reported2) = load_entries st derived meter rns reported1
         in (pool_entry rn cb (live_runs_of (rn_key rn) st) position # entries, reported2))"

definition loadPool ::
  "dispatch_tables \<Rightarrow> instant \<Rightarrow> (string \<rightharpoonup> quota_basis) \<Rightarrow>
   runner_pool_entry list \<times> (string \<rightharpoonup> quota_basis)" where
  "loadPool tables now reported =
    load_entries (dt_store tables) (quotaPositions (loadQuotaBlocks (dt_store tables)) now)
      (meterPositions (loadQuotaMeter now (dt_windows tables)) now)
      (js_sort (\<lambda>a b. code_unit_compare (rn_key a) (rn_key b)) (dt_runners tables)) reported"

definition decide_dispatch ::
  "(string \<Rightarrow> string \<Rightarrow> int) \<Rightarrow> dispatch_settings \<Rightarrow> dispatch_input \<Rightarrow> instant \<Rightarrow> dispatch_tables \<Rightarrow>
   (string \<rightharpoonup> quota_basis) \<Rightarrow> dispatch_decision \<times> (string \<rightharpoonup> quota_basis)" where
  "decide_dispatch lc settings input now tables reported =
    (let (pool, reported') = loadPool tables now reported in
     (decideDispatch lc input pool
        \<lparr>globalMaxConcurrent = ds_maxConcurrent settings,
         globalLiveRuns = countLiveRuns (dt_store tables),
         allowPreviewWithoutGaFallback = ds_allowPreview settings\<rparr>,
      reported'))"

section \<open>Lemmas\<close>

lemma load_entries_mem:
  "e \<in> set (fst (load_entries st derived meter rns reported)) \<Longrightarrow>
   \<exists>rn cb. rn \<in> set rns \<and> rn_capability rn = Some cb \<and>
     e = pool_entry rn cb (live_runs_of (rn_key rn) st)
           (resolveQuotaPosition (derived (rn_key rn)) (meter (rn_key rn)))"
proof (induction rns arbitrary: reported)
  case (Cons rn rns)
  show ?case
  proof (cases "rn_capability rn")
    case None
    with Cons.prems have "e \<in> set (fst (load_entries st derived meter rns reported))" by simp
    from Cons.IH[OF this] show ?thesis by (blast intro: list.set_intros(2))
  next
    case (Some cb)
    let ?r = "resolveQuota (rn_key rn) (derived (rn_key rn)) (meter (rn_key rn)) reported"
    have "e = pool_entry rn cb (live_runs_of (rn_key rn) st) (fst ?r) \<or>
        e \<in> set (fst (load_entries st derived meter rns (snd ?r)))"
      using Cons.prems Some by (auto simp: split_beta Let_def)
    moreover have "fst ?r = resolveQuotaPosition (derived (rn_key rn)) (meter (rn_key rn))"
      by (simp add: resolveQuota_def Let_def)
    ultimately show ?thesis using Cons.IH[of "snd ?r"] Some by (metis list.set_intros)
  qed
qed simp

lemma load_entries_complete:
  assumes "rn \<in> set rns" "rn_capability rn = Some cb"
  shows "pool_entry rn cb (live_runs_of (rn_key rn) st)
      (resolveQuotaPosition (derived (rn_key rn)) (meter (rn_key rn)))
    \<in> set (fst (load_entries st derived meter rns reported))"
  using assms(1)
proof (induction rns arbitrary: reported)
  case (Cons x rns)
  show ?case
  proof (cases "x = rn")
    case True
    then show ?thesis using assms(2) by (simp add: split_beta Let_def resolveQuota_def)
  next
    case False
    with Cons.prems have "rn \<in> set rns" by simp
    then show ?thesis using Cons.IH by (simp add: split_beta Let_def split: option.splits)
  qed
qed simp

text \<open>One blocked run is enough for its runner to be reported as out of quota.\<close>

lemma add_block_keeps: "latest k \<noteq> None \<Longrightarrow> add_block now run latest k \<noteq> None"
  by (auto simp: add_block_def split: option.splits)

lemma fold_block_keeps: "latest k \<noteq> None \<Longrightarrow> fold (add_block now) blocked latest k \<noteq> None"
proof (induction blocked arbitrary: latest)
  case (Cons run blocked)
  from Cons.IH[of "add_block now run latest", OF add_block_keeps[where latest = latest and k = k, OF Cons.prems]]
  show ?case by simp
qed simp

lemma fold_block_Some:
  "run \<in> set blocked \<Longrightarrow> quota_block now run \<noteq> None \<Longrightarrow>
   fold (add_block now) blocked latest (bl_runnerKey run) \<noteq> None"
proof (induction blocked arbitrary: latest)
  case (Cons x xs)
  show ?case
  proof (cases "x = run")
    case True
    have "add_block now run latest (bl_runnerKey run) \<noteq> None"
      using Cons.prems(2) by (auto simp: add_block_def split: option.splits)
    from fold_block_keeps[where blocked = xs and latest = "add_block now run latest" and k = "bl_runnerKey run", OF this] True show ?thesis by simp
  next
    case False
    with Cons.prems(1) have "run \<in> set xs" by simp
    from Cons.IH[OF this Cons.prems(2), of "add_block now x latest"] show ?thesis by simp
  qed
qed simp

lemma quotaPositions_exhausted: "quotaPositions blocked now k = Some p \<Longrightarrow> exhausted p"
  by (auto simp: quotaPositions_def)

lemma resolve_exhausted_iff:
  "(\<exists>p. resolveQuotaPosition derived meter = Some p \<and> exhausted p) \<longleftrightarrow>
   (\<exists>d. derived = Some d \<and> exhausted d) \<or> (\<exists>m. meter = Some m \<and> exhausted m)"
  by (cases derived; cases meter) (auto simp: resolveQuotaPosition_def)

lemma resolve_None_iff: "resolveQuotaPosition derived meter = None \<longleftrightarrow> derived = None \<and> meter = None"
  by (cases derived; cases meter) (auto simp: resolveQuotaPosition_def)

end
