(* ===== verification/Quota_Properties.thy ===== *)
theory Quota_Properties
  imports Dispatch_Service
begin

text \<open>
  The properties of the quota signal and of the routing that reads it: what the meter says of a
  runner, what a batch of sightings becomes, what the table keeps of a window, what a declared
  manifest gives routing, and that routing never sends work to a runner either signal says is out.
\<close>

section \<open>A concrete fleet\<close>

definition sample_window :: "string \<Rightarrow> quota_pressure \<Rightarrow> quota_window" where
  "sample_window k p =
     \<lparr>qw_runnerKey = k, qw_kind = ''five_hour'', qw_resetsAt = 100, qw_pressure = p, qw_peakPressure = p,
      qw_firstObservedAt = 1, qw_lastObservedAt = 5, qw_observations = 1\<rparr>"

definition sample_sighting :: "instant \<Rightarrow> quota_pressure \<Rightarrow> runner_quota_observation" where
  "sample_sighting t p =
     \<lparr>obs_runnerKey = ''a'', obs_kind = ''five_hour'', obs_resetsAt = 100, obs_pressure = p, obs_observedAt = t\<rparr>"

definition sample_manifest :: json where
  "sample_manifest = Json_object [(''modelTiers'', Json_array [Json_string ''large''])]"

definition sample_row :: "string \<Rightarrow> runner_row" where
  "sample_row k =
     \<lparr>rn_key = k, rn_displayName = k, rn_version = ''1'', rn_enabled = True,
      rn_capability = Some
        \<lparr>cb_schemaVersion = ''1.3.0'', cb_invocationModel = Process, cb_executionLocus = Own_infrastructure,
         cb_streamingFidelity = Fidelity_full, cb_rateLimitSignal = Signal_structured,
         cb_stabilityTier = Stable, cb_reportsCost = True, cb_resumable = False, cb_maxConcurrency = 2,
         cb_branchPatterns = [''factory/*''], cb_manifest = sample_manifest\<rparr>\<rparr>"

definition sample_tables :: dispatch_tables where
  "sample_tables =
     \<lparr>dt_runners = [sample_row ''a'', sample_row ''b''],
      dt_store = \<lparr>runs = [], events = [], attempts = []\<rparr>,
      dt_windows = [sample_window ''a'' Pressure_exhausted, sample_window ''b'' Pressure_allowed]\<rparr>"

definition sample_settings :: dispatch_settings where
  "sample_settings = \<lparr>ds_maxConcurrent = Some 3, ds_allowPreview = None\<rparr>"

definition sample_order :: dispatch_input where
  "sample_order = \<lparr>needs = [Need_full_streaming], modelTier = Some Tier_large\<rparr>"

lemma pressure_unknown_least [simp]: "Pressure_unknown \<le> p"
  by (cases p) (simp_all add: less_eq_quota_pressure_def)

lemma collapse_keys: "window_key ` set (collapseObservations obs) = observation_key ` set obs"
proof -
  have "window_key ` set (fold add_sighting obs ws) = observation_key ` set obs \<union> window_key ` set ws" for ws
    by (induction obs arbitrary: ws) (auto simp: add_sighting_keys)
  then show ?thesis by (simp add: collapseObservations_def)
qed

section \<open>The meter\<close>

text \<open>Every live window binds. When one is exhausted the runner is exhausted, until the last of
  the exhausted windows resets, however healthy its other windows are; when none is, the position is
  that of a live window with a known pressure seen within the horizon, of the worst pressure among
  them, never an exhaustion; and there is a position at all exactly when there is such a window.\<close>
theorem meter_position_exact:
  "case meterQuotaPosition ws now horizon of
     None \<Rightarrow> \<forall>w \<in> set ws. now < qw_resetsAt w \<longrightarrow> qw_pressure w \<noteq> Pressure_exhausted \<and>
               (qw_pressure w = Pressure_unknown \<or> horizon < now - qw_lastObservedAt w)
   | Some p \<Rightarrow>
       if exhausted p
       then \<exists>u \<in> set ws. now < qw_resetsAt u \<and> qw_pressure u = Pressure_exhausted \<and>
              rq_resumesAt p = Some (qw_resetsAt u) \<and>
              (\<forall>v \<in> set ws. now < qw_resetsAt v \<and> qw_pressure v = Pressure_exhausted \<longrightarrow>
                 qw_resetsAt v \<le> qw_resetsAt u)
       else (\<forall>v \<in> set ws. now < qw_resetsAt v \<longrightarrow> qw_pressure v \<noteq> Pressure_exhausted) \<and>
            (\<exists>u \<in> set ws. now < qw_resetsAt u \<and> qw_pressure u \<noteq> Pressure_unknown \<and>
              now - qw_lastObservedAt u \<le> horizon \<and> rq_resumesAt p = Some (qw_resetsAt u) \<and>
              basis p = Window_status (qw_pressure u) (qw_kind u) (qw_lastObservedAt u) \<and>
              (\<forall>v \<in> set ws. now < qw_resetsAt v \<and> now - qw_lastObservedAt v \<le> horizon \<longrightarrow>
                 qw_pressure v \<le> qw_pressure u))"
proof (cases "spent_windows now ws = []")
  case True
  then have calm: "\<forall>v \<in> set ws. now < qw_resetsAt v \<longrightarrow> qw_pressure v \<noteq> Pressure_exhausted"
    using spent_live[of _ now ws] by (metis list.set(1) empty_iff)
  show ?thesis
  proof (cases "reduce1 worse_window (fresh_windows now horizon ws)")
    case None
    then have "fresh_windows now horizon ws = []" by simp
    then have "\<forall>w \<in> set ws. now < qw_resetsAt w \<longrightarrow>
        qw_pressure w = Pressure_unknown \<or> horizon < now - qw_lastObservedAt w"
      by (auto simp: fresh_windows_def live_windows_def filter_empty_conv not_le)
    with calm None show ?thesis unfolding meter_healthy[OF True] by simp
  next
    case (Some u)
    have "u \<in> set (fresh_windows now horizon ws)" by (rule reduce1_mem[OF worse_window_choice Some])
    moreover have "qw_pressure v \<le> qw_pressure u"
      if "v \<in> set ws" "now < qw_resetsAt v" "now - qw_lastObservedAt v \<le> horizon" for v
    proof (cases "qw_pressure v = Pressure_unknown")
      case True
      then show ?thesis by simp
    next
      case False
      with that have "v \<in> set (fresh_windows now horizon ws)" by (simp add: fresh_windows_def live_windows_def)
      then show ?thesis by (rule reduce1_greatest[where m = qw_pressure, OF worse_window_pressure Some])
    qed
    ultimately show ?thesis unfolding meter_healthy[OF True] Some using calm
      by (auto simp: fresh_windows_def live_windows_def)
  qed
next
  case False
  then obtain w where "w \<in> set (spent_windows now ws)" by (meson list.set_sel(1))
  then show ?thesis unfolding spent_live using meter_exhausted[of w ws now horizon] by fastforce
qed

lemma meter_position_exact_witness:
  "\<exists>p. meterQuotaPosition [sample_window ''a'' Pressure_exhausted, sample_window ''a'' Pressure_allowed] 50 900 = Some p \<and>
     rq_resumesAt p = Some 100"
proof -
  let ?ws = "[sample_window ''a'' Pressure_exhausted, sample_window ''a'' Pressure_allowed]"
  have spent: "exhausted (the (meterQuotaPosition ?ws 50 900)) \<and> meterQuotaPosition ?ws 50 900 \<noteq> None" by code_simp
  then obtain p where p: "meterQuotaPosition ?ws 50 900 = Some p" "exhausted p" by auto
  have "\<forall>u \<in> set ?ws. qw_resetsAt u = 100" by code_simp
  with p meter_position_exact[of ?ws 50 900] show ?thesis by auto
qed

section \<open>The table of windows\<close>

text \<open>a batch is summed up, whatever order its sightings come in. Every window a batch names is in
  the result once, under the reset instant that identifies it, with the count of its sightings, the
  worst pressure of them, the first and the last time it was seen, and as its current pressure that
  of a last sighting.\<close>
theorem batch_is_summed_up:
  "distinct (map window_key (collapseObservations obs)) \<and>
   window_key ` set (collapseObservations obs) = observation_key ` set obs \<and>
   (\<forall>w. w \<in> set (collapseObservations obs) \<longrightarrow> sums_up (sightings_of (window_key w) obs) w)"
proof (intro conjI allI impI)
  show "distinct (map window_key (collapseObservations obs))" by (rule collapse_distinct)
  show "window_key ` set (collapseObservations obs) = observation_key ` set obs"
    by (rule collapse_keys)
  fix w assume "w \<in> set (collapseObservations obs)"
  then have "find_window (window_key w) (collapseObservations obs) = Some w"
    by (rule find_window_mem[OF collapse_distinct])
  then show "sums_up (sightings_of (window_key w) obs) w" by (rule collapse_sums_up)
qed

lemma batch_is_summed_up_witness:
  "qw_peakPressure (hd (collapseObservations [sample_sighting 9 Pressure_allowed, sample_sighting 4 Pressure_exhausted]))
     = Pressure_exhausted"
proof -
  let ?obs = "[sample_sighting 9 Pressure_allowed, sample_sighting 4 Pressure_exhausted]"
  have w: "hd (collapseObservations ?obs) \<in> set (collapseObservations ?obs)" by code_simp
  have "sightings_of (window_key (hd (collapseObservations ?obs))) ?obs = ?obs" by code_simp
  moreover have "Max (obs_pressure ` set ?obs) = Pressure_exhausted" by code_simp
  ultimately show ?thesis
    using batch_is_summed_up[of ?obs] w unfolding sums_up_def by metis
qed

text \<open>The table never forgets an exhaustion. Whatever batches arrive, and whichever writes fail,
  a stored window stays stored under its key, its peak pressure and its count of observations never
  fall, the instant it was first observed stays, and no window is stored twice.\<close>
theorem window_peak_never_falls:
  assumes "quota_step\<^sup>*\<^sup>* rows rows'" "distinct (map window_key rows)" "w \<in> set rows"
  shows "distinct (map window_key rows') \<and>
    (\<exists>w' \<in> set rows'. window_key w' = window_key w \<and> qw_peakPressure w \<le> qw_peakPressure w' \<and>
       qw_observations w \<le> qw_observations w' \<and> qw_firstObservedAt w' = qw_firstObservedAt w)"
  using quota_table.steps_distinct[OF assms(1,2)] quota_table.steps_later[OF assms]
  unfolding later_window_def by blast

lemma window_peak_never_falls_witness:
  "\<exists>w' \<in> set (snd (record_quota (\<lambda>_. True) [sample_sighting 9 Pressure_allowed] [sample_window ''a'' Pressure_exhausted])).
     qw_peakPressure w' \<ge> Pressure_exhausted"
proof -
  let ?rows = "[sample_window ''a'' Pressure_exhausted]"
  have "quota_step\<^sup>*\<^sup>* ?rows (snd (record_quota (\<lambda>_. True) [sample_sighting 9 Pressure_allowed] ?rows))"
    unfolding quota_step_def by (rule r_into_rtranclp) blast
  moreover have "qw_peakPressure (sample_window ''a'' Pressure_exhausted) = Pressure_exhausted"
    by (simp add: sample_window_def)
  ultimately show ?thesis
    using window_peak_never_falls[where rows = ?rows and w = "sample_window ''a'' Pressure_exhausted"]
    by (metis distinct_singleton list.map(1,2) list.set_intros(1))
qed

text \<open>The pressure a row holds is that of the batch written last, not of the newest sighting: a batch
  whose sightings are older than the row's puts the row's current pressure and the instant it was
  last observed back, the one thing \<open>collapseObservations\<close> refuses to do within a batch.\<close>

theorem late_batch_puts_the_reading_back:
  assumes "distinct (map window_key rows)" "w \<in> set rows" "observation_key ob = window_key w"
    "obs_observedAt ob < qw_lastObservedAt w"
  shows "\<exists>w' \<in> set (snd (record_quota (\<lambda>_. True) [ob] rows)). window_key w' = window_key w \<and>
    qw_pressure w' = obs_pressure ob \<and> qw_lastObservedAt w' = obs_observedAt ob \<and>
    qw_lastObservedAt w' < qw_lastObservedAt w"
proof -
  have "find_window (window_key w) rows = Some w" by (rule find_window_mem[OF assms(1,2)])
  moreover have "find_window (window_key w) (collapseObservations [ob]) = Some (first_sighting ob)"
    by (simp add: collapseObservations_def find_window_def assms(3))
  ultimately have "find_window (window_key w) (snd (record_quota (\<lambda>_. True) [ob] rows)) =
      Some (merged (first_sighting ob) w)"
    using record_each_window[OF assms(1) collapse_distinct, of "\<lambda>_. True" "window_key w" "[ob]"]
    by (simp add: record_quota_def)
  from find_window_SomeD[OF this] assms(4) show ?thesis
    by (intro bexI[of _ "merged (first_sighting ob) w"]) (auto simp: merged_def first_sighting_def)
qed

section \<open>The manifest\<close>

lemma known_tier_Some_iff: "known_tier v = Some t \<longleftrightarrow> v = Json_string (tier_literal t)"
  by (cases v) (simp_all add: known_tier_def tier_named_iff)

lemma known_tiers_iff:
  "list_all (\<lambda>v. known_tier v \<noteq> None) vs \<and> map (the \<circ> known_tier) vs = ts \<longleftrightarrow>
   vs = map (\<lambda>t. Json_string (tier_literal t)) ts"
proof (induction vs arbitrary: ts)
  case (Cons v vs)
  have v: "known_tier v \<noteq> None \<and> the (known_tier v) = t \<longleftrightarrow> v = Json_string (tier_literal t)" for t
    by (cases "known_tier v") (auto simp: known_tier_Some_iff[symmetric])
  show ?case
  proof (cases ts)
    case (Cons t ts')
    with v[of t] Cons.IH[of ts'] show ?thesis by auto
  qed simp
qed auto

text \<open>C39: what a runner may declare of itself is typed where it is read. Of any JSON value, the
  tiers are read exactly when it is an object whose \<open>modelTiers\<close> is a non-empty array of nothing but
  known tier names, and are those; the runner is unavailable exactly when \<open>available\<close> is the
  boolean false, and never available by declaration.\<close>
theorem manifest_is_read_by_type:
  "(modelTiersOf m = Some ts \<longleftrightarrow>
     ts \<noteq> [] \<and> (\<exists>members. m = Json_object members \<and>
       map_of members ''modelTiers'' = Some (Json_array (map (\<lambda>t. Json_string (tier_literal t)) ts)))) \<and>
   (fst (availabilityOf m) = Some False \<longleftrightarrow>
     (\<exists>members. m = Json_object members \<and> map_of members ''available'' = Some (Json_bool False))) \<and>
   fst (availabilityOf m) \<noteq> Some True"
proof (intro conjI)
  show "modelTiersOf m = Some ts \<longleftrightarrow>
     ts \<noteq> [] \<and> (\<exists>members. m = Json_object members \<and>
       map_of members ''modelTiers'' = Some (Json_array (map (\<lambda>t. Json_string (tier_literal t)) ts)))"
  proof (cases "\<exists>members vs. m = Json_object members \<and> map_of members ''modelTiers'' = Some (Json_array vs)")
    case True
    then obtain members vs where "m = Json_object members" "map_of members ''modelTiers'' = Some (Json_array vs)"
      by blast
    with known_tiers_iff[of vs ts] show ?thesis by (auto simp: modelTiersOf_def declaredIn_def)
  next
    case False
    then have "modelTiersOf m = None"
      by (auto simp: modelTiersOf_def declaredIn_def split: option.splits json.splits)
    with False show ?thesis by auto
  qed
qed (auto simp: availabilityOf_def declaredIn_def split: json.splits option.splits)

section \<open>Routing\<close>

lemma quota_block_None_iff:
  "quota_block now \<lparr>bl_runnerKey = k, bl_resumesAt = resumes,
      bl_event = map_option (\<lambda>e. (ev_blockedReason e, ev_blockedUntil e)) ev\<rparr> = None \<longleftrightarrow>
   \<not> (\<exists>e reason until. ev = Some e \<and> ev_blockedReason e = Some reason \<and> reason \<in> set QUOTA_BLOCK_REASONS \<and>
       (ev_blockedUntil e = Some until \<or> resumes = Some until) \<and> now < until)"
  by (cases ev; cases resumes; cases "ev_blockedUntil (the ev)"; cases "ev_blockedReason (the ev)")
     (auto simp: quota_block_def Let_def)

lemma pool_entry_sel [simp]:
  "key_of (pool_entry rn cb live p) = rn_key rn" "rp_enabled (pool_entry rn cb live p) = rn_enabled rn"
  "quota (pool_entry rn cb live p) = p" "liveRuns (pool_entry rn cb live p) = live"
  "maxConcurrency (capabilities (pool_entry rn cb live p)) = cb_maxConcurrency cb"
  by (simp_all add: pool_entry_def key_of_def toCapabilities_def)

text \<open>C29: work is not sent into a wall. The runner a dispatch goes to is an enabled row with a
  manifest and a free slot, no live window of it is exhausted, and no run of it is blocked on the
  vendor's limit until a date still to come, whether its run or its last block says the date; and
  the fleet was below its limit.\<close>
theorem no_dispatch_into_a_wall:
  assumes "dd_runnerKey (fst (decide_dispatch lc settings input now tables reported)) = Some k"
  shows "(\<exists>rn \<in> set (dt_runners tables). \<exists>cb. rn_key rn = k \<and> rn_enabled rn \<and> rn_capability rn = Some cb \<and>
       live_runs_of k (dt_store tables) < cb_maxConcurrency cb) \<and>
    (\<forall>w \<in> set (dt_windows tables). qw_runnerKey w = k \<and> now < qw_resetsAt w \<longrightarrow>
       qw_pressure w \<noteq> Pressure_exhausted) \<and>
    (\<forall>r \<in> set (runs (dt_store tables)). run_runnerKey r = k \<and> run_status r = Run_blocked \<longrightarrow>
       \<not> (\<exists>e reason until. newest_event (run_id r) (\<lambda>e. ev_type e = ''run_blocked'') (dt_store tables) = Some e \<and>
            ev_blockedReason e = Some reason \<and> reason \<in> set QUOTA_BLOCK_REASONS \<and>
            (ev_blockedUntil e = Some until \<or> run_resumesAt r = Some until) \<and> now < until)) \<and>
    (\<forall>limit. ds_maxConcurrent settings = Some limit \<longrightarrow> countLiveRuns (dt_store tables) < limit)"
proof -
  let ?st = "dt_store tables"
  let ?blocks = "quotaPositions (loadQuotaBlocks ?st) now"
  let ?meter = "meterPositions (loadQuotaMeter now (dt_windows tables)) now"
  from assms obtain e where e: "e \<in> set (fst (loadPool tables now reported))" "rp_enabled e" "key_of e = k"
      "\<not> fleet_full \<lparr>globalMaxConcurrent = ds_maxConcurrent settings, globalLiveRuns = countLiveRuns ?st,
         allowPreviewWithoutGaFallback = ds_allowPreview settings\<rparr>"
      "\<not> is_exhausted e" "liveRuns e < maxConcurrency (capabilities e)"
    unfolding decide_dispatch_def by (auto simp: split_beta Let_def fit_def elim!: decideDispatch_keyD)
  from load_entries_mem[OF e(1)[unfolded loadPool_def]] obtain rn cb where rn:
      "rn \<in> set (dt_runners tables)" "rn_capability rn = Some cb"
      "e = pool_entry rn cb (live_runs_of (rn_key rn) ?st)
             (resolveQuotaPosition (?blocks (rn_key rn)) (?meter (rn_key rn)))"
    by auto
  have k: "rn_key rn = k" using e(3) rn(3) by simp
  have "\<not> (\<exists>p. resolveQuotaPosition (?blocks k) (?meter k) = Some p \<and> exhausted p)"
    using e(5) rn(3) k by (auto simp: is_exhausted_def)
  then have open_gate: "\<not> (\<exists>p. ?blocks k = Some p \<and> exhausted p)" "\<not> (\<exists>p. ?meter k = Some p \<and> exhausted p)"
    unfolding resolve_exhausted_iff by blast+
  have "qw_pressure w \<noteq> Pressure_exhausted"
    if "w \<in> set (dt_windows tables)" "qw_runnerKey w = k" "now < qw_resetsAt w" for w
  proof
    assume "qw_pressure w = Pressure_exhausted"
    moreover have "w \<in> set (filter (\<lambda>w. qw_runnerKey w = k) (loadQuotaMeter now (dt_windows tables)))"
      using that by (simp add: loadQuotaMeter_def)
    ultimately show False
      using meter_exhausted[OF _ that(3)] open_gate(2) unfolding meterPositions_def by fastforce
  qed
  moreover have "\<not> (\<exists>e reason until. newest_event (run_id r) (\<lambda>e. ev_type e = ''run_blocked'') ?st = Some e \<and>
        ev_blockedReason e = Some reason \<and> reason \<in> set QUOTA_BLOCK_REASONS \<and>
        (ev_blockedUntil e = Some until \<or> run_resumesAt r = Some until) \<and> now < until)"
    if "r \<in> set (runs ?st)" "run_runnerKey r = k" "run_status r = Run_blocked" for r
    unfolding quota_block_None_iff[symmetric, where k = k]
  proof (rule ccontr)
    let ?b = "\<lparr>bl_runnerKey = k, bl_resumesAt = run_resumesAt r,
      bl_event = map_option (\<lambda>e. (ev_blockedReason e, ev_blockedUntil e))
        (newest_event (run_id r) (\<lambda>e. ev_type e = ''run_blocked'') ?st)\<rparr>"
    assume "quota_block now ?b \<noteq> None"
    moreover have "?b \<in> set (loadQuotaBlocks ?st)" using that by (auto simp: loadQuotaBlocks_def)
    ultimately have "fold (add_block now) (loadQuotaBlocks ?st) Map.empty (bl_runnerKey ?b) \<noteq> None"
      by (intro fold_block_Some)
    then have "?blocks k \<noteq> None" by (simp add: quotaPositions_def)
    then show False using open_gate(1) quotaPositions_exhausted by blast
  qed
  moreover have "countLiveRuns ?st < limit" if "ds_maxConcurrent settings = Some limit" for limit
    using e(4) that by (simp add: fleet_full_def)
  moreover have "rn_enabled rn" "live_runs_of k ?st < cb_maxConcurrency cb" using e(2,6) rn(3) k by simp_all
  ultimately show ?thesis using rn(1,2) k by blast
qed

lemma no_dispatch_into_a_wall_witness:
  "\<exists>rn \<in> set (dt_runners sample_tables). rn_key rn = ''b'' \<and> rn_enabled rn"
proof -
  have "dd_runnerKey (fst (decide_dispatch code_unit_compare sample_settings sample_order 50 sample_tables Map.empty))
      = Some ''b''"
    by code_simp
  from no_dispatch_into_a_wall[OF this] show ?thesis by blast
qed

end
