(* ===== verification/Work_Orders.thy ===== *)
theory Work_Orders
  imports Js_Text Projection
begin

text \<open>
  A work order (\<open>work-orders/\<close>): its identity and branch as arithmetic on strings
  (\<open>work-order-identity.ts\<close>), the gate on its acceptance criteria (\<open>acceptance-criteria.ts\<close>), its
  generation from an issue (\<open>work-order-generator.ts\<close>), the document the records carry
  (\<open>work-order-document.ts\<close>), and the stored row read back (\<open>work-order-rehydrate.ts\<close>).
\<close>

section \<open>Identity\<close>

definition COMMIT_PREFIX_LENGTH :: nat where "COMMIT_PREFIX_LENGTH = 7"

record coordinates =
  co_repository :: string
  co_issueNumber :: int
  co_baseCommit :: string
  co_attempt :: int

datatype coordinate_error =
    No_usable_characters string
  | Bad_issue_number int
  | Bad_base_commit string
  | Bad_attempt int

definition slug_char :: "char \<Rightarrow> bool" where
  "slug_char c \<longleftrightarrow> lower_letter c \<or> digit c \<or> c = CHR ''-''"

text \<open>\<open>replace(/[^a-z0-9-]+/g, '-')\<close>: every run of other characters becomes one dash.\<close>

fun dash_runs :: "bool \<Rightarrow> string \<Rightarrow> string" where
  "dash_runs in_run [] = []"
| "dash_runs in_run (c # s) =
    (if slug_char c then c # dash_runs False s
     else if in_run then dash_runs True s else CHR ''-'' # dash_runs True s)"

definition slug :: "string \<Rightarrow> string" where
  "slug repository =
    (let dashed = dash_runs False (to_lower repository); dash = (\<lambda>c. c = CHR ''-'')
     in rev (dropWhile dash (rev (dropWhile dash dashed))))"

definition hex_char :: "char \<Rightarrow> bool" where
  "hex_char c \<longleftrightarrow> digit c \<or> (CHR ''a'' \<le> c \<and> c \<le> CHR ''f'')"

definition shortCommit :: "string \<Rightarrow> string" where
  "shortCommit sha = to_lower (take COMMIT_PREFIX_LENGTH sha)"

definition validate :: "coordinates \<Rightarrow> coordinate_error + coordinates" where
  "validate c =
    (if slug (co_repository c) = [] then Inl (No_usable_characters (co_repository c))
     else if co_issueNumber c < 1 then Inl (Bad_issue_number (co_issueNumber c))
     else if length (co_baseCommit c) \<noteq> 40 \<or> \<not> list_all hex_char (to_lower (co_baseCommit c))
     then Inl (Bad_base_commit (co_baseCommit c))
     else if co_attempt c < 1 then Inl (Bad_attempt (co_attempt c))
     else Inr c)"

definition identity_text :: "coordinates \<Rightarrow> string" where
  "identity_text c =
    ''wo_'' @ slug (co_repository c) @ ''_'' @ decimal (nat (co_issueNumber c)) @ ''_''
      @ shortCommit (co_baseCommit c) @ ''_a'' @ decimal (nat (co_attempt c))"

definition branch_text :: "coordinates \<Rightarrow> string" where
  "branch_text c =
    ''factory/'' @ decimal (nat (co_issueNumber c)) @ ''-'' @ shortCommit (co_baseCommit c)
      @ ''-a'' @ decimal (nat (co_attempt c))"

definition workOrderIdentity :: "coordinates \<Rightarrow> coordinate_error + string" where
  "workOrderIdentity c = (case validate c of Inl e \<Rightarrow> Inl e | Inr c \<Rightarrow> Inr (identity_text c))"

definition workOrderBranch :: "coordinates \<Rightarrow> coordinate_error + string" where
  "workOrderBranch c = (case validate c of Inl e \<Rightarrow> Inl e | Inr c \<Rightarrow> Inr (branch_text c))"

definition identity_pattern :: pattern where
  "identity_pattern =
    seqs [at_start, lit ''wo_'', capture (many1 dot), lit ''_'', capture (many1 digit), lit ''_'',
          capture (exactly 7 hex_char), lit ''_a'', capture (many1 digit), at_end]"

definition parseWorkOrderIdentity :: "string \<Rightarrow> coordinates option" where
  "parseWorkOrderIdentity identity =
    (case exec_whole identity_pattern identity of
       Some [r, n, h, a] \<Rightarrow>
         Some \<lparr>co_repository = r, co_issueNumber = digits_value 10 n, co_baseCommit = h,
               co_attempt = digits_value 10 a\<rparr>
     | _ \<Rightarrow> None)"

definition nextAttempt :: "coordinates \<Rightarrow> coordinates" where
  "nextAttempt c = c\<lparr>co_attempt := co_attempt c + 1\<rparr>"

section \<open>Acceptance criteria\<close>

definition MIN_CRITERION_LENGTH :: nat where "MIN_CRITERION_LENGTH = 12"

definition PLACEHOLDERS :: "string list" where
  "PLACEHOLDERS = [''tbd'', ''todo'', ''n/a'', ''na'', ''none'', ''tba'', ''-'', ''...'', ''see above'',
     ''as described'', ''as discussed'']"

definition SUBJECTIVE :: "string list" where
  "SUBJECTIVE = [''looks good'', ''looks right'', ''works well'', ''works properly'', ''works correctly'',
     ''is clean'', ''is nice'', ''is elegant'', ''is intuitive'', ''is user-friendly'', ''is performant'',
     ''is fast'', ''is robust'', ''is maintainable'', ''is readable'', ''makes sense'', ''as appropriate'',
     ''as needed'', ''etc'']"

datatype criteria_reason =
    No_link_back
  | No_task_spec
  | No_criteria
  | A_placeholder string
  | Too_short string
  | A_feeling string string

record criteria_problem =
  cp_criterion :: "string option"
  cp_reason :: criteria_reason

text \<open>\<open>(^|[^a-z])phrase([^a-z]|$)\<close>\<close>

definition containsPhrase :: "string \<Rightarrow> string \<Rightarrow> bool" where
  "containsPhrase haystack phrase =
    (let other = one (\<lambda>c. \<not> lower_letter c) in
     search (seqs [either at_start other, lit phrase, either other at_end]) [] haystack)"

text \<open>\<open>replace(/[.!]+$/, '')\<close>\<close>

definition strip_stops :: "string \<Rightarrow> string" where
  "strip_stops s = rev (dropWhile (\<lambda>c. c = CHR ''.'' \<or> c = CHR ''!'') (rev s))"

definition judge_criterion :: "string \<Rightarrow> criteria_problem option" where
  "judge_criterion criterion =
    (let normalized = js_trim (strip_stops (to_lower criterion)) in
     if normalized \<in> set PLACEHOLDERS
     then Some \<lparr>cp_criterion = Some criterion, cp_reason = A_placeholder criterion\<rparr>
     else if length criterion < MIN_CRITERION_LENGTH
     then Some \<lparr>cp_criterion = Some criterion, cp_reason = Too_short criterion\<rparr>
     else (case find (containsPhrase normalized) SUBJECTIVE of
             Some phrase \<Rightarrow> Some \<lparr>cp_criterion = Some criterion, cp_reason = A_feeling criterion phrase\<rparr>
           | None \<Rightarrow> None))"

definition cleaned :: "string list \<Rightarrow> string list" where
  "cleaned criteria = filter (\<lambda>c. c \<noteq> []) (map js_trim criteria)"

definition assessCriteria :: "string list \<Rightarrow> criteria_problem list" where
  "assessCriteria criteria =
    (if cleaned criteria = [] then [\<lparr>cp_criterion = None, cp_reason = No_criteria\<rparr>]
     else List.map_filter judge_criterion (cleaned criteria))"

definition testable :: "string list \<Rightarrow> bool" where
  "testable criteria \<longleftrightarrow> assessCriteria criteria = []"

definition describeProblems :: "criteria_problem list \<Rightarrow> criteria_reason list" where
  "describeProblems problems = map cp_reason problems"

section \<open>Generation\<close>

record issue_projection =
  ip_repository :: repo_ref
  ip_issueNumber :: int
  ip_title :: string
  ip_taskSpec :: string
  ip_acceptanceCriteria :: "string list"
  ip_pathConstraints :: "string list"
  ip_decisionRefs :: "string list"
  ip_issueUrl :: string
  ip_needs :: "runner_need list"
  ip_modelTier :: "model_tier option"

record generation_input =
  gi_issue :: issue_projection
  gi_baseCommit :: string
  gi_attempt :: "int option"
  gi_budgetCeilingUsd :: "usd option"
  gi_wallClockTimeoutMinutes :: "rat option"

record generated_work_order =
  gw_identity :: string
  gw_branch :: string
  gw_coordinates :: coordinates
  gw_repositoryOwner :: string
  gw_repositoryName :: string
  gw_issueNumber :: int
  gw_issueUrl :: string
  gw_issueTitle :: "string option"
  gw_baseCommit :: string
  gw_attempt :: int
  gw_taskSpec :: string
  gw_acceptanceCriteria :: "string list"
  gw_pathConstraints :: "string list"
  gw_decisionRefs :: "string list"
  gw_budgetCeilingUsd :: "usd option"
  gw_wallClockTimeoutMinutes :: "rat option"
  gw_needs :: "runner_need list"
  gw_modelTier :: "model_tier option"

datatype generation_result =
    Generated generated_work_order
  | Rejected "criteria_problem list" "criteria_reason list"

definition generation_problems :: "issue_projection \<Rightarrow> criteria_problem list" where
  "generation_problems issue =
    (if js_trim (ip_issueUrl issue) = [] then [\<lparr>cp_criterion = None, cp_reason = No_link_back\<rparr>] else [])
    @ (if js_trim (ip_taskSpec issue) = [] then [\<lparr>cp_criterion = None, cp_reason = No_task_spec\<rparr>] else [])
    @ assessCriteria (ip_acceptanceCriteria issue)"

definition nonblank :: "string \<Rightarrow> string option" where
  "nonblank s = (if s = [] then None else Some s)"

definition assemble :: "generation_input \<Rightarrow> coordinates \<Rightarrow> generated_work_order" where
  "assemble input c =
    (let issue = gi_issue input in
     \<lparr>gw_identity = identity_text c, gw_branch = branch_text c, gw_coordinates = c,
      gw_repositoryOwner = repo_owner (ip_repository issue), gw_repositoryName = repo_name (ip_repository issue),
      gw_issueNumber = ip_issueNumber issue, gw_issueUrl = js_trim (ip_issueUrl issue),
      gw_issueTitle = nonblank (js_trim (ip_title issue)),
      gw_baseCommit = gi_baseCommit input, gw_attempt = co_attempt c,
      gw_taskSpec = js_trim (ip_taskSpec issue), gw_acceptanceCriteria = cleaned (ip_acceptanceCriteria issue),
      gw_pathConstraints = ip_pathConstraints issue, gw_decisionRefs = ip_decisionRefs issue,
      gw_budgetCeilingUsd = gi_budgetCeilingUsd input,
      gw_wallClockTimeoutMinutes = gi_wallClockTimeoutMinutes input,
      gw_needs = ip_needs issue, gw_modelTier = ip_modelTier issue\<rparr>)"

text \<open>A left result is the throw of \<open>validate\<close>.\<close>

definition generateWorkOrder :: "generation_input \<Rightarrow> coordinate_error + generation_result" where
  "generateWorkOrder input =
    (let issue = gi_issue input; problems = generation_problems issue in
     if problems \<noteq> [] then Inr (Rejected problems (describeProblems problems))
     else
       (case validate \<lparr>co_repository = repo_name (ip_repository issue), co_issueNumber = ip_issueNumber issue,
               co_baseCommit = gi_baseCommit input, co_attempt = get_or 1 (gi_attempt input)\<rparr> of
          Inl e \<Rightarrow> Inl e
        | Inr c \<Rightarrow> Inr (Generated (assemble input c))))"

section \<open>The stored row\<close>

record repository_row =
  rr_id :: string
  rr_owner :: string
  rr_name :: string
  rr_dispatchEnabled :: bool
  rr_budgetCeilingUsd :: "usd option"

record stored_work_order =
  sw_id :: string
  sw_repository :: repository_row
  sw_identity :: string
  sw_branch :: string
  sw_status :: work_order_status
  sw_queuedAt :: "instant option"
  sw_holdReason :: "string option"
  sw_issueNumber :: int
  sw_issueUrl :: string
  sw_issueTitle :: "string option"
  sw_baseCommit :: string
  sw_attempt :: int
  sw_taskSpec :: string
  sw_acceptanceCriteria :: "string list"
  sw_pathConstraints :: "string list"
  sw_decisionRefs :: "string list"
  sw_needs :: "string list"
  sw_modelTier :: "string option"
  sw_budgetCeilingUsd :: "usd option"
  sw_wallClockTimeoutMinutes :: "rat option"

datatype rehydration_error =
    Identity_disagrees string string
  | Branch_disagrees string string string
  | No_issue_url string
  | Unknown_needs string "string list"
  | Unknown_tier string string
  | Bad_coordinates coordinate_error \<comment> \<open>not a \<open>RehydrationError\<close>: the throw of \<open>validate\<close>\<close>

definition readNeeds :: "stored_work_order \<Rightarrow> rehydration_error + runner_need list" where
  "readNeeds row =
    (let unknown = filter (\<lambda>need. need_named need = None) (sw_needs row)
     in if unknown \<noteq> [] then Inl (Unknown_needs (sw_identity row) unknown)
        else Inr (List.map_filter need_named (sw_needs row)))"

definition readModelTier :: "stored_work_order \<Rightarrow> rehydration_error + model_tier option" where
  "readModelTier row =
    (case sw_modelTier row of
       None \<Rightarrow> Inr None
     | Some t \<Rightarrow>
         (case tier_named t of
            None \<Rightarrow> Inl (Unknown_tier (sw_identity row) t)
          | Some tier \<Rightarrow> Inr (Some tier)))"

definition row_coordinates :: "stored_work_order \<Rightarrow> coordinates" where
  "row_coordinates row =
    \<lparr>co_repository = rr_name (sw_repository row), co_issueNumber = sw_issueNumber row,
     co_baseCommit = sw_baseCommit row, co_attempt = sw_attempt row\<rparr>"

definition rebuilt ::
  "stored_work_order \<Rightarrow> coordinates \<Rightarrow> runner_need list \<Rightarrow> model_tier option \<Rightarrow> generated_work_order" where
  "rebuilt row c needs tier =
    \<lparr>gw_identity = sw_identity row, gw_branch = sw_branch row, gw_coordinates = c,
     gw_repositoryOwner = rr_owner (sw_repository row), gw_repositoryName = rr_name (sw_repository row),
     gw_issueNumber = sw_issueNumber row, gw_issueUrl = sw_issueUrl row, gw_issueTitle = sw_issueTitle row,
     gw_baseCommit = sw_baseCommit row, gw_attempt = sw_attempt row, gw_taskSpec = sw_taskSpec row,
     gw_acceptanceCriteria = sw_acceptanceCriteria row, gw_pathConstraints = sw_pathConstraints row,
     gw_decisionRefs = sw_decisionRefs row, gw_budgetCeilingUsd = sw_budgetCeilingUsd row,
     gw_wallClockTimeoutMinutes = sw_wallClockTimeoutMinutes row, gw_needs = needs, gw_modelTier = tier\<rparr>"

definition rehydrateWorkOrder :: "stored_work_order \<Rightarrow> rehydration_error + generated_work_order" where
  "rehydrateWorkOrder row =
    (case validate (row_coordinates row) of
       Inl e \<Rightarrow> Inl (Bad_coordinates e)
     | Inr c \<Rightarrow>
         if identity_text c \<noteq> sw_identity row then Inl (Identity_disagrees (sw_identity row) (identity_text c))
         else if branch_text c \<noteq> sw_branch row
         then Inl (Branch_disagrees (sw_identity row) (sw_branch row) (branch_text c))
         else if sw_issueUrl row = [] then Inl (No_issue_url (sw_identity row))
         else
           (case readNeeds row of
              Inl e \<Rightarrow> Inl e
            | Inr needs \<Rightarrow>
                (case readModelTier row of
                   Inl e \<Rightarrow> Inl e
                 | Inr tier \<Rightarrow> Inr (rebuilt row c needs tier))))"

text \<open>The row a new work order is written as.\<close>

definition order_row ::
  "string \<Rightarrow> repository_row \<Rightarrow> generated_work_order \<Rightarrow> bool \<Rightarrow> instant \<Rightarrow> stored_work_order" where
  "order_row oid repository w held now =
    \<lparr>sw_id = oid, sw_repository = repository, sw_identity = gw_identity w, sw_branch = gw_branch w,
     sw_status = (if held then WO_held else WO_queued), sw_queuedAt = (if held then None else Some now),
     sw_holdReason = None, sw_issueNumber = gw_issueNumber w, sw_issueUrl = gw_issueUrl w,
     sw_issueTitle = gw_issueTitle w, sw_baseCommit = gw_baseCommit w, sw_attempt = gw_attempt w,
     sw_taskSpec = gw_taskSpec w, sw_acceptanceCriteria = gw_acceptanceCriteria w,
     sw_pathConstraints = gw_pathConstraints w, sw_decisionRefs = gw_decisionRefs w,
     sw_needs = map need_literal (gw_needs w), sw_modelTier = map_option tier_literal (gw_modelTier w),
     sw_budgetCeilingUsd = gw_budgetCeilingUsd w, sw_wallClockTimeoutMinutes = gw_wallClockTimeoutMinutes w\<rparr>"

section \<open>Lemmas\<close>

subsection \<open>The pieces of an identity\<close>

lemma lower_char_hex: "hex_char (lower_char c) \<Longrightarrow> lower_char c \<noteq> CHR ''_''"
  by (auto simp: hex_char_def digit_def)

lemma slug_chars: "c \<in> set (dash_runs in_run s) \<Longrightarrow> slug_char c"
  by (induction in_run s rule: dash_runs.induct) (auto simp: slug_char_def split: if_splits)

lemma slug_slug_chars: "c \<in> set (slug s) \<Longrightarrow> slug_char c"
  unfolding slug_def Let_def using slug_chars by (auto dest!: set_dropWhileD)

lemma validate_Inr: "validate c = Inr d \<longleftrightarrow> d = c \<and> slug (co_repository c) \<noteq> [] \<and> 1 \<le> co_issueNumber c \<and>
    length (co_baseCommit c) = 40 \<and> list_all hex_char (to_lower (co_baseCommit c)) \<and> 1 \<le> co_attempt c"
  by (auto simp: validate_def)

lemma shortCommit_hex:
  assumes "list_all hex_char (to_lower sha)" "length sha = 40"
  shows "length (shortCommit sha) = 7 \<and> list_all hex_char (shortCommit sha)"
proof -
  have "shortCommit sha = take 7 (to_lower sha)" by (simp add: shortCommit_def COMMIT_PREFIX_LENGTH_def to_lower_def take_map)
  moreover have "length (to_lower sha) = 40" using assms(2) by (simp add: to_lower_def)
  ultimately show ?thesis using assms(1) set_take_subset[of 7 "to_lower sha"] by (auto simp: list_all_iff)
qed

text \<open>Reading an identity: the repository takes all it can, and only the last three separators are left.\<close>

definition identity_tail :: "pattern list" where
  "identity_tail = [lit ''_'', capture (many1 digit), lit ''_'', capture (exactly 7 hex_char), lit ''_a'',
     capture (many1 digit), at_end]"

lemma no_underscore: "list_all digit s \<Longrightarrow> CHR ''_'' \<notin> set s" "list_all hex_char s \<Longrightarrow> CHR ''_'' \<notin> set s"
  by (auto simp: list_all_iff hex_char_def digit_def)

lemma identity_tail_reads:
  assumes "seqs identity_tail (b, a, g) \<noteq> []"
  shows "hd a = CHR ''_'' \<and> length (filter (\<lambda>c. c = CHR ''_'') a) = 3"
proof -
  from assms obtain b1 a1 g1 b2 a2 g2 b3 a3 g3 b4 a4 g4 b5 a5 g5 b6 a6 g6 where
    1: "(b1, a1, g1) \<in> set (lit ''_'' (b, a, g))" and
    2: "(b2, a2, g2) \<in> set (capture (many1 digit) (b1, a1, g1))" and
    3: "(b3, a3, g3) \<in> set (lit ''_'' (b2, a2, g2))" and
    4: "(b4, a4, g4) \<in> set (capture (exactly 7 hex_char) (b3, a3, g3))" and
    5: "(b5, a5, g5) \<in> set (lit ''_a'' (b4, a4, g4))" and
    6: "(b6, a6, g6) \<in> set (capture (many1 digit) (b5, a5, g5))" and
    7: "at_end (b6, a6, g6) \<noteq> []"
    unfolding identity_tail_def by fastforce
  obtain n where n: "a1 = n @ a2" "list_all digit n" using capture_mem[OF 2] many1_reads by blast
  obtain h where h: "a3 = h @ a4" "list_all hex_char h" using capture_mem[OF 4] exactly_reads by blast
  obtain e where e: "a5 = e @ a6" "list_all digit e" using capture_mem[OF 6] many1_reads by blast
  have "a6 = []" using 7 by (auto simp: at_end_def split: if_splits)
  then have "a = ''_'' @ n @ ''_'' @ h @ ''_a'' @ e"
    using lit_reads[OF 1] lit_reads[OF 3] lit_reads[OF 5] n h e by simp
  moreover have "filter (\<lambda>c. c = CHR ''_'') s = []" if "CHR ''_'' \<notin> set s" for s :: string
    using that by (auto simp: filter_empty_conv)
  ultimately show ?thesis using no_underscore n(2) h(2) e(2) by simp
qed

lemma identity_tail_first:
  assumes "list_all digit n" "n \<noteq> []" "list_all hex_char h" "length h = 7" "list_all digit e" "e \<noteq> []"
  shows "\<exists>b'. first (seqs identity_tail) (b, ''_'' @ n @ ''_'' @ h @ ''_a'' @ e, g) = Some (b', [], ((g @ [n]) @ [h]) @ [e])"
proof -
  have stop: "''_'' @ h @ ''_a'' @ e = [] \<or> \<not> digit (hd (''_'' @ h @ ''_a'' @ e))" by (simp add: digit_def)
  have "first (seqs [capture (many1 digit), at_end]) (b', e @ [], g') = Some (rev e @ b', [], g' @ [e])" for b' g'
    by (rule first_capture_many1[OF assms(5,6)], simp, rule first_at_end)
  then have last: "first (seqs [lit ''_a'', capture (many1 digit), at_end]) (b', ''_a'' @ e, g') =
      Some (rev e @ rev ''_a'' @ b', [], g' @ [e])" for b' g'
    by (intro first_lit) simp
  have "first (seqs (capture (exactly 7 hex_char) # [lit ''_a'', capture (many1 digit), at_end])) (b', h @ ''_a'' @ e, g') =
      Some (rev e @ rev ''_a'' @ rev h @ b', [], (g' @ [h]) @ [e])" for b' g'
    by (rule first_capture_exactly[OF assms(3,4) last])
  then have "first (seqs (lit ''_'' # [capture (exactly 7 hex_char), lit ''_a'', capture (many1 digit), at_end]))
      (b', ''_'' @ h @ ''_a'' @ e, g') = Some (rev e @ rev ''_a'' @ rev h @ rev ''_'' @ b', [], (g' @ [h]) @ [e])" for b' g'
    by (rule first_lit)
  from first_lit[OF first_capture_many1[OF assms(1,2) stop this]] show ?thesis
    unfolding identity_tail_def by blast
qed

lemma identity_tail_later:
  assumes "list_all digit n" "list_all hex_char h" "list_all digit e" "0 < j"
  shows "seqs identity_tail (b, drop j (''_'' @ n @ ''_'' @ h @ ''_a'' @ e), g) = []"
proof (rule ccontr)
  let ?t = "''_'' @ n @ ''_'' @ h @ ''_a'' @ e" and ?marks = "filter (\<lambda>c. c = CHR ''_'')"
  assume "seqs identity_tail (b, drop j ?t, g) \<noteq> []"
  then have "length (?marks (drop j ?t)) = 3" using identity_tail_reads by blast
  moreover have "?marks s = []" if "CHR ''_'' \<notin> set s" for s
    using that by (auto simp: filter_empty_conv)
  then have "length (?marks ?t) = 3" using no_underscore assms(1-3) by simp
  moreover have "length (?marks ?t) = length (?marks (take j ?t)) + length (?marks (drop j ?t))"
    by (metis append_take_drop_id filter_append length_append)
  moreover have "?marks (take j ?t) \<noteq> []" using assms(4) by (cases j) simp_all
  ultimately show False by simp
qed

lemma exec_identity:
  assumes "r \<noteq> []" "list_all dot r" "list_all digit n" "n \<noteq> []" "list_all hex_char h" "length h = 7"
    "list_all digit e" "e \<noteq> []"
  shows "exec_whole identity_pattern (''wo_'' @ r @ ''_'' @ n @ ''_'' @ h @ ''_a'' @ e) = Some [r, n, h, e]"
proof -
  define t where "t = ''_'' @ n @ ''_'' @ h @ ''_a'' @ e"
  let ?mark = "\<lambda>(x, y, z). (x, y, z @ [take (length (r @ t) - length y) (r @ t)])"
  have "dot c" if "digit c \<or> hex_char c" for c
    using that by (auto simp: dot_def line_end_def hex_char_def digit_def)
  then have "list_all dot s" if "list_all digit s \<or> list_all hex_char s" for s
    using that by (auto simp: list_all_iff)
  moreover have "dot (CHR ''_'')" "dot (CHR ''a'')" by code_simp+
  ultimately have dots: "list_all dot (r @ t)" unfolding t_def by (simp add: assms)
  obtain before later where m: "many1 dot (rev ''wo_'', r @ t, []) = before @ (rev r @ rev ''wo_'', t, []) # later"
    and early: "\<forall>c \<in> set before. \<exists>j. 0 < j \<and> j \<le> length t \<and> fst (snd c) = drop j t"
    using many1_offers[OF dots assms(1)] by blast
  have skip: "seqs identity_tail (x, y, z) = []" if "(x, y, z') \<in> set before" for x y z z'
  proof -
    from early that obtain j where "0 < j" "y = drop j t" by fastforce
    with identity_tail_later[OF assms(3,5,7)] show ?thesis unfolding t_def by blast
  qed
  obtain b' where "first (seqs identity_tail) (rev r @ rev ''wo_'', t, [r]) = Some (b', [], [r, n, h, e])"
    using identity_tail_first[OF assms(3-8), of "rev r @ rev ''wo_''" "[r]"] unfolding t_def by auto
  then have "first (seqs (capture (many1 dot) # identity_tail)) (rev ''wo_'', r @ t, []) = Some (b', [], [r, n, h, e])"
  proof (intro first_step[where before = "map ?mark before" and later = "map ?mark later"
        and m = "(rev r @ rev ''wo_'', t, [] @ [take (length (r @ t) - length t) (r @ t)])"])
    show "capture (many1 dot) (rev ''wo_'', r @ t, []) = map ?mark before @
        (rev r @ rev ''wo_'', t, [] @ [take (length (r @ t) - length t) (r @ t)]) # map ?mark later"
      by (rule capture_first[where r = "many1 dot", OF m])
  qed (use skip in auto)
  then have "first (seqs (lit ''wo_'' # capture (many1 dot) # identity_tail)) ([], ''wo_'' @ r @ t, []) = Some (b', [], [r, n, h, e])"
    by (intro first_lit) simp
  then have "first identity_pattern ([], ''wo_'' @ r @ t, []) = Some (b', [], [r, n, h, e])"
    unfolding identity_pattern_def identity_tail_def by (rule first_at_start)
  then show ?thesis unfolding t_def[symmetric] by (simp add: exec_whole_def first_def split: list.splits prod.splits)
qed

text \<open>What an identity says of its work order.\<close>

lemma identity_read_back:
  assumes "validate c = Inr d"
  shows "parseWorkOrderIdentity (identity_text c) =
    Some (c\<lparr>co_repository := slug (co_repository c), co_baseCommit := shortCommit (co_baseCommit c)\<rparr>)"
proof -
  have c: "slug (co_repository c) \<noteq> []" "1 \<le> co_issueNumber c" "1 \<le> co_attempt c"
    "length (shortCommit (co_baseCommit c)) = 7" "list_all hex_char (shortCommit (co_baseCommit c))"
    using assms shortCommit_hex by (auto simp: validate_Inr)
  have "dot x" if "slug_char x" for x
    using that by (auto simp: dot_def line_end_def slug_char_def lower_letter_def digit_def)
  then have "list_all dot (slug (co_repository c))" using slug_slug_chars by (simp add: list_all_iff)
  moreover have "list_all digit (decimal k)" for k using decimal_digits by (simp add: list_all_iff)
  ultimately show ?thesis
    using c exec_identity[of "slug (co_repository c)" "decimal (nat (co_issueNumber c))" "shortCommit (co_baseCommit c)"
      "decimal (nat (co_attempt c))"]
    by (cases c) (simp add: parseWorkOrderIdentity_def identity_text_def)
qed

end
