(* ===== verification/Issue_Projection.thy ===== *)
theory Issue_Projection
  imports Work_Orders
begin

text \<open>
  From issues to rows (\<open>work-orders/issue-projection.ts\<close>, \<open>parseSections\<close> of
  \<open>github/write/issue-conformance.ts\<close>, \<open>work-orders/work-order-projection.service.ts\<close>, and the part of
  \<open>reconciler.service.ts\<close> that calls it): an issue's body read by the source's own patterns, the work
  order it asks for, and the rows a pass over a repository writes. The digest of a body, the ids of
  new rows and the writes that throw are parameters.
\<close>

section \<open>Reading a body\<close>

definition heading :: pattern where
  "heading =
    seqs [line_start, one (\<lambda>c. c = CHR ''#''), up_to 5 (\<lambda>c. c = CHR ''#''),
          many1 (\<lambda>c. c = CHR '' '' \<or> c = CHR 0x09), capture (many1 dot), line_stop]"

text \<open>The parts of the split: each heading with the text up to the next.\<close>

fun section_parts :: "(string \<times> string list) list \<Rightarrow> string \<Rightarrow> (string \<times> string) list" where
  "section_parts [] after = []"
| "section_parts [(gap, g)] after = [(to_lower (js_trim (hd g)), js_trim after)]"
| "section_parts ((gap, g) # (gap', g') # ms) after =
    (to_lower (js_trim (hd g)), js_trim gap') # section_parts ((gap', g') # ms) after"

text \<open>A later section of the same name replaces an earlier one.\<close>

definition parseSections :: "string \<Rightarrow> (string \<rightharpoonup> string)" where
  "parseSections body = (let (ms, after) = scan heading [] [] body in map_of (rev (section_parts ms after)))"

definition criterion_item :: pattern where
  "criterion_item =
    seqs [line_start, many js_space, one (\<lambda>c. c = CHR ''-'' \<or> c = CHR ''*''), many js_space,
          maybe (seqs [lit ''['', up_to 1 (\<lambda>c. c \<in> set '' xX''), lit '']'', many js_space]),
          capture (many1 dot), line_stop]"

definition ACCEPTANCE_CRITERIA_SECTION :: string where
  "ACCEPTANCE_CRITERIA_SECTION = ''Acceptance criteria''"

definition TASK_SPEC_SECTION :: string where "TASK_SPEC_SECTION = ''Proposed solution''"
definition PATH_CONSTRAINTS_SECTION :: string where "PATH_CONSTRAINTS_SECTION = ''Affected component''"

definition trimmed_groups :: "string list list \<Rightarrow> string list" where
  "trimmed_groups matches = filter (\<lambda>text. text \<noteq> []) (map (js_trim \<circ> hd) matches)"

definition readAcceptanceCriteria :: "(string \<rightharpoonup> string) \<Rightarrow> string list" where
  "readAcceptanceCriteria sections =
    (case sections (to_lower ACCEPTANCE_CRITERIA_SECTION) of
       None \<Rightarrow> [] | Some content \<Rightarrow> if content = [] then [] else trimmed_groups (match_all criterion_item content))"

definition path_glob :: pattern where
  "path_glob =
    (let plain = many (\<lambda>c. c \<noteq> CHR ''`'') in
     seqs [lit ''`'', capture (seqs [plain, one (\<lambda>c. c = CHR ''*'' \<or> c = CHR ''/''), plain]), lit ''`''])"

definition readPathConstraints :: "(string \<rightharpoonup> string) \<Rightarrow> string list" where
  "readPathConstraints sections =
    (case sections (to_lower PATH_CONSTRAINTS_SECTION) of
       None \<Rightarrow> [] | Some content \<Rightarrow> if content = [] then [] else trimmed_groups (match_all path_glob content))"

definition adr_ref :: pattern where
  "adr_ref =
    (let letter = (\<lambda>l. one (\<lambda>c. lower_char c = l)) in
     seqs [word_boundary, letter (CHR ''a''), letter (CHR ''d''), letter (CHR ''r''), lit ''-'',
           capture (seqs [exactly 3 digit, up_to 1 digit]), word_boundary])"

text \<open>\<open>[...new Set(xs)]\<close>: the first of each.\<close>

definition first_uniques :: "'a list \<Rightarrow> 'a list" where
  "first_uniques xs = rev (remdups (rev xs))"

definition readDecisionRefs :: "string \<Rightarrow> string list" where
  "readDecisionRefs body = first_uniques (map (\<lambda>g. ''ADR-'' @ hd g) (match_all adr_ref body))"

definition readIssueNeeds :: "normalized_issue \<Rightarrow> runner_need list" where
  "readIssueNeeds issue =
    first_uniques (List.map_filter (\<lambda>label. NEEDS_BY_LABEL (to_lower (nl_name label))) (ni_labels issue))"

definition readIssueTier :: "normalized_issue \<Rightarrow> model_tier option" where
  "readIssueTier issue =
    (case first_uniques (List.map_filter (\<lambda>label. MODEL_TIER_BY_LABEL (to_lower (nl_name label))) (ni_labels issue)) of
       [t] \<Rightarrow> Some t | _ \<Rightarrow> None)"

definition order_issue_url :: "repo_ref \<Rightarrow> int \<Rightarrow> string" where
  "order_issue_url repository n =
    ''https://github.com/'' @ repo_owner repository @ ''/'' @ repo_name repository @ ''/issues/''
      @ decimal (nat n)"

section \<open>One issue\<close>

datatype skip_reason =
  Not_open | Not_marked_ready | No_body | Missing_task_spec | Missing_acceptance_criteria

datatype issue_projection_result =
    Eligible generated_work_order bool
  | Skip skip_reason
  | Rejected_spec "criteria_problem list" "criteria_reason list"

record project_issue_input =
  pi_issue :: normalized_issue
  pi_repository :: repo_ref
  pi_baseCommit :: string
  pi_attempt :: "int option"
  pi_budgetCeilingUsd :: "usd option"
  pi_wallClockTimeoutMinutes :: "rat option"

definition generation_input_of ::
  "project_issue_input \<Rightarrow> string \<Rightarrow> (string \<rightharpoonup> string) \<Rightarrow> string \<Rightarrow> string list \<Rightarrow> generation_input" where
  "generation_input_of input body sections spec criteria =
    \<lparr>gi_issue =
       \<lparr>ip_repository = pi_repository input, ip_issueNumber = ni_number (pi_issue input),
        ip_title = ni_title (pi_issue input), ip_taskSpec = spec, ip_acceptanceCriteria = criteria,
        ip_pathConstraints = readPathConstraints sections, ip_decisionRefs = readDecisionRefs body,
        ip_issueUrl = order_issue_url (pi_repository input) (ni_number (pi_issue input)),
        ip_needs = readIssueNeeds (pi_issue input), ip_modelTier = readIssueTier (pi_issue input)\<rparr>,
     gi_baseCommit = pi_baseCommit input, gi_attempt = Some (get_or 1 (pi_attempt input)),
     gi_budgetCeilingUsd = pi_budgetCeilingUsd input,
     gi_wallClockTimeoutMinutes = pi_wallClockTimeoutMinutes input\<rparr>"

definition projectIssue_order :: "project_issue_input \<Rightarrow> coordinate_error + issue_projection_result" where
  "projectIssue_order input =
    (let issue = pi_issue input in
     if ni_state issue \<noteq> Issue_open then Inr (Skip Not_open)
     else if INPUT_READY \<notin> set (inputLabels issue) then Inr (Skip Not_marked_ready)
     else
       (case ni_body issue of
          None \<Rightarrow> Inr (Skip No_body)
        | Some body \<Rightarrow>
            if js_trim body = [] then Inr (Skip No_body)
            else
              (let sections = parseSections body;
                   spec = js_trim (get_or [] (sections (to_lower TASK_SPEC_SECTION)));
                   criteria = readAcceptanceCriteria sections
               in if spec = [] then Inr (Skip Missing_task_spec)
                  else if criteria = [] then Inr (Skip Missing_acceptance_criteria)
                  else
                    (case generateWorkOrder (generation_input_of input body sections spec criteria) of
                       Inl e \<Rightarrow> Inl e
                     | Inr (Rejected problems why) \<Rightarrow> Inr (Rejected_spec problems why)
                     | Inr (Generated w) \<Rightarrow> Inr (Eligible w (INPUT_HOLD \<in> set (inputLabels issue)))))))"

section \<open>One repository\<close>

record existing_work_order =
  ex_id :: string
  ex_issueNumber :: int
  ex_status :: work_order_status

record projection_input =
  pn_repository :: repository_row
  pn_wallClockTimeoutMinutes :: "rat option"
  pn_issues :: "normalized_issue list"
  pn_existing :: "existing_work_order list"
  pn_baseCommit :: string

record rejected_issue =
  rj_issueNumber :: int
  rj_problems :: "criteria_problem list"
  rj_message :: "criteria_reason list"
  rj_bodyDigest :: string

record projection_result =
  pt_created :: "generated_work_order list"
  pt_heldOnCreate :: nat
  pt_alreadyPresent :: nat
  pt_holdsApplied :: nat
  pt_holdsLifted :: nat
  pt_rejected :: "rejected_issue list"
  pt_skipped :: "skip_reason \<Rightarrow> nat"

record order_world =
  ow_newId :: "string \<Rightarrow> string" \<comment> \<open>the id of the row created under an identity\<close>
  ow_digest :: "string \<Rightarrow> string"
  ow_writable :: "string \<Rightarrow> bool" \<comment> \<open>by identity for a create, by id for an update\<close>
  ow_now :: instant

definition HOLDABLE_STATUSES :: "work_order_status list" where
  "HOLDABLE_STATUSES = [WO_queued, WO_held]"

definition needsBaseCommit :: "normalized_issue list \<Rightarrow> existing_work_order list \<Rightarrow> bool" where
  "needsBaseCommit issues existing =
    list_ex (\<lambda>issue. ni_state issue = Issue_open \<and> INPUT_READY \<in> set (inputLabels issue) \<and>
      ni_number issue \<notin> ex_issueNumber ` set existing) issues"

definition no_result :: projection_result where
  "no_result = \<lparr>pt_created = [], pt_heldOnCreate = 0, pt_alreadyPresent = 0, pt_holdsApplied = 0,
     pt_holdsLifted = 0, pt_rejected = [], pt_skipped = (\<lambda>_. 0)\<rparr>"

definition set_hold :: "string \<Rightarrow> bool \<Rightarrow> instant \<Rightarrow> stored_work_order list \<Rightarrow> stored_work_order list" where
  "set_hold oid hold now rows =
    map (\<lambda>r. if sw_id r = oid
             then (if hold then r\<lparr>sw_status := WO_held, sw_queuedAt := None\<rparr>
                   else r\<lparr>sw_status := WO_queued, sw_queuedAt := Some now\<rparr>)
             else r) rows"

definition reconcileHold ::
  "order_world \<Rightarrow> existing_work_order \<Rightarrow> normalized_issue \<Rightarrow> projection_result \<Rightarrow> stored_work_order list \<Rightarrow>
   (projection_result \<times> stored_work_order list) option" where
  "reconcileHold w ex issue res rows =
    (let shouldHold = (INPUT_HOLD \<in> set (inputLabels issue)); isHeld = (ex_status ex = WO_held) in
     if shouldHold = isHeld then Some (res, rows)
     else if \<not> ow_writable w (ex_id ex) then None
     else Some
       (if shouldHold then res\<lparr>pt_holdsApplied := pt_holdsApplied res + 1\<rparr>
        else res\<lparr>pt_holdsLifted := pt_holdsLifted res + 1\<rparr>,
        set_hold (ex_id ex) shouldHold (ow_now w) rows))"

text \<open>The unique constraints of the table: identity, branch, and the four columns of the identity.\<close>

definition order_taken :: "stored_work_order \<Rightarrow> stored_work_order list \<Rightarrow> bool" where
  "order_taken r rows \<longleftrightarrow>
    (let four = (\<lambda>r. (rr_id (sw_repository r), sw_issueNumber r, sw_baseCommit r, sw_attempt r)) in
     sw_identity r \<in> sw_identity ` set rows \<or> sw_branch r \<in> sw_branch ` set rows \<or> four r \<in> four ` set rows)"

definition persist_order ::
  "order_world \<Rightarrow> repository_row \<Rightarrow> generated_work_order \<Rightarrow> bool \<Rightarrow> stored_work_order list \<Rightarrow>
   (bool \<times> stored_work_order list) option" where
  "persist_order w repository order held rows =
    (if gw_identity order \<in> sw_identity ` set rows then Some (False, rows)
     else
       let r = order_row (ow_newId w (gw_identity order)) repository order held (ow_now w) in
       if \<not> ow_writable w (gw_identity order) then None
       else if order_taken r rows then Some (False, rows)
       else Some (True, rows @ [r]))"

definition known_order :: "existing_work_order list \<Rightarrow> int \<Rightarrow> existing_work_order option" where
  "known_order existing = map_of (rev (map (\<lambda>e. (ex_issueNumber e, e)) existing))"

definition issue_input :: "projection_input \<Rightarrow> normalized_issue \<Rightarrow> project_issue_input" where
  "issue_input input issue =
    (let repository = pn_repository input in
     \<lparr>pi_issue = issue, pi_repository = \<lparr>repo_owner = rr_owner repository, repo_name = rr_name repository\<rparr>,
      pi_baseCommit = pn_baseCommit input, pi_attempt = None,
      pi_budgetCeilingUsd = rr_budgetCeilingUsd repository,
      pi_wallClockTimeoutMinutes = pn_wallClockTimeoutMinutes input\<rparr>)"

text \<open>The outcome of a throw is \<open>None\<close>: what was counted and written before it stays.\<close>

definition projectOne ::
  "order_world \<Rightarrow> projection_input \<Rightarrow> normalized_issue \<Rightarrow> projection_result \<Rightarrow> stored_work_order list \<Rightarrow>
   (projection_result \<times> stored_work_order list) option" where
  "projectOne w input issue res rows =
    (case known_order (pn_existing input) (ni_number issue) of
       Some ex \<Rightarrow>
         map_option (\<lambda>(res', rows'). (res'\<lparr>pt_alreadyPresent := pt_alreadyPresent res' + 1\<rparr>, rows'))
           (if ex_status ex \<in> set HOLDABLE_STATUSES then reconcileHold w ex issue res rows else Some (res, rows))
     | None \<Rightarrow>
         (case projectIssue_order (issue_input input issue) of
            Inl e \<Rightarrow> None
          | Inr (Skip why) \<Rightarrow> Some (res\<lparr>pt_skipped := (pt_skipped res)(why := pt_skipped res why + 1)\<rparr>, rows)
          | Inr (Rejected_spec problems why) \<Rightarrow>
              Some (res\<lparr>pt_rejected := pt_rejected res @
                [\<lparr>rj_issueNumber = ni_number issue, rj_problems = problems, rj_message = why,
                  rj_bodyDigest = ow_digest w (get_or [] (ni_body issue))\<rparr>]\<rparr>, rows)
          | Inr (Eligible order held) \<Rightarrow>
              (case persist_order w (pn_repository input) order held rows of
                 None \<Rightarrow> None
               | Some (True, rows') \<Rightarrow>
                   Some (res\<lparr>pt_created := pt_created res @ [order],
                             pt_heldOnCreate := pt_heldOnCreate res + (if held then 1 else 0)\<rparr>, rows')
               | Some (False, rows') \<Rightarrow> Some (res\<lparr>pt_alreadyPresent := pt_alreadyPresent res + 1\<rparr>, rows'))))"

fun project_each ::
  "order_world \<Rightarrow> projection_input \<Rightarrow> normalized_issue list \<Rightarrow> projection_result \<Rightarrow> stored_work_order list \<Rightarrow>
   projection_result \<times> stored_work_order list" where
  "project_each w input [] res rows = (res, rows)"
| "project_each w input (issue # issues) res rows =
    (case projectOne w input issue res rows of
       None \<Rightarrow> project_each w input issues res rows
     | Some (res', rows') \<Rightarrow> project_each w input issues res' rows')"

definition project_orders ::
  "order_world \<Rightarrow> projection_input \<Rightarrow> stored_work_order list \<Rightarrow> projection_result \<times> stored_work_order list" where
  "project_orders w input rows = project_each w input (pn_issues input) no_result rows"

text \<open>What the projection reads of a repository's work orders.\<close>

definition existing_order :: "stored_work_order \<Rightarrow> existing_work_order" where
  "existing_order r = \<lparr>ex_id = sw_id r, ex_issueNumber = sw_issueNumber r, ex_status = sw_status r\<rparr>"

definition orders_of :: "repository_row \<Rightarrow> stored_work_order list \<Rightarrow> stored_work_order list" where
  "orders_of repository rows = filter (\<lambda>r. rr_id (sw_repository r) = rr_id repository) rows"

definition loadExisting :: "repository_row \<Rightarrow> stored_work_order list \<Rightarrow> existing_work_order list" where
  "loadExisting repository rows = map existing_order (orders_of repository rows)"

text \<open>The caller: \<open>None\<close> is a repository whose head could not be resolved, or has no commit.\<close>

definition projectWorkOrders ::
  "order_world \<Rightarrow> repository_row \<Rightarrow> rat option \<Rightarrow> string option \<Rightarrow> normalized_issue list \<Rightarrow>
   existing_work_order list \<Rightarrow> stored_work_order list \<Rightarrow> (nat \<times> rejected_issue list) \<times> stored_work_order list" where
  "projectWorkOrders w repository timeout head issues existing rows =
    (if \<not> needsBaseCommit issues existing then ((0, []), rows)
     else
       (case head of
          None \<Rightarrow> ((0, []), rows)
        | Some sha \<Rightarrow>
            let (res, rows') = project_orders w
              \<lparr>pn_repository = repository, pn_wallClockTimeoutMinutes = timeout, pn_issues = issues,
               pn_existing = existing, pn_baseCommit = sha\<rparr> rows
            in ((length (pt_created res), pt_rejected res), rows')))"

end
