(* ===== verification/Work_Order_Properties.thy ===== *)
theory Work_Order_Properties
  imports Issue_Projection Row_History
begin

text \<open>
  What is promised of work orders: an identity reads back, an order reads back from its row, a row is
  written once and never rewritten, and when a hold reaches a queued order.
\<close>

section \<open>Lemmas\<close>

subsection \<open>Generation and the row\<close>

lemma cleaned_idem [simp]: "cleaned (cleaned cs) = cleaned cs"
proof -
  have "map js_trim (cleaned cs) = cleaned cs"
    unfolding cleaned_def by (induction cs) simp_all
  moreover have "filter (\<lambda>c. c \<noteq> []) (cleaned cs) = cleaned cs" by (simp add: cleaned_def)
  ultimately show ?thesis by (simp add: cleaned_def[of "cleaned cs"])
qed

lemma assess_cleaned [simp]: "assessCriteria (cleaned cs) = assessCriteria cs"
  by (simp add: assessCriteria_def)

definition order_coordinates :: "generation_input \<Rightarrow> coordinates" where
  "order_coordinates inp =
    \<lparr>co_repository = repo_name (ip_repository (gi_issue inp)), co_issueNumber = ip_issueNumber (gi_issue inp),
     co_baseCommit = gi_baseCommit inp, co_attempt = get_or 1 (gi_attempt inp)\<rparr>"

lemma generated_iff:
  "generateWorkOrder inp = Inr (Generated w) \<longleftrightarrow>
    generation_problems (gi_issue inp) = [] \<and> validate (order_coordinates inp) = Inr (order_coordinates inp) \<and>
    w = assemble inp (order_coordinates inp)"
proof -
  have "validate c = Inr d \<Longrightarrow> d = c" for c d by (simp add: validate_Inr)
  then show ?thesis
    unfolding generateWorkOrder_def Let_def order_coordinates_def[symmetric] by (auto split: sum.splits)
qed

lemma generation_problems_Nil:
  "generation_problems issue = [] \<longleftrightarrow>
    js_trim (ip_issueUrl issue) \<noteq> [] \<and> js_trim (ip_taskSpec issue) \<noteq> [] \<and> testable (ip_acceptanceCriteria issue)"
  by (simp add: generation_problems_def testable_def)

lemma need_named_literal [simp]: "need_named (need_literal n) = Some n"
  by (simp add: need_named_iff)

lemma tier_named_literal [simp]: "tier_named (tier_literal t) = Some t"
  by (simp add: tier_named_iff)

definition same_document :: "stored_work_order \<Rightarrow> stored_work_order \<Rightarrow> bool" where
  "same_document r r' \<longleftrightarrow>
    r' = r\<lparr>sw_status := sw_status r', sw_queuedAt := sw_queuedAt r', sw_holdReason := sw_holdReason r'\<rparr>"

lemma same_documentE:
  assumes "same_document r r'"
  obtains st q h where "r' = r\<lparr>sw_status := st, sw_queuedAt := q, sw_holdReason := h\<rparr>"
  using assms unfolding same_document_def by blast

lemma same_document_refl [simp]: "same_document r r"
  by (simp add: same_document_def)

lemma same_document_update [simp]:
  "same_document r (r\<lparr>sw_status := st, sw_queuedAt := q\<rparr>)"
  "same_document r (r\<lparr>sw_status := st, sw_queuedAt := q, sw_holdReason := h\<rparr>)"
  by (simp_all add: same_document_def)

lemma same_document_trans: "same_document r s \<Longrightarrow> same_document s t \<Longrightarrow> same_document r t"
  by (elim same_documentE) simp

lemma same_document_fields:
  assumes "same_document r r'"
  shows "sw_identity r' = sw_identity r" "sw_branch r' = sw_branch r" "sw_id r' = sw_id r"
    "sw_issueNumber r' = sw_issueNumber r" "sw_repository r' = sw_repository r" "sw_issueUrl r' = sw_issueUrl r"
    "sw_needs r' = sw_needs r" "sw_modelTier r' = sw_modelTier r" "rebuilt r' = rebuilt r"
    "row_coordinates r' = row_coordinates r"
proof -
  from assms obtain st q h where r': "r' = r\<lparr>sw_status := st, sw_queuedAt := q, sw_holdReason := h\<rparr>"
    by (rule same_documentE)
  show "sw_identity r' = sw_identity r" "sw_branch r' = sw_branch r" "sw_id r' = sw_id r"
    "sw_issueNumber r' = sw_issueNumber r" "sw_repository r' = sw_repository r" "sw_issueUrl r' = sw_issueUrl r"
    "sw_needs r' = sw_needs r" "sw_modelTier r' = sw_modelTier r" "row_coordinates r' = row_coordinates r"
    unfolding r' row_coordinates_def by simp_all
  show "rebuilt r' = rebuilt r"
    unfolding r' rebuilt_def by simp
qed

lemma same_document_rehydrates: "same_document r r' \<Longrightarrow> rehydrateWorkOrder r' = rehydrateWorkOrder r"
  unfolding rehydrateWorkOrder_def readNeeds_def readModelTier_def by (simp only: same_document_fields)

lemma rehydrate_row:
  assumes "generateWorkOrder inp = Inr (Generated w)"
    "rr_owner repository = repo_owner (ip_repository (gi_issue inp))"
    "rr_name repository = repo_name (ip_repository (gi_issue inp))"
  shows "rehydrateWorkOrder (order_row oid repository w held now) = Inr w"
proof -
  let ?r = "order_row oid repository w held now" and ?c = "order_coordinates inp"
  from assms(1) have w: "w = assemble inp ?c" and v: "validate ?c = Inr ?c"
    and url: "js_trim (ip_issueUrl (gi_issue inp)) \<noteq> []"
    by (simp_all add: generated_iff generation_problems_Nil)
  have c: "row_coordinates ?r = ?c"
    by (simp add: row_coordinates_def order_row_def w assemble_def Let_def order_coordinates_def assms(3))
  have "List.map_filter need_named (map need_literal ns) = ns" for ns
    by (induction ns) simp_all
  then have n: "readNeeds ?r = Inr (gw_needs w)"
    by (simp add: readNeeds_def order_row_def filter_empty_conv)
  have t: "readModelTier ?r = Inr (gw_modelTier w)"
    by (simp add: readModelTier_def order_row_def split: option.splits)
  have "sw_identity ?r = identity_text ?c" "sw_branch ?r = branch_text ?c" "sw_issueUrl ?r \<noteq> []"
    using url by (simp_all add: order_row_def w assemble_def Let_def)
  moreover have "rebuilt ?r ?c (gw_needs w) (gw_modelTier w) = w"
    by (simp add: rebuilt_def order_row_def w assemble_def Let_def assms(2,3) order_coordinates_def)
  ultimately show ?thesis
    by (simp add: rehydrateWorkOrder_def c v n t)
qed

subsection \<open>One issue\<close>

lemma eligible_order:
  assumes "projectIssue_order input = Inr (Eligible order held)"
  obtains body sections spec criteria where
    "generateWorkOrder (generation_input_of input body sections spec criteria) = Inr (Generated order)"
    "ni_state (pi_issue input) = Issue_open" "INPUT_READY \<in> set (inputLabels (pi_issue input))"
    "held = (INPUT_HOLD \<in> set (inputLabels (pi_issue input)))"
  using assms
  by (auto simp: projectIssue_order_def Let_def split: if_splits option.splits sum.splits generation_result.splits)

lemma eligible_fields:
  assumes "projectIssue_order (issue_input input issue) = Inr (Eligible order held)"
  shows "gw_issueNumber order = ni_number issue" "gw_baseCommit order = pn_baseCommit input" "gw_attempt order = 1"
    "ni_state issue = Issue_open" "INPUT_READY \<in> set (inputLabels issue)" "held = (INPUT_HOLD \<in> set (inputLabels issue))"
proof -
  from assms obtain body sections spec criteria where
    g: "generateWorkOrder (generation_input_of (issue_input input issue) body sections spec criteria) = Inr (Generated order)"
    and i: "ni_state (pi_issue (issue_input input issue)) = Issue_open"
      "INPUT_READY \<in> set (inputLabels (pi_issue (issue_input input issue)))"
      "held = (INPUT_HOLD \<in> set (inputLabels (pi_issue (issue_input input issue))))"
    by (rule eligible_order)
  then show "ni_state issue = Issue_open" "INPUT_READY \<in> set (inputLabels issue)" "held = (INPUT_HOLD \<in> set (inputLabels issue))"
    by (simp_all add: issue_input_def Let_def)
  show "gw_issueNumber order = ni_number issue" "gw_baseCommit order = pn_baseCommit input" "gw_attempt order = 1"
    using g by (simp_all add: generated_iff assemble_def Let_def generation_input_of_def issue_input_def order_coordinates_def)
qed

text \<open>A row as the projection wrote it, whatever its status became.\<close>

definition written_order :: "stored_work_order \<Rightarrow> bool" where
  "written_order r \<longleftrightarrow> (\<exists>inp w oid repository held now.
     generateWorkOrder inp = Inr (Generated w) \<and>
     rr_owner repository = repo_owner (ip_repository (gi_issue inp)) \<and>
     rr_name repository = repo_name (ip_repository (gi_issue inp)) \<and>
     same_document (order_row oid repository w held now) r)"

lemma written_later: "written_order r \<Longrightarrow> same_document r r' \<Longrightarrow> written_order r'"
  unfolding written_order_def using same_document_trans by blast

lemma written_rehydrates:
  assumes "written_order r"
  shows "\<exists>w. rehydrateWorkOrder r = Inr w \<and> testable (gw_acceptanceCriteria w) \<and> gw_taskSpec w \<noteq> [] \<and>
    workOrderIdentity (gw_coordinates w) = Inr (sw_identity r) \<and> workOrderBranch (gw_coordinates w) = Inr (sw_branch r)"
proof -
  from assms obtain inp w oid repository held now where
    w: "generateWorkOrder inp = Inr (Generated w)" and
    n: "rr_owner repository = repo_owner (ip_repository (gi_issue inp))"
      "rr_name repository = repo_name (ip_repository (gi_issue inp))" and
    d: "same_document (order_row oid repository w held now) r"
    unfolding written_order_def by blast
  from w have v: "validate (order_coordinates inp) = Inr (order_coordinates inp)"
    and p: "testable (ip_acceptanceCriteria (gi_issue inp))" "js_trim (ip_taskSpec (gi_issue inp)) \<noteq> []"
    and a: "w = assemble inp (order_coordinates inp)"
    by (simp_all add: generated_iff generation_problems_Nil)
  have "rehydrateWorkOrder r = Inr w"
    using rehydrate_row[OF w n] same_document_rehydrates[OF d] by simp
  moreover have "testable (gw_acceptanceCriteria w)" "gw_taskSpec w \<noteq> []" "gw_coordinates w = order_coordinates inp"
    "gw_identity w = identity_text (order_coordinates inp)" "gw_branch w = branch_text (order_coordinates inp)"
    using p by (simp_all add: a assemble_def Let_def testable_def)
  moreover have "sw_identity r = gw_identity w" "sw_branch r = gw_branch w"
    using same_document_fields(1,2)[OF d] by (simp_all add: order_row_def)
  ultimately show ?thesis using v by (simp add: workOrderIdentity_def workOrderBranch_def)
qed

lemma eligible_written:
  assumes "projectIssue_order (issue_input input issue) = Inr (Eligible order held)"
  shows "written_order (order_row oid (pn_repository input) order h now)"
proof -
  from assms obtain body sections spec criteria where
    g: "generateWorkOrder (generation_input_of (issue_input input issue) body sections spec criteria) = Inr (Generated order)"
    by (rule eligible_order)
  let ?inp = "generation_input_of (issue_input input issue) body sections spec criteria"
  have "rr_owner (pn_repository input) = repo_owner (ip_repository (gi_issue ?inp))"
    "rr_name (pn_repository input) = repo_name (ip_repository (gi_issue ?inp))"
    by (simp_all add: generation_input_of_def issue_input_def Let_def)
  with g show ?thesis unfolding written_order_def using same_document_refl by blast
qed

subsection \<open>A pass\<close>

lemma set_hold_later: "list_all2 same_document rows (set_hold oid hold now rows)"
  by (simp add: set_hold_def list_all2_map2 list.rel_refl_strong)

lemma projectOne_rows:
  assumes "projectOne w input issue res rows = Some (res', rows')"
  shows "rows' = rows \<or>
    (\<exists>ex. known_order (pn_existing input) (ni_number issue) = Some ex \<and> ex_status ex \<in> set HOLDABLE_STATUSES \<and>
       (ex_status ex \<noteq> WO_held) = (INPUT_HOLD \<in> set (inputLabels issue)) \<and>
       rows' = set_hold (ex_id ex) (INPUT_HOLD \<in> set (inputLabels issue)) (ow_now w) rows) \<or>
    (\<exists>order held. known_order (pn_existing input) (ni_number issue) = None \<and>
       projectIssue_order (issue_input input issue) = Inr (Eligible order held) \<and>
       (let r = order_row (ow_newId w (gw_identity order)) (pn_repository input) order held (ow_now w)
        in \<not> order_taken r rows \<and> rows' = rows @ [r]))"
proof (cases "known_order (pn_existing input) (ni_number issue)")
  case (Some ex)
  with assms show ?thesis
    by (auto simp: projectOne_def reconcileHold_def Let_def split: if_splits)
next
  case None
  with assms show ?thesis
    by (auto simp: projectOne_def persist_order_def Let_def
        split: sum.splits issue_projection_result.splits option.splits if_splits)
qed

lemma known_order_None: "known_order existing n = None \<longleftrightarrow> n \<notin> ex_issueNumber ` set existing"
  unfolding known_order_def map_of_eq_None_iff by (force simp: image_iff)

lemma known_order_Some: "known_order existing n = Some ex \<Longrightarrow> ex \<in> set existing \<and> ex_issueNumber ex = n"
  unfolding known_order_def by (drule map_of_SomeD) auto


text \<open>What the table promises: no two rows share an identity, a branch or an issue of a repository.\<close>

definition order_issue :: "stored_work_order \<Rightarrow> string \<times> int" where
  "order_issue r = (rr_id (sw_repository r), sw_issueNumber r)"

definition orders_unique :: "stored_work_order list \<Rightarrow> bool" where
  "orders_unique rows \<longleftrightarrow>
    distinct (map sw_identity rows) \<and> distinct (map sw_branch rows) \<and> distinct (map order_issue rows) \<and>
    list_all written_order rows"

lemma later_keys:
  assumes "list_all2 same_document rows rows'"
  shows "map sw_identity rows' = map sw_identity rows" "map sw_branch rows' = map sw_branch rows"
    "map order_issue rows' = map order_issue rows"
  using assms by (induction rule: list_all2_induct) (simp_all add: same_document_fields order_issue_def)

lemma later_unique: "list_all2 same_document rows rows' \<Longrightarrow> orders_unique rows \<Longrightarrow> orders_unique rows'"
proof -
  assume l: "list_all2 same_document rows rows'" and u: "orders_unique rows"
  have "list_all written_order rows'"
    using l u[unfolded orders_unique_def] written_later by (auto simp: list_all2_conv_all_nth list_all_length)
  with u show ?thesis by (simp add: orders_unique_def later_keys[OF l])
qed

lemma later_row_back: "list_all2 same_document rows rows' \<Longrightarrow> r' \<in> set rows' \<Longrightarrow> \<exists>r \<in> set rows. same_document r r'"
  by (induction rule: list_all2_induct) auto

text \<open>While a pass runs, a row of its repository was known to it, or is of its own making.\<close>

definition accounted :: "projection_input \<Rightarrow> stored_work_order \<Rightarrow> bool" where
  "accounted input r \<longleftrightarrow>
    (rr_id (sw_repository r) = rr_id (pn_repository input) \<longrightarrow>
     sw_issueNumber r \<in> ex_issueNumber ` set (pn_existing input) \<or>
     sw_baseCommit r = pn_baseCommit input \<and> sw_attempt r = 1)"

lemma accounted_later: "same_document r r' \<Longrightarrow> accounted input r \<Longrightarrow> accounted input r'"
  by (elim same_documentE) (simp add: accounted_def)

lemma projectOne_keeps:
  assumes "projectOne w input issue res rows = Some (res', rows')" "orders_unique rows"
    "list_all (accounted input) rows"
  shows "orders_unique rows' \<and> list_all (accounted input) rows'"
proof -
  have later: ?thesis if "list_all2 same_document rows rows'"
    using later_unique[OF that assms(2)] later_row_back[OF that] assms(3) accounted_later
    unfolding list_all_iff by blast
  from projectOne_rows[OF assms(1)] show ?thesis
  proof (elim disjE exE conjE)
    assume "rows' = rows"
    then show ?thesis using assms(2,3) by simp
  next
    fix ex assume "rows' = set_hold (ex_id ex) (INPUT_HOLD \<in> set (inputLabels issue)) (ow_now w) rows"
    then show ?thesis using later set_hold_later by simp
  next
    fix order held
    let ?r = "order_row (ow_newId w (gw_identity order)) (pn_repository input) order held (ow_now w)"
    assume unknown: "known_order (pn_existing input) (ni_number issue) = None"
      and eligible: "projectIssue_order (issue_input input issue) = Inr (Eligible order held)"
      and "let r = ?r in \<not> order_taken r rows \<and> rows' = rows @ [r]"
    then have free: "\<not> order_taken ?r rows" and rows': "rows' = rows @ [?r]" by (simp_all add: Let_def)
    have r: "rr_id (sw_repository ?r) = rr_id (pn_repository input)" "sw_issueNumber ?r = ni_number issue"
      "sw_baseCommit ?r = pn_baseCommit input" "sw_attempt ?r = 1"
      using eligible_fields[OF eligible] by (simp_all add: order_row_def)
    have "order_issue ?r \<noteq> order_issue s" if "s \<in> set rows" for s
    proof
      assume "order_issue ?r = order_issue s"
      then have s: "rr_id (sw_repository s) = rr_id (sw_repository ?r)" "sw_issueNumber s = sw_issueNumber ?r"
        by (simp_all add: order_issue_def)
      moreover have "ni_number issue \<notin> ex_issueNumber ` set (pn_existing input)"
        using unknown by (simp add: known_order_None)
      moreover have "accounted input s" using assms(3) that by (simp add: list_all_iff)
      ultimately have "sw_baseCommit s = pn_baseCommit input \<and> sw_attempt s = 1"
        unfolding accounted_def r by metis
      with s r that free show False
        unfolding order_taken_def Let_def by (metis (no_types, lifting) image_eqI)
    qed
    moreover have "sw_identity ?r \<notin> sw_identity ` set rows" "sw_branch ?r \<notin> sw_branch ` set rows"
      using free by (simp_all add: order_taken_def Let_def)
    moreover have "written_order ?r" using eligible by (rule eligible_written)
    moreover have "accounted input ?r" using r by (simp add: accounted_def)
    ultimately show ?thesis
      using assms(2,3) unfolding orders_unique_def rows' by auto
  qed
qed

lemma project_each_keeps:
  "orders_unique rows \<Longrightarrow> list_all (accounted input) rows \<Longrightarrow>
   orders_unique (snd (project_each w input issues res rows))"
proof (induction issues arbitrary: res rows)
  case Nil
  then show ?case by simp
next
  case (Cons issue issues)
  show ?case
  proof (cases "projectOne w input issue res rows")
    case None
    with Cons show ?thesis by simp
  next
    case (Some p)
    obtain res' rows' where p: "p = (res', rows')" by fastforce
    from projectOne_keeps[OF Some[unfolded p] Cons.prems] Cons.IH[of rows' res'] show ?thesis
      by (simp add: Some p)
  qed
qed

lemma projectWorkOrders_keeps:
  assumes "orders_unique rows"
  shows "orders_unique (snd (projectWorkOrders w repository timeout head issues (loadExisting repository rows) rows))"
proof -
  have "list_all (accounted
      \<lparr>pn_repository = repository, pn_wallClockTimeoutMinutes = timeout, pn_issues = issues,
       pn_existing = loadExisting repository rows, pn_baseCommit = sha\<rparr>) rows" for sha
    by (auto simp: list_all_iff accounted_def loadExisting_def orders_of_def existing_order_def image_iff)
  from project_each_keeps[OF assms this] show ?thesis
    using assms
    by (auto simp: projectWorkOrders_def project_orders_def Let_def case_prod_beta split: option.splits)
qed


text \<open>Every write of a pass is a step of the table: a status moved, or a row under a fresh identity.\<close>

interpretation order_rows: row_history "table_step sw_identity same_document" "\<lambda>rows. rows" sw_identity same_document
proof unfold_locales
  fix rows rows' r
  assume "table_step sw_identity same_document rows rows'" "r \<in> set rows"
  then show "\<exists>r' \<in> set rows'. sw_identity r' = sw_identity r \<and> same_document r r'" by (rule table_step_row)
next
  show "table_step sw_identity same_document rows rows' \<Longrightarrow> distinct (map sw_identity rows) \<Longrightarrow> distinct (map sw_identity rows')" for rows rows'
    by (rule table_step_distinct)
qed (simp, rule same_document_trans)

lemma later_step: "list_all2 same_document rows rows' \<Longrightarrow> table_step sw_identity same_document rows rows'"
  unfolding table_step_def table_update_def
  by (intro disjI1) (auto simp: list_all2_conv_all_nth same_document_fields(1))

lemma projectOne_step:
  assumes "projectOne w input issue res rows = Some (res', rows')"
  shows "table_step sw_identity same_document rows rows'"
  using projectOne_rows[OF assms]
proof (elim disjE exE conjE)
  assume "rows' = rows"
  then show ?thesis by (simp add: later_step list.rel_refl)
next
  fix ex assume "rows' = set_hold (ex_id ex) (INPUT_HOLD \<in> set (inputLabels issue)) (ow_now w) rows"
  then show ?thesis using later_step set_hold_later by simp
next
  fix order held
  let ?r = "order_row (ow_newId w (gw_identity order)) (pn_repository input) order held (ow_now w)"
  assume "let r = ?r in \<not> order_taken r rows \<and> rows' = rows @ [r]"
  then have "rows' = rows @ [?r]" "sw_identity ?r \<notin> sw_identity ` set rows"
    by (simp_all add: Let_def order_taken_def)
  then show ?thesis unfolding table_step_def using table_update_refl same_document_refl by blast
qed

lemma project_each_steps: "(table_step sw_identity same_document)\<^sup>*\<^sup>* rows (snd (project_each w input issues res rows))"
proof (induction issues arbitrary: res rows)
  case (Cons issue issues)
  show ?case
  proof (cases "projectOne w input issue res rows")
    case (Some p)
    obtain res' rows' where p: "p = (res', rows')" by fastforce
    from converse_rtranclp_into_rtranclp[OF projectOne_step[OF Some[unfolded p]] Cons.IH[of rows' res']] show ?thesis
      by (simp add: Some p)
  qed (use Cons in simp)
qed simp

lemma projectWorkOrders_steps:
  "(table_step sw_identity same_document)\<^sup>*\<^sup>* rows (snd (projectWorkOrders w repository timeout head issues existing rows))"
  by (simp add: projectWorkOrders_def project_orders_def Let_def case_prod_beta project_each_steps split: option.splits)

text \<open>The table over time: passes over repositories, and whatever else moves a status.\<close>

inductive order_step :: "stored_work_order list \<Rightarrow> stored_work_order list \<Rightarrow> bool" where
  pass: "order_step rows (snd (projectWorkOrders w repository timeout head issues (loadExisting repository rows) rows))"
| moved: "order_step rows (map (\<lambda>r. if sw_id r = oid
      then r\<lparr>sw_status := st, sw_queuedAt := q, sw_holdReason := h\<rparr> else r) rows)"

lemma moved_later: "list_all2 same_document rows (map (\<lambda>r. if sw_id r = oid
    then r\<lparr>sw_status := st, sw_queuedAt := q, sw_holdReason := h\<rparr> else r) rows)"
  by (simp add: list_all2_map2 list.rel_refl_strong)

lemma order_steps_unique: "order_step\<^sup>*\<^sup>* rows rows' \<Longrightarrow> orders_unique rows \<Longrightarrow> orders_unique rows'"
proof (induction rule: rtranclp_induct)
  case (step y z)
  from step.hyps(2) step.IH[OF step.prems] show ?case
    by (cases rule: order_step.cases) (use projectWorkOrders_keeps later_unique[OF moved_later] in blast)+
qed

lemma order_steps_table: "order_step\<^sup>*\<^sup>* rows rows' \<Longrightarrow> (table_step sw_identity same_document)\<^sup>*\<^sup>* rows rows'"
proof (induction rule: rtranclp_induct)
  case (step y z)
  from step.hyps(2) have "(table_step sw_identity same_document)\<^sup>*\<^sup>* y z"
    by (cases rule: order_step.cases) (use projectWorkOrders_steps later_step[OF moved_later] in blast)+
  with step.IH show ?case by simp
qed simp


subsection \<open>A hold\<close>

definition order_stands :: "string \<Rightarrow> work_order_status \<Rightarrow> stored_work_order list \<Rightarrow> bool" where
  "order_stands oid st rows \<longleftrightarrow>
    oid \<in> sw_id ` set rows \<and> list_all (\<lambda>r. sw_id r = oid \<longrightarrow> sw_status r = st) rows"

lemma set_hold_stands:
  "order_stands oid st rows \<Longrightarrow>
   order_stands oid (if oid = ex then (if hold then WO_held else WO_queued) else st) (set_hold ex hold now rows)"
proof -
  assume a: "order_stands oid st rows"
  have "map sw_id (set_hold ex hold now rows) = map sw_id rows" by (simp add: set_hold_def)
  then have "sw_id ` set (set_hold ex hold now rows) = sw_id ` set rows" by (metis set_map)
  with a show ?thesis
    unfolding order_stands_def by (auto simp: set_hold_def list_all_iff)
qed

lemma projectOne_stands:
  assumes "projectOne w input issue res rows = Some (res', rows')" "order_stands oid st rows"
    "\<And>ex. known_order (pn_existing input) (ni_number issue) = Some ex \<Longrightarrow> ex_id ex \<noteq> oid" "\<And>x. ow_newId w x \<noteq> oid"
  shows "order_stands oid st rows'"
  using projectOne_rows[OF assms(1)]
proof (elim disjE exE conjE)
  fix ex assume "known_order (pn_existing input) (ni_number issue) = Some ex"
    "rows' = set_hold (ex_id ex) (INPUT_HOLD \<in> set (inputLabels issue)) (ow_now w) rows"
  then show ?thesis using set_hold_stands[OF assms(2), of "ex_id ex"] assms(3) by auto
next
  fix order held
  let ?r = "order_row (ow_newId w (gw_identity order)) (pn_repository input) order held (ow_now w)"
  assume "let r = ?r in \<not> order_taken r rows \<and> rows' = rows @ [r]"
  moreover have "sw_id ?r \<noteq> oid" using assms(4) by (simp add: order_row_def)
  ultimately show ?thesis using assms(2) by (simp add: order_stands_def Let_def)
qed (use assms(2) in simp)

lemma projectOne_hold:
  assumes "known_order (pn_existing input) (ni_number issue) = Some ex" "ex_status ex \<in> set HOLDABLE_STATUSES"
    "ow_writable w (ex_id ex)" "order_stands (ex_id ex) (ex_status ex) rows"
  obtains res' rows' where "projectOne w input issue res rows = Some (res', rows')"
    "order_stands (ex_id ex) (if INPUT_HOLD \<in> set (inputLabels issue) then WO_held else WO_queued) rows'"
proof (cases "(INPUT_HOLD \<in> set (inputLabels issue)) = (ex_status ex = WO_held)")
  case True
  moreover have "ex_status ex = WO_held \<or> ex_status ex = WO_queued" using assms(2) by (auto simp: HOLDABLE_STATUSES_def)
  ultimately have "ex_status ex = (if INPUT_HOLD \<in> set (inputLabels issue) then WO_held else WO_queued)" by auto
  then show thesis
    using assms True by (intro that) (auto simp: projectOne_def reconcileHold_def Let_def)
next
  case False
  with assms show thesis
    using set_hold_stands[OF assms(4), of "ex_id ex" "INPUT_HOLD \<in> set (inputLabels issue)" "ow_now w"]
    by (intro that) (auto simp: projectOne_def reconcileHold_def Let_def)
qed

lemma project_each_stands:
  assumes "order_stands oid st rows" "\<And>x. ow_newId w x \<noteq> oid"
    "\<And>issue ex. issue \<in> set issues \<Longrightarrow> known_order (pn_existing input) (ni_number issue) = Some ex \<Longrightarrow> ex_id ex \<noteq> oid"
  shows "order_stands oid st (snd (project_each w input issues res rows))"
  using assms(1,3)
proof (induction issues arbitrary: res rows)
  case (Cons issue issues)
  have keep: "ex_id e \<noteq> oid" if "i \<in> set issues" "known_order (pn_existing input) (ni_number i) = Some e" for i e
    using Cons.prems(2)[of i e] that by simp
  show ?case
  proof (cases "projectOne w input issue res rows")
    case None
    from Cons.IH[OF Cons.prems(1) keep] show ?thesis by (simp add: None)
  next
    case (Some p)
    obtain res' rows' where p: "p = (res', rows')" by fastforce
    have "order_stands oid st rows'"
      by (rule projectOne_stands[OF Some[unfolded p] Cons.prems(1) Cons.prems(2)[of issue] assms(2)]) simp_all
    from Cons.IH[OF this keep] show ?thesis by (simp add: Some p)
  qed
qed simp

lemma project_each_hold:
  assumes "order_stands (ex_id ex) (ex_status ex) rows" "\<And>x. ow_newId w x \<noteq> ex_id ex" "ex_status ex \<in> set HOLDABLE_STATUSES"
    "ow_writable w (ex_id ex)" "issue \<in> set issues" "distinct (map ni_number issues)"
    "\<And>i e. i \<in> set issues \<Longrightarrow> known_order (pn_existing input) (ni_number i) = Some e \<Longrightarrow> ex_id e = ex_id ex \<longleftrightarrow> ni_number i = ni_number issue"
    "known_order (pn_existing input) (ni_number issue) = Some ex"
  shows "order_stands (ex_id ex) (if INPUT_HOLD \<in> set (inputLabels issue) then WO_held else WO_queued)
    (snd (project_each w input issues res rows))"
  using assms(1,5,6,7)
proof (induction issues arbitrary: res rows)
  case (Cons i issues)
  show ?case
  proof (cases "i = issue")
    case True
    obtain res' rows' where p: "projectOne w input i res rows = Some (res', rows')"
      "order_stands (ex_id ex) (if INPUT_HOLD \<in> set (inputLabels issue) then WO_held else WO_queued) rows'"
      using projectOne_hold[OF assms(8,3,4) Cons.prems(1)] True by metis
    have "ex_id e \<noteq> ex_id ex" if "j \<in> set issues" "known_order (pn_existing input) (ni_number j) = Some e" for j e
    proof -
      have "ni_number j \<in> set (map ni_number issues)" using that(1) by simp
      then have "ni_number j \<noteq> ni_number issue" using Cons.prems(3) True by auto
      then show ?thesis using Cons.prems(4)[of j e] that by simp
    qed
    from project_each_stands[OF p(2) assms(2) this] show ?thesis by (simp add: p(1))
  next
    case False
    then have later: "issue \<in> set issues" and other: "ni_number i \<noteq> ni_number issue"
      using Cons.prems(2,3) by auto
    show ?thesis
    proof (cases "projectOne w input i res rows")
      case (Some p)
      obtain res' rows' where p: "p = (res', rows')" by fastforce
      have "order_stands (ex_id ex) (ex_status ex) rows'"
        by (rule projectOne_stands[OF Some[unfolded p] Cons.prems(1) _ assms(2)]) (use Cons.prems(4)[of i] other in simp)
      with Cons later show ?thesis by (simp add: Some p)
    qed (use Cons later in simp)
  qed
qed simp

lemma known_row:
  assumes "distinct (map sw_issueNumber (orders_of repository rows))" "r \<in> set (orders_of repository rows)"
  shows "known_order (loadExisting repository rows) (sw_issueNumber r) = Some (existing_order r)"
proof -
  obtain ex where ex: "known_order (loadExisting repository rows) (sw_issueNumber r) = Some ex"
    using assms(2) by (cases "known_order (loadExisting repository rows) (sw_issueNumber r)")
      (auto simp: known_order_None loadExisting_def existing_order_def image_iff)
  from known_order_Some[OF ex] obtain s where s: "s \<in> set (orders_of repository rows)" "ex = existing_order s" "sw_issueNumber s = sw_issueNumber r"
    by (auto simp: loadExisting_def existing_order_def)
  from distinct_map_eqD[OF assms(1) s(1) assms(2) s(3)] s(2) ex show ?thesis by simp
qed


section \<open>Properties\<close>

text \<open>an identity reads back, and tells orders apart. What \<open>parseWorkOrderIdentity\<close> reads of an identity
  is the slug of the repository, the issue, the short commit and the attempt it was made of; and two
  identities are the same text exactly when these four agree.
\<close>

theorem identity_reads_back:
  assumes "workOrderIdentity c = Inr i" "workOrderIdentity d = Inr j"
  shows "parseWorkOrderIdentity i =
      Some (c\<lparr>co_repository := slug (co_repository c), co_baseCommit := shortCommit (co_baseCommit c)\<rparr>) \<and>
    (i = j \<longleftrightarrow> slug (co_repository c) = slug (co_repository d) \<and> co_issueNumber c = co_issueNumber d \<and>
       shortCommit (co_baseCommit c) = shortCommit (co_baseCommit d) \<and> co_attempt c = co_attempt d)"
proof -
  have read: "\<exists>e. validate x = Inr e" "y = identity_text x" if "workOrderIdentity x = Inr y" for x y
    using that by (auto simp: workOrderIdentity_def validate_Inr split: sum.splits)
  have c: "parseWorkOrderIdentity i =
      Some (c\<lparr>co_repository := slug (co_repository c), co_baseCommit := shortCommit (co_baseCommit c)\<rparr>)"
    using read[OF assms(1)] identity_read_back by blast
  have d: "parseWorkOrderIdentity j =
      Some (d\<lparr>co_repository := slug (co_repository d), co_baseCommit := shortCommit (co_baseCommit d)\<rparr>)"
    using read[OF assms(2)] identity_read_back by blast
  have "i = j \<longleftrightarrow> slug (co_repository c) = slug (co_repository d) \<and> co_issueNumber c = co_issueNumber d \<and>
       shortCommit (co_baseCommit c) = shortCommit (co_baseCommit d) \<and> co_attempt c = co_attempt d"
  proof
    assume "i = j"
    with c d show "slug (co_repository c) = slug (co_repository d) \<and> co_issueNumber c = co_issueNumber d \<and>
       shortCommit (co_baseCommit c) = shortCommit (co_baseCommit d) \<and> co_attempt c = co_attempt d"
      by (cases c; cases d) simp
  next
    assume "slug (co_repository c) = slug (co_repository d) \<and> co_issueNumber c = co_issueNumber d \<and>
       shortCommit (co_baseCommit c) = shortCommit (co_baseCommit d) \<and> co_attempt c = co_attempt d"
    then show "i = j" using read(2)[OF assms(1)] read(2)[OF assms(2)] by (simp add: identity_text_def)
  qed
  with c show ?thesis by blast
qed

definition a_sha :: string where "a_sha = ''a3f91c2d4e5b60718293a4b5c6d7e8f901234567''"

definition a_place :: coordinates where
  "a_place = \<lparr>co_repository = ''My.Repo'', co_issueNumber = 312, co_baseCommit = a_sha, co_attempt = 1\<rparr>"

lemma a_place_identity: "workOrderIdentity a_place = Inr ''wo_my-repo_312_a3f91c2_a1''"
  by code_simp

lemma identity_reads_back_witness:
  "parseWorkOrderIdentity ''wo_my-repo_312_a3f91c2_a1'' =
     Some \<lparr>co_repository = ''my-repo'', co_issueNumber = 312, co_baseCommit = ''a3f91c2'', co_attempt = 1\<rparr>"
proof -
  have "slug (co_repository a_place) = ''my-repo''" "shortCommit (co_baseCommit a_place) = ''a3f91c2''"
    by code_simp+
  then show ?thesis
    using identity_reads_back[OF a_place_identity a_place_identity] by (simp add: a_place_def)
qed

text \<open>C33: the authorized thing is the stored thing. An order generated from an issue and written as a row
  is read back from that row exactly as it was, whatever became of its status, its place in the queue
  and the reason it is held.
\<close>

theorem stored_order_rehydrates:
  assumes "generateWorkOrder inp = Inr (Generated w)"
    "rr_owner repository = repo_owner (ip_repository (gi_issue inp))"
    "rr_name repository = repo_name (ip_repository (gi_issue inp))"
  shows "rehydrateWorkOrder ((order_row oid repository w held now)
    \<lparr>sw_status := st, sw_queuedAt := q, sw_holdReason := h\<rparr>) = Inr w"
  using rehydrate_row[OF assms] same_document_rehydrates[OF same_document_update(2)] by simp

definition a_repository :: repository_row where
  "a_repository = \<lparr>rr_id = ''r1'', rr_owner = ''acme'', rr_name = ''My.Repo'', rr_dispatchEnabled = True,
     rr_budgetCeilingUsd = Some 5\<rparr>"

definition a_generation :: generation_input where
  "a_generation = \<lparr>gi_issue = \<lparr>ip_repository = \<lparr>repo_owner = ''acme'', repo_name = ''My.Repo''\<rparr>, ip_issueNumber = 312,
     ip_title = ''A title'', ip_taskSpec = ''Return 404'', ip_acceptanceCriteria = [''Returns 404 for an unknown id''],
     ip_pathConstraints = [], ip_decisionRefs = [''ADR-0042''], ip_issueUrl = ''https://github.com/acme/My.Repo/issues/312'',
     ip_needs = [Need_cost_reporting], ip_modelTier = None\<rparr>, gi_baseCommit = a_sha, gi_attempt = None,
     gi_budgetCeilingUsd = Some 5, gi_wallClockTimeoutMinutes = None\<rparr>"

lemma a_generation_generates:
  "generateWorkOrder a_generation = Inr (Generated (assemble a_generation (order_coordinates a_generation)))"
proof -
  have "generation_problems (gi_issue a_generation) = []" by code_simp
  moreover have "validate (order_coordinates a_generation) = Inr (order_coordinates a_generation)" by code_simp
  ultimately show ?thesis by (simp add: generated_iff)
qed

lemma stored_order_rehydrates_witness:
  "rehydrateWorkOrder ((order_row ''w1'' a_repository (assemble a_generation (order_coordinates a_generation)) False 5)
    \<lparr>sw_status := WO_dispatched, sw_queuedAt := Some 5, sw_holdReason := None\<rparr>) =
   Inr (assemble a_generation (order_coordinates a_generation))"
  by (rule stored_order_rehydrates[OF a_generation_generates]) (simp_all add: a_repository_def a_generation_def)


text \<open>C9: orders are written once. Whatever passes over whatever repositories run, and however statuses are
  moved in between, from an empty table: no two rows share an identity, a branch or an issue of a
  repository; a row keeps everything but its status, its queue time and its hold reason for ever; and
  every row can be dispatched, it reads back as an order with a specification and testable criteria
  that carries the identity and the branch of its own coordinates.
\<close>

theorem orders_are_written_once:
  assumes "order_step\<^sup>*\<^sup>* [] rows" "order_step\<^sup>*\<^sup>* rows rows'"
  shows "distinct (map sw_identity rows') \<and> distinct (map sw_branch rows') \<and>
    distinct (map (\<lambda>r. (rr_id (sw_repository r), sw_issueNumber r)) rows') \<and>
    (\<forall>r \<in> set rows. \<exists>r' \<in> set rows'. sw_identity r' = sw_identity r) \<and>
    (\<forall>r \<in> set rows. \<forall>r' \<in> set rows'. sw_identity r' = sw_identity r \<longrightarrow>
       r' = r\<lparr>sw_status := sw_status r', sw_queuedAt := sw_queuedAt r', sw_holdReason := sw_holdReason r'\<rparr>) \<and>
    (\<forall>r \<in> set rows'. \<exists>w. rehydrateWorkOrder r = Inr w \<and> gw_taskSpec w \<noteq> [] \<and> testable (gw_acceptanceCriteria w) \<and>
       workOrderIdentity (gw_coordinates w) = Inr (sw_identity r) \<and> workOrderBranch (gw_coordinates w) = Inr (sw_branch r))"
proof -
  have "orders_unique []" by (simp add: orders_unique_def)
  then have u: "orders_unique rows" "orders_unique rows'"
    using order_steps_unique[OF assms(1)] order_steps_unique[OF assms(2)] by blast+
  then have d: "distinct (map sw_identity rows)" by (simp add: orders_unique_def)
  note t = order_steps_table[OF assms(2)]
  have "\<exists>r' \<in> set rows'. sw_identity r' = sw_identity r" if "r \<in> set rows" for r
    using order_rows.steps_later[OF t d that] by blast
  moreover have "same_document r r'" if "r \<in> set rows" "r' \<in> set rows'" "sw_identity r' = sw_identity r" for r r'
    using order_rows.row_under_key[OF t d that] .
  moreover have "\<exists>w. rehydrateWorkOrder r = Inr w \<and> gw_taskSpec w \<noteq> [] \<and> testable (gw_acceptanceCriteria w) \<and>
      workOrderIdentity (gw_coordinates w) = Inr (sw_identity r) \<and> workOrderBranch (gw_coordinates w) = Inr (sw_branch r)"
    if "r \<in> set rows'" for r
    using u(2) that written_rehydrates[of r] unfolding orders_unique_def list_all_iff by blast
  ultimately show ?thesis
    using u(2) unfolding orders_unique_def order_issue_def same_document_def by blast
qed

definition a_world :: order_world where
  "a_world = \<lparr>ow_newId = (\<lambda>i. ''id of '' @ i), ow_digest = (\<lambda>s. s), ow_writable = (\<lambda>_. True), ow_now = 100\<rparr>"

definition a_body :: string where
  "a_body = concat (map (\<lambda>l. l @ [CHR 0x0A])
    [''### Proposed solution'', ''Return 404'', ''### Acceptance criteria'', ''- Returns 404 for an unknown id''])"

definition an_issue :: "int \<Rightarrow> string list \<Rightarrow> normalized_issue" where
  "an_issue n inputs = \<lparr>ni_number = n, ni_title = ''A title'', ni_body = Some a_body, ni_state = Issue_open,
     ni_author = None, ni_labels = [], inputLabels = inputs, unknownInputLabels = [], ignoredLabels = [],
     observedMirrorLabels = [], isPullRequest = False, ni_url = [], ni_createdAt = 0, ni_updatedAt = 0\<rparr>"

definition a_row :: stored_work_order where
  "a_row = order_row ''w1'' a_repository (assemble a_generation (order_coordinates a_generation)) False 5"

text \<open>Which issues are waiting for an order, and what a tick then does to the rows.\<close>

definition wants_order :: "repository_row \<Rightarrow> stored_work_order list \<Rightarrow> normalized_issue \<Rightarrow> bool" where
  "wants_order repository rows i \<longleftrightarrow> ni_state i = Issue_open \<and> INPUT_READY \<in> set (inputLabels i) \<and>
     ni_number i \<notin> sw_issueNumber ` set (orders_of repository rows)"

lemma needs_iff: "needsBaseCommit issues (loadExisting repository rows) \<longleftrightarrow> list_ex (wants_order repository rows) issues"
proof -
  have "ex_issueNumber ` set (loadExisting repository rows) = sw_issueNumber ` set (orders_of repository rows)"
    by (simp add: loadExisting_def existing_order_def image_image)
  then show ?thesis by (simp add: needsBaseCommit_def wants_order_def[abs_def])
qed

lemma pass_rows:
  "snd (projectWorkOrders w repository timeout head issues (loadExisting repository rows) rows) =
    (case head of
       None \<Rightarrow> rows
     | Some sha \<Rightarrow>
         if list_ex (wants_order repository rows) issues
         then snd (project_each w
           \<lparr>pn_repository = repository, pn_wallClockTimeoutMinutes = timeout, pn_issues = issues,
            pn_existing = loadExisting repository rows, pn_baseCommit = sha\<rparr> issues no_result rows)
         else rows)"
  by (simp add: projectWorkOrders_def needs_iff project_orders_def Let_def case_prod_beta split: option.splits)

lemma known_ids:
  assumes "distinct (map sw_issueNumber (orders_of repository rows))" "distinct (map sw_id rows)"
    "r \<in> set (orders_of repository rows)" "known_order (loadExisting repository rows) n = Some e"
  shows "ex_id e = sw_id r \<longleftrightarrow> n = sw_issueNumber r"
proof -
  obtain s where s: "s \<in> set (orders_of repository rows)" "e = existing_order s" "sw_issueNumber s = n"
    using known_order_Some[OF assms(4)] by (auto simp: loadExisting_def existing_order_def)
  then have rows: "s \<in> set rows" "r \<in> set rows" using assms(3) by (simp_all add: orders_of_def)
  have "s = r" if "sw_id s = sw_id r"
    using distinct_map_eqD[OF assms(2) rows that] .
  moreover have "s = r" if "sw_issueNumber s = sw_issueNumber r"
    using distinct_map_eqD[OF assms(1) s(1) assms(3) that] .
  ultimately have "sw_id s = sw_id r \<longleftrightarrow> sw_issueNumber s = sw_issueNumber r" by metis
  with s show ?thesis by (simp add: existing_order_def)
qed

lemma row_stands:
  assumes "distinct (map sw_id rows)" "r \<in> set rows"
  shows "order_stands (sw_id r) (sw_status r) rows"
  using assms(2) distinct_map_eqD[OF assms(1) _ assms(2)] unfolding order_stands_def list_all_iff by fastforce

lemma pass_hold:
  assumes "distinct (map sw_issueNumber (orders_of repository rows))" "distinct (map sw_id rows)"
    "distinct (map ni_number issues)" "\<forall>x. ow_newId w x \<notin> sw_id ` set rows" "ow_writable w (sw_id r)"
    "r \<in> set (orders_of repository rows)" "sw_status r = WO_queued \<or> sw_status r = WO_held"
    "issue \<in> set issues" "ni_number issue = sw_issueNumber r" "pn_existing input = loadExisting repository rows"
  shows "order_stands (sw_id r) (if INPUT_HOLD \<in> set (inputLabels issue) then WO_held else WO_queued)
    (snd (project_each w input issues no_result rows))"
proof -
  have mine: "r \<in> set rows" using assms(6) by (simp add: orders_of_def)
  have e: "ex_id (existing_order r) = sw_id r" "ex_status (existing_order r) = sw_status r"
    by (simp_all add: existing_order_def)
  have "order_stands (ex_id (existing_order r)) (if INPUT_HOLD \<in> set (inputLabels issue) then WO_held else WO_queued)
      (snd (project_each w input issues no_result rows))"
  proof (rule project_each_hold)
    show "order_stands (ex_id (existing_order r)) (ex_status (existing_order r)) rows"
      unfolding e by (rule row_stands[OF assms(2) mine])
    show "ow_newId w x \<noteq> ex_id (existing_order r)" for x
      unfolding e using assms(4) mine by (metis image_eqI)
    show "ex_status (existing_order r) \<in> set HOLDABLE_STATUSES"
      unfolding e using assms(7) by (auto simp: HOLDABLE_STATUSES_def)
    show "ow_writable w (ex_id (existing_order r))" unfolding e by (rule assms(5))
    show "known_order (pn_existing input) (ni_number issue) = Some (existing_order r)"
      unfolding assms(9,10) by (rule known_row[OF assms(1,6)])
    show "ex_id i = ex_id (existing_order r) \<longleftrightarrow> ni_number j = ni_number issue"
      if "known_order (pn_existing input) (ni_number j) = Some i" for i j
      unfolding e assms(9) by (rule known_ids[OF assms(1,2,6) that[unfolded assms(10)]])
  qed (use assms(3,8) in simp_all)
  then show ?thesis unfolding e .
qed

lemma a_row_read: "rehydrateWorkOrder a_row = Inr (assemble a_generation (order_coordinates a_generation))"
  unfolding a_row_def by (rule rehydrate_row[OF a_generation_generates]) (simp_all add: a_repository_def a_generation_def)

lemma orders_are_written_once_witness:
  "distinct (map sw_identity (snd (projectWorkOrders a_world a_repository None (Some a_sha) [an_issue 312 [INPUT_READY]]
     (loadExisting a_repository []) [])))"
proof -
  have "order_step\<^sup>*\<^sup>* [] (snd (projectWorkOrders a_world a_repository None (Some a_sha) [an_issue 312 [INPUT_READY]]
     (loadExisting a_repository []) []))"
    using order_step.pass by blast
  from orders_are_written_once[OF rtranclp.rtrancl_refl this] show ?thesis by blast
qed

text \<open>a label \<open>factory:hold\<close> reaches a queued order, or lifts from a held one, in a pass that has a
  commit to pin new work to, which the tick only asks for when some other open, ready issue has no
  order yet; in any other tick the row stays as it is, label or no label.
\<close>

theorem hold_reaches_the_row:
  assumes "distinct (map sw_issueNumber (orders_of repository rows))" "distinct (map sw_id rows)"
    "distinct (map ni_number issues)" "\<forall>x. ow_newId w x \<notin> sw_id ` set rows" "ow_writable w (sw_id r)"
    "r \<in> set (orders_of repository rows)" "sw_status r = WO_queued \<or> sw_status r = WO_held"
    "issue \<in> set issues" "ni_number issue = sw_issueNumber r"
  shows "order_stands (sw_id r)
    (if head \<noteq> None \<and>
        (\<exists>i \<in> set issues. ni_state i = Issue_open \<and> INPUT_READY \<in> set (inputLabels i) \<and>
           ni_number i \<notin> sw_issueNumber ` set (orders_of repository rows))
     then if INPUT_HOLD \<in> set (inputLabels issue) then WO_held else WO_queued
     else sw_status r)
    (snd (projectWorkOrders w repository timeout head issues (loadExisting repository rows) rows))"
proof (cases head)
  case None
  then show ?thesis using assms(2,6) row_stands by (simp add: pass_rows orders_of_def)
next
  case (Some sha)
  have ex: "list_ex (wants_order repository rows) issues \<longleftrightarrow> (\<exists>i \<in> set issues. ni_state i = Issue_open \<and>
      INPUT_READY \<in> set (inputLabels i) \<and> ni_number i \<notin> sw_issueNumber ` set (orders_of repository rows))"
    by (simp add: list_ex_iff wants_order_def)
  show ?thesis
    using pass_hold[OF assms] row_stands[OF assms(2)] assms(6)
    unfolding pass_rows Some ex[symmetric] by (simp add: orders_of_def)
qed

lemma hold_reaches_the_row_witness:
  "order_stands ''w1'' WO_held (snd (projectWorkOrders a_world a_repository None (Some a_sha)
     [an_issue 312 [INPUT_READY, INPUT_HOLD], an_issue 313 [INPUT_READY]] (loadExisting a_repository [a_row]) [a_row])) \<and>
   order_stands ''w1'' WO_queued (snd (projectWorkOrders a_world a_repository None (Some a_sha)
     [an_issue 312 [INPUT_READY, INPUT_HOLD]] (loadExisting a_repository [a_row]) [a_row]))"
proof -
  have r: "sw_id a_row = ''w1''" "sw_status a_row = WO_queued" "sw_issueNumber a_row = 312"
    "rr_id (sw_repository a_row) = rr_id a_repository"
    by (simp_all add: a_row_def order_row_def assemble_def Let_def a_generation_def)
  then have o: "orders_of a_repository [a_row] = [a_row]" by (simp add: orders_of_def)
  have i: "ni_number (an_issue n ls) = n" "inputLabels (an_issue n ls) = ls" "ni_state (an_issue n ls) = Issue_open" for n ls
    by (simp_all add: an_issue_def)
  have w: "ow_newId a_world x \<noteq> ''w1''" "ow_writable a_world x" for x by (simp_all add: a_world_def)
  have h: "INPUT_HOLD \<in> set [INPUT_READY, INPUT_HOLD]" "INPUT_READY \<in> set [INPUT_READY]" by simp_all
  show ?thesis
    using hold_reaches_the_row[of a_repository "[a_row]" "[an_issue 312 [INPUT_READY, INPUT_HOLD], an_issue 313 [INPUT_READY]]"
        a_world a_row "an_issue 312 [INPUT_READY, INPUT_HOLD]" "Some a_sha" None]
      hold_reaches_the_row[of a_repository "[a_row]" "[an_issue 312 [INPUT_READY, INPUT_HOLD]]"
        a_world a_row "an_issue 312 [INPUT_READY, INPUT_HOLD]" "Some a_sha" None]
    by (simp add: r o i w h)
qed

end
