(* ===== verification/Run_Executor.thy ===== *)
theory Run_Executor
  imports Dispatch_Service Issue_Projection Budget
begin

text \<open>
  Work handed to a runner (\<open>dispatch/run-executor.service.ts\<close>, \<open>dispatch/dispatch-queue.service.ts\<close>,
  \<open>reconciler/execute/resume.executor.ts\<close>): the executor's dispatch of one work order and its resume of
  one parked run, the drain of the queue, and the tick's resumes behind the projection's intent. The
  state is the tables, what runners were handed, what is polled and whose records were written. What
  may throw outside this code (GitHub, the runner, a write) is a function of the world; the clock
  stands still during one call.
\<close>

section \<open>The state\<close>

record avoided_park_row =
  pk_runId :: string
  pk_occurredAt :: instant
  pk_chosenRunnerKey :: string
  pk_exhaustedRunnerKeys :: "string list"
  pk_resumesAt :: "instant option"
  pk_basis :: "(string \<times> quota_basis) list"

record exec_state =
  xs_orders :: "stored_work_order list"
  xs_tables :: dispatch_tables
  xs_parks :: "avoided_park_row list"
  xs_tracked :: "string list"
  xs_submitted :: "work_order_spec list" \<comment> \<open>what runners accepted\<close>
  xs_recorded :: "string list" \<comment> \<open>the run ids whose records were written\<close>
  xs_reported :: "string \<rightharpoonup> quota_basis"

text \<open>Only the runner throws \<open>RunnerAtCapacityError\<close>; of any other error the message is what counts.\<close>

datatype thrown = At_capacity string | Threw string

record exec_world =
  xw_collate :: "string \<Rightarrow> string \<Rightarrow> int"
  xw_settings :: dispatch_settings
  xw_enabled :: bool
  xw_autoResume :: bool
  xw_ceiling :: hard_ceiling
  xw_now :: instant
  xw_runId :: "string list \<Rightarrow> string" \<comment> \<open>\<open>randomUUID\<close>, given the ids in use\<close>
  xw_manifest :: runner_capabilities \<comment> \<open>what the runner says of itself\<close>
  xw_create :: "string \<Rightarrow> string option" \<comment> \<open>writing the run of an order\<close>
  xw_records :: "generated_work_order \<Rightarrow> string option"
  xw_submit :: "work_order_spec \<Rightarrow> thrown + string"
  xw_mark :: "string \<Rightarrow> string option" \<comment> \<open>the write of an order's status\<close>
  xw_open :: "string \<Rightarrow> string option" \<comment> \<open>the writes of a resumed attempt\<close>
  xw_deletable :: "string \<Rightarrow> bool"
  xw_iso :: "instant \<Rightarrow> string"

definition CLAUDE_CODE_LOCAL :: string where "CLAUDE_CODE_LOCAL = ''claude-code-local''"

definition runnerFor :: "string \<Rightarrow> bool" where
  "runnerFor key \<longleftrightarrow> key = CLAUDE_CODE_LOCAL"

definition toSpec :: "generated_work_order \<Rightarrow> string \<Rightarrow> work_order_spec" where
  "toSpec w runId =
    \<lparr>wos_identity = gw_identity w, wos_runId = runId,
     wos_repository = \<lparr>repo_owner = gw_repositoryOwner w, repo_name = gw_repositoryName w\<rparr>,
     baseCommit = gw_baseCommit w, branch = gw_branch w, taskSpec = gw_taskSpec w,
     acceptanceCriteria = gw_acceptanceCriteria w, pathConstraints = gw_pathConstraints w,
     wos_budgetCeilingUsd = gw_budgetCeilingUsd w, wallClockTimeoutMinutes = gw_wallClockTimeoutMinutes w,
     wos_needs = gw_needs w, wos_modelTier = gw_modelTier w\<rparr>"

definition avoidedParkRow :: "dispatch_decision \<Rightarrow> string \<Rightarrow> instant \<Rightarrow> avoided_park_row list" where
  "avoidedParkRow decision runId occurredAt =
    (case avoidedPark decision of
       None \<Rightarrow> []
     | Some park \<Rightarrow>
         let resets = sort (List.map_filter er_resumesAt (ap_exhausted park)) in
         [\<lparr>pk_runId = runId, pk_occurredAt = occurredAt, pk_chosenRunnerKey = chosenRunnerKey park,
           pk_exhaustedRunnerKeys = map er_runnerKey (ap_exhausted park),
           pk_resumesAt = (case resets of [] \<Rightarrow> None | t # _ \<Rightarrow> Some t),
           pk_basis = map (\<lambda>r. (er_runnerKey r, er_basis r)) (ap_exhausted park)\<rparr>])"

definition exec_store :: "exec_state \<Rightarrow> run_store" where
  "exec_store st = dt_store (xs_tables st)"

definition on_store :: "(run_store \<Rightarrow> run_store) \<Rightarrow> exec_state \<Rightarrow> exec_state" where
  "on_store f st = st\<lparr>xs_tables := (xs_tables st)\<lparr>dt_store := f (exec_store st)\<rparr>\<rparr>"

definition update_runs :: "(run_row \<Rightarrow> bool) \<Rightarrow> (run_row \<Rightarrow> run_row) \<Rightarrow> run_store \<Rightarrow> run_store" where
  "update_runs P f st = st\<lparr>runs := snd (update_many P f (runs st))\<rparr>"

section \<open>A dispatch\<close>

datatype exec_reason =
    From_routing decision_reason
  | No_implementation string
  | From_admission admission_reason
  | Dispatch_is_disabled string string string
  | Dispatched_to string string string
  | Message string

datatype exec_result =
    Ex_dispatched string string exec_reason
  | Ex_queued "queue_reason option" exec_reason
  | Ex_failed string exec_reason
  | Ex_observed "string option" exec_reason

fun refusal_reason :: "spend_refusal \<Rightarrow> queue_reason" where
  "refusal_reason No_ceiling_configured = No_hard_spend_ceiling_configured"
| "refusal_reason Ceiling_reached_refusal = Hard_spend_ceiling_reached"
| "refusal_reason Order_cannot_be_budgeted = Work_order_cannot_be_budgeted"

definition admission :: "exec_world \<Rightarrow> generated_work_order \<Rightarrow> exec_state \<Rightarrow> spend_verdict" where
  "admission w order st =
    decideSpendAdmission (xw_ceiling w) (tally (windowDays (xw_ceiling w)) (xw_now w) (exec_store st))
      \<lparr>ob_ceilingUsd = gw_budgetCeilingUsd order, runnerReportsCost = reportsCost (xw_manifest w)\<rparr>"

definition joined_order :: "stored_work_order \<Rightarrow> work_order_row" where
  "joined_order r =
    \<lparr>wo_identity = sw_identity r,
     wo_repository = rr_owner (sw_repository r) @ ''/'' @ rr_name (sw_repository r),
     wo_issueNumber = sw_issueNumber r, wo_branch = sw_branch r, wo_budgetCeilingUsd = sw_budgetCeilingUsd r\<rparr>"

definition capability_of :: "string \<Rightarrow> dispatch_tables \<Rightarrow> (streaming_fidelity \<times> rate_limit_signal) option" where
  "capability_of key tables =
    Option.bind (find (\<lambda>rn. rn_key rn = key) (dt_runners tables))
      (\<lambda>rn. map_option (\<lambda>cb. (cb_streamingFidelity cb, cb_rateLimitSignal cb)) (rn_capability rn))"

definition new_run :: "string \<Rightarrow> string \<Rightarrow> exec_world \<Rightarrow> stored_work_order \<Rightarrow> exec_state \<Rightarrow> run_row" where
  "new_run runId key w row st =
    \<lparr>run_id = runId, run_runnerKey = key, run_workOrder = joined_order row,
     run_capability = capability_of key (xs_tables st), run_status = Run_running,
     run_runnerVersion = rc_version (xw_manifest w), run_attemptCount = 1, run_startedAt = xw_now w,
     run_endedAt = None, run_lastEventAt = None, run_resumesAt = None, run_attentionReason = None,
     run_costUsd = None, run_tokensInput = None, run_tokensOutput = None, run_headCommit = None,
     run_pullRequestUrl = None, run_pullRequestNumber = None\<rparr>"

definition first_attempt :: "string \<Rightarrow> instant \<Rightarrow> attempt_row" where
  "first_attempt runId now =
    \<lparr>att_runId = runId, att_number = 1, att_outcome = Attempt_running, att_startedAt = now, att_endedAt = None,
     att_stopReason = None, att_blockedUntil = None, att_runnerRunId = None\<rparr>"

text \<open>The run, its first attempt and the park it avoided, in one write.\<close>

definition create_run ::
  "dispatch_decision \<Rightarrow> string \<Rightarrow> string \<Rightarrow> exec_world \<Rightarrow> stored_work_order \<Rightarrow> exec_state \<Rightarrow> exec_state" where
  "create_run decision runId key w row st =
    (on_store (\<lambda>s. s\<lparr>runs := runs s @ [new_run runId key w row st],
                    attempts := attempts s @ [first_attempt runId (xw_now w)]\<rparr>) st)
      \<lparr>xs_parks := xs_parks st @ avoidedParkRow decision runId (xw_now w)\<rparr>"

definition fail_run :: "string \<Rightarrow> string \<Rightarrow> instant \<Rightarrow> run_store \<Rightarrow> run_store" where
  "fail_run runId message now =
    update_runs (\<lambda>r. run_id r = runId \<and> run_status r = Run_running)
      (\<lambda>r. r\<lparr>run_status := Run_failed, run_endedAt := Some now, run_attentionReason := Some message\<rparr>)"

text \<open>The rows of a run go with it.\<close>

definition delete_run :: "string \<Rightarrow> exec_state \<Rightarrow> exec_state" where
  "delete_run runId st =
    (on_store (\<lambda>s. s\<lparr>runs := filter (\<lambda>r. run_id r \<noteq> runId) (runs s),
                    events := filter (\<lambda>e. ev_runId e \<noteq> runId) (events s),
                    attempts := filter (\<lambda>a. att_runId a \<noteq> runId) (attempts s)\<rparr>) st)
      \<lparr>xs_parks := filter (\<lambda>p. pk_runId p \<noteq> runId) (xs_parks st)\<rparr>"

definition recover :: "exec_world \<Rightarrow> string \<Rightarrow> thrown \<Rightarrow> exec_state \<Rightarrow> exec_result \<times> exec_state" where
  "recover w runId err st =
    (case err of
       At_capacity message \<Rightarrow>
         (Ex_queued (Some Capable_runners_are_at_capacity) (Message message),
          if xw_deletable w runId then delete_run runId st else st)
     | Threw message \<Rightarrow> (Ex_failed runId (Message message), on_store (fail_run runId message (xw_now w)) st))"

definition mark_order :: "string \<Rightarrow> work_order_status \<Rightarrow> stored_work_order list \<Rightarrow> stored_work_order list" where
  "mark_order oid status rows = map (\<lambda>r. if sw_id r = oid then r\<lparr>sw_status := status\<rparr> else r) rows"

text \<open>What happens once the run exists: the records, the runner, the poller, the order's status.\<close>

definition start_run ::
  "exec_world \<Rightarrow> generated_work_order \<Rightarrow> string \<Rightarrow> string \<Rightarrow> string \<Rightarrow> exec_state \<Rightarrow> exec_result \<times> exec_state" where
  "start_run w order oid key runId st =
    (case xw_records w order of
       Some message \<Rightarrow> recover w runId (Threw message) st
     | None \<Rightarrow>
         let st1 = st\<lparr>xs_recorded := xs_recorded st @ [runId]\<rparr> in
         (case xw_submit w (toSpec order runId) of
            Inl err \<Rightarrow> recover w runId err st1
          | Inr handle \<Rightarrow>
              let st2 = st1\<lparr>xs_submitted := xs_submitted st1 @ [toSpec order runId], xs_tracked := xs_tracked st1 @ [runId]\<rparr> in
              (case xw_mark w oid of
                 Some message \<Rightarrow> recover w runId (Threw message) st2
               | None \<Rightarrow>
                   (Ex_dispatched runId key (Dispatched_to (gw_identity order) key runId),
                    st2\<lparr>xs_orders := mark_order oid WO_dispatched (xs_orders st2)\<rparr>))))"

text \<open>No result is an exception that left the function: before the run exists nothing catches it.\<close>

definition dispatchWorkOrder ::
  "exec_world \<Rightarrow> generated_work_order \<Rightarrow> string \<Rightarrow> exec_state \<Rightarrow> exec_result option \<times> exec_state" where
  "dispatchWorkOrder w order oid st =
    (let (decision, reported) = decide_dispatch (xw_collate w) (xw_settings w)
           \<lparr>needs = gw_needs order, modelTier = gw_modelTier order\<rparr> (xw_now w) (xs_tables st) (xs_reported st);
         st = st\<lparr>xs_reported := reported\<rparr>
     in if outcome decision = Queued
        then (Some (Ex_queued (queueReason decision) (From_routing (dd_reason decision))), st)
        else
          (case dd_runnerKey decision of
             None \<Rightarrow> (Some (Ex_queued (queueReason decision) (From_routing (dd_reason decision))), st)
           | Some key \<Rightarrow>
               if \<not> runnerFor key then (Some (Ex_queued None (No_implementation key)), st)
               else
                 (case admission w order st of
                    Refuse refusal why \<Rightarrow> (Some (Ex_queued (Some (refusal_reason refusal)) (From_admission why)), st)
                  | Admit slack why \<Rightarrow>
                      if \<not> xw_enabled w
                      then (Some (Ex_observed (Some key)
                        (Dispatch_is_disabled (gw_identity order) key (rc_version (xw_manifest w)))), st)
                      else
                        (case (xw_create w oid, find (\<lambda>r. sw_id r = oid) (xs_orders st)) of
                           (None, Some row) \<Rightarrow>
                             let runId = xw_runId w (map run_id (runs (exec_store st)));
                                 (result, st') = start_run w order oid key runId (create_run decision runId key w row st)
                             in (Some result, st')
                         | _ \<Rightarrow> (None, st)))))"

section \<open>The queue\<close>

definition DISPATCH_BATCH_SIZE :: nat where "DISPATCH_BATCH_SIZE = 25"

record drain_result =
  dr_dispatched :: nat
  dr_stillQueued :: nat
  dr_observed :: nat
  dr_failed :: nat
  dr_unrebuildable :: nat
  dr_repositoriesDisabled :: nat

definition nothing_drained :: drain_result where
  "nothing_drained = \<lparr>dr_dispatched = 0, dr_stillQueued = 0, dr_observed = 0, dr_failed = 0,
     dr_unrebuildable = 0, dr_repositoriesDisabled = 0\<rparr>"

text \<open>\<open>orderBy queuedAt asc\<close>, with the rows without a time last.\<close>

definition by_queue_time :: "stored_work_order \<Rightarrow> stored_work_order \<Rightarrow> int" where
  "by_queue_time a b =
    (case (sw_queuedAt a, sw_queuedAt b) of
       (None, None) \<Rightarrow> 0 | (None, Some _) \<Rightarrow> 1 | (Some _, None) \<Rightarrow> -1 | (Some s, Some t) \<Rightarrow> s - t)"

definition due_orders :: "stored_work_order list \<Rightarrow> stored_work_order list" where
  "due_orders rows = take DISPATCH_BATCH_SIZE (js_sort by_queue_time (filter (\<lambda>r. sw_status r = WO_queued) rows))"

fun count_execution :: "exec_result \<Rightarrow> drain_result \<Rightarrow> drain_result" where
  "count_execution (Ex_dispatched r k why) res = res\<lparr>dr_dispatched := dr_dispatched res + 1\<rparr>"
| "count_execution (Ex_queued q why) res = res\<lparr>dr_stillQueued := dr_stillQueued res + 1\<rparr>"
| "count_execution (Ex_observed k why) res = res\<lparr>dr_observed := dr_observed res + 1\<rparr>"
| "count_execution (Ex_failed r why) res = res\<lparr>dr_failed := dr_failed res + 1\<rparr>"

text \<open>The text of a rehydration error is a parameter of the row it is stored on.\<close>

definition quarantine ::
  "exec_world \<Rightarrow> (rehydration_error \<Rightarrow> string) \<Rightarrow> stored_work_order \<Rightarrow> rehydration_error \<Rightarrow> drain_result \<Rightarrow> exec_state \<Rightarrow>
   drain_result \<times> exec_state" where
  "quarantine w say row why res st =
    (let counted = res\<lparr>dr_unrebuildable := dr_unrebuildable res + 1\<rparr> in
     if xw_mark w (sw_id row) \<noteq> None then (counted\<lparr>dr_failed := dr_failed counted + 1\<rparr>, st)
     else (counted, st\<lparr>xs_orders := map (\<lambda>r. if sw_id r = sw_id row
             then r\<lparr>sw_status := WO_quarantined, sw_holdReason := Some (say why)\<rparr> else r) (xs_orders st)\<rparr>))"

text \<open>With the handler around it: whatever is thrown is counted as failed.\<close>

definition dispatchOne ::
  "exec_world \<Rightarrow> (rehydration_error \<Rightarrow> string) \<Rightarrow> stored_work_order \<Rightarrow> drain_result \<times> exec_state \<Rightarrow> drain_result \<times> exec_state" where
  "dispatchOne w say row acc =
    (let (res, st) = acc in
     if \<not> rr_dispatchEnabled (sw_repository row)
     then (res\<lparr>dr_repositoriesDisabled := dr_repositoriesDisabled res + 1\<rparr>, st)
     else
       (case rehydrateWorkOrder row of
          Inl (Bad_coordinates e) \<Rightarrow> (res\<lparr>dr_failed := dr_failed res + 1\<rparr>, st)
        | Inl why \<Rightarrow> quarantine w say row why res st
        | Inr order \<Rightarrow>
            (case dispatchWorkOrder w order (sw_id row) st of
               (None, st') \<Rightarrow> (res\<lparr>dr_failed := dr_failed res + 1\<rparr>, st')
             | (Some result, st') \<Rightarrow> (count_execution result res, st'))))"

definition drain ::
  "exec_world \<Rightarrow> (rehydration_error \<Rightarrow> string) \<Rightarrow> exec_state \<Rightarrow> drain_result \<times> exec_state" where
  "drain w say st = fold (dispatchOne w say) (due_orders (xs_orders st)) (nothing_drained, st)"

section \<open>A resume\<close>

datatype resume_refusal =
    Auto_resume_disabled
  | Not_parked "run_status option"
  | Held_or_not_dispatched string work_order_status
  | Repository_dispatch_disabled string string
  | Repository_budget_reached usd usd
  | Work_order_unrebuildable rehydration_error
  | Runner_unavailable string
  | Spend_refused spend_refusal admission_reason
  | Runner_at_capacity string
  | Stopped_being_parked

datatype resume_result =
    Rs_resumed string string nat
  | Rs_refused resume_refusal
  | Rs_observed string
  | Rs_failed string string

definition claim_park :: "string \<Rightarrow> nat \<Rightarrow> run_store \<Rightarrow> nat \<times> run_store" where
  "claim_park runId attempt s =
    (let (n, rows) = update_many (\<lambda>r. run_id r = runId \<and> run_status r = Run_blocked)
           (\<lambda>r. r\<lparr>run_status := Run_running, run_resumesAt := None, run_attemptCount := attempt\<rparr>) (runs s)
     in (n, s\<lparr>runs := rows\<rparr>))"

definition stop_text :: "(instant \<Rightarrow> string) \<Rightarrow> event_row option \<Rightarrow> string" where
  "stop_text render block =
    ''parked on '' @ [CHR 0x27] @ get_or ''an unreported reason'' (Option.bind block ev_blockedReason) @ [CHR 0x27]
      @ (case Option.bind block ev_blockedUntil of None \<Rightarrow> '' with no reset time'' | Some t \<Rightarrow> '' until '' @ render t)"

text \<open>The second write violates the key \<open>(runId, number)\<close> when the number is taken.\<close>

definition openResumedAttempt ::
  "exec_world \<Rightarrow> string \<Rightarrow> event_row option \<Rightarrow> nat \<Rightarrow> string \<Rightarrow> run_store \<Rightarrow> string option \<times> run_store" where
  "openResumedAttempt w runId block attempt handle s =
    (case xw_open w runId of
       Some message \<Rightarrow> (Some message, s)
     | None \<Rightarrow>
         let closed = snd (update_many (\<lambda>a. att_runId a = runId \<and> att_outcome a = Attempt_running)
               (\<lambda>a. a\<lparr>att_outcome := Attempt_blocked, att_endedAt := Some (xw_now w),
                      att_stopReason := Some (stop_text (xw_iso w) block),
                      att_blockedUntil := Option.bind block ev_blockedUntil\<rparr>) (attempts s))
         in if list_ex (\<lambda>a. att_runId a = runId \<and> att_number a = attempt) closed
            then (Some ''Unique constraint failed'', s\<lparr>attempts := closed\<rparr>)
            else (None, s\<lparr>attempts := closed @
              [\<lparr>att_runId = runId, att_number = attempt, att_outcome = Attempt_running, att_startedAt = xw_now w,
                att_endedAt = None, att_stopReason = None, att_blockedUntil = None,
                att_runnerRunId = Some handle\<rparr>]\<rparr>))"

definition recoverResume ::
  "exec_world \<Rightarrow> string \<Rightarrow> nat \<Rightarrow> thrown \<Rightarrow> exec_state \<Rightarrow> resume_result \<times> exec_state" where
  "recoverResume w runId previous err st =
    (case err of
       At_capacity message \<Rightarrow>
         (Rs_refused (Runner_at_capacity message),
          on_store (update_runs (\<lambda>r. run_id r = runId \<and> run_status r = Run_running)
            (\<lambda>r. r\<lparr>run_status := Run_blocked, run_attemptCount := previous\<rparr>)) st)
     | Threw message \<Rightarrow> (Rs_failed runId message, on_store (fail_run runId message (xw_now w)) st))"

text \<open>From the claim on.\<close>

definition re_invoke :: "exec_world \<Rightarrow> generated_work_order \<Rightarrow> run_row \<Rightarrow> exec_state \<Rightarrow> resume_result \<times> exec_state" where
  "re_invoke w order run st =
    (let attempt = max (run_attemptCount run) 1 + 1;
         (claimed, s) = claim_park (run_id run) attempt (exec_store st)
     in if claimed = 0 then (Rs_refused Stopped_being_parked, st)
        else
          let st1 = on_store (\<lambda>_. s) st in
          (case xw_submit w (toSpec order (run_id run)) of
             Inl err \<Rightarrow> recoverResume w (run_id run) (run_attemptCount run) err st1
           | Inr handle \<Rightarrow>
               let st2 = st1\<lparr>xs_submitted := xs_submitted st1 @ [toSpec order (run_id run)]\<rparr>;
                   block = newest_event (run_id run) (\<lambda>e. ev_type e = ''run_blocked'') (exec_store st);
                   (threw, s2) = openResumedAttempt w (run_id run) block attempt handle (exec_store st2);
                   st3 = on_store (\<lambda>_. s2) st2
               in (case threw of
                     Some message \<Rightarrow> recoverResume w (run_id run) (run_attemptCount run) (Threw message) st3
                   | None \<Rightarrow> (Rs_resumed (run_id run) (run_runnerKey run) attempt,
                       st3\<lparr>xs_tracked := xs_tracked st3 @ [run_id run]\<rparr>))))"

definition over_repository_budget :: "run_row \<Rightarrow> repository_row \<Rightarrow> (usd \<times> usd) option" where
  "over_repository_budget run repository =
    (case (rr_budgetCeilingUsd repository, run_costUsd run) of
       (Some cap, Some spent) \<Rightarrow> if spent \<ge> cap then Some (spent, cap) else None
     | _ \<Rightarrow> None)"

definition resumeParkedRun :: "exec_world \<Rightarrow> string \<Rightarrow> exec_state \<Rightarrow> resume_result option \<times> exec_state" where
  "resumeParkedRun w runId st =
    (if \<not> xw_autoResume w then (Some (Rs_refused Auto_resume_disabled), st)
     else
       (case find (\<lambda>r. run_id r = runId) (runs (exec_store st)) of
          None \<Rightarrow> (Some (Rs_refused (Not_parked None)), st)
        | Some run \<Rightarrow>
            if run_status run \<noteq> Run_blocked then (Some (Rs_refused (Not_parked (Some (run_status run)))), st)
            else
              (case find (\<lambda>o'. sw_identity o' = wo_identity (run_workOrder run)) (xs_orders st) of
                 None \<Rightarrow> (None, st)
               | Some row \<Rightarrow>
                   let repository = sw_repository row in
                   if sw_status row \<noteq> WO_dispatched
                   then (Some (Rs_refused (Held_or_not_dispatched (sw_identity row) (sw_status row))), st)
                   else if \<not> rr_dispatchEnabled repository
                   then (Some (Rs_refused (Repository_dispatch_disabled (rr_owner repository) (rr_name repository))), st)
                   else
                     (case over_repository_budget run repository of
                        Some (spent, cap) \<Rightarrow> (Some (Rs_refused (Repository_budget_reached spent cap)), st)
                      | None \<Rightarrow>
                          (case rehydrateWorkOrder row of
                             Inl (Bad_coordinates e) \<Rightarrow> (None, st)
                           | Inl why \<Rightarrow> (Some (Rs_refused (Work_order_unrebuildable why)), st)
                           | Inr order \<Rightarrow>
                               if \<not> runnerFor (run_runnerKey run)
                               then (Some (Rs_refused (Runner_unavailable (run_runnerKey run))), st)
                               else
                                 (case admission w order st of
                                    Refuse refusal why \<Rightarrow> (Some (Rs_refused (Spend_refused refusal why)), st)
                                  | Admit slack why \<Rightarrow>
                                      if \<not> xw_enabled w then (Some (Rs_observed (sw_identity row)), st)
                                      else let (result, st') = re_invoke w order run st in (Some result, st')))))))"

section \<open>The resumes of a tick\<close>

datatype resume_failure = No_run_id | Resume_failed_with string | Resume_threw

record resume_outcome =
  ro_resumed :: nat
  ro_refused :: nat
  ro_observed :: nat
  ro_unobserved :: nat
  ro_failures :: "(reconcile_action \<times> resume_failure) list"

definition no_resumes :: resume_outcome where
  "no_resumes = \<lparr>ro_resumed = 0, ro_refused = 0, ro_observed = 0, ro_unobserved = 0, ro_failures = []\<rparr>"

text \<open>The key \<open>repository#issue\<close> as the pair it renders.\<close>

definition intentsByIssue :: "desired_state list \<Rightarrow> (string \<times> int \<rightharpoonup> issue_intent)" where
  "intentsByIssue projections =
    map_of (rev (concat (map (\<lambda>p. map (\<lambda>i. ((ds_repository p, ds_issueNumber i), ds_intent i)) (ds_issues p)) projections)))"

fun count_resume :: "reconcile_action \<Rightarrow> resume_result option \<Rightarrow> resume_outcome \<Rightarrow> resume_outcome" where
  "count_resume a None out = out\<lparr>ro_failures := ro_failures out @ [(a, Resume_threw)]\<rparr>"
| "count_resume a (Some (Rs_resumed r k n)) out = out\<lparr>ro_resumed := ro_resumed out + 1\<rparr>"
| "count_resume a (Some (Rs_observed i)) out = out\<lparr>ro_observed := ro_observed out + 1\<rparr>"
| "count_resume a (Some (Rs_refused why)) out = out\<lparr>ro_refused := ro_refused out + 1\<rparr>"
| "count_resume a (Some (Rs_failed r why)) out = out\<lparr>ro_failures := ro_failures out @ [(a, Resume_failed_with why)]\<rparr>"

definition resume_one ::
  "exec_world \<Rightarrow> (string \<times> int \<rightharpoonup> issue_intent) \<Rightarrow> reconcile_action \<Rightarrow> resume_outcome \<times> exec_state \<Rightarrow>
   resume_outcome \<times> exec_state" where
  "resume_one w intents a acc =
    (let (out, st) = acc in
     if act_type a \<noteq> Act_resume then (out, st)
     else
       (case act_runId a of
          None \<Rightarrow> (out\<lparr>ro_failures := ro_failures out @ [(a, No_run_id)]\<rparr>, st)
        | Some runId \<Rightarrow>
            if runId = [] then (out\<lparr>ro_failures := ro_failures out @ [(a, No_run_id)]\<rparr>, st)
            else
              (case intents (act_repository a, act_issueNumber a) of
                 None \<Rightarrow> (out\<lparr>ro_unobserved := ro_unobserved out + 1\<rparr>, st)
               | Some i \<Rightarrow>
                   if i \<noteq> Intent_blocked then (out\<lparr>ro_refused := ro_refused out + 1\<rparr>, st)
                   else let (result, st') = resumeParkedRun w runId st in (count_resume a result out, st'))))"

definition execute_resumes ::
  "exec_world \<Rightarrow> reconcile_action list \<Rightarrow> desired_state list \<Rightarrow> exec_state \<Rightarrow> resume_outcome \<times> exec_state" where
  "execute_resumes w actions projections st =
    fold (resume_one w (intentsByIssue projections)) actions (no_resumes, st)"

end
