(* ===== verification/Run_Executor_Properties.thy ===== *)
theory Run_Executor_Properties
  imports Run_Executor Budget_Properties Work_Order_Properties "HOL-Library.Sublist"
begin

text \<open>
  What is promised where work meets money: nothing is submitted that did not pass every gate, a drain
  keeps the ledger within the ceiling, what a dispatch leaves in the tables for each of its outcomes,
  and a parked run is resumed only behind the projection's word and every gate of a dispatch.
\<close>

section \<open>Lemmas\<close>

subsection \<open>The parts of the state\<close>

lemma exec_store_simps [simp]:
  "exec_store (on_store f st) = f (exec_store st)"
  "exec_store (st\<lparr>xs_reported := rep\<rparr>) = exec_store st"
  "exec_store (st\<lparr>xs_parks := ps\<rparr>) = exec_store st"
  "exec_store (st\<lparr>xs_recorded := rs\<rparr>) = exec_store st"
  "exec_store (st\<lparr>xs_tracked := ts\<rparr>) = exec_store st"
  "exec_store (st\<lparr>xs_submitted := ss\<rparr>) = exec_store st"
  "exec_store (st\<lparr>xs_submitted := ss, xs_tracked := ts\<rparr>) = exec_store st"
  "exec_store (st\<lparr>xs_orders := os\<rparr>) = exec_store st"
  by (simp_all add: exec_store_def on_store_def)

lemma on_store_simps [simp]:
  "xs_orders (on_store f st) = xs_orders st" "xs_submitted (on_store f st) = xs_submitted st"
  "xs_tracked (on_store f st) = xs_tracked st" "xs_recorded (on_store f st) = xs_recorded st"
  "xs_parks (on_store f st) = xs_parks st"
  by (simp_all add: on_store_def)

lemma create_run_simps [simp]:
  "runs (exec_store (create_run decision runId key w row st)) = runs (exec_store st) @ [new_run runId key w row st]"
  "attempts (exec_store (create_run decision runId key w row st)) = attempts (exec_store st) @ [first_attempt runId (xw_now w)]"
  "xs_orders (create_run decision runId key w row st) = xs_orders st"
  "xs_submitted (create_run decision runId key w row st) = xs_submitted st"
  "xs_tracked (create_run decision runId key w row st) = xs_tracked st"
  "xs_recorded (create_run decision runId key w row st) = xs_recorded st"
  by (simp_all add: create_run_def)

lemma delete_run_simps [simp]:
  "runs (exec_store (delete_run runId st)) = filter (\<lambda>r. run_id r \<noteq> runId) (runs (exec_store st))"
  "xs_orders (delete_run runId st) = xs_orders st" "xs_submitted (delete_run runId st) = xs_submitted st"
  "xs_tracked (delete_run runId st) = xs_tracked st" "xs_recorded (delete_run runId st) = xs_recorded st"
  by (simp_all add: delete_run_def)

lemma fail_run_simps [simp]:
  "runs (fail_run runId message now s) = map (\<lambda>r. if run_id r = runId \<and> run_status r = Run_running
     then r\<lparr>run_status := Run_failed, run_endedAt := Some now, run_attentionReason := Some message\<rparr> else r) (runs s)"
  "attempts (fail_run runId message now s) = attempts s"
  by (simp_all add: fail_run_def update_runs_def)

lemma new_run_sel [simp]:
  "run_id (new_run runId key w row st) = runId" "run_status (new_run runId key w row st) = Run_running"
  "run_costUsd (new_run runId key w row st) = None" "run_workOrder (new_run runId key w row st) = joined_order row"
  "run_startedAt (new_run runId key w row st) = xw_now w" "run_runnerKey (new_run runId key w row st) = key"
  by (simp_all add: new_run_def)

subsection \<open>A dispatch\<close>

text \<open>The gates, in the order they are asked, and the run's row and id they lead to.\<close>

definition dispatch_gates ::
  "exec_world \<Rightarrow> generated_work_order \<Rightarrow> string \<Rightarrow> exec_state \<Rightarrow> dispatch_decision \<Rightarrow> stored_work_order \<Rightarrow> bool" where
  "dispatch_gates w order oid st decision row \<longleftrightarrow>
    decision = fst (decide_dispatch (xw_collate w) (xw_settings w)
      \<lparr>needs = gw_needs order, modelTier = gw_modelTier order\<rparr> (xw_now w) (xs_tables st) (xs_reported st)) \<and>
    outcome decision = Dispatched \<and> dd_runnerKey decision = Some CLAUDE_CODE_LOCAL \<and>
    (\<exists>slack why. admission w order st = Admit slack why) \<and> xw_enabled w \<and> xw_create w oid = None \<and>
    find (\<lambda>r. sw_id r = oid) (xs_orders st) = Some row"

definition fresh_run :: "exec_world \<Rightarrow> exec_state \<Rightarrow> string" where
  "fresh_run w st = xw_runId w (map run_id (runs (exec_store st)))"

lemma admission_store [simp]: "admission w order (st\<lparr>xs_reported := rep\<rparr>) = admission w order st"
  by (simp add: admission_def)

lemma not_Queued: "q \<noteq> Queued \<longleftrightarrow> q = Dispatched"
  by (cases q) simp_all

lemma dispatch_cases:
  assumes "dispatchWorkOrder w order oid st = (res, st')"
  obtains (kept) rep where "st' = st\<lparr>xs_reported := rep\<rparr>"
      "\<And>r k why. res \<noteq> Some (Ex_dispatched r k why)" "\<And>r why. res \<noteq> Some (Ex_failed r why)"
  | (started) decision row rep result where "dispatch_gates w order oid st decision row" "res = Some result"
      "start_run w order oid CLAUDE_CODE_LOCAL (fresh_run w st)
         (create_run decision (fresh_run w st) CLAUDE_CODE_LOCAL w row (st\<lparr>xs_reported := rep\<rparr>)) = (result, st')"
proof -
  obtain decision rep where d: "decide_dispatch (xw_collate w) (xw_settings w)
      \<lparr>needs = gw_needs order, modelTier = gw_modelTier order\<rparr> (xw_now w) (xs_tables st) (xs_reported st) = (decision, rep)"
    by fastforce
  show thesis
  proof (cases "outcome decision = Dispatched \<and> dd_runnerKey decision = Some CLAUDE_CODE_LOCAL \<and>
      (\<exists>slack why. admission w order st = Admit slack why) \<and> xw_enabled w \<and> xw_create w oid = None \<and>
      (\<exists>row. find (\<lambda>r. sw_id r = oid) (xs_orders st) = Some row)")
    case True
    then obtain slack why row where t: "outcome decision = Dispatched" "dd_runnerKey decision = Some CLAUDE_CODE_LOCAL"
      "admission w order st = Admit slack why" "xw_enabled w" "xw_create w oid = None"
      "find (\<lambda>r. sw_id r = oid) (xs_orders st) = Some row" by blast
    have gates: "dispatch_gates w order oid st decision row"
      using t d by (simp add: dispatch_gates_def)
    obtain result st1 where s: "start_run w order oid CLAUDE_CODE_LOCAL (fresh_run w st)
        (create_run decision (fresh_run w st) CLAUDE_CODE_LOCAL w row (st\<lparr>xs_reported := rep\<rparr>)) = (result, st1)"
      by fastforce
    from assms have "res = Some result" "st' = st1"
      using t s by (auto simp: dispatchWorkOrder_def d runnerFor_def fresh_run_def)
    with gates s show thesis by (intro started) auto
  next
    case False
    with assms show thesis
      by (intro kept) (auto simp: dispatchWorkOrder_def d runnerFor_def not_Queued Let_def
          split: if_splits option.splits spend_verdict.splits)
  qed
qed

lemma map_if_fresh: "(\<And>r. r \<in> set rs \<Longrightarrow> \<not> P r) \<Longrightarrow> map (\<lambda>r. if P r then f r else r) rs = rs"
  by (rule map_idI) simp

text \<open>A failed run.\<close>

definition failed_run :: "run_row \<Rightarrow> string \<Rightarrow> instant \<Rightarrow> run_row" where
  "failed_run r message now =
    r\<lparr>run_status := Run_failed, run_endedAt := Some now, run_attentionReason := Some message\<rparr>"

text \<open>What starting a run leaves, by outcome, from a state whose last run is the new one.\<close>

lemma start_run_result:
  assumes "start_run w order oid key runId st = (result, st')" "runs (exec_store st) = rs @ [run]"
    "run_id run = runId" "run_status run = Run_running" "runId \<notin> run_id ` set rs"
  obtains (accepted) "result = Ex_dispatched runId key (Dispatched_to (gw_identity order) key runId)"
      "runs (exec_store st') = rs @ [run]" "attempts (exec_store st') = attempts (exec_store st)"
      "xs_orders st' = mark_order oid WO_dispatched (xs_orders st)"
      "xs_submitted st' = xs_submitted st @ [toSpec order runId]" "xs_tracked st' = xs_tracked st @ [runId]"
      "xs_recorded st' = xs_recorded st @ [runId]"
  | (failed) message where "result = Ex_failed runId (Message message)"
      "runs (exec_store st') = rs @ [failed_run run message (xw_now w)]"
      "attempts (exec_store st') = attempts (exec_store st)" "xs_orders st' = xs_orders st"
      "xs_submitted st' = xs_submitted st @ (if xs_submitted st' = xs_submitted st then [] else [toSpec order runId])"
      "xs_submitted st' = xs_submitted st \<or> xs_recorded st' = xs_recorded st @ [runId]"
  | (refused) message where "result = Ex_queued (Some Capable_runners_are_at_capacity) (Message message)"
      "runs (exec_store st') = rs \<or> runs (exec_store st') = rs @ [run] \<and> \<not> xw_deletable w runId"
      "xs_orders st' = xs_orders st" "xs_submitted st' = xs_submitted st"
proof -
  have keep: "map (\<lambda>r. if run_id r = runId \<and> run_status r = Run_running
      then r\<lparr>run_status := Run_failed, run_endedAt := Some (xw_now w), run_attentionReason := Some message\<rparr> else r) rs = rs" for message
    using assms(5) by (intro map_if_fresh) auto
  have gone: "filter (\<lambda>r. run_id r \<noteq> runId) rs = rs"
    using assms(5) by (auto simp: filter_id_conv)
  note parts = start_run_def recover_def Let_def
  show thesis
  proof (cases "xw_records w order")
    case (Some message)
    with assms keep show thesis by (intro failed[of message]) (auto simp: parts failed_run_def)
  next
    case None
    show thesis
    proof (cases "xw_submit w (toSpec order runId)")
      case (Inl err)
      show thesis
      proof (cases err)
        case (At_capacity message)
        with Inl None assms gone show thesis by (intro refused[of message]) (auto simp: parts split: if_splits)
      next
        case (Threw message)
        with Inl None assms keep show thesis by (intro failed[of message]) (auto simp: parts failed_run_def)
      qed
    next
      case (Inr handle)
      show thesis
      proof (cases "xw_mark w oid")
        case None
        with Inr \<open>xw_records w order = None\<close> assms show thesis by (intro accepted) (auto simp: parts)
      next
        case (Some message)
        with Inr \<open>xw_records w order = None\<close> assms keep show thesis
          by (intro failed[of message]) (auto simp: parts failed_run_def)
      qed
    qed
  qed
qed


lemma dispatch_effect:
  assumes "dispatchWorkOrder w order oid st = (res, st')" "fresh_run w st \<notin> run_id ` set (runs (exec_store st))"
  obtains (kept) rep where "st' = st\<lparr>xs_reported := rep\<rparr>"
      "\<And>r k why. res \<noteq> Some (Ex_dispatched r k why)" "\<And>r why. res \<noteq> Some (Ex_failed r why)"
  | (dispatched) decision row run where "dispatch_gates w order oid st decision row"
      "res = Some (Ex_dispatched (fresh_run w st) CLAUDE_CODE_LOCAL (Dispatched_to (gw_identity order) CLAUDE_CODE_LOCAL (fresh_run w st)))"
      "run = new_run (fresh_run w st) CLAUDE_CODE_LOCAL w row st" "runs (exec_store st') = runs (exec_store st) @ [run]"
      "attempts (exec_store st') = attempts (exec_store st) @ [first_attempt (fresh_run w st) (xw_now w)]"
      "xs_orders st' = mark_order oid WO_dispatched (xs_orders st)"
      "xs_submitted st' = xs_submitted st @ [toSpec order (fresh_run w st)]"
      "xs_tracked st' = xs_tracked st @ [fresh_run w st]" "xs_recorded st' = xs_recorded st @ [fresh_run w st]"
  | (failed) decision row run message where "dispatch_gates w order oid st decision row"
      "res = Some (Ex_failed (fresh_run w st) (Message message))"
      "run = new_run (fresh_run w st) CLAUDE_CODE_LOCAL w row st"
      "runs (exec_store st') = runs (exec_store st) @ [failed_run run message (xw_now w)]"
      "attempts (exec_store st') = attempts (exec_store st) @ [first_attempt (fresh_run w st) (xw_now w)]"
      "xs_orders st' = xs_orders st"
      "xs_submitted st' = xs_submitted st \<or>
       xs_submitted st' = xs_submitted st @ [toSpec order (fresh_run w st)] \<and> xs_recorded st' = xs_recorded st @ [fresh_run w st]"
  | (refused) decision row run message where "dispatch_gates w order oid st decision row"
      "res = Some (Ex_queued (Some Capable_runners_are_at_capacity) (Message message))"
      "run = new_run (fresh_run w st) CLAUDE_CODE_LOCAL w row st"
      "runs (exec_store st') = runs (exec_store st) \<or>
       runs (exec_store st') = runs (exec_store st) @ [run] \<and> \<not> xw_deletable w (fresh_run w st)"
      "xs_orders st' = xs_orders st" "xs_submitted st' = xs_submitted st"
  using assms(1)
proof (cases rule: dispatch_cases)
  case (kept rep)
  then show thesis using that(1) by blast
next
  case (started decision row rep result)
  have same: "new_run (fresh_run w st) CLAUDE_CODE_LOCAL w row (st\<lparr>xs_reported := rep\<rparr>) =
      new_run (fresh_run w st) CLAUDE_CODE_LOCAL w row st"
    by (simp add: new_run_def)
  let ?run = "new_run (fresh_run w st) CLAUDE_CODE_LOCAL w row st"
  let ?st = "create_run decision (fresh_run w st) CLAUDE_CODE_LOCAL w row (st\<lparr>xs_reported := rep\<rparr>)"
  have rows: "runs (exec_store ?st) = runs (exec_store st) @ [?run]" by (simp add: same)
  show thesis
  proof (rule start_run_result[OF started(3) rows new_run_sel(1,2) assms(2)], goal_cases)
    case 1
    then show thesis using started(1,2) by (intro that(2)[of decision row ?run]) simp_all
  next
    case (2 message)
    have "xs_submitted st' = xs_submitted st \<or>
       xs_submitted st' = xs_submitted st @ [toSpec order (fresh_run w st)] \<and> xs_recorded st' = xs_recorded st @ [fresh_run w st]"
      using 2(5,6) by (cases "xs_submitted st' = xs_submitted st") simp_all
    with 2(1-4) show thesis using started(1,2) by (intro that(3)[of decision row message ?run]) simp_all
  next
    case (3 message)
    then show thesis using started(1,2) by (intro that(4)[of decision row message ?run]) simp_all
  qed
qed

subsection \<open>The queue\<close>

text \<open>One row of the batch: set aside, quarantined, or handed to the executor.\<close>

lemma dispatchOne_cases:
  assumes "dispatchOne w say row (res, st) = (res', st')"
  obtains (aside) "xs_submitted st' = xs_submitted st" "exec_store st' = exec_store st"
      "map (\<lambda>r. (sw_id r, sw_budgetCeilingUsd r)) (xs_orders st') = map (\<lambda>r. (sw_id r, sw_budgetCeilingUsd r)) (xs_orders st)"
  | (executed) order result where "rr_dispatchEnabled (sw_repository row)" "rehydrateWorkOrder row = Inr order"
      "dispatchWorkOrder w order (sw_id row) st = (result, st')"
proof (cases "rr_dispatchEnabled (sw_repository row)")
  case False
  with assms show thesis by (intro aside) (auto simp: dispatchOne_def)
next
  case enabled: True
  show thesis
  proof (cases "rehydrateWorkOrder row")
    case (Inr order)
    obtain result st1 where d: "dispatchWorkOrder w order (sw_id row) st = (result, st1)" by fastforce
    with assms enabled Inr have "st1 = st'" by (auto simp: dispatchOne_def split: option.splits)
    with enabled Inr d show thesis by (intro executed[of order result]) simp_all
  next
    case (Inl why)
    have "xs_submitted st' = xs_submitted st \<and> exec_store st' = exec_store st \<and>
        map (\<lambda>r. (sw_id r, sw_budgetCeilingUsd r)) (xs_orders st') = map (\<lambda>r. (sw_id r, sw_budgetCeilingUsd r)) (xs_orders st)"
      using assms Inl enabled
      by (cases why) (auto simp: dispatchOne_def quarantine_def Let_def split: if_splits)
    then show thesis by (intro aside) simp_all
  qed
qed


lemma rehydrate_Inr:
  assumes "rehydrateWorkOrder row = Inr w"
  shows "gw_identity w = sw_identity row" "gw_budgetCeilingUsd w = sw_budgetCeilingUsd row"
proof -
  from assms obtain c needs tier where "w = rebuilt row c needs tier"
    by (auto simp: rehydrateWorkOrder_def split: sum.splits if_splits)
  then show "gw_identity w = sw_identity row" "gw_budgetCeilingUsd w = sw_budgetCeilingUsd row"
    by (simp_all add: rebuilt_def)
qed

lemma mark_order_priced: "map (\<lambda>r. (sw_id r, sw_budgetCeilingUsd r)) (mark_order oid status rows) =
    map (\<lambda>r. (sw_id r, sw_budgetCeilingUsd r)) rows"
  by (simp add: mark_order_def)

lemma dispatch_priced:
  assumes "dispatchWorkOrder w order oid st = (res, st')" "fresh_run w st \<notin> run_id ` set (runs (exec_store st))"
  shows "map (\<lambda>r. (sw_id r, sw_budgetCeilingUsd r)) (xs_orders st') = map (\<lambda>r. (sw_id r, sw_budgetCeilingUsd r)) (xs_orders st)"
  using assms by (rule dispatch_effect) (simp_all add: mark_order_priced)

subsection \<open>The ledger\<close>

definition ledger_within :: "exec_world \<Rightarrow> usd \<Rightarrow> exec_state \<Rightarrow> bool" where
  "ledger_within w limit st \<longleftrightarrow>
    (\<forall>r \<in> set (runs (exec_store st)). whole_cents (charged r)) \<and>
    totalUsd (tally (windowDays (xw_ceiling w)) (xw_now w) (exec_store st)) \<le> limit"

lemma charged_failed [simp]: "charged (failed_run r message now) = charged r"
  by (simp add: failed_run_def charged_def known_cost_def assumed_cost_def)

lemma failed_run_sel [simp]: "run_startedAt (failed_run r message now) = run_startedAt r"
  "run_id (failed_run r message now) = run_id r"
  by (simp_all add: failed_run_def)

lemma ledger_same: "runs (exec_store st') = runs (exec_store st) \<Longrightarrow> ledger_within w limit st' = ledger_within w limit st"
  using tally_runs_only[of "exec_store st'" "exec_store st"] by (simp add: ledger_within_def)

lemma ledger_run:
  assumes "ledger_within w limit st" "admission w order st = Admit slack why" "limitUsd (xw_ceiling w) = Some limit"
    "0 \<le> windowDays (xw_ceiling w)" "runs (exec_store st') = runs (exec_store st) @ [run]" "run_startedAt run = xw_now w"
    "charged run = get_or 0 (gw_budgetCeilingUsd order)" "whole_cents (get_or 0 (gw_budgetCeilingUsd order))"
  shows "ledger_within w limit st'"
proof -
  have win: "in_window (windowDays (xw_ceiling w)) (xw_now w) run"
    using assms(4,6) by (simp add: in_window_def DAY_MS_def)
  have "\<exists>l. limitUsd (xw_ceiling w) = Some l \<and> totalUsd (tally (windowDays (xw_ceiling w)) (xw_now w)
      ((exec_store st)\<lparr>runs := runs (exec_store st) @ [run]\<rparr>)) \<le> l"
    using assms(1) by (intro admitted_within[OF assms(2)[unfolded admission_def] _ win]) (simp_all add: ledger_within_def assms(7))
  moreover have "tally d n (exec_store st') = tally d n ((exec_store st)\<lparr>runs := runs (exec_store st) @ [run]\<rparr>)" for d n
    by (rule tally_runs_only) (simp add: assms(5))
  ultimately show ?thesis using assms(1,3,5,7,8) by (auto simp: ledger_within_def)
qed

lemma charged_new_run: "charged (new_run runId key w row st) = get_or 0 (sw_budgetCeilingUsd row)"
  by (simp add: charged_def known_cost_def assumed_cost_def joined_order_def)

lemma dispatch_ledger:
  assumes "dispatchWorkOrder w order oid st = (res, st')" "fresh_run w st \<notin> run_id ` set (runs (exec_store st))"
    "ledger_within w limit st" "limitUsd (xw_ceiling w) = Some limit" "0 \<le> windowDays (xw_ceiling w)"
    "\<And>row. find (\<lambda>r. sw_id r = oid) (xs_orders st) = Some row \<Longrightarrow> sw_budgetCeilingUsd row = gw_budgetCeilingUsd order"
    "whole_cents (get_or 0 (gw_budgetCeilingUsd order))"
  shows "ledger_within w limit st'"
proof -
  have gates: "\<exists>slack why. admission w order st = Admit slack why \<and> sw_budgetCeilingUsd row = gw_budgetCeilingUsd order"
    if "dispatch_gates w order oid st decision row" for decision row
    using that assms(6) by (auto simp: dispatch_gates_def)
  from assms(1,2) show ?thesis
  proof (rule dispatch_effect, goal_cases)
    case (1 rep)
    with assms(3) show ?thesis using ledger_same[of st' st w limit] by simp
  next
    case (2 decision row run)
    with gates obtain slack why where "admission w order st = Admit slack why" "sw_budgetCeilingUsd row = gw_budgetCeilingUsd order" by blast
    then show ?thesis using 2(3) by (intro ledger_run[OF assms(3) _ assms(4,5) 2(4) _ _ assms(7)]) (simp_all add: charged_new_run)
  next
    case (3 decision row run message)
    with gates obtain slack why where "admission w order st = Admit slack why" "sw_budgetCeilingUsd row = gw_budgetCeilingUsd order" by blast
    then show ?thesis using 3(3) by (intro ledger_run[OF assms(3) _ assms(4,5) 3(4) _ _ assms(7)]) (simp_all add: charged_new_run)
  next
    case (4 decision row run message)
    with gates obtain slack why where g: "admission w order st = Admit slack why" "sw_budgetCeilingUsd row = gw_budgetCeilingUsd order" by blast
    from 4(4) show ?thesis
    proof (elim disjE conjE)
      assume "runs (exec_store st') = runs (exec_store st)"
      then show ?thesis using assms(3) ledger_same[of st' st w limit] by simp
    next
      assume rows: "runs (exec_store st') = runs (exec_store st) @ [run]"
      from g show ?thesis using 4(3) by (intro ledger_run[OF assms(3) _ assms(4,5) rows _ _ assms(7)]) (simp_all add: charged_new_run)
    qed
  qed
qed


text \<open>A price looked up by id is the one the batch was read with.\<close>

lemma price_of:
  assumes "map (\<lambda>r. (sw_id r, sw_budgetCeilingUsd r)) rows = map (\<lambda>r. (sw_id r, sw_budgetCeilingUsd r)) rows0"
    "distinct (map sw_id rows0)" "row \<in> set rows0" "find (\<lambda>r. sw_id r = sw_id row) rows = Some r"
  shows "sw_budgetCeilingUsd r = sw_budgetCeilingUsd row"
proof -
  have "r \<in> set rows" "sw_id r = sw_id row" using find_Some_iff_mem[OF assms(4)] by simp_all
  then have "(sw_id row, sw_budgetCeilingUsd r) \<in> set (map (\<lambda>r. (sw_id r, sw_budgetCeilingUsd r)) rows)"
    by (auto intro!: image_eqI[of _ _ r])
  then obtain r0 where "r0 \<in> set rows0" "sw_id r0 = sw_id row" "sw_budgetCeilingUsd r0 = sw_budgetCeilingUsd r"
    unfolding assms(1) by auto
  with distinct_map_eqD[OF assms(2) _ assms(3)] show ?thesis by metis
qed

definition fresh_ids :: "exec_world \<Rightarrow> bool" where
  "fresh_ids w \<longleftrightarrow> (\<forall>ids. xw_runId w ids \<notin> set ids)"

lemma fresh_idsD: "fresh_ids w \<Longrightarrow> fresh_run w st \<notin> run_id ` set (runs (exec_store st))"
  unfolding fresh_ids_def fresh_run_def by (metis set_map)

lemma fold_dispatch_ledger:
  assumes "fresh_ids w" "limitUsd (xw_ceiling w) = Some limit" "0 \<le> windowDays (xw_ceiling w)"
    "distinct (map sw_id rows0)" "\<And>r. r \<in> set rows0 \<Longrightarrow> whole_cents (get_or 0 (sw_budgetCeilingUsd r))"
    "set batch \<subseteq> set rows0" "ledger_within w limit st"
    "map (\<lambda>r. (sw_id r, sw_budgetCeilingUsd r)) (xs_orders st) = map (\<lambda>r. (sw_id r, sw_budgetCeilingUsd r)) rows0"
  shows "ledger_within w limit (snd (fold (dispatchOne w say) batch (res, st)))"
  using assms(6-8)
proof (induction batch arbitrary: res st)
  case (Cons row batch)
  obtain res1 st1 where one: "dispatchOne w say row (res, st) = (res1, st1)" by fastforce
  have mine: "row \<in> set rows0" using Cons.prems(1) by simp
  have "ledger_within w limit st1 \<and>
      map (\<lambda>r. (sw_id r, sw_budgetCeilingUsd r)) (xs_orders st1) = map (\<lambda>r. (sw_id r, sw_budgetCeilingUsd r)) rows0"
    using one
  proof (rule dispatchOne_cases, goal_cases)
    case 1
    then show ?thesis using Cons.prems(2,3) ledger_same[of st1 st w limit] by simp
  next
    case (2 order result)
    note b = rehydrate_Inr(2)[OF 2(2)]
    have "ledger_within w limit st1"
    proof (rule dispatch_ledger[OF 2(3) fresh_idsD[OF assms(1)] Cons.prems(2) assms(2,3)])
      show "sw_budgetCeilingUsd r = gw_budgetCeilingUsd order" if "find (\<lambda>r. sw_id r = sw_id row) (xs_orders st) = Some r" for r
        unfolding b by (rule price_of[OF Cons.prems(3) assms(4) mine that])
      show "whole_cents (get_or 0 (gw_budgetCeilingUsd order))" unfolding b by (rule assms(5)[OF mine])
    qed
    moreover have "map (\<lambda>r. (sw_id r, sw_budgetCeilingUsd r)) (xs_orders st1) = map (\<lambda>r. (sw_id r, sw_budgetCeilingUsd r)) rows0"
      using dispatch_priced[OF 2(3) fresh_idsD[OF assms(1)]] Cons.prems(3) by simp
    ultimately show ?thesis ..
  qed
  with Cons show ?case by (simp add: one)
qed simp

lemma due_orders_mem:
  assumes "r \<in> set (due_orders rows)"
  shows "r \<in> set rows" "sw_status r = WO_queued"
proof -
  have "r \<in> set (js_sort by_queue_time (filter (\<lambda>r. sw_status r = WO_queued) rows))"
    using assms unfolding due_orders_def by (rule in_set_takeD)
  then show "r \<in> set rows" "sw_status r = WO_queued" by simp_all
qed

lemma due_orders_distinct: "distinct (map f rows) \<Longrightarrow> distinct (map f (due_orders rows))"
proof -
  assume d: "distinct (map f rows)"
  have "mset (map f (js_sort by_queue_time (filter P rows))) = mset (map f (filter P rows))" for P
    by (simp add: mset_map)
  then have "distinct (map f (js_sort by_queue_time (filter P rows))) = distinct (map f (filter P rows))" for P
    by (rule mset_eq_imp_distinct_iff)
  then show ?thesis using distinct_map_filter[OF d] by (simp add: due_orders_def take_map[symmetric] distinct_take)
qed


subsection \<open>What a drain submits\<close>

definition spec_of_row :: "stored_work_order \<Rightarrow> work_order_spec \<Rightarrow> bool" where
  "spec_of_row row spec \<longleftrightarrow> rr_dispatchEnabled (sw_repository row) \<and>
    (\<exists>order. rehydrateWorkOrder row = Inr order \<and> spec = toSpec order (wos_runId spec))"

lemma toSpec_sel [simp]: "wos_runId (toSpec order runId) = runId" "wos_identity (toSpec order runId) = gw_identity order"
  by (simp_all add: toSpec_def)

lemma dispatch_submits:
  assumes "dispatchWorkOrder w order oid st = (res, st')" "fresh_run w st \<notin> run_id ` set (runs (exec_store st))"
  shows "xs_submitted st' = xs_submitted st \<or> xs_submitted st' = xs_submitted st @ [toSpec order (fresh_run w st)] \<and> xw_enabled w"
  using assms by (rule dispatch_effect) (auto simp: dispatch_gates_def)

lemma dispatchOne_submits:
  assumes "dispatchOne w say row (res, st) = (res', st')" "fresh_ids w"
  shows "xs_submitted st' = xs_submitted st \<or>
    (\<exists>spec. xs_submitted st' = xs_submitted st @ [spec] \<and> spec_of_row row spec \<and> xw_enabled w)"
  using assms(1)
proof (rule dispatchOne_cases, goal_cases)
  case (2 order result)
  from dispatch_submits[OF 2(3) fresh_idsD[OF assms(2)]] 2(1,2) show ?thesis
    by (auto simp: spec_of_row_def)
qed simp

lemma subseq_keeps: "subseq xs ys \<Longrightarrow> set xs \<subseteq> set ys \<and> (distinct (map f ys) \<longrightarrow> distinct (map f xs))"
  by (induction rule: list_emb.induct) auto

lemma fold_submits:
  assumes "fresh_ids w"
  shows "\<exists>new rows. xs_submitted (snd (fold (dispatchOne w say) batch (res, st))) = xs_submitted st @ new \<and>
    subseq rows batch \<and> list_all2 spec_of_row rows new \<and> (new = [] \<or> xw_enabled w)"
proof (induction batch arbitrary: res st)
  case Nil
  show ?case by (intro exI[of _ "[]"]) simp
next
  case (Cons row batch)
  obtain res1 st1 where one: "dispatchOne w say row (res, st) = (res1, st1)" by fastforce
  obtain new rows where IH: "xs_submitted (snd (fold (dispatchOne w say) batch (res1, st1))) = xs_submitted st1 @ new"
    "subseq rows batch" "list_all2 spec_of_row rows new" "new = [] \<or> xw_enabled w"
    using Cons.IH by blast
  from dispatchOne_submits[OF one assms] show ?case
  proof (elim disjE exE conjE)
    assume "xs_submitted st1 = xs_submitted st"
    with IH show ?thesis by (intro exI[of _ new] exI[of _ rows]) (simp add: one list_emb_Cons)
  next
    fix spec assume "xs_submitted st1 = xs_submitted st @ [spec]" "spec_of_row row spec" "xw_enabled w"
    with IH show ?thesis by (intro exI[of _ "spec # new"] exI[of _ "row # rows"]) (simp add: one)
  qed
qed

lemma spec_of_row_identity: "spec_of_row row spec \<Longrightarrow> wos_identity spec = sw_identity row"
  unfolding spec_of_row_def using rehydrate_Inr(1) toSpec_sel(2) by metis

subsection \<open>A resume\<close>

definition run_terms :: "run_row \<Rightarrow> string \<times> string \<times> work_order_row \<times> usd option \<times> instant" where
  "run_terms r = (run_id r, run_runnerKey r, run_workOrder r, run_costUsd r, run_startedAt r)"

lemma update_one:
  assumes "\<forall>r \<in> set us \<union> set vs. run_id r \<noteq> i"
  shows "map (\<lambda>r. if run_id r = i \<and> Q r then f r else r) (us @ x # vs) =
    us @ (if run_id x = i \<and> Q x then f x else x) # vs"
  using map_if_fresh[of us "\<lambda>r. run_id r = i \<and> Q r" f] map_if_fresh[of vs "\<lambda>r. run_id r = i \<and> Q r" f] assms
  by auto

lemma openResumedAttempt_runs [simp]: "runs (snd (openResumedAttempt w i b n h s)) = runs s"
  by (simp add: openResumedAttempt_def Let_def split: option.splits)

lemma re_invoke_effect:
  assumes "re_invoke w order run st = (result, st')" "runs (exec_store st) = us @ run # vs"
    "\<forall>r \<in> set us \<union> set vs. run_id r \<noteq> run_id run" "run_status run = Run_blocked"
  obtains run' where "runs (exec_store st') = us @ run' # vs" "run_terms run' = run_terms run"
    "xs_orders st' = xs_orders st"
    "xs_submitted st' = xs_submitted st \<or>
     xs_submitted st' = xs_submitted st @ [toSpec order (run_id run)] \<and> run_status run' \<noteq> Run_blocked"
proof -
  let ?n = "max (run_attemptCount run) 1 + 1"
  let ?claimed = "run\<lparr>run_status := Run_running, run_resumesAt := None, run_attemptCount := ?n\<rparr>"
  define s where "s = snd (claim_park (run_id run) ?n (exec_store st))"
  have rows: "runs s = us @ ?claimed # vs"
    using update_one[OF assms(3), of "\<lambda>r. run_status r = Run_blocked"] assms(2,4) by (simp add: s_def claim_park_def case_prod_beta)
  have count: "fst (claim_park (run_id run) ?n (exec_store st)) \<noteq> 0"
    using assms(2,4) by (simp add: claim_park_def case_prod_beta)
  define st1 where "st1 = on_store (\<lambda>_. s) st"
  have st1: "runs (exec_store st1) = us @ ?claimed # vs" "xs_orders st1 = xs_orders st" "xs_submitted st1 = xs_submitted st"
    by (simp_all add: st1_def rows)
  have undo: "runs (update_runs (\<lambda>r. run_id r = run_id run \<and> run_status r = Run_running) f s') =
      us @ f x # vs" if "runs s' = us @ x # vs" "run_id x = run_id run" "run_status x = Run_running" for f s' x
    using update_one[OF assms(3), of "\<lambda>r. run_status r = Run_running" f x] that by (simp add: update_runs_def)
  show thesis
  proof (cases "xw_submit w (toSpec order (run_id run))")
    case (Inl err)
    then have r: "(result, st') = recoverResume w (run_id run) (run_attemptCount run) err st1"
      using assms(1) count by (simp add: re_invoke_def Let_def split_beta s_def st1_def)
    show thesis
    proof (cases err)
      case (At_capacity m)
      show thesis
        by (rule that[of "?claimed\<lparr>run_status := Run_blocked, run_attemptCount := run_attemptCount run\<rparr>"])
          (use r At_capacity st1 undo[OF st1(1)] in \<open>simp_all add: recoverResume_def run_terms_def\<close>)
    next
      case (Threw m)
      show thesis
        by (rule that[of "failed_run ?claimed m (xw_now w)"])
          (use r Threw st1 undo[OF st1(1)] in \<open>simp_all add: recoverResume_def run_terms_def fail_run_def failed_run_def\<close>)
    qed
  next
    case (Inr handle)
    let ?open = "openResumedAttempt w (run_id run) (newest_event (run_id run) (\<lambda>e. ev_type e = ''run_blocked'') (exec_store st)) ?n handle s"
    define st3 where "st3 = on_store (\<lambda>_. snd ?open) (st1\<lparr>xs_submitted := xs_submitted st1 @ [toSpec order (run_id run)]\<rparr>)"
    have st3: "runs (exec_store st3) = us @ ?claimed # vs" "xs_orders st3 = xs_orders st"
      "xs_submitted st3 = xs_submitted st @ [toSpec order (run_id run)]"
      by (simp_all add: st3_def rows st1)
    have step: "(result, st') = (case fst ?open of
        Some message \<Rightarrow> recoverResume w (run_id run) (run_attemptCount run) (Threw message) st3
      | None \<Rightarrow> (Rs_resumed (run_id run) (run_runnerKey run) ?n, st3\<lparr>xs_tracked := xs_tracked st3 @ [run_id run]\<rparr>))"
      using assms(1) count Inr
      by (simp add: re_invoke_def Let_def split_beta st3_def st1_def s_def cong: option.case_cong)
    show thesis
    proof (cases "fst ?open")
      case None
      show thesis
        by (rule that[of ?claimed]) (use step None st3 in \<open>simp_all add: run_terms_def\<close>)
    next
      case (Some m)
      show thesis
        by (rule that[of "failed_run ?claimed m (xw_now w)"])
          (use step Some st3 undo[OF st3(1)] in \<open>simp_all add: recoverResume_def run_terms_def fail_run_def failed_run_def\<close>)
    qed
  qed
qed

text \<open>Runs keep what they are charged for, and only a parked run is parked afterwards.\<close>

definition parks_shrink :: "run_row list \<Rightarrow> run_row list \<Rightarrow> bool" where
  "parks_shrink = list_all2 (\<lambda>r r'. run_terms r' = run_terms r \<and>
     (run_status r' = Run_blocked \<longrightarrow> run_status r = Run_blocked))"

lemma parks_shrink_refl [simp]: "parks_shrink rows rows"
  by (simp add: parks_shrink_def list.rel_refl)

lemma parks_shrink_trans: "parks_shrink a b \<Longrightarrow> parks_shrink b c \<Longrightarrow> parks_shrink a c"
  unfolding parks_shrink_def by (auto simp: list_all2_conv_all_nth)

lemma parks_shrink_one:
  "run_terms run' = run_terms run \<Longrightarrow> run_status run = Run_blocked \<Longrightarrow> parks_shrink (us @ run # vs) (us @ run' # vs)"
  by (simp add: parks_shrink_def list_all2_appendI list.rel_refl)

lemma parks_shrink_back:
  "parks_shrink rows rows' \<Longrightarrow> r' \<in> set rows' \<Longrightarrow>
   \<exists>r \<in> set rows. run_terms r' = run_terms r \<and> (run_status r' = Run_blocked \<longrightarrow> run_status r = Run_blocked)"
  unfolding parks_shrink_def by (induction rule: list_all2_induct) auto

lemma run_terms_eqD: "run_terms r' = run_terms r \<Longrightarrow> run_id r' = run_id r \<and> run_runnerKey r' = run_runnerKey r \<and>
    run_workOrder r' = run_workOrder r \<and> run_costUsd r' = run_costUsd r \<and> run_startedAt r' = run_startedAt r"
  by (simp add: run_terms_def)

lemma parks_shrink_ids: "parks_shrink rows rows' \<Longrightarrow> map run_id rows' = map run_id rows"
  unfolding parks_shrink_def by (induction rule: list_all2_induct) (auto dest: run_terms_eqD)

lemma tally_step_terms: "run_terms r' = run_terms r \<Longrightarrow> tally_step acc r' = tally_step acc r"
  by (cases acc) (simp add: run_terms_def cong: option.case_cong)

lemma foldl_tally_terms:
  "parks_shrink rows rows' \<Longrightarrow>
   foldl tally_step acc (filter (\<lambda>r. Q (run_startedAt r)) rows') = foldl tally_step acc (filter (\<lambda>r. Q (run_startedAt r)) rows) \<and>
   length (filter (\<lambda>r. Q (run_startedAt r)) rows') = length (filter (\<lambda>r. Q (run_startedAt r)) rows)"
  unfolding parks_shrink_def
proof (induction arbitrary: acc rule: list_all2_induct)
  case (Cons r rs r' rs')
  then have "run_startedAt r' = run_startedAt r" "tally_step acc r' = tally_step acc r"
    by (auto dest: run_terms_eqD tally_step_terms)
  with Cons show ?case by simp
qed simp

lemma tally_terms: "parks_shrink (runs s) (runs s') \<Longrightarrow> tally d n s' = tally d n s"
  using foldl_tally_terms[of "runs s" "runs s'" "(0, 0, 0, 0)" "\<lambda>t. n - d * DAY_MS \<le> t \<and> t \<le> n"]
  by (simp add: tally_def Let_def)

text \<open>The gates of a resume, and what it takes to be the spec that passed them.\<close>

definition resume_gates :: "exec_world \<Rightarrow> exec_state \<Rightarrow> work_order_spec \<Rightarrow> bool" where
  "resume_gates w st spec \<longleftrightarrow> (\<exists>run row order slack why.
     run \<in> set (runs (exec_store st)) \<and> run_id run = wos_runId spec \<and> run_status run = Run_blocked \<and>
     find (\<lambda>r. sw_identity r = wo_identity (run_workOrder run)) (xs_orders st) = Some row \<and>
     sw_status row = WO_dispatched \<and> rr_dispatchEnabled (sw_repository row) \<and>
     over_repository_budget run (sw_repository row) = None \<and>
     rehydrateWorkOrder row = Inr order \<and> spec = toSpec order (wos_runId spec) \<and>
     run_runnerKey run = CLAUDE_CODE_LOCAL \<and> admission w order st = Admit slack why) \<and>
   xw_enabled w \<and> xw_autoResume w"

lemma resume_gates_earlier:
  assumes "resume_gates w st' spec" "parks_shrink (runs (exec_store st)) (runs (exec_store st'))" "xs_orders st' = xs_orders st"
  shows "resume_gates w st spec"
proof -
  from assms(1) obtain run' row order slack why where g: "run' \<in> set (runs (exec_store st'))" "run_id run' = wos_runId spec"
    "run_status run' = Run_blocked" "find (\<lambda>r. sw_identity r = wo_identity (run_workOrder run')) (xs_orders st') = Some row"
    "sw_status row = WO_dispatched" "rr_dispatchEnabled (sw_repository row)"
    "over_repository_budget run' (sw_repository row) = None" "rehydrateWorkOrder row = Inr order"
    "spec = toSpec order (wos_runId spec)" "run_runnerKey run' = CLAUDE_CODE_LOCAL" "admission w order st' = Admit slack why"
    "xw_enabled w" "xw_autoResume w"
    unfolding resume_gates_def by blast
  from parks_shrink_back[OF assms(2) g(1)] g(3) obtain run where
    run: "run \<in> set (runs (exec_store st))" "run_terms run' = run_terms run" "run_status run = Run_blocked" by blast
  note terms = run_terms_eqD[OF run(2)]
  have "over_repository_budget run (sw_repository row) = None"
    using g(7) terms by (simp add: over_repository_budget_def)
  moreover have "admission w order st = Admit slack why"
    using g(11) tally_terms[OF assms(2)] by (simp add: admission_def)
  ultimately show ?thesis
    using g terms run(1,3) assms(3) unfolding resume_gates_def by metis
qed

lemma resumeParkedRun_effect:
  assumes "resumeParkedRun w runId st = (res, st')" "distinct (map run_id (runs (exec_store st)))"
  shows "xs_orders st' = xs_orders st \<and> parks_shrink (runs (exec_store st)) (runs (exec_store st')) \<and>
    (xs_submitted st' = xs_submitted st \<or>
     (\<exists>spec. xs_submitted st' = xs_submitted st @ [spec] \<and> wos_runId spec = runId \<and> resume_gates w st spec \<and>
        (\<forall>r \<in> set (runs (exec_store st')). run_id r = runId \<longrightarrow> run_status r \<noteq> Run_blocked)))"
proof (cases "st' = st")
  case True
  then show ?thesis by simp
next
  case False
  with assms(1) obtain run row order slack why result where
    run: "find (\<lambda>r. run_id r = runId) (runs (exec_store st)) = Some run" "run_status run = Run_blocked" and
    gates: "xw_autoResume w" "xw_enabled w"
      "find (\<lambda>r. sw_identity r = wo_identity (run_workOrder run)) (xs_orders st) = Some row"
      "sw_status row = WO_dispatched" "rr_dispatchEnabled (sw_repository row)"
      "over_repository_budget run (sw_repository row) = None" "rehydrateWorkOrder row = Inr order"
      "run_runnerKey run = CLAUDE_CODE_LOCAL" "admission w order st = Admit slack why" and
    step: "re_invoke w order run st = (result, st')"
    unfolding resumeParkedRun_def runnerFor_def Let_def
    by (auto split: if_splits option.splits sum.splits rehydration_error.splits spend_verdict.splits prod.splits)
  from find_Some_append[OF run(1)] obtain us vs where rows: "runs (exec_store st) = us @ run # vs" by blast
  have id: "run_id run = runId" using find_Some_iff_mem[OF run(1)] by simp
  have others: "\<forall>r \<in> set us \<union> set vs. run_id r \<noteq> run_id run"
    using assms(2) rows by (auto simp: image_iff)
  obtain run' where r: "runs (exec_store st') = us @ run' # vs" "run_terms run' = run_terms run" "xs_orders st' = xs_orders st"
    "xs_submitted st' = xs_submitted st \<or>
     xs_submitted st' = xs_submitted st @ [toSpec order (run_id run)] \<and> run_status run' \<noteq> Run_blocked"
    using re_invoke_effect[OF step rows others run(2)] .
  have "resume_gates w st (toSpec order (run_id run))"
    using gates run(2) rows unfolding resume_gates_def by auto
  moreover have "run_status s \<noteq> Run_blocked"
    if "s \<in> set (runs (exec_store st'))" "run_id s = runId" "run_status run' \<noteq> Run_blocked" for s
    using that others r(1,2) id by (auto dest: run_terms_eqD)
  moreover have "parks_shrink (runs (exec_store st)) (runs (exec_store st'))"
    unfolding rows r(1) by (rule parks_shrink_one[OF r(2) run(2)])
  ultimately show ?thesis using r(3,4) id by auto
qed

lemma resume_one_effect:
  assumes "resume_one w intents a (out, st) = (out', st')" "distinct (map run_id (runs (exec_store st)))"
  shows "xs_orders st' = xs_orders st \<and> parks_shrink (runs (exec_store st)) (runs (exec_store st')) \<and>
    (xs_submitted st' = xs_submitted st \<or>
     (\<exists>spec. xs_submitted st' = xs_submitted st @ [spec] \<and> act_type a = Act_resume \<and> act_runId a = Some (wos_runId spec) \<and>
        intents (act_repository a, act_issueNumber a) = Some Intent_blocked \<and> resume_gates w st spec \<and>
        (\<forall>r \<in> set (runs (exec_store st')). run_id r = wos_runId spec \<longrightarrow> run_status r \<noteq> Run_blocked)))"
proof (cases "act_type a = Act_resume \<and> act_runId a \<noteq> None \<and> act_runId a \<noteq> Some [] \<and>
    intents (act_repository a, act_issueNumber a) = Some Intent_blocked")
  case False
  with assms(1) have "st' = st"
    by (auto simp: resume_one_def split: if_splits option.splits)
  then show ?thesis by simp
next
  case True
  then obtain runId where a: "act_runId a = Some runId" by blast
  obtain res st1 where r: "resumeParkedRun w runId st = (res, st1)" by fastforce
  from assms(1) True a r have "st1 = st'" by (auto simp: resume_one_def)
  with resumeParkedRun_effect[OF r assms(2)] True a show ?thesis by auto
qed

definition resume_allowed ::
  "exec_world \<Rightarrow> (string \<times> int \<rightharpoonup> issue_intent) \<Rightarrow> reconcile_action list \<Rightarrow> exec_state \<Rightarrow> work_order_spec \<Rightarrow> bool" where
  "resume_allowed w intents actions st spec \<longleftrightarrow>
    (\<exists>a \<in> set actions. act_type a = Act_resume \<and> act_runId a = Some (wos_runId spec) \<and>
       intents (act_repository a, act_issueNumber a) = Some Intent_blocked) \<and> resume_gates w st spec"

lemma fold_resumes:
  assumes "distinct (map run_id (runs (exec_store st)))"
  shows "\<exists>new. xs_submitted (snd (fold (resume_one w intents) actions (out, st))) = xs_submitted st @ new \<and>
    distinct (map wos_runId new) \<and> list_all (resume_allowed w intents actions st) new"
  using assms
proof (induction actions arbitrary: out st)
  case (Cons a actions)
  obtain out1 st1 where one: "resume_one w intents a (out, st) = (out1, st1)" by fastforce
  note eff = resume_one_effect[OF one Cons.prems]
  have "distinct (map run_id (runs (exec_store st1)))"
    using eff parks_shrink_ids Cons.prems by metis
  from Cons.IH[OF this, of out1] obtain new where new:
    "xs_submitted (snd (fold (resume_one w intents) actions (out1, st1))) = xs_submitted st1 @ new"
    "distinct (map wos_runId new)" "list_all (resume_allowed w intents actions st1) new" by blast
  have earlier: "list_all (resume_allowed w intents (a # actions) st) new"
    using new(3) eff resume_gates_earlier unfolding resume_allowed_def list_all_iff by (metis list.set_intros(2))
  from eff show ?case
  proof (elim conjE disjE exE)
    assume "xs_submitted st1 = xs_submitted st"
    with new earlier show ?thesis by (intro exI[of _ new]) (simp add: one)
  next
    fix spec assume s: "xs_submitted st1 = xs_submitted st @ [spec]" "act_type a = Act_resume"
      "act_runId a = Some (wos_runId spec)" "intents (act_repository a, act_issueNumber a) = Some Intent_blocked"
      "resume_gates w st spec"
      "\<forall>r \<in> set (runs (exec_store st1)). run_id r = wos_runId spec \<longrightarrow> run_status r \<noteq> Run_blocked"
    have "wos_runId spec \<notin> wos_runId ` set new"
    proof
      assume "wos_runId spec \<in> wos_runId ` set new"
      then obtain s' where "s' \<in> set new" "wos_runId s' = wos_runId spec" by auto
      with new(3) have "resume_gates w st1 s'" by (auto simp: list_all_iff resume_allowed_def)
      with s(6) \<open>wos_runId s' = wos_runId spec\<close> show False unfolding resume_gates_def by metis
    qed
    moreover have "resume_allowed w intents (a # actions) st spec"
      using s(2-5) by (auto simp: resume_allowed_def)
    ultimately show ?thesis using new earlier s(1) by (intro exI[of _ "spec # new"]) (simp add: one)
  qed
qed simp

text \<open>An action about an issue whose intent is not \<open>blocked\<close> does nothing.\<close>

lemma resume_one_idle:
  "intents (act_repository a, act_issueNumber a) \<noteq> Some Intent_blocked \<Longrightarrow> snd (resume_one w intents a acc) = snd acc"
  by (cases acc) (auto simp: resume_one_def Let_def split: option.splits)

lemma fold_resumes_state:
  "(\<And>a. a \<in> set actions \<Longrightarrow> \<not> P a \<Longrightarrow> intents (act_repository a, act_issueNumber a) \<noteq> Some Intent_blocked) \<Longrightarrow>
   snd (fold (resume_one w intents) actions acc) = snd (fold (resume_one w intents) (filter P actions) acc')
   \<or> snd acc \<noteq> snd acc'"
proof (induction actions arbitrary: acc acc')
  case (Cons a actions)
  have same: "snd (resume_one w intents a (o1, s)) = snd (resume_one w intents a (o2, s))" for o1 o2 s
    by (auto simp: resume_one_def Let_def case_prod_beta split: option.splits)
  show ?case
  proof (cases "P a")
    case True
    have "snd (resume_one w intents a acc) = snd (resume_one w intents a acc') \<or> snd acc \<noteq> snd acc'"
      using same[of "fst acc" "snd acc" "fst acc'"] by (cases acc; cases acc') auto
    with Cons.IH[of "resume_one w intents a acc" "resume_one w intents a acc'"] Cons.prems True show ?thesis by auto
  next
    case False
    with Cons.prems have "snd (resume_one w intents a acc) = snd acc" by (intro resume_one_idle) simp
    with Cons.IH[of "resume_one w intents a acc" acc'] Cons.prems False show ?thesis by auto
  qed
qed simp

section \<open>Properties\<close>

text \<open>what a dispatch leaves behind, for each of its answers. Dispatched: a running run of the order with
  an open first attempt, the order marked dispatched, the runner holding the order's own document under
  the run's id, its records written and the run polled. Failed: a failed run, and the order as it was,
  so still queued; the attempt of the failed run stays open. Queued: no order moves and no runner gets
  anything; a run stays only if the runner was full and its row could not be deleted. Observed: nothing.
  And in every case a runner gets the order only when routing chose it, the spend gate admitted the
  order and dispatch is enabled.\<close>

theorem dispatch_leaves:
  assumes "dispatchWorkOrder w order oid st = (Some result, st')" "\<And>ids. xw_runId w ids \<notin> set ids"
  shows "(case result of
      Ex_dispatched runId key why \<Rightarrow>
        (\<exists>row run. find (\<lambda>r. sw_id r = oid) (xs_orders st) = Some row \<and> runs (exec_store st') = runs (exec_store st) @ [run] \<and>
           run_id run = runId \<and> run_status run = Run_running \<and> run_workOrder run = joined_order row) \<and>
        attempts (exec_store st') = attempts (exec_store st) @ [first_attempt runId (xw_now w)] \<and>
        xs_orders st' = mark_order oid WO_dispatched (xs_orders st) \<and>
        xs_submitted st' = xs_submitted st @ [toSpec order runId] \<and>
        xs_tracked st' = xs_tracked st @ [runId] \<and> xs_recorded st' = xs_recorded st @ [runId]
    | Ex_failed runId why \<Rightarrow>
        (\<exists>run. runs (exec_store st') = runs (exec_store st) @ [run] \<and> run_id run = runId \<and> run_status run = Run_failed) \<and>
        attempts (exec_store st') = attempts (exec_store st) @ [first_attempt runId (xw_now w)] \<and>
        xs_orders st' = xs_orders st
    | Ex_queued q why \<Rightarrow>
        xs_orders st' = xs_orders st \<and> xs_submitted st' = xs_submitted st \<and>
        (runs (exec_store st') = runs (exec_store st) \<or>
         (\<exists>run. \<not> xw_deletable w (run_id run) \<and> runs (exec_store st') = runs (exec_store st) @ [run]))
    | Ex_observed key why \<Rightarrow>
        xs_orders st' = xs_orders st \<and> xs_submitted st' = xs_submitted st \<and> xs_tables st' = xs_tables st) \<and>
    (xs_submitted st' = xs_submitted st \<or>
       (\<exists>decision slack why.
          decision = fst (decide_dispatch (xw_collate w) (xw_settings w)
            \<lparr>needs = gw_needs order, modelTier = gw_modelTier order\<rparr> (xw_now w) (xs_tables st) (xs_reported st)) \<and>
          outcome decision = Dispatched \<and> dd_runnerKey decision = Some CLAUDE_CODE_LOCAL \<and>
          admission w order st = Admit slack why \<and> xw_enabled w))"
proof -
  have fresh: "fresh_run w st \<notin> run_id ` set (runs (exec_store st))"
    by (rule fresh_idsD) (simp add: fresh_ids_def assms(2))
  from assms(1) fresh show ?thesis
  proof (rule dispatch_effect, goal_cases)
    case (1 rep)
    have "(\<exists>q why. result = Ex_queued q why) \<or> (\<exists>k why. result = Ex_observed k why)"
      using 1(2,3) by (cases result) blast+
    with 1(1) show ?thesis by (elim disjE exE) simp_all
  next
    case (2 decision row run)
    from 2(1) have "find (\<lambda>r. sw_id r = oid) (xs_orders st) = Some row" by (simp add: dispatch_gates_def)
    with 2 show ?thesis unfolding dispatch_gates_def by auto
  next
    case (3 decision row run message)
    then show ?thesis unfolding dispatch_gates_def by (auto simp: failed_run_def)
  next
    case (4 decision row run message)
    then show ?thesis by auto
  qed
qed

text \<open>C7: a drain never overspends. When the ceiling is set, the amounts are whole cents and the ledger is
  within it, then after any drain, whatever was thrown on the way, the ledger still is: a run is on the
  books at its order's ceiling from the moment it exists, so the next order of the batch is admitted
  against it.\<close>

theorem drain_keeps_ceiling:
  assumes "\<And>ids. xw_runId w ids \<notin> set ids" "limitUsd (xw_ceiling w) = Some limit" "0 \<le> windowDays (xw_ceiling w)"
    "distinct (map sw_id (xs_orders st))"
    "\<And>r c. r \<in> set (xs_orders st) \<Longrightarrow> sw_budgetCeilingUsd r = Some c \<Longrightarrow> whole_cents c"
    "\<And>r. r \<in> set (runs (exec_store st)) \<Longrightarrow> whole_cents (charged r)"
    "totalUsd (tally (windowDays (xw_ceiling w)) (xw_now w) (exec_store st)) \<le> limit"
  shows "totalUsd (tally (windowDays (xw_ceiling w)) (xw_now w) (exec_store (snd (drain w say st)))) \<le> limit"
proof -
  have "whole_cents (get_or 0 (sw_budgetCeilingUsd r))" if "r \<in> set (xs_orders st)" for r
    using assms(5)[OF that] whole_cents_of_int[of 0] by (cases "sw_budgetCeilingUsd r") simp_all
  moreover have "set (due_orders (xs_orders st)) \<subseteq> set (xs_orders st)" using due_orders_mem by blast
  moreover have "ledger_within w limit st" using assms(6,7) by (simp add: ledger_within_def)
  moreover have "fresh_ids w" using assms(1) by (simp add: fresh_ids_def)
  ultimately have "ledger_within w limit (snd (drain w say st))"
    unfolding drain_def by (intro fold_dispatch_ledger[OF _ assms(2-4)]) auto
  then show ?thesis by (simp add: ledger_within_def)
qed

text \<open>what reaches a runner from the queue. A drain submits at most twenty-five orders, each at most
  once, only while dispatch is enabled; each is a row that was queued, so not held, in a repository that
  allows dispatch, and the runner gets the document that row stores.\<close>

theorem drain_submits_stored_orders:
  assumes "\<And>ids. xw_runId w ids \<notin> set ids" "distinct (map sw_identity (xs_orders st))"
  shows "\<exists>new. xs_submitted (snd (drain w say st)) = xs_submitted st @ new \<and> length new \<le> 25 \<and>
    distinct (map wos_identity new) \<and> (new = [] \<or> xw_enabled w) \<and>
    (\<forall>spec \<in> set new. \<exists>row \<in> set (xs_orders st). sw_status row = WO_queued \<and>
       rr_dispatchEnabled (sw_repository row) \<and>
       (\<exists>order. rehydrateWorkOrder row = Inr order \<and> spec = toSpec order (wos_runId spec)))"
proof -
  have "fresh_ids w" using assms(1) by (simp add: fresh_ids_def)
  from fold_submits[OF this] obtain new rows where
    f: "xs_submitted (snd (drain w say st)) = xs_submitted st @ new" "subseq rows (due_orders (xs_orders st))"
      "list_all2 spec_of_row rows new" "new = [] \<or> xw_enabled w"
    unfolding drain_def by blast
  have "length new \<le> length (due_orders (xs_orders st))"
    using list_all2_lengthD[OF f(3)] list_emb_length[OF f(2)] by simp
  then have "length new \<le> 25" by (simp add: due_orders_def DISPATCH_BATCH_SIZE_def)
  moreover have "map wos_identity new = map sw_identity rows"
    using f(3) by (induction rule: list_all2_induct) (simp_all add: spec_of_row_identity)
  then have "distinct (map wos_identity new)"
    using subseq_keeps[OF f(2), of sw_identity] due_orders_distinct[OF assms(2)] by simp
  moreover have "\<exists>row \<in> set (xs_orders st). sw_status row = WO_queued \<and> spec_of_row row spec" if "spec \<in> set new" for spec
  proof -
    from that f(3) obtain row where "row \<in> set rows" "spec_of_row row spec"
      by (metis in_set_conv_nth list_all2_conv_all_nth)
    moreover from this(1) have "row \<in> set (due_orders (xs_orders st))" using subseq_keeps[OF f(2)] by blast
    ultimately show ?thesis using due_orders_mem by blast
  qed
  ultimately show ?thesis using f(1,4) unfolding spec_of_row_def by blast
qed


text \<open>C8: a parked run is resumed only through every gate. Each run a tick re-invokes, at most once, was named by a
  resume action whose issue this very tick projected as blocked; it was parked; its order was
  dispatched, in a repository that allows dispatch and whose own ceiling the run has not reached; the
  runner gets the document the row stores; the spend gate admitted it; dispatch and auto-resume are
  enabled.\<close>

theorem resume_passes_every_gate:
  assumes "distinct (map run_id (runs (exec_store st)))"
  shows "\<exists>new. xs_submitted (snd (execute_resumes w actions projections st)) = xs_submitted st @ new \<and>
    distinct (map wos_runId new) \<and>
    (\<forall>spec \<in> set new.
       (\<exists>a \<in> set actions. act_type a = Act_resume \<and> act_runId a = Some (wos_runId spec) \<and>
          intentsByIssue projections (act_repository a, act_issueNumber a) = Some Intent_blocked) \<and>
       (\<exists>run row order slack why.
          run \<in> set (runs (exec_store st)) \<and> run_id run = wos_runId spec \<and> run_status run = Run_blocked \<and>
          find (\<lambda>r. sw_identity r = wo_identity (run_workOrder run)) (xs_orders st) = Some row \<and>
          sw_status row = WO_dispatched \<and> rr_dispatchEnabled (sw_repository row) \<and>
          over_repository_budget run (sw_repository row) = None \<and>
          rehydrateWorkOrder row = Inr order \<and> spec = toSpec order (wos_runId spec) \<and>
          run_runnerKey run = CLAUDE_CODE_LOCAL \<and> admission w order st = Admit slack why) \<and>
       xw_enabled w \<and> xw_autoResume w)"
  using fold_resumes[OF assms, of w "intentsByIssue projections" actions no_resumes]
  unfolding execute_resumes_def list_all_iff resume_allowed_def resume_gates_def by blast

text \<open>C32: a hold keeps a parked run parked. When an issue carries \<open>factory:hold\<close> in the observation the tick
  projects, the resume actions about it change nothing: the tick leaves exactly what it would have
  left without them.\<close>

theorem hold_keeps_runs_parked:
  assumes "os \<in> set observed" "issue \<in> set (os_issues os)" "INPUT_HOLD \<in> set (inputLabels issue)"
    "repository = orp_owner (os_repository os) @ ''/'' @ orp_name (os_repository os)"
    "projections = map projectDesiredState observed"
    "distinct (concat (map (\<lambda>p. map (\<lambda>i. (ds_repository p, ds_issueNumber i)) (ds_issues p)) projections))"
  shows "snd (execute_resumes w actions projections st) =
    snd (execute_resumes w
      (filter (\<lambda>a. \<not> (act_repository a = repository \<and> act_issueNumber a = ni_number issue)) actions) projections st)"
proof -
  let ?pairs = "concat (map (\<lambda>p. map (\<lambda>i. ((ds_repository p, ds_issueNumber i), ds_intent i)) (ds_issues p)) projections)"
  obtain d where d: "d \<in> set (ds_issues (projectDesiredState os))" "ds_issueNumber d = ni_number issue" "ds_intent d = Intent_hold"
  proof -
    let ?d = "projectIssue issue (groupWorkOrdersByIssue (os_workOrders os) (ni_number issue)) os"
    have "?d \<in> set (ds_issues (projectDesiredState os))"
      using assms(2) by (simp add: projectDesiredState_def Let_def)
    moreover have "ds_intent ?d = Intent_hold"
      using assms(3) by (simp add: projectIntent_def intent_state_def)
    ultimately show thesis using that[of ?d] by simp
  qed
  have "ds_repository (projectDesiredState os) = repository" by (simp add: projectDesiredState_def Let_def assms(4))
  then have "((repository, ni_number issue), Intent_hold) \<in> set ?pairs"
    using d assms(1,5) by force
  moreover have "map fst ?pairs = concat (map (\<lambda>p. map (\<lambda>i. (ds_repository p, ds_issueNumber i)) (ds_issues p)) projections)"
    by (simp add: map_concat comp_def)
  then have "distinct (map fst (rev ?pairs))" using assms(6) by (simp add: rev_map[symmetric])
  ultimately have held: "intentsByIssue projections (repository, ni_number issue) = Some Intent_hold"
    unfolding intentsByIssue_def by simp
  show ?thesis
    unfolding execute_resumes_def
    using fold_resumes_state[of actions "\<lambda>a. \<not> (act_repository a = repository \<and> act_issueNumber a = ni_number issue)"
        "intentsByIssue projections" w "(no_resumes, st)" "(no_resumes, st)"] held by auto
qed


section \<open>Witnesses\<close>

definition a_runner :: runner_row where
  "a_runner =
    \<lparr>rn_key = CLAUDE_CODE_LOCAL, rn_displayName = ''Claude Code'', rn_version = ''1'', rn_enabled = True,
     rn_capability = Some
       \<lparr>cb_schemaVersion = ''1.3.0'', cb_invocationModel = Process, cb_executionLocus = Own_infrastructure,
        cb_streamingFidelity = Fidelity_full, cb_rateLimitSignal = Signal_structured,
        cb_stabilityTier = Stable, cb_reportsCost = True, cb_resumable = False, cb_maxConcurrency = 2,
        cb_branchPatterns = [''factory/*''], cb_manifest = Json_null\<rparr>\<rparr>"

definition an_exec :: exec_world where
  "an_exec =
    \<lparr>xw_collate = code_unit_compare, xw_settings = \<lparr>ds_maxConcurrent = Some 3, ds_allowPreview = None\<rparr>,
     xw_enabled = True, xw_autoResume = True, xw_ceiling = \<lparr>limitUsd = Some 20, windowDays = 30, malformed = None\<rparr>,
     xw_now = 50, xw_runId = (\<lambda>ids. CHR ''r'' # concat ids),
     xw_manifest = toCapabilities a_runner (the (rn_capability a_runner)),
     xw_create = (\<lambda>_. None), xw_records = (\<lambda>_. None), xw_submit = (\<lambda>_. Inr ''pid 7''), xw_mark = (\<lambda>_. None),
     xw_open = (\<lambda>_. None), xw_deletable = (\<lambda>_. True), xw_iso = (\<lambda>_. ''then'')\<rparr>"

definition a_desk :: "stored_work_order list \<Rightarrow> run_row list \<Rightarrow> exec_state" where
  "a_desk orders rs =
    \<lparr>xs_orders = orders,
     xs_tables = \<lparr>dt_runners = [a_runner], dt_store = \<lparr>runs = rs, events = [], attempts = []\<rparr>, dt_windows = []\<rparr>,
     xs_parks = [], xs_tracked = [], xs_submitted = [], xs_recorded = [], xs_reported = Map.empty\<rparr>"

definition an_order :: generated_work_order where
  "an_order = assemble a_generation (order_coordinates a_generation)"

lemma an_exec_fresh: "xw_runId an_exec ids \<notin> set ids"
proof -
  have "length (concat ids) < length (xw_runId an_exec ids)" by (simp add: an_exec_def)
  moreover have "length i \<le> length (concat ids)" if "i \<in> set ids" for i
    using member_le_sum_list[of "length i" "map length ids"] that by (simp add: length_concat)
  ultimately show ?thesis using not_less by blast
qed

lemma an_order_dispatched:
  "dispatchWorkOrder an_exec an_order ''w1'' (a_desk [a_row] []) =
    (Some (Ex_dispatched ''r'' CLAUDE_CODE_LOCAL (Dispatched_to (gw_identity an_order) CLAUDE_CODE_LOCAL ''r'')),
     snd (dispatchWorkOrder an_exec an_order ''w1'' (a_desk [a_row] [])))"
proof -
  have "fst (dispatchWorkOrder an_exec an_order ''w1'' (a_desk [a_row] [])) =
      Some (Ex_dispatched ''r'' CLAUDE_CODE_LOCAL (Dispatched_to (gw_identity an_order) CLAUDE_CODE_LOCAL ''r''))"
    by code_simp
  then show ?thesis by (metis prod.collapse)
qed

lemma dispatch_leaves_witness:
  "xs_submitted (snd (dispatchWorkOrder an_exec an_order ''w1'' (a_desk [a_row] []))) = [toSpec an_order ''r''] \<and>
   xs_tracked (snd (dispatchWorkOrder an_exec an_order ''w1'' (a_desk [a_row] []))) = [''r'']"
proof -
  have "xs_submitted (a_desk [a_row] []) = []" "xs_tracked (a_desk [a_row] []) = []" by (simp_all add: a_desk_def)
  with dispatch_leaves[OF an_order_dispatched an_exec_fresh] show ?thesis by simp
qed

lemma drain_keeps_ceiling_witness:
  "totalUsd (tally 30 50 (exec_store (snd (drain an_exec (\<lambda>_. []) (a_desk [a_row] []))))) \<le> 20"
proof -
  have c: "limitUsd (xw_ceiling an_exec) = Some 20" "windowDays (xw_ceiling an_exec) = 30" "xw_now an_exec = 50"
    by (simp_all add: an_exec_def)
  have d: "xs_orders (a_desk [a_row] []) = [a_row]" "runs (exec_store (a_desk [a_row] [])) = []"
    by (simp_all add: a_desk_def exec_store_def)
  have "sw_budgetCeilingUsd a_row = Some 5" by (simp add: a_row_def order_row_def assemble_def Let_def a_generation_def)
  moreover have "whole_cents 5" using whole_cents_of_int[of 5] by simp
  moreover have "totalUsd (tally 30 50 (exec_store (a_desk [a_row] []))) \<le> 20"
    using to_cents_whole[OF whole_cents_of_int[of 0]] by (simp add: tally_total d)
  ultimately show ?thesis
    using drain_keeps_ceiling[of an_exec 20 "a_desk [a_row] []" "\<lambda>_. []"] an_exec_fresh by (simp add: c d)
qed

lemma drain_submits_stored_orders_witness:
  "\<exists>new. xs_submitted (snd (drain an_exec (\<lambda>_. []) (a_desk [a_row] []))) = new \<and> length new \<le> 25 \<and>
    (\<forall>spec \<in> set new. \<exists>order. rehydrateWorkOrder a_row = Inr order \<and> spec = toSpec order (wos_runId spec))"
proof -
  have "xs_orders (a_desk [a_row] []) = [a_row]" "xs_submitted (a_desk [a_row] []) = []" by (simp_all add: a_desk_def)
  with drain_submits_stored_orders[of an_exec "a_desk [a_row] []" "\<lambda>_. []"] an_exec_fresh show ?thesis by fastforce
qed

text \<open>A run parked on a limit, its order dispatched, and the watchdog's word that it is due.\<close>

definition a_parked_run :: run_row where
  "a_parked_run = (new_run ''r'' CLAUDE_CODE_LOCAL an_exec a_row (a_desk [] []))
     \<lparr>run_status := Run_blocked, run_resumesAt := Some 40\<rparr>"

definition a_resume :: reconcile_action where
  "a_resume = (mk_action ''acme/My.Repo'' 312 (watchdog_evidence Intent_blocked [] Run_blocked) Act_resume
     (From_projection Not_ready))\<lparr>act_runId := Some ''r''\<rparr>"

definition an_observation :: "string list \<Rightarrow> observed_state" where
  "an_observation inputs =
    \<lparr>os_repository = \<lparr>orp_id = ''r1'', orp_owner = ''acme'', orp_name = ''My.Repo'', observeEnabled = True,
       dispatchEnabled = True, orp_budgetCeilingUsd = None\<rparr>,
     os_issues = [an_issue 312 inputs],
     os_workOrders = [\<lparr>ow_id = ''w1'', ow_identity = gw_identity an_order, ow_issueNumber = 312, ow_attempt = 1,
       ow_status = WO_dispatched, ow_run = Some \<lparr>or_id = ''r'', or_status = Run_blocked, or_costUsd = None,
         or_pullRequestUrl = None, or_checks = None\<rparr>\<rparr>],
     humanClearedQuarantine = {}, retryCeiling = 3\<rparr>"

definition a_parked_desk :: exec_state where
  "a_parked_desk = a_desk [a_row\<lparr>sw_status := WO_dispatched\<rparr>] [a_parked_run]"

lemma a_resume_happens:
  "xs_submitted (snd (execute_resumes an_exec [a_resume] [projectDesiredState (an_observation [INPUT_READY])] a_parked_desk)) =
    [toSpec an_order ''r'']"
  by code_simp

lemma resume_passes_every_gate_witness:
  "run_status a_parked_run = Run_blocked \<and>
   intentsByIssue [projectDesiredState (an_observation [INPUT_READY])] (''acme/My.Repo'', 312) = Some Intent_blocked"
proof -
  have "runs (exec_store a_parked_desk) = [a_parked_run]" "xs_submitted a_parked_desk = []"
    by (simp_all add: a_parked_desk_def a_desk_def exec_store_def)
  with resume_passes_every_gate[of a_parked_desk an_exec "[a_resume]" "[projectDesiredState (an_observation [INPUT_READY])]"]
    a_resume_happens
  show ?thesis by (auto simp: a_resume_def)
qed

lemma hold_keeps_runs_parked_witness:
  "snd (execute_resumes an_exec [a_resume] [projectDesiredState (an_observation [INPUT_READY, INPUT_HOLD])] a_parked_desk) =
    a_parked_desk"
proof -
  let ?os = "an_observation [INPUT_READY, INPUT_HOLD]"
  have i: "an_issue 312 [INPUT_READY, INPUT_HOLD] \<in> set (os_issues ?os)"
    "INPUT_HOLD \<in> set (inputLabels (an_issue 312 [INPUT_READY, INPUT_HOLD]))"
    "ni_number (an_issue 312 [INPUT_READY, INPUT_HOLD]) = 312"
    by (simp_all add: an_observation_def an_issue_def)
  have r: "''acme/My.Repo'' = orp_owner (os_repository ?os) @ ''/'' @ orp_name (os_repository ?os)"
    by (simp add: an_observation_def)
  have "distinct (concat (map (\<lambda>p. map (\<lambda>i. (ds_repository p, ds_issueNumber i)) (ds_issues p)) [projectDesiredState ?os]))"
    by (simp add: projectDesiredState_def Let_def an_observation_def)
  from hold_keeps_runs_parked[OF _ i(1,2) r, of "[?os]" "[projectDesiredState ?os]" an_exec "[a_resume]" a_parked_desk] this i(3)
  show ?thesis by (simp add: a_resume_def execute_resumes_def)
qed


section \<open>Where the executor falls short\<close>

text \<open>A dispatch that fails before any runner has the work is charged at the order's full ceiling, and the
  order is as it was, so the next drain does it again.\<close>

lemma failed_dispatch_is_charged:
  assumes "dispatchWorkOrder w order oid st = (Some (Ex_failed runId why), st')" "\<And>ids. xw_runId w ids \<notin> set ids"
    "find (\<lambda>r. sw_id r = oid) (xs_orders st) = Some row" "sw_budgetCeilingUsd row = Some c"
    "0 \<le> windowDays (xw_ceiling w)" "whole_cents c" "\<And>r. r \<in> set (runs (exec_store st)) \<Longrightarrow> whole_cents (charged r)"
  shows "totalUsd (tally (windowDays (xw_ceiling w)) (xw_now w) (exec_store st')) =
    totalUsd (tally (windowDays (xw_ceiling w)) (xw_now w) (exec_store st)) + c \<and> xs_orders st' = xs_orders st"
proof -
  let ?d = "windowDays (xw_ceiling w)" and ?n = "xw_now w"
  let ?S = "\<Sum>r\<leftarrow>filter (in_window ?d ?n) (runs (exec_store st)). charged r"
  have fresh: "fresh_run w st \<notin> run_id ` set (runs (exec_store st))"
    by (rule fresh_idsD) (simp add: fresh_ids_def assms(2))
  have "\<exists>run. runs (exec_store st') = runs (exec_store st) @ [run] \<and> charged run = c \<and> run_startedAt run = ?n \<and>
      xs_orders st' = xs_orders st"
    using assms(1) fresh
  proof (rule dispatch_effect, goal_cases)
    case (3 decision row' run message)
    have "row' = row" using 3(1) assms(3) by (simp add: dispatch_gates_def)
    then have "charged (failed_run run message ?n) = c" "run_startedAt (failed_run run message ?n) = ?n"
      using 3(3) assms(4) by (simp_all add: charged_new_run)
    with 3(4,6) show ?case by blast
  qed auto
  then obtain run where run: "runs (exec_store st') = runs (exec_store st) @ [run]" "charged run = c" "run_startedAt run = ?n"
    "xs_orders st' = xs_orders st" by blast
  have "whole_cents ?S" using assms(7) by (intro whole_cents_sum) simp
  then have "to_cents ?S = ?S" "to_cents (?S + c) = ?S + c" using assms(6) by (simp_all add: to_cents_whole whole_cents_add)
  moreover have "in_window ?d ?n run" using run(3) assms(5) by (simp add: in_window_def DAY_MS_def)
  ultimately show ?thesis using run by (simp add: tally_total)
qed

text \<open>While the records cannot be written, two drains of one five-dollar order use up a ceiling of
  twelve: nothing was submitted, and the third is refused for the money.\<close>

definition an_outage :: exec_world where
  "an_outage = an_exec\<lparr>xw_records := (\<lambda>_. Some ''502''),
     xw_ceiling := \<lparr>limitUsd = Some 12, windowDays = 30, malformed = None\<rparr>\<rparr>"

lemma outage_spends_the_ceiling:
  "let st = snd (drain an_outage (\<lambda>_. []) (snd (drain an_outage (\<lambda>_. []) (a_desk [a_row] []))))
   in xs_submitted st = [] \<and>
      (case fst (dispatchWorkOrder (an_exec\<lparr>xw_ceiling := xw_ceiling an_outage\<rparr>) an_order ''w1'' st) of
         Some (Ex_queued (Some Hard_spend_ceiling_reached) why) \<Rightarrow> True | _ \<Rightarrow> False)"
  by code_simp

text \<open>When the write of the order's status fails after the runner took the work, the live run is recorded as
  failed and the order stays queued: the next drain hands the same order to a runner again.\<close>

lemma live_run_recorded_as_failed:
  "let w = an_exec\<lparr>xw_mark := (\<lambda>_. Some ''timeout'')\<rparr>;
       st1 = snd (drain w (\<lambda>_. []) (a_desk [a_row] []));
       st2 = snd (drain w (\<lambda>_. []) st1)
   in map run_status (runs (exec_store st1)) = [Run_failed] \<and> xs_tracked st1 = [''r''] \<and>
      map wos_identity (xs_submitted st2) = [gw_identity an_order, gw_identity an_order]"
  by code_simp


end
