(* ===== verification/Escalations.thy ===== *)
theory Escalations
  imports Actions Js_Text Row_History
begin

text \<open>
  Escalations as records (\<open>escalations/escalations.service.ts\<close>, \<open>escalations/detection-latency.ts\<close>):
  raising them from the actions of a tick, one per outstanding problem; the escalations of the
  control plane itself; acknowledging, resolving and marking one delivered; and the latencies the
  cockpit shows. A function that may throw gives no result and the table as the throw left it.
\<close>

section \<open>Rows\<close>

datatype escalation_status =
  Es_raised | Es_dispatched | Es_delivered | Es_failed | Es_acknowledged | Es_resolved

definition UNRESOLVED :: "escalation_status list" where
  "UNRESOLVED = [Es_raised, Es_dispatched, Es_delivered, Es_failed]"

datatype escalation_body = From_action action_reason | Free_text string

text \<open>Why nothing took a page, as \<open>notifications/escalation-dispatcher.service.ts\<close> writes it down.\<close>

datatype failure_reason =
    Push_not_configured
  | No_devices
  | All_rejected nat "(nat option \<times> string) list"
  | Rerouted failure_reason
  | Unconfirmed int "failure_reason option"

record escalation_row =
  es_id :: string
  es_runId :: "string option"
  es_kind :: escalation_kind
  es_status :: escalation_status
  es_summary :: string
  es_detail :: escalation_body
  es_progressStoppedAt :: "instant option"
  es_detectionSource :: "liveness_source option"
  es_detectLatencyMs :: "int option"
  es_notifyLatencyMs :: "int option"
  es_transport :: "string option"
  es_receiptId :: "string option"
  es_failureReason :: "failure_reason option"
  es_deliveryAttempts :: nat
  es_raisedAt :: instant
  es_dispatchedAt :: "instant option"
  es_deliveredAt :: "instant option"
  es_acknowledgedAt :: "instant option"
  es_acknowledgedById :: "string option"

text \<open>
  What \<open>raiseFrom\<close> reads of an action. The callers cast: an action built by hand may lack its place
  and its evidence, and names its source by a string.
\<close>

record raised_action =
  ra_type :: reconcile_action_type
  ra_runId :: "string option"
  ra_kind :: "escalation_kind option"
  ra_reason :: escalation_body
  ra_place :: "(string \<times> int) option"
  ra_evidence :: "action_evidence option"
  ra_progressStoppedAt :: "instant option"
  ra_detectionSource :: "string option"

fun detection_source_name :: "liveness_source \<Rightarrow> string" where
  "detection_source_name Source_runner = ''runner''"
| "detection_source_name Source_git = ''git''"
| "detection_source_name Source_control_plane = ''control_plane''"

definition detection_source_named :: "string \<Rightarrow> liveness_source option" where
  "detection_source_named s =
     find (\<lambda>l. detection_source_name l = s) [Source_runner, Source_git, Source_control_plane]"

lemma detection_source_named_name [simp]: "detection_source_named (detection_source_name l) = Some l"
  by (cases l) (simp_all add: detection_source_named_def)

definition raised_of :: "reconcile_action \<Rightarrow> raised_action" where
  "raised_of a =
     \<lparr>ra_type = act_type a, ra_runId = act_runId a, ra_kind = escalationKind a,
      ra_reason = From_action (act_reason a), ra_place = Some (act_repository a, act_issueNumber a),
      ra_evidence = Some (evidence a), ra_progressStoppedAt = act_progressStoppedAt a,
      ra_detectionSource = map_option detection_source_name (act_detectionSource a)\<rparr>"

text \<open>The two samples of the latency metric.\<close>

record latency_event =
  le_identity :: "string option"
  le_repository :: string
  le_kind :: escalation_kind
  le_source :: "liveness_source option"
  le_stoppedAt :: instant
  le_raisedAt :: instant
  le_deliveredAt :: "instant option"

record escalation_state =
  escalation_rows :: "escalation_row list"
  detected_samples :: "latency_event list"
  notified_samples :: "latency_event list"

text \<open>What the database does: the identifier it gives, and the rows it accepts.\<close>

record escalation_world =
  ew_newId :: "escalation_row list \<Rightarrow> string"
  ew_storable :: "escalation_row \<Rightarrow> bool"

section \<open>Raising\<close>

definition int_text :: "int \<Rightarrow> string" where
  "int_text n = (if n < 0 then ''-'' @ decimal (nat (- n)) else decimal (nat n))"

definition place_text :: "(string \<times> int) option \<Rightarrow> string" where
  "place_text p = (case p of None \<Rightarrow> ''undefined#undefined'' | Some (repo, n) \<Rightarrow> repo @ ''#'' @ int_text n)"

fun escalation_phrase :: "escalation_kind option \<Rightarrow> string" where
  "escalation_phrase (Some Esc_run_stalled) = '' stalled''"
| "escalation_phrase (Some Esc_run_looping) = '' is looping''"
| "escalation_phrase (Some Esc_run_failed) = '' failed''"
| "escalation_phrase (Some Esc_quarantined) = '' quarantined''"
| "escalation_phrase (Some Esc_budget_exceeded) = '' hit its budget ceiling''"
| "escalation_phrase _ = '' needs attention''"

text \<open>\<open>action.evidence.workOrderIdentity\<close> of an action without evidence throws.\<close>

definition summarize :: "raised_action \<Rightarrow> string option" where
  "summarize a =
    (case ra_evidence a of
       None \<Rightarrow> None
     | Some ev \<Rightarrow>
         let place = place_text (ra_place a)
         in Some (get_or place (ev_workOrderIdentity ev) @ escalation_phrase (ra_kind a) @ '' ('' @ place @ '')''))"

definition elapsed :: "instant \<Rightarrow> instant \<Rightarrow> int" where
  "elapsed start stop = max 0 (stop - start)"

record raise_result =
  rz_raised :: nat
  rz_deduplicated :: nat

definition outstanding :: "string option \<Rightarrow> escalation_kind \<Rightarrow> escalation_row \<Rightarrow> bool" where
  "outstanding run kind r \<longleftrightarrow> es_runId r = run \<and> es_kind r = kind \<and> es_status r \<in> set UNRESOLVED"

definition kind_of :: "raised_action \<Rightarrow> escalation_kind" where
  "kind_of a = get_or Esc_system (ra_kind a)"

definition new_escalation ::
  "string \<Rightarrow> string option \<Rightarrow> escalation_kind \<Rightarrow> string \<Rightarrow> escalation_body \<Rightarrow> instant \<Rightarrow> instant option \<Rightarrow>
   liveness_source option \<Rightarrow> escalation_row" where
  "new_escalation eid run kind summary detail raisedAt stopped source =
     \<lparr>es_id = eid, es_runId = run, es_kind = kind, es_status = Es_raised, es_summary = summary,
      es_detail = detail, es_progressStoppedAt = stopped, es_detectionSource = source,
      es_detectLatencyMs = map_option (\<lambda>t. elapsed t raisedAt) stopped, es_notifyLatencyMs = None,
      es_transport = None, es_receiptId = None, es_failureReason = None, es_deliveryAttempts = 0,
      es_raisedAt = raisedAt, es_dispatchedAt = None, es_deliveredAt = None, es_acknowledgedAt = None,
      es_acknowledgedById = None\<rparr>"

text \<open>The row an action becomes; none when building it throws.\<close>

definition escalation_of :: "escalation_world \<Rightarrow> instant \<Rightarrow> raised_action \<Rightarrow> escalation_row list \<Rightarrow> escalation_row option" where
  "escalation_of w now a rows =
    (case summarize a of
       None \<Rightarrow> None
     | Some text \<Rightarrow>
         (case ra_detectionSource a of
            None \<Rightarrow> Some (new_escalation (ew_newId w rows) (ra_runId a) (kind_of a) text (ra_reason a) now
                           (ra_progressStoppedAt a) None)
          | Some s \<Rightarrow>
              map_option (\<lambda>l. new_escalation (ew_newId w rows) (ra_runId a) (kind_of a) text (ra_reason a) now
                           (ra_progressStoppedAt a) (Some l))
                (detection_source_named s)))"

definition detection_of :: "raised_action \<Rightarrow> escalation_row \<Rightarrow> latency_event list" where
  "detection_of a r =
    (case es_progressStoppedAt r of
       None \<Rightarrow> []
     | Some t \<Rightarrow>
         [\<lparr>le_identity = Option.bind (ra_evidence a) ev_workOrderIdentity,
           le_repository = (case ra_place a of None \<Rightarrow> ''undefined'' | Some (repo, n) \<Rightarrow> repo),
           le_kind = es_kind r, le_source = es_detectionSource r, le_stoppedAt = t,
           le_raisedAt = es_raisedAt r, le_deliveredAt = None\<rparr>])"

definition raise_one ::
  "escalation_world \<Rightarrow> instant \<Rightarrow> raised_action \<Rightarrow> escalation_state \<Rightarrow> (bool \<times> escalation_state) option" where
  "raise_one w now a st =
    (if \<exists>r \<in> set (escalation_rows st). outstanding (ra_runId a) (kind_of a) r then Some (False, st)
     else case escalation_of w now a (escalation_rows st) of
       None \<Rightarrow> None
     | Some r \<Rightarrow>
         if \<not> ew_storable w r then None
         else Some (True, st\<lparr>escalation_rows := escalation_rows st @ [r],
                              detected_samples := detected_samples st @ detection_of a r\<rparr>))"

fun raise_each ::
  "escalation_world \<Rightarrow> instant \<Rightarrow> raised_action list \<Rightarrow> raise_result \<Rightarrow> escalation_state \<Rightarrow>
   raise_result option \<times> escalation_state" where
  "raise_each w now [] res st = (Some res, st)"
| "raise_each w now (a # as) res st =
    (case raise_one w now a st of
       None \<Rightarrow> (None, st)
     | Some (True, st') \<Rightarrow> raise_each w now as (res\<lparr>rz_raised := rz_raised res + 1\<rparr>) st'
     | Some (False, st') \<Rightarrow> raise_each w now as (res\<lparr>rz_deduplicated := rz_deduplicated res + 1\<rparr>) st')"

definition raiseFrom ::
  "escalation_world \<Rightarrow> instant \<Rightarrow> raised_action list \<Rightarrow> escalation_state \<Rightarrow> raise_result option \<times> escalation_state" where
  "raiseFrom w now actions st =
     raise_each w now (filter (\<lambda>a. ra_type a = Act_escalate) actions) \<lparr>rz_raised = 0, rz_deduplicated = 0\<rparr> st"

section \<open>The control plane's own escalations\<close>

definition raise_system ::
  "escalation_world \<Rightarrow> string \<Rightarrow> string \<Rightarrow> instant \<Rightarrow> escalation_state \<Rightarrow> string option \<times> escalation_state" where
  "raise_system w summary detail raisedAt st =
    (let r = new_escalation (ew_newId w (escalation_rows st)) None Esc_system summary (Free_text detail) raisedAt None None
     in if ew_storable w r then (Some (es_id r), st\<lparr>escalation_rows := escalation_rows st @ [r]\<rparr>)
        else (None, st))"

definition standing :: "string \<Rightarrow> escalation_row \<Rightarrow> bool" where
  "standing summary r \<longleftrightarrow> outstanding None Esc_system r \<and> es_summary r = summary"

text \<open>The identifier and whether it was already standing.\<close>

definition raiseSystemOnce ::
  "escalation_world \<Rightarrow> string \<Rightarrow> string \<Rightarrow> instant \<Rightarrow> escalation_state \<Rightarrow>
   (string \<times> bool) option \<times> escalation_state" where
  "raiseSystemOnce w summary detail raisedAt st =
    (case js_sort (by_key es_raisedAt) (filter (standing summary) (escalation_rows st)) of
       r # rest \<Rightarrow> (Some (es_id r, True), st)
     | [] \<Rightarrow> (case raise_system w summary detail raisedAt st of
                (None, st') \<Rightarrow> (None, st')
              | (Some eid, st') \<Rightarrow> (Some (eid, False), st')))"

definition resolve_row :: "escalation_row \<Rightarrow> escalation_row" where
  "resolve_row r = r\<lparr>es_status := Es_resolved\<rparr>"

definition resolveSystem :: "string \<Rightarrow> escalation_state \<Rightarrow> nat \<times> escalation_state" where
  "resolveSystem summary st =
    (let (count, rows) = update_many (standing summary) resolve_row (escalation_rows st)
     in (count, st\<lparr>escalation_rows := rows\<rparr>))"

definition resolveStale :: "string list \<Rightarrow> escalation_state \<Rightarrow> nat \<times> escalation_state" where
  "resolveStale runIds st =
    (if runIds = [] then (0, st)
     else let (count, rows) =
            update_many (\<lambda>r. (\<exists>i \<in> set runIds. es_runId r = Some i) \<and> es_status r \<in> set UNRESOLVED) resolve_row
              (escalation_rows st)
          in (count, st\<lparr>escalation_rows := rows\<rparr>))"

section \<open>One escalation\<close>

definition find_escalation :: "string \<Rightarrow> escalation_row list \<Rightarrow> escalation_row option" where
  "find_escalation eid rows = find (\<lambda>r. es_id r = eid) rows"

definition update_row :: "string \<Rightarrow> (escalation_row \<Rightarrow> escalation_row) \<Rightarrow> escalation_state \<Rightarrow> escalation_state" where
  "update_row eid f st = st\<lparr>escalation_rows := snd (update_many (\<lambda>r. es_id r = eid) f (escalation_rows st))\<rparr>"

definition acknowledge_row :: "string \<Rightarrow> instant \<Rightarrow> escalation_row \<Rightarrow> escalation_row" where
  "acknowledge_row userId now r =
     r\<lparr>es_status := Es_acknowledged, es_acknowledgedAt := Some now, es_acknowledgedById := Some userId\<rparr>"

text \<open>None is the 404.\<close>

definition acknowledge ::
  "string \<Rightarrow> string \<Rightarrow> instant \<Rightarrow> escalation_state \<Rightarrow> escalation_row option \<times> escalation_state" where
  "acknowledge eid userId now st =
    (case find_escalation eid (escalation_rows st) of
       None \<Rightarrow> (None, st)
     | Some r \<Rightarrow>
         if es_acknowledgedAt r \<noteq> None then (Some r, st)
         else (Some (acknowledge_row userId now r), update_row eid (acknowledge_row userId now) st))"

definition delivered_row :: "string \<Rightarrow> string option \<Rightarrow> instant \<Rightarrow> escalation_row \<Rightarrow> escalation_row" where
  "delivered_row transport receipt t r =
     r\<lparr>es_status := Es_delivered, es_transport := Some transport, es_receiptId := receipt,
       es_deliveredAt := Some t,
       es_notifyLatencyMs := map_option (\<lambda>stopped. elapsed stopped t) (es_progressStoppedAt r),
       es_deliveryAttempts := es_deliveryAttempts r + 1\<rparr>"

definition order_of_run :: "run_row list \<Rightarrow> escalation_row \<Rightarrow> work_order_row option" where
  "order_of_run allRuns r =
     Option.bind (es_runId r) (\<lambda>i. map_option run_workOrder (find (\<lambda>run. run_id run = i) allRuns))"

definition repositoryName :: "work_order_row option \<Rightarrow> string" where
  "repositoryName o' = (case o' of None \<Rightarrow> ''unknown'' | Some o' \<Rightarrow> wo_repository o')"

definition notified_of :: "run_row list \<Rightarrow> instant \<Rightarrow> escalation_row \<Rightarrow> latency_event list" where
  "notified_of allRuns t r =
    (case es_progressStoppedAt r of
       None \<Rightarrow> []
     | Some stopped \<Rightarrow>
         [\<lparr>le_identity = map_option wo_identity (order_of_run allRuns r),
           le_repository = repositoryName (order_of_run allRuns r), le_kind = es_kind r,
           le_source = es_detectionSource r, le_stoppedAt = stopped, le_raisedAt = es_raisedAt r,
           le_deliveredAt = Some t\<rparr>])"

definition markDelivered ::
  "run_row list \<Rightarrow> string \<Rightarrow> string \<Rightarrow> string option \<Rightarrow> instant \<Rightarrow> escalation_state \<Rightarrow>
   escalation_row option \<times> escalation_state" where
  "markDelivered allRuns eid transport receipt t st =
    (case find_escalation eid (escalation_rows st) of
       None \<Rightarrow> (None, st)
     | Some r \<Rightarrow>
         if es_deliveredAt r \<noteq> None then (Some r, st)
         else (Some (delivered_row transport receipt t r),
               (update_row eid (delivered_row transport receipt t) st)
                 \<lparr>notified_samples := notified_samples st @ notified_of allRuns t r\<rparr>))"

section \<open>Reading\<close>

record escalation_query =
  eq_page :: nat
  eq_pageSize :: nat
  eq_status :: "escalation_status option"
  eq_unresolvedOnly :: bool
  eq_runId :: "string option"

text \<open>Both spreads write the key \<open>status\<close>: with \<open>unresolvedOnly\<close> the second wins.\<close>

definition matches_query :: "escalation_query \<Rightarrow> escalation_row \<Rightarrow> bool" where
  "matches_query q r \<longleftrightarrow>
     (if eq_unresolvedOnly q then es_status r \<in> set UNRESOLVED
      else eq_status q = None \<or> eq_status q = Some (es_status r)) \<and>
     (eq_runId q = None \<or> eq_runId q = Some [] \<or> eq_runId q = es_runId r)"

definition list_escalations :: "escalation_query \<Rightarrow> escalation_row list \<Rightarrow> escalation_row list \<times> nat" where
  "list_escalations q rows =
    (let found = filter (matches_query q) rows
     in (take (eq_pageSize q) (drop ((eq_page q - 1) * eq_pageSize q)
           (js_sort (by_key (\<lambda>r. - es_raisedAt r)) found)),
         length found))"

section \<open>Latencies\<close>

record latency_stats =
  lt_count :: nat
  p50Ms :: "int option"
  p90Ms :: "int option"
  p99Ms :: "int option"
  maxMs :: "int option"

definition MAX_SAMPLES :: nat where "MAX_SAMPLES = 10000"

text \<open>
  Nearest rank. The fractions are those of \<open>stats\<close>, for which the ceiling of the double product is
  that of the exact one at every length up to the cap.
\<close>

definition percentile :: "int list \<Rightarrow> rat \<Rightarrow> int" where
  "percentile ranked fraction =
     ranked ! (min (length ranked) (max 1 (nat \<lceil>fraction * of_nat (length ranked)\<rceil>)) - 1)"

definition latency_stats_of :: "int list \<Rightarrow> latency_stats" where
  "latency_stats_of samples =
    (if samples = [] then \<lparr>lt_count = 0, p50Ms = None, p90Ms = None, p99Ms = None, maxMs = None\<rparr>
     else let ranked = js_sort (by_key id) samples
          in \<lparr>lt_count = length ranked, p50Ms = Some (percentile ranked (1 / 2)),
              p90Ms = Some (percentile ranked (9 / 10)), p99Ms = Some (percentile ranked (99 / 100)),
              maxMs = Some (ranked ! (length ranked - 1))\<rparr>)"

record latency_summary =
  lt_notified :: latency_stats
  lt_detected :: latency_stats
  awaitingNotification :: nat
  unmeasurable :: int

definition present :: "'a option list \<Rightarrow> 'a list" where
  "present xs = map the (filter (\<lambda>x. x \<noteq> None) xs)"

definition summarizeLatency :: "escalation_row list \<Rightarrow> latency_summary" where
  "summarizeLatency rows =
    (let measurable = filter (\<lambda>r. es_progressStoppedAt r \<noteq> None) rows
     in \<lparr>lt_notified = latency_stats_of (present (map es_notifyLatencyMs measurable)),
         lt_detected = latency_stats_of (present (map es_detectLatencyMs measurable)),
         awaitingNotification = length (filter (\<lambda>r. es_notifyLatencyMs r = None) measurable),
         unmeasurable = int (length rows) - int (length measurable)\<rparr>)"

record latency_query =
  lq_since :: "instant option"
  lq_until :: "instant option"
  lq_repository :: "string option"

record latency_view =
  lv_truncated :: bool
  lv_sampleSize :: nat
  lv_summary :: latency_summary
  lv_bySource :: "(liveness_source \<times> latency_summary) list"

definition repository_matches :: "run_row list \<Rightarrow> string option \<Rightarrow> escalation_row \<Rightarrow> bool" where
  "repository_matches allRuns q r \<longleftrightarrow>
    (case q of
       None \<Rightarrow> True
     | Some repo \<Rightarrow> repo = [] \<or>
         (case order_of_run allRuns r of
            None \<Rightarrow> False
          | Some o' \<Rightarrow>
              wo_repository o' =
                takeWhile (\<lambda>c. c \<noteq> CHR ''/'') repo @ ''/'' @ drop 1 (dropWhile (\<lambda>c. c \<noteq> CHR ''/'') repo)))"

definition in_latency_window :: "latency_query \<Rightarrow> escalation_row \<Rightarrow> bool" where
  "in_latency_window q r \<longleftrightarrow>
     (case lq_since q of None \<Rightarrow> True | Some t \<Rightarrow> t \<le> es_raisedAt r) \<and>
     (case lq_until q of None \<Rightarrow> True | Some t \<Rightarrow> es_raisedAt r \<le> t)"

definition latencySummary :: "run_row list \<Rightarrow> latency_query \<Rightarrow> escalation_row list \<Rightarrow> latency_view" where
  "latencySummary allRuns q rows =
    (let found = take (MAX_SAMPLES + 1) (js_sort (by_key (\<lambda>r. - es_raisedAt r))
           (filter (\<lambda>r. in_latency_window q r \<and> repository_matches allRuns (lq_repository q) r) rows));
         truncated = MAX_SAMPLES < length found;
         sample = (if truncated then take MAX_SAMPLES found else found)
     in \<lparr>lv_truncated = truncated, lv_sampleSize = length sample, lv_summary = summarizeLatency sample,
         lv_bySource = map (\<lambda>s. (s, summarizeLatency (filter (\<lambda>r. es_detectionSource r = Some s) sample)))
           [Source_runner, Source_git, Source_control_plane]\<rparr>)"

end
