(* ===== verification/Escalation_Dispatch.thy ===== *)
theory Escalation_Dispatch
  imports Escalations
begin

text \<open>
  Telling somebody (\<open>notifications/escalation-dispatcher.service.ts\<close> with the devices of
  \<open>push-subscriptions.service.ts\<close>, the two transports and \<open>notification-payload.ts\<close>): a pass sends
  what is owed to every device, falls back to the webhook, and fails what was sent and never
  confirmed. What the push service and the webhook answer are parameters.
\<close>

section \<open>Devices\<close>

record push_subscription =
  ps_id :: string
  ps_userId :: string
  ps_endpoint :: string
  ps_keys :: "string \<times> string"
  ps_userAgent :: "string option"
  ps_failureCount :: nat
  ps_lastSuccessAt :: "instant option"
  ps_lastFailureAt :: "instant option"
  ps_createdAt :: instant

definition MAX_CONSECUTIVE_FAILURES :: nat where "MAX_CONSECUTIVE_FAILURES = 5"

record subscribe_input =
  sb_endpoint :: string
  sb_keys :: "string \<times> string"
  sb_userAgent :: "string option"

text \<open>An upsert on the endpoint; \<open>newId\<close> is the identifier an insert would get.\<close>

definition subscribe ::
  "string \<Rightarrow> string \<Rightarrow> subscribe_input \<Rightarrow> instant \<Rightarrow> push_subscription list \<Rightarrow> push_subscription list" where
  "subscribe newId userId input now subs =
    (if sb_endpoint input \<in> ps_endpoint ` set subs
     then map (\<lambda>s. if ps_endpoint s = sb_endpoint input
                   then s\<lparr>ps_userId := userId, ps_keys := sb_keys input, ps_userAgent := sb_userAgent input,
                          ps_failureCount := 0, ps_lastFailureAt := None\<rparr> else s) subs
     else subs @ [\<lparr>ps_id = newId, ps_userId = userId, ps_endpoint = sb_endpoint input,
                   ps_keys = sb_keys input, ps_userAgent = sb_userAgent input, ps_failureCount = 0,
                   ps_lastSuccessAt = None, ps_lastFailureAt = None, ps_createdAt = now\<rparr>])"

definition list_subscriptions :: "string \<Rightarrow> push_subscription list \<Rightarrow> push_subscription list" where
  "list_subscriptions userId subs = js_sort (by_key (\<lambda>s. - ps_createdAt s)) (filter (\<lambda>s. ps_userId s = userId) subs)"

text \<open>None is the 404.\<close>

definition unsubscribe :: "string \<Rightarrow> string \<Rightarrow> push_subscription list \<Rightarrow> push_subscription list option" where
  "unsubscribe userId sid subs =
    (if \<exists>s \<in> set subs. ps_id s = sid \<and> ps_userId s = userId
     then Some (filter (\<lambda>s. \<not> (ps_id s = sid \<and> ps_userId s = userId)) subs) else None)"

definition targets :: "push_subscription list \<Rightarrow> push_subscription list" where
  "targets subs = filter (\<lambda>s. ps_failureCount s < MAX_CONSECUTIVE_FAILURES) subs"

definition recordSuccess :: "string \<Rightarrow> instant \<Rightarrow> push_subscription list \<Rightarrow> push_subscription list" where
  "recordSuccess sid now subs =
     snd (update_many (\<lambda>s. ps_id s = sid)
       (\<lambda>s. s\<lparr>ps_failureCount := 0, ps_lastSuccessAt := Some now, ps_lastFailureAt := None\<rparr>) subs)"

definition recordFailure :: "string \<Rightarrow> bool \<Rightarrow> instant \<Rightarrow> push_subscription list \<Rightarrow> push_subscription list" where
  "recordFailure sid gone now subs =
    (if gone then filter (\<lambda>s. ps_id s \<noteq> sid) subs
     else snd (update_many (\<lambda>s. ps_id s = sid)
            (\<lambda>s. s\<lparr>ps_failureCount := ps_failureCount s + 1, ps_lastFailureAt := Some now\<rparr>) subs))"

section \<open>A message and its transports\<close>

record notification_payload =
  np_escalationId :: string
  np_receiptId :: string
  np_title :: string
  np_body :: string
  np_why :: escalation_body
  np_consequence :: escalation_kind
  np_url :: string
  np_raisedAt :: instant

fun titleFor :: "escalation_kind \<Rightarrow> string" where
  "titleFor Esc_run_stalled = ''Run stalled''"
| "titleFor Esc_run_looping = ''Run looping''"
| "titleFor Esc_run_failed = ''Run failed''"
| "titleFor Esc_quarantined = ''Work order quarantined''"
| "titleFor Esc_budget_exceeded = ''Budget ceiling hit''"
| "titleFor Esc_system = ''Opifex needs attention''"

definition buildPayload :: "run_row list \<Rightarrow> string \<Rightarrow> string \<Rightarrow> escalation_row \<Rightarrow> notification_payload" where
  "buildPayload allRuns appUrl receipt r =
     \<lparr>np_escalationId = es_id r, np_receiptId = receipt, np_title = titleFor (es_kind r),
      np_body = es_summary r, np_why = es_detail r, np_consequence = es_kind r,
      np_url = (case order_of_run allRuns r of
                  Some o' \<Rightarrow> appUrl @ ''/runs?issue='' @ wo_repository o' @ ''%23'' @ int_text (wo_issueNumber o')
                | None \<Rightarrow> appUrl @ ''/escalations''),
      np_raisedAt = es_raisedAt r\<rparr>"

record send_outcome =
  so_targetId :: string
  so_accepted :: bool
  so_gone :: bool
  so_error :: "string option"
  so_statusCode :: "nat option"

text \<open>The vendor either answers with a status or throws, with a status when there was a response.\<close>

datatype vendor_answer = Vendor_answered nat | Vendor_threw "nat option" string

record dispatch_world =
  dw_runs :: "run_row list"
  dw_appUrl :: string
  dw_receiptTimeoutMs :: int
  dw_receipt :: "string \<Rightarrow> nat \<Rightarrow> string"
  dw_pushConfigured :: bool
  dw_push :: "push_subscription \<Rightarrow> notification_payload \<Rightarrow> vendor_answer"
  dw_webhookUrl :: string
  dw_webhook :: "notification_payload \<Rightarrow> vendor_answer"

definition GONE_STATUSES :: "nat list" where "GONE_STATUSES = [404, 410]"

definition push_send :: "dispatch_world \<Rightarrow> notification_payload \<Rightarrow> push_subscription \<Rightarrow> send_outcome" where
  "push_send w payload t =
    (if \<not> dw_pushConfigured w
     then \<lparr>so_targetId = ps_id t, so_accepted = False, so_gone = False,
           so_error = Some ''Web Push is not configured'', so_statusCode = None\<rparr>
     else (case dw_push w t payload of
             Vendor_answered n \<Rightarrow> \<lparr>so_targetId = ps_id t, so_accepted = True, so_gone = False, so_error = None,
                            so_statusCode = Some n\<rparr>
           | Vendor_threw n why \<Rightarrow> \<lparr>so_targetId = ps_id t, so_accepted = False,
                            so_gone = (case n of None \<Rightarrow> False | Some c \<Rightarrow> c \<in> set GONE_STATUSES),
                            so_error = Some why, so_statusCode = n\<rparr>))"

text \<open>What the webhook is sent does not carry the receipt.\<close>

definition WEBHOOK_TARGET :: string where "WEBHOOK_TARGET = ''fallback-webhook''"

definition webhook_send :: "dispatch_world \<Rightarrow> notification_payload \<Rightarrow> send_outcome" where
  "webhook_send w payload =
    (let refused = (\<lambda>why n. \<lparr>so_targetId = WEBHOOK_TARGET, so_accepted = False, so_gone = False,
                              so_error = Some why, so_statusCode = n\<rparr>)
     in if dw_webhookUrl w = [] then refused ''No fallback transport is configured'' None
        else (case dw_webhook w (payload\<lparr>np_receiptId := []\<rparr>) of
                Vendor_threw n why \<Rightarrow> refused why None
              | Vendor_answered n \<Rightarrow>
                  if 200 \<le> n \<and> n \<le> 299
                  then \<lparr>so_targetId = WEBHOOK_TARGET, so_accepted = True, so_gone = False, so_error = None,
                        so_statusCode = Some n\<rparr>
                  else refused (''Fallback webhook returned '' @ decimal n) (Some n)))"

definition describeFailure :: "nat \<Rightarrow> send_outcome list \<Rightarrow> bool \<Rightarrow> failure_reason" where
  "describeFailure targetCount outcomes configured =
    (if \<not> configured then Push_not_configured
     else if targetCount = 0 then No_devices
     else All_rejected targetCount
       (filter (\<lambda>(code, why). code \<noteq> None \<or> why \<noteq> [])
         (map (\<lambda>out. (if so_statusCode out = Some 0 then None else so_statusCode out, get_or [] (so_error out)))
            outcomes)))"

section \<open>A pass\<close>

definition MAX_DELIVERY_ATTEMPTS :: nat where "MAX_DELIVERY_ATTEMPTS = 5"
definition PASS_LIMIT :: nat where "PASS_LIMIT = 25"

record page_desk =
  pages :: escalation_state
  devices :: "push_subscription list"

record dispatch_result =
  ds_dispatched :: nat
  ds_failed :: nat
  ds_timedOut :: nat
  ds_rerouted :: nat
  ds_retried :: nat
  ds_abandoned :: nat

definition owed :: "escalation_row \<Rightarrow> bool" where
  "owed r \<longleftrightarrow> es_status r \<in> {Es_raised, Es_failed} \<and> es_deliveryAttempts r < MAX_DELIVERY_ATTEMPTS"

definition loadPending :: "escalation_row list \<Rightarrow> escalation_row list" where
  "loadPending rows = take PASS_LIMIT (js_sort (by_key es_raisedAt) (filter owed rows))"

definition record_outcome :: "instant \<Rightarrow> send_outcome \<Rightarrow> push_subscription list \<Rightarrow> push_subscription list" where
  "record_outcome now out subs =
    (if so_accepted out then recordSuccess (so_targetId out) now subs
     else recordFailure (so_targetId out) (so_gone out) now subs)"

definition PUSH :: string where "PUSH = ''push''"
definition WEBHOOK :: string where "WEBHOOK = ''webhook''"

definition dispatched_row :: "string \<Rightarrow> string \<Rightarrow> instant \<Rightarrow> escalation_row \<Rightarrow> escalation_row" where
  "dispatched_row transport receipt now r =
     r\<lparr>es_status := Es_dispatched, es_transport := Some transport, es_receiptId := Some receipt,
       es_dispatchedAt := Some now, es_deliveryAttempts := es_deliveryAttempts r + 1\<rparr>"

definition rerouted_row :: "string \<Rightarrow> failure_reason \<Rightarrow> instant \<Rightarrow> escalation_row \<Rightarrow> escalation_row" where
  "rerouted_row receipt why now r =
     (dispatched_row WEBHOOK receipt now r)\<lparr>es_failureReason := Some (Rerouted why)\<rparr>"

definition failed_row :: "failure_reason \<Rightarrow> escalation_row \<Rightarrow> escalation_row" where
  "failed_row why r =
     r\<lparr>es_status := Es_failed, es_failureReason := Some why, es_deliveryAttempts := es_deliveryAttempts r + 1\<rparr>"

text \<open>Whether the webhook took it.\<close>

definition reroute :: "dispatch_world \<Rightarrow> notification_payload \<Rightarrow> bool" where
  "reroute w payload \<longleftrightarrow> dw_webhookUrl w \<noteq> [] \<and> so_accepted (webhook_send w payload)"

definition deliver_page ::
  "dispatch_world \<Rightarrow> instant \<Rightarrow> escalation_row \<Rightarrow> dispatch_result \<times> page_desk \<Rightarrow> dispatch_result \<times> page_desk" where
  "deliver_page w now r acc =
    (let (res, desk) = acc;
         res = (if 0 < es_deliveryAttempts r then res\<lparr>ds_retried := ds_retried res + 1\<rparr> else res);
         receipt = dw_receipt w (es_id r) (es_deliveryAttempts r);
         payload = buildPayload (dw_runs w) (dw_appUrl w) receipt r;
         outcomes = map (push_send w payload) (targets (devices desk));
         desk = desk\<lparr>devices := fold (record_outcome now) outcomes (devices desk)\<rparr>;
         why = describeFailure (length outcomes) outcomes (dw_pushConfigured w)
     in if \<exists>out \<in> set outcomes. so_accepted out
        then (res\<lparr>ds_dispatched := ds_dispatched res + 1\<rparr>,
              desk\<lparr>pages := update_row (es_id r) (dispatched_row PUSH receipt now) (pages desk)\<rparr>)
        else if reroute w payload
        then (res\<lparr>ds_dispatched := ds_dispatched res + 1, ds_rerouted := ds_rerouted res + 1\<rparr>,
              desk\<lparr>pages := update_row (es_id r) (rerouted_row receipt why now) (pages desk)\<rparr>)
        else (res\<lparr>ds_failed := ds_failed res + 1,
                  ds_abandoned := ds_abandoned res +
                    (if MAX_DELIVERY_ATTEMPTS \<le> es_deliveryAttempts r + 1 then 1 else 0)\<rparr>,
              desk\<lparr>pages := update_row (es_id r) (failed_row why) (pages desk)\<rparr>))"

definition overdue :: "dispatch_world \<Rightarrow> instant \<Rightarrow> escalation_row \<Rightarrow> bool" where
  "overdue w now r \<longleftrightarrow>
     es_status r = Es_dispatched \<and> es_deliveredAt r = None \<and>
     (case es_dispatchedAt r of None \<Rightarrow> False | Some t \<Rightarrow> t < now - dw_receiptTimeoutMs w)"

definition unconfirmed_row :: "dispatch_world \<Rightarrow> failure_reason option \<Rightarrow> escalation_row \<Rightarrow> escalation_row" where
  "unconfirmed_row w earlier r =
     r\<lparr>es_status := Es_failed,
       es_failureReason := Some (Unconfirmed (math_round (of_int (dw_receiptTimeoutMs w) / 1000)) earlier)\<rparr>"

definition sweepOverdue :: "dispatch_world \<Rightarrow> instant \<Rightarrow> escalation_state \<Rightarrow> nat \<times> escalation_state" where
  "sweepOverdue w now st =
    (let late = filter (overdue w now) (escalation_rows st)
     in (length late, fold (\<lambda>r. update_row (es_id r) (unconfirmed_row w (es_failureReason r))) late st))"

definition dispatchPending :: "dispatch_world \<Rightarrow> instant \<Rightarrow> page_desk \<Rightarrow> dispatch_result \<times> page_desk" where
  "dispatchPending w now desk =
    (let none = \<lparr>ds_dispatched = 0, ds_failed = 0, ds_timedOut = 0, ds_rerouted = 0, ds_retried = 0, ds_abandoned = 0\<rparr>;
         (res, desk) = fold (deliver_page w now) (loadPending (escalation_rows (pages desk))) (none, desk);
         (late, st) = sweepOverdue w now (pages desk)
     in (res\<lparr>ds_timedOut := late\<rparr>, desk\<lparr>pages := st\<rparr>))"

text \<open>A device confirms: the escalation and whether this was the first. None is the 404.\<close>

definition recordReceipt ::
  "dispatch_world \<Rightarrow> string \<Rightarrow> instant \<Rightarrow> escalation_state \<Rightarrow> (string \<times> bool) option \<times> escalation_state" where
  "recordReceipt w receipt t st =
    (case find (\<lambda>r. es_receiptId r = Some receipt) (escalation_rows st) of
       None \<Rightarrow> (None, st)
     | Some r \<Rightarrow>
         if es_deliveredAt r \<noteq> None then (Some (es_id r, False), st)
         else (Some (es_id r, True), snd (markDelivered (dw_runs w) (es_id r) PUSH (Some receipt) t st)))"

end
