(* ===== verification/Escalation_Lifecycle.thy ===== *)
theory Escalation_Lifecycle
  imports Escalation_Dispatch
begin

text \<open>
  The table of escalations over time, under any interleaving of what writes it. Each operation is
  an update of rows in place, each to a later version, or adds rows under fresh identifiers.
\<close>

section \<open>A loop that updates one row per turn\<close>

lemma fold_updates:
  assumes "\<And>a r. r \<in> set L \<Longrightarrow> J a \<Longrightarrow>
      \<exists>f. T (F r a) = map (\<lambda>s. if key s = key r then f s else s) (T a) \<and> S r (f r) \<and> key (f r) = key r \<and> J (F r a)"
    and "distinct (map key L)" "set L \<subseteq> set (T a)" "distinct (map key (T a))" "J a"
  shows "list_all2 (\<lambda>s s'. if s \<in> set L then S s s' \<and> key s' = key s else s' = s) (T a) (T (fold F L a)) \<and> J (fold F L a)"
  using assms
proof (induction L arbitrary: a)
  case Nil
  then show ?case by (auto intro: list.rel_refl)
next
  case (Cons r L)
  let ?a = "F r a"
  from Cons.prems(1)[of r a] Cons.prems(5) obtain f where
    f: "T ?a = map (\<lambda>s. if key s = key r then f s else s) (T a)" "S r (f r)" "key (f r) = key r" "J ?a" by auto
  have same: "s = r" if "s \<in> set (T a)" "key s = key r" for s
    using distinct_map_eqD[OF Cons.prems(4) that(1) _ that(2)] Cons.prems(3) by auto
  have T: "T ?a = map (\<lambda>s. if s = r then f r else s) (T a)"
    unfolding f(1) using same by auto
  have keys: "map key (T ?a) = map key (T a)" unfolding T using f(3) by auto
  have other: "s \<noteq> r" if "s \<in> set L" for s using Cons.prems(2) that by auto
  have sub: "set L \<subseteq> set (T ?a)"
    unfolding T using Cons.prems(3) other by force
  have IH: "list_all2 (\<lambda>s s'. if s \<in> set L then S s s' \<and> key s' = key s else s' = s) (T ?a) (T (fold F L ?a)) \<and>
    J (fold F L ?a)"
    using Cons.prems(1,2,4) f(4) sub keys by (intro Cons.IH) auto
  have first: "list_all2 (\<lambda>s s'. s' = (if s = r then f r else s)) (T a) (T ?a)"
    unfolding T by (simp add: list_all2_map2 list.rel_refl)
  have out: "f r \<notin> set L" using f(3) Cons.prems(2) by (metis distinct.simps(2) image_eqI list.simps(9) set_map)
  have "list_all2 (\<lambda>s s'. if s \<in> set (r # L) then S s s' \<and> key s' = key s else s' = s) (T a) (T (fold F L ?a))"
    by (rule list_all2_trans[OF _ first IH[THEN conjunct1]]) (use f out other in \<open>auto split: if_splits\<close>)
  with IH show ?case by simp
qed

section \<open>Later versions of an escalation\<close>

definition page_facts where
  "page_facts r = (es_id r, es_runId r, es_kind r, es_summary r, es_detail r, es_progressStoppedAt r,
     es_detectionSource r, es_detectLatencyMs r, es_raisedAt r)"

definition pending :: "escalation_row \<Rightarrow> bool" where
  "pending r \<longleftrightarrow> es_status r \<in> {Es_raised, Es_dispatched, Es_failed}"

definition told :: "escalation_row \<Rightarrow> bool" where
  "told r \<longleftrightarrow> es_deliveredAt r \<noteq> None"

definition later_page :: "escalation_row \<Rightarrow> escalation_row \<Rightarrow> bool" where
  "later_page r r' \<longleftrightarrow>
     page_facts r' = page_facts r \<and> es_deliveryAttempts r \<le> es_deliveryAttempts r' \<and>
     (pending r' \<longrightarrow> pending r) \<and>
     (told r \<longrightarrow> es_deliveredAt r' = es_deliveredAt r \<and> es_notifyLatencyMs r' = es_notifyLatencyMs r) \<and>
     (es_acknowledgedAt r \<noteq> None \<longrightarrow>
        es_acknowledgedAt r' = es_acknowledgedAt r \<and> es_acknowledgedById r' = es_acknowledgedById r)"

text \<open>A row on its own: a confirmed page is out of the queue, and the cap on sends holds.\<close>

definition page_ok :: "escalation_row \<Rightarrow> bool" where
  "page_ok r \<longleftrightarrow>
     (told r \<longrightarrow> \<not> pending r) \<and> (es_status r = Es_acknowledged \<longrightarrow> es_acknowledgedAt r \<noteq> None) \<and>
     es_deliveryAttempts r \<le> MAX_DELIVERY_ATTEMPTS + (if told r then 1 else 0)"

lemma later_page_refl [simp]: "later_page r r"
  by (simp add: later_page_def)

lemma later_page_trans: "later_page r s \<Longrightarrow> later_page s t \<Longrightarrow> later_page r t"
  unfolding later_page_def told_def by auto

definition page_update :: "escalation_row \<Rightarrow> escalation_row \<Rightarrow> bool" where
  "page_update r r' \<longleftrightarrow> later_page r r' \<and> (page_ok r \<longrightarrow> page_ok r')"

lemma page_update_refl [simp]: "page_update r r"
  by (simp add: page_update_def)

lemma page_update_trans: "page_update r s \<Longrightarrow> page_update s t \<Longrightarrow> page_update r t"
  unfolding page_update_def using later_page_trans by blast

lemma page_update_id: "page_update r r' \<Longrightarrow> es_id r' = es_id r"
  by (simp add: page_update_def later_page_def page_facts_def)

lemmas page_defs = page_update_def later_page_def page_ok_def page_facts_def pending_def told_def

lemma dispatched_update: "owed r \<Longrightarrow> page_update r (dispatched_row t rc now r)"
  by (auto simp: page_defs owed_def dispatched_row_def)

lemma rerouted_update: "owed r \<Longrightarrow> page_update r (rerouted_row rc why now r)"
  by (auto simp: page_defs owed_def rerouted_row_def dispatched_row_def)

lemma failed_update: "owed r \<Longrightarrow> page_update r (failed_row why r)"
  by (auto simp: page_defs owed_def failed_row_def)

lemma unconfirmed_update: "overdue w now r \<Longrightarrow> page_update r (unconfirmed_row w why r)"
  by (auto simp: page_defs overdue_def unconfirmed_row_def)

lemma resolve_update: "page_update r (resolve_row r)"
  by (auto simp: page_defs resolve_row_def)

lemma acknowledge_update: "es_acknowledgedAt r = None \<Longrightarrow> page_update r (acknowledge_row userId now r)"
  by (auto simp: page_defs acknowledge_row_def)

lemma delivered_update: "es_deliveredAt r = None \<Longrightarrow> page_update r (delivered_row transport rc t r)"
  by (auto simp: page_defs delivered_row_def)

abbreviation page_table :: "escalation_row list \<Rightarrow> escalation_row list \<Rightarrow> bool" where
  "page_table \<equiv> table_update es_id page_update"

lemma page_table_refl [simp]: "page_table rows rows"
  by (rule table_update_refl) simp

lemma page_table_trans: "page_table a b \<Longrightarrow> page_table b c \<Longrightarrow> page_table a c"
  by (rule table_update_trans) (auto intro: page_update_trans)

lemma page_tableI:
  "(\<And>r. r \<in> set rows \<Longrightarrow> P r \<Longrightarrow> page_update r (f r)) \<Longrightarrow> page_table rows (snd (update_many P f rows))"
  by (rule table_updateI) (auto dest: page_update_id)

lemma update_row_rows [simp]:
  "escalation_rows (update_row eid f st) = map (\<lambda>r. if es_id r = eid then f r else r) (escalation_rows st)"
  by (simp add: update_row_def)

lemma find_escalationD:
  "find_escalation eid rows = Some r \<Longrightarrow> r \<in> set rows \<and> es_id r = eid"
  unfolding find_escalation_def by (blast dest: find_Some_iff_mem)

lemma update_found:
  assumes "find_escalation eid (escalation_rows st) = Some r" "distinct (map es_id (escalation_rows st))"
    "page_update r (f r)"
  shows "page_table (escalation_rows st) (escalation_rows (update_row eid f st))"
proof -
  have "page_update s (f s)" if "s \<in> set (escalation_rows st)" "es_id s = eid" for s
    using distinct_map_eqD[OF assms(2) that(1), of r] find_escalationD[OF assms(1)] that(2) assms(3) by auto
  then show ?thesis unfolding update_row_def by (simp add: page_tableI del: update_many_snd)
qed

section \<open>Every operation\<close>

lemma acknowledge_table:
  "distinct (map es_id (escalation_rows st)) \<Longrightarrow>
   page_table (escalation_rows st) (escalation_rows (snd (acknowledge eid userId now st)))"
  unfolding acknowledge_def
  by (auto split: option.split simp del: update_row_rows intro: update_found acknowledge_update)

lemma markDelivered_table:
  assumes "distinct (map es_id (escalation_rows st))"
  shows "page_table (escalation_rows st) (escalation_rows (snd (markDelivered rs eid transport rc t st)))"
proof (cases "find_escalation eid (escalation_rows st)")
  case (Some r)
  show ?thesis
  proof (cases "es_deliveredAt r = None")
    case True
    then show ?thesis using update_found[where f = "delivered_row transport rc t", OF Some assms delivered_update[OF True]] Some
      unfolding markDelivered_def by (simp del: update_row_rows)
  qed (simp add: markDelivered_def Some)
qed (simp add: markDelivered_def)

lemma recordReceipt_table:
  "distinct (map es_id (escalation_rows st)) \<Longrightarrow>
   page_table (escalation_rows st) (escalation_rows (snd (recordReceipt w rc t st)))"
  unfolding recordReceipt_def by (auto split: option.split intro: markDelivered_table)

lemma resolve_tables:
  "page_table (escalation_rows st) (escalation_rows (snd (resolveSystem summary st)))"
  "page_table (escalation_rows st) (escalation_rows (snd (resolveStale ids st)))"
  unfolding resolveSystem_def resolveStale_def
  by (auto simp: Let_def case_prod_unfold simp del: update_many_snd intro!: page_tableI resolve_update)

definition sent :: "instant \<Rightarrow> escalation_row \<Rightarrow> escalation_row \<Rightarrow> bool" where
  "sent now r r' \<longleftrightarrow>
     (\<exists>t rc. r' = dispatched_row t rc now r) \<or> (\<exists>rc why. r' = rerouted_row rc why now r) \<or>
     (\<exists>why. r' = failed_row why r)"

lemma row_ids [simp]:
  "es_id (dispatched_row t rc now r) = es_id r" "es_id (rerouted_row rc why now r) = es_id r"
  "es_id (failed_row why r) = es_id r" "es_id (unconfirmed_row w earlier r) = es_id r"
  by (simp_all add: dispatched_row_def rerouted_row_def failed_row_def unconfirmed_row_def)

lemma sent_update: "owed r \<Longrightarrow> sent now r r' \<Longrightarrow> page_update r r'"
  unfolding sent_def by (auto intro: dispatched_update rerouted_update failed_update)

lemma loadPending_owed: "r \<in> set (loadPending rows) \<Longrightarrow> r \<in> set rows \<and> owed r"
  unfolding loadPending_def by (auto dest!: in_set_takeD)

lemma loadPending_distinct:
  assumes "distinct (map es_id rows)" shows "distinct (map es_id (loadPending rows))"
proof -
  let ?s = "js_sort (by_key es_raisedAt) (filter owed rows)"
  have "mset (map es_id ?s) = mset (map es_id (filter owed rows))"
    by (simp add: mset_map)
  moreover have "distinct (map es_id (filter owed rows))" using assms by (simp add: distinct_map_filter)
  ultimately have "distinct (map es_id ?s)" by (metis mset_eq_imp_distinct_iff)
  then show ?thesis unfolding loadPending_def by (metis distinct_take take_map)
qed

text \<open>Some device takes the page when it is its turn.\<close>

definition some_device_takes :: "dispatch_world \<Rightarrow> escalation_row \<Rightarrow> push_subscription list \<Rightarrow> bool" where
  "some_device_takes w r subs \<longleftrightarrow>
     (\<exists>t \<in> set (targets subs). so_accepted
        (push_send w (buildPayload (dw_runs w) (dw_appUrl w) (dw_receipt w (es_id r) (es_deliveryAttempts r)) r) t))"

definition pushed :: "dispatch_world \<Rightarrow> instant \<Rightarrow> escalation_row \<Rightarrow> escalation_row" where
  "pushed w now r = dispatched_row PUSH (dw_receipt w (es_id r) (es_deliveryAttempts r)) now r"

lemma deliver_page_shape:
  "\<exists>f. escalation_rows (pages (snd (deliver_page w now r (res, desk)))) =
       map (\<lambda>s. if es_id s = es_id r then f s else s) (escalation_rows (pages desk)) \<and>
     sent now r (f r) \<and> es_id (f r) = es_id r \<and> (some_device_takes w r (devices desk) \<longrightarrow> f r = pushed w now r)"
proof -
  let ?rc = "dw_receipt w (es_id r) (es_deliveryAttempts r)"
  let ?p = "buildPayload (dw_runs w) (dw_appUrl w) ?rc r"
  let ?outs = "map (push_send w ?p) (targets (devices desk))"
  let ?why = "describeFailure (length ?outs) ?outs (dw_pushConfigured w)"
  consider "some_device_takes w r (devices desk)" | "\<not> some_device_takes w r (devices desk)" "reroute w ?p"
    | "\<not> some_device_takes w r (devices desk)" "\<not> reroute w ?p" by blast
  then show ?thesis
  proof cases
    case 1
    then show ?thesis
      by (intro exI[of _ "dispatched_row PUSH ?rc now"])
        (auto simp: deliver_page_def Let_def sent_def some_device_takes_def pushed_def)
  next
    case 2
    then show ?thesis
      by (intro exI[of _ "rerouted_row ?rc ?why now"])
        (auto simp: deliver_page_def Let_def sent_def some_device_takes_def)
  next
    case 3
    then show ?thesis
      by (intro exI[of _ "failed_row ?why"])
        (auto simp: deliver_page_def Let_def sent_def some_device_takes_def)
  qed
qed

lemma pass_updates:
  fixes desk :: page_desk and S :: "escalation_row \<Rightarrow> escalation_row \<Rightarrow> bool"
  assumes "distinct (map es_id (escalation_rows (pages desk)))" "J (devices desk)"
    and step: "\<And>r res (d :: page_desk). owed r \<Longrightarrow> J (devices d) \<Longrightarrow> J (devices (snd (deliver_page w now r (res, d))))"
    and out: "\<And>r (d :: page_desk) r'. owed r \<Longrightarrow> J (devices d) \<Longrightarrow> sent now r r' \<Longrightarrow>
      (some_device_takes w r (devices d) \<longrightarrow> r' = pushed w now r) \<Longrightarrow> S r r'"
  shows "list_all2 (\<lambda>s s'. if s \<in> set (loadPending (escalation_rows (pages desk))) then S s s' \<and> es_id s' = es_id s else s' = s)
    (escalation_rows (pages desk))
    (escalation_rows (pages (snd (fold (deliver_page w now) (loadPending (escalation_rows (pages desk))) (none, desk)))))"
proof -
  let ?L = "loadPending (escalation_rows (pages desk))"
  let ?T = "\<lambda>a :: dispatch_result \<times> page_desk. escalation_rows (pages (snd a))"
  have turn: "\<exists>f. ?T (deliver_page w now r a) = map (\<lambda>s. if es_id s = es_id r then f s else s) (?T a) \<and> S r (f r) \<and>
      es_id (f r) = es_id r \<and> J (devices (snd (deliver_page w now r a)))"
    if "r \<in> set ?L" "J (devices (snd a))" for a r
  proof -
    have r: "owed r" using loadPending_owed[OF that(1)] by blast
    obtain res d where a: "a = (res, d)" by (cases a)
    obtain f where f: "?T (deliver_page w now r a) = map (\<lambda>s. if es_id s = es_id r then f s else s) (?T a)"
      "sent now r (f r)" "es_id (f r) = es_id r" "some_device_takes w r (devices d) \<longrightarrow> f r = pushed w now r"
      using deliver_page_shape[of w now r res d] unfolding a by auto
    have "S r (f r)" using out[OF r _ f(2), of d] that(2) f(4) unfolding a by simp
    moreover have "J (devices (snd (deliver_page w now r a)))" using step[OF r] that(2) unfolding a by simp
    ultimately show ?thesis using f(1,3) by blast
  qed
  have sub: "set ?L \<subseteq> set (?T (none, desk))" using loadPending_owed by auto
  have "list_all2 (\<lambda>s s'. if s \<in> set ?L then S s s' \<and> es_id s' = es_id s else s' = s)
      (?T (none, desk)) (?T (fold (deliver_page w now) ?L (none, desk)))"
    using fold_updates[of ?L "\<lambda>a. J (devices (snd a))" ?T "deliver_page w now" es_id S, OF turn
        loadPending_distinct[OF assms(1)] sub] assms(1,2) by simp
  then show ?thesis by simp
qed

lemma sweep_updates:
  assumes "distinct (map es_id (escalation_rows st))"
  shows "list_all2 (\<lambda>s s'. s' = (if overdue w now s then unconfirmed_row w (es_failureReason s) s else s))
    (escalation_rows st) (escalation_rows (snd (sweepOverdue w now st)))"
proof -
  let ?late = "filter (overdue w now) (escalation_rows st)"
  have "list_all2 (\<lambda>s s'. if s \<in> set ?late then s' = unconfirmed_row w (es_failureReason s) s \<and> es_id s' = es_id s else s' = s)
      (escalation_rows st)
      (escalation_rows (fold (\<lambda>r. update_row (es_id r) (unconfirmed_row w (es_failureReason r))) ?late st))"
    by (rule fold_updates[where J = "\<lambda>_. True" and T = escalation_rows and key = es_id, THEN conjunct1])
      (use assms in \<open>auto simp: distinct_map_filter\<close>)
  then show ?thesis
    unfolding sweepOverdue_def Let_def snd_conv by (rule list.rel_mono_strong) auto
qed

lemma sweep_table:
  assumes "distinct (map es_id (escalation_rows st))"
  shows "page_table (escalation_rows st) (escalation_rows (snd (sweepOverdue w now st)))"
  unfolding table_update_def
  by (rule list.rel_mono_strong[OF sweep_updates[OF assms]]) (auto intro: unconfirmed_update)

lemma pass_table:
  assumes "distinct (map es_id (escalation_rows (pages desk)))"
  shows "page_table (escalation_rows (pages desk)) (escalation_rows (pages (snd (dispatchPending w now desk))))"
proof -
  let ?none = "\<lparr>ds_dispatched = 0, ds_failed = 0, ds_timedOut = 0, ds_rerouted = 0, ds_retried = 0, ds_abandoned = 0\<rparr>"
  let ?d = "snd (fold (deliver_page w now) (loadPending (escalation_rows (pages desk))) (?none, desk))"
  have "page_table (escalation_rows (pages desk)) (escalation_rows (pages ?d))"
    unfolding table_update_def
    by (rule list.rel_mono_strong, rule pass_updates[where J = "\<lambda>_. True" and S = "sent now", OF assms])
      (auto dest!: loadPending_owed intro: sent_update split: if_splits)
  moreover from this have "distinct (map es_id (escalation_rows (pages ?d)))"
    using assms table_update_keys by metis
  ultimately show ?thesis
    using page_table_trans sweep_table by (simp add: dispatchPending_def Let_def case_prod_unfold)
qed

section \<open>Raising adds rows\<close>

definition fresh_pages :: "escalation_world \<Rightarrow> bool" where
  "fresh_pages w \<longleftrightarrow> (\<forall>rows. ew_newId w rows \<notin> es_id ` set rows)"

lemma fresh_page: "fresh_pages w \<Longrightarrow> ew_newId w rows \<notin> es_id ` set rows"
  by (simp add: fresh_pages_def)

lemma escalation_of_row:
  assumes "escalation_of w now a rows = Some r"
  shows "es_id r = ew_newId w rows" "es_runId r = ra_runId a" "es_kind r = kind_of a" "es_status r = Es_raised"
    "page_ok r"
  using assms
  by (auto simp: escalation_of_def new_escalation_def page_ok_def told_def pending_def split: option.splits)

lemma raise_one_cases:
  assumes "raise_one w now a st = Some (new, st')"
  obtains (known) "\<not> new" "st' = st" "\<exists>r \<in> set (escalation_rows st). outstanding (ra_runId a) (kind_of a) r"
  | (added) r where "new" "escalation_rows st' = escalation_rows st @ [r]"
      "escalation_of w now a (escalation_rows st) = Some r"
      "\<not> (\<exists>s \<in> set (escalation_rows st). outstanding (ra_runId a) (kind_of a) s)"
  using assms unfolding raise_one_def by (auto split: if_splits option.splits)

text \<open>At most one page in the queue about one problem of one run.\<close>

definition one_each :: "escalation_row list \<Rightarrow> bool" where
  "one_each rows \<longleftrightarrow>
     (\<forall>r \<in> set rows. \<forall>s \<in> set rows. pending r \<and> pending s \<and> es_runId r \<noteq> None \<and>
        es_runId r = es_runId s \<and> es_kind r = es_kind s \<longrightarrow> es_id r = es_id s)"

definition pages_ok :: "escalation_row list \<Rightarrow> bool" where
  "pages_ok rows \<longleftrightarrow> distinct (map es_id rows) \<and> (\<forall>r \<in> set rows. page_ok r) \<and> one_each rows"

text \<open>What the table may become: every row a later version, and new rows after them.\<close>

definition pages_later :: "escalation_row list \<Rightarrow> escalation_row list \<Rightarrow> bool" where
  "pages_later rows rows' \<longleftrightarrow>
     (\<forall>r \<in> set rows. \<exists>r' \<in> set rows'. later_page r r')"

lemma pages_later_refl [simp]: "pages_later rows rows"
  unfolding pages_later_def using later_page_refl by blast

lemma pages_later_trans: "pages_later a b \<Longrightarrow> pages_later b c \<Longrightarrow> pages_later a c"
  unfolding pages_later_def by (meson later_page_trans)

lemma page_table_later: "page_table rows rows' \<Longrightarrow> pages_later rows rows'"
  unfolding pages_later_def page_update_def by (blast dest: table_update_row)

lemma page_table_back:
  "page_table rows rows' \<Longrightarrow> r' \<in> set rows' \<Longrightarrow> \<exists>r \<in> set rows. page_update r r'"
  by (blast dest: table_update_row_back)

lemma page_table_ok:
  assumes "page_table rows rows'" "pages_ok rows"
  shows "pages_ok rows'"
proof -
  have "distinct (map es_id rows')" using assms table_update_keys by (metis pages_ok_def)
  moreover have "page_ok r'" if "r' \<in> set rows'" for r'
    using page_table_back[OF assms(1) that] assms(2) unfolding page_update_def pages_ok_def by blast
  moreover have "one_each rows'"
    unfolding one_each_def
  proof (intro ballI impI)
    fix r' s'
    assume a: "r' \<in> set rows'" "s' \<in> set rows'" "pending r' \<and> pending s' \<and> es_runId r' \<noteq> None \<and>
      es_runId r' = es_runId s' \<and> es_kind r' = es_kind s'"
    obtain r s where rs: "r \<in> set rows" "page_update r r'" "s \<in> set rows" "page_update s s'"
      using page_table_back[OF assms(1)] a(1,2) by metis
    then have "pending r \<and> pending s \<and> es_runId r = es_runId r' \<and> es_runId s = es_runId s' \<and>
        es_kind r = es_kind r' \<and> es_kind s = es_kind s' \<and> es_id r = es_id r' \<and> es_id s = es_id s'"
      using a(3) unfolding page_update_def later_page_def page_facts_def by auto
    with a(3) assms(2) rs(1,3) show "es_id r' = es_id s'" unfolding pages_ok_def one_each_def by metis
  qed
  ultimately show ?thesis by (simp add: pages_ok_def)
qed

lemma pending_unresolved: "pending r \<Longrightarrow> es_status r \<in> set UNRESOLVED"
  by (auto simp: pending_def UNRESOLVED_def)

lemma add_page_ok:
  assumes "pages_ok rows" "es_id r \<notin> es_id ` set rows" "page_ok r"
    "es_runId r \<noteq> None \<Longrightarrow> \<not> (\<exists>s \<in> set rows. outstanding (es_runId r) (es_kind r) s)"
  shows "pages_ok (rows @ [r])"
proof -
  have new: "\<not> (pending s \<and> es_runId r \<noteq> None \<and> es_runId s = es_runId r \<and> es_kind s = es_kind r)" if "s \<in> set rows" for s
    using assms(4) that pending_unresolved unfolding outstanding_def by blast
  have old: "one_each rows" using assms(1) by (simp add: pages_ok_def)
  have "es_id a = es_id b"
    if "a \<in> set (rows @ [r])" "b \<in> set (rows @ [r])" "pending a \<and> pending b \<and> es_runId a \<noteq> None \<and>
      es_runId a = es_runId b \<and> es_kind a = es_kind b" for a b
  proof -
    from that(1,2) consider "a \<in> set rows" "b \<in> set rows" | "a = r" "b = r" | "a = r" "b \<in> set rows" | "a \<in> set rows" "b = r"
      by auto
    then show ?thesis
    proof cases
      case 1 then show ?thesis using old that(3) unfolding one_each_def by blast
    next
      case 3 then show ?thesis using new[of b] that(3) by auto
    next
      case 4 then show ?thesis using new[of a] that(3) by auto
    qed simp
  qed
  then have "one_each (rows @ [r])" unfolding one_each_def by blast
  moreover have "distinct (map es_id (rows @ [r]))" using assms(1,2) by (simp add: pages_ok_def)
  ultimately show ?thesis using assms(1,3) unfolding pages_ok_def by auto
qed

lemma add_page_later: "pages_later rows (rows @ [r])"
  unfolding pages_later_def using later_page_refl by fastforce

lemma raise_one_ok:
  assumes "raise_one w now a st = Some (new, st')" "fresh_pages w"
  shows "pages_later (escalation_rows st) (escalation_rows st')"
    "pages_ok (escalation_rows st) \<Longrightarrow> pages_ok (escalation_rows st')"
    "\<exists>r \<in> set (escalation_rows st'). outstanding (ra_runId a) (kind_of a) r"
proof -
  show "pages_later (escalation_rows st) (escalation_rows st')"
    using assms(1) by (cases rule: raise_one_cases) (auto intro: add_page_later)
  show "pages_ok (escalation_rows st')" if "pages_ok (escalation_rows st)"
    using assms(1)
  proof (cases rule: raise_one_cases)
    case (added r)
    note row = escalation_of_row[OF added(3)]
    have "es_id r \<notin> es_id ` set (escalation_rows st)" unfolding row(1) by (rule fresh_page[OF assms(2)])
    from add_page_ok[OF that this row(5)] added(2,4) row(2,3) show ?thesis by simp
  qed (use that in simp)
  show "\<exists>r \<in> set (escalation_rows st'). outstanding (ra_runId a) (kind_of a) r"
    using assms(1)
  proof (cases rule: raise_one_cases)
    case (added r)
    with escalation_of_row[OF added(3)] show ?thesis by (auto simp: outstanding_def UNRESOLVED_def)
  qed auto
qed

lemma outstanding_stays:
  assumes "raise_one w now a st = Some (new, st')"
  shows "set (escalation_rows st) \<subseteq> set (escalation_rows st')"
  using assms by (cases rule: raise_one_cases) auto

lemma raise_each_Cons:
  assumes "raise_each w now (b # as) res st = (out, st')"
  obtains "out = None" "st' = st"
  | new st1 res1 where "raise_one w now b st = Some (new, st1)" "raise_each w now as res1 st1 = (out, st')"
  using assms by (auto split: option.splits bool.splits prod.splits)

lemma raise_each_ok:
  assumes "raise_each w now as res st = (out, st')" "fresh_pages w"
  shows "pages_later (escalation_rows st) (escalation_rows st') \<and>
    (pages_ok (escalation_rows st) \<longrightarrow> pages_ok (escalation_rows st')) \<and>
    set (escalation_rows st) \<subseteq> set (escalation_rows st') \<and>
    (out \<noteq> None \<longrightarrow>
       (\<forall>a \<in> set as. \<exists>r \<in> set (escalation_rows st'). outstanding (ra_runId a) (kind_of a) r))"
  using assms(1)
proof (induction as arbitrary: res st)
  case (Cons b as)
  from Cons.prems show ?case
  proof (cases rule: raise_each_Cons)
    case (2 new st1 res1)
    note one = raise_one_ok[OF 2(1) assms(2)] and IH = Cons.IH[OF 2(2)]
    have "\<exists>r \<in> set (escalation_rows st'). outstanding (ra_runId a) (kind_of a) r"
      if "out \<noteq> None" "a \<in> set (b # as)" for a
      using that one(3) IH by auto
    with one(1,2) IH outstanding_stays[OF 2(1)] pages_later_trans show ?thesis by blast
  qed simp
qed simp

lemma raise_system_ok:
  assumes "raise_system w summary detail now st = (out, st')" "fresh_pages w"
  shows "pages_later (escalation_rows st) (escalation_rows st') \<and>
    (pages_ok (escalation_rows st) \<longrightarrow> pages_ok (escalation_rows st'))"
proof -
  let ?r = "new_escalation (ew_newId w (escalation_rows st)) None Esc_system summary (Free_text detail) now None None"
  have "es_id ?r \<notin> es_id ` set (escalation_rows st)"
    using fresh_page[OF assms(2)] by (simp add: new_escalation_def)
  moreover have "page_ok ?r" "es_runId ?r = None"
    by (simp_all add: new_escalation_def page_ok_def told_def pending_def)
  ultimately have "pages_ok (escalation_rows st) \<longrightarrow> pages_ok (escalation_rows st @ [?r])"
    using add_page_ok by blast
  with assms(1) add_page_later show ?thesis by (auto simp: raise_system_def Let_def split: if_splits)
qed

section \<open>Any interleaving\<close>

text \<open>
  What writes the tables: a tick's actions, the control plane, a human, a device's receipt, a pass of
  the dispatcher and the devices coming and going. The world of the passes may change between them.
\<close>

inductive page_step :: "escalation_world \<Rightarrow> page_desk \<Rightarrow> page_desk \<Rightarrow> bool" for w where
  raise: "page_step w d (d\<lparr>pages := snd (raiseFrom w now actions (pages d))\<rparr>)"
| system: "page_step w d (d\<lparr>pages := snd (raise_system w summary detail now (pages d))\<rparr>)"
| system_once: "page_step w d (d\<lparr>pages := snd (raiseSystemOnce w summary detail now (pages d))\<rparr>)"
| system_over: "page_step w d (d\<lparr>pages := snd (resolveSystem summary (pages d))\<rparr>)"
| stale: "page_step w d (d\<lparr>pages := snd (resolveStale runIds (pages d))\<rparr>)"
| acknowledged: "page_step w d (d\<lparr>pages := snd (acknowledge eid userId now (pages d))\<rparr>)"
| receipt: "page_step w d (d\<lparr>pages := snd (recordReceipt dw rc now (pages d))\<rparr>)"
| pass: "page_step w d (snd (dispatchPending dw now d))"
| device: "page_step w d (d\<lparr>devices := subs\<rparr>)"

lemma page_step_ok:
  assumes "page_step w d d'" "fresh_pages w" "pages_ok (escalation_rows (pages d))"
  shows "pages_later (escalation_rows (pages d)) (escalation_rows (pages d')) \<and> pages_ok (escalation_rows (pages d'))"
proof -
  have dist: "distinct (map es_id (escalation_rows (pages d)))" using assms(3) by (simp add: pages_ok_def)
  have table: ?thesis if "page_table (escalation_rows (pages d)) (escalation_rows (pages d'))"
    using that page_table_later page_table_ok assms(3) by blast
  from assms(1) show ?thesis
  proof cases
    case (raise now actions)
    then show ?thesis using raise_each_ok[OF _ assms(2)] assms(3)
      by (simp add: raiseFrom_def) (metis prod.collapse)
  next
    case (system summary detail now)
    then show ?thesis using raise_system_ok[OF _ assms(2)] assms(3) by simp (metis prod.collapse)
  next
    case (system_once summary detail now)
    then show ?thesis using raise_system_ok[OF _ assms(2)] assms(3)
      by (auto simp: raiseSystemOnce_def split: list.split prod.split option.split)
  qed (use table resolve_tables acknowledge_table[OF dist] recordReceipt_table[OF dist] pass_table[OF dist]
        assms(3) in simp_all)
qed

lemma page_steps_ok:
  assumes "(page_step w)\<^sup>*\<^sup>* d d'" "fresh_pages w" "pages_ok (escalation_rows (pages d))"
  shows "pages_later (escalation_rows (pages d)) (escalation_rows (pages d')) \<and> pages_ok (escalation_rows (pages d'))"
  using assms
  by (induction rule: rtranclp_induct) (auto dest: page_step_ok intro: pages_later_trans)

text \<open>The table of pages is a history in the sense the grants and the approvals are.\<close>

definition desk_step :: "page_desk \<Rightarrow> page_desk \<Rightarrow> bool" where
  "desk_step d d' \<longleftrightarrow>
     (\<exists>w. fresh_pages w \<and> page_step w d d') \<and> pages_ok (escalation_rows (pages d))"

interpretation page_history: row_history desk_step "\<lambda>d. escalation_rows (pages d)" es_id later_page
proof
  show "later_page r r" for r by simp
  show "later_page r s \<Longrightarrow> later_page s t \<Longrightarrow> later_page r t" for r s t by (rule later_page_trans)
  show "\<exists>r' \<in> set (escalation_rows (pages st')). es_id r' = es_id r \<and> later_page r r'"
    if "desk_step st st'" "r \<in> set (escalation_rows (pages st))" for st st' r
    using that page_step_ok unfolding desk_step_def pages_later_def later_page_def page_facts_def by blast
  show "distinct (map es_id (escalation_rows (pages st')))" if "desk_step st st'" for st st'
    using that page_step_ok unfolding desk_step_def pages_ok_def by blast
qed

lemma desk_steps:
  assumes "(page_step w)\<^sup>*\<^sup>* d d'" "fresh_pages w" "pages_ok (escalation_rows (pages d))"
  shows "desk_step\<^sup>*\<^sup>* d d'"
  using assms
proof (induction rule: rtranclp_induct)
  case (step y z)
  then have "desk_step y z" using page_steps_ok[OF step.hyps(1)] unfolding desk_step_def by blast
  with step show ?case by (simp add: rtranclp.rtrancl_into_rtrancl)
qed simp

end
