(* ===== verification/Escalation_Properties.thy ===== *)
theory Escalation_Properties
  imports Escalation_Lifecycle
begin

text \<open>
  What the escalations promise: a problem is on record and queued once, what is known of a page
  never changes, a device that answers is told in the next pass, and the latencies shown are samples.
\<close>

section \<open>Raising\<close>

lemma raise_each_counts:
  "raise_each w now as res st = (Some out, st') \<Longrightarrow>
   \<exists>new. escalation_rows st' = escalation_rows st @ new \<and> rz_raised out = rz_raised res + length new \<and>
     rz_raised out + rz_deduplicated out = rz_raised res + rz_deduplicated res + length as"
proof (induction as arbitrary: res st)
  case (Cons a as)
  then obtain new1 st1 where one: "raise_one w now a st = Some (new1, st1)"
      "raise_each w now as (if new1 then res\<lparr>rz_raised := rz_raised res + 1\<rparr>
          else res\<lparr>rz_deduplicated := rz_deduplicated res + 1\<rparr>) st1 = (Some out, st')"
    by (auto split: option.splits bool.splits)
  from Cons.IH[OF one(2)] obtain new where
    new: "escalation_rows st' = escalation_rows st1 @ new"
      "rz_raised out = (if new1 then rz_raised res + 1 else rz_raised res) + length new"
      "rz_raised out + rz_deduplicated out = rz_raised res + rz_deduplicated res + 1 + length as"
    by (auto split: if_splits)
  from one(1) show ?case
  proof (cases rule: raise_one_cases)
    case known
    then show ?thesis using new by auto
  next
    case (added r)
    then show ?thesis using new by (intro exI[of _ "r # new"]) auto
  qed
qed simp

definition page_world :: escalation_world where
  "page_world = \<lparr>ew_newId = (\<lambda>rows. concat (map es_id rows) @ ''+''), ew_storable = (\<lambda>r. True)\<rparr>"

lemma concat_length_ge: "x \<in> set xs \<Longrightarrow> length x \<le> length (concat xs)"
  by (induction xs) auto

lemma page_world_fresh: "fresh_pages page_world"
proof -
  have "length (es_id r) < length (ew_newId page_world rows)" if "r \<in> set rows" for r rows
    using concat_length_ge[of "es_id r" "map es_id rows"] that by (simp add: page_world_def)
  then show ?thesis unfolding fresh_pages_def by force
qed

definition no_pages :: escalation_state where
  "no_pages = \<lparr>escalation_rows = [], detected_samples = [], notified_samples = []\<rparr>"

definition stalled_action :: raised_action where
  "stalled_action = \<lparr>ra_type = Act_escalate, ra_runId = Some ''r1'', ra_kind = Some Esc_run_stalled,
     ra_reason = Free_text ''silent'', ra_place = Some (''o/n'', 7),
     ra_evidence = Some (watchdog_evidence Intent_running ''wo-7'' Run_stalled),
     ra_progressStoppedAt = Some 100, ra_detectionSource = Some ''runner''\<rparr>"

definition stalled_page :: escalation_row where
  "stalled_page = new_escalation ''+'' (Some ''r1'') Esc_run_stalled ''wo-7 stalled (o/n#7)'' (Free_text ''silent'')
     1000 (Some 100) (Some Source_runner)"

lemma stalled_raised:
  "raiseFrom page_world 1000 [stalled_action] no_pages =
     (Some \<lparr>rz_raised = 1, rz_deduplicated = 0\<rparr>,
      no_pages\<lparr>escalation_rows := [stalled_page],
        detected_samples := [\<lparr>le_identity = Some ''wo-7'', le_repository = ''o/n'', le_kind = Esc_run_stalled,
          le_source = Some Source_runner, le_stoppedAt = 100, le_raisedAt = 1000, le_deliveredAt = None\<rparr>]\<rparr>)"
  by code_simp

text \<open>C12: A problem a tick escalates is on record. When \<open>raiseFrom\<close> returns, each of the escalate actions it was
  given has an unresolved escalation about its run and kind, the rows it adds are those it counts as
  raised, and raised and deduplicated together are the actions.\<close>
theorem every_problem_is_on_record:
  assumes "raiseFrom w now actions st = (Some res, st')" "fresh_pages w"
  shows "(\<forall>a \<in> set actions. ra_type a = Act_escalate \<longrightarrow>
      (\<exists>r \<in> set (escalation_rows st'). outstanding (ra_runId a) (kind_of a) r)) \<and>
    (\<exists>new. escalation_rows st' = escalation_rows st @ new \<and> length new = rz_raised res) \<and>
    rz_raised res + rz_deduplicated res = length (filter (\<lambda>a. ra_type a = Act_escalate) actions)"
proof (intro conjI)
  note each = assms(1)[unfolded raiseFrom_def]
  show "\<forall>a \<in> set actions. ra_type a = Act_escalate \<longrightarrow>
      (\<exists>r \<in> set (escalation_rows st'). outstanding (ra_runId a) (kind_of a) r)"
    using raise_each_ok[OF each assms(2)] by simp
  show "\<exists>new. escalation_rows st' = escalation_rows st @ new \<and> length new = rz_raised res"
    and "rz_raised res + rz_deduplicated res = length (filter (\<lambda>a. ra_type a = Act_escalate) actions)"
    using raise_each_counts[OF each] by auto
qed

theorem every_problem_is_on_record_witness:
  "\<exists>r \<in> {stalled_page}. outstanding (Some ''r1'') Esc_run_stalled r"
  using every_problem_is_on_record[OF stalled_raised page_world_fresh]
  by (simp add: stalled_action_def kind_of_def)

section \<open>Over time\<close>

text \<open>C10: One page in the queue per problem. Whatever ticks, humans, receipts, passes and devices do in any
  order, at most one escalation about a run and a kind is waiting to be sent, sent and unconfirmed, or
  to be tried again.\<close>
theorem one_queued_page_per_problem:
  assumes "(page_step w)\<^sup>*\<^sup>* d d'" "fresh_pages w" "pages_ok (escalation_rows (pages d))"
  shows "length (filter (\<lambda>r. pending r \<and> es_runId r = Some run \<and> es_kind r = kind) (escalation_rows (pages d'))) \<le> 1"
proof (rule ccontr)
  let ?rows = "filter (\<lambda>r. pending r \<and> es_runId r = Some run \<and> es_kind r = kind) (escalation_rows (pages d'))"
  have ok: "pages_ok (escalation_rows (pages d'))" using page_steps_ok[OF assms] by blast
  assume "\<not> length ?rows \<le> 1"
  then obtain r s rest where rows: "?rows = r # s # rest"
    by (cases ?rows; cases "tl ?rows") auto
  then have "r \<in> set ?rows" "s \<in> set ?rows" by simp_all
  then have "es_id r = es_id s"
    using ok unfolding pages_ok_def one_each_def by (simp only: set_filter mem_Collect_eq) simp
  moreover have "distinct (map es_id ?rows)" using ok by (simp add: pages_ok_def distinct_map_filter)
  ultimately show False unfolding rows by simp
qed

definition page_desk_of :: "escalation_row list \<Rightarrow> page_desk" where
  "page_desk_of rows = \<lparr>pages = no_pages\<lparr>escalation_rows := rows\<rparr>, devices = []\<rparr>"

lemma twice_raised:
  "(page_step page_world)\<^sup>*\<^sup>* (page_desk_of [])
     (page_desk_of []\<lparr>pages := snd (raiseFrom page_world 2000 [stalled_action]
        (snd (raiseFrom page_world 1000 [stalled_action] (pages (page_desk_of [])))))\<rparr>)"
proof -
  let ?d1 = "page_desk_of []\<lparr>pages := snd (raiseFrom page_world 1000 [stalled_action] (pages (page_desk_of [])))\<rparr>"
  have "page_step page_world (page_desk_of []) ?d1" by (rule page_step.raise)
  moreover have "page_step page_world ?d1
      (?d1\<lparr>pages := snd (raiseFrom page_world 2000 [stalled_action] (pages ?d1))\<rparr>)"
    by (rule page_step.raise)
  ultimately show ?thesis by simp
qed

theorem one_queued_page_per_problem_witness:
  "length (filter (\<lambda>r. pending r \<and> es_runId r = Some ''r1'' \<and> es_kind r = Esc_run_stalled)
     (escalation_rows (snd (raiseFrom page_world 2000 [stalled_action]
        (snd (raiseFrom page_world 1000 [stalled_action] no_pages)))))) \<le> 1"
  using one_queued_page_per_problem[OF twice_raised page_world_fresh, of "''r1''" Esc_run_stalled]
  by (simp add: page_desk_of_def pages_ok_def one_each_def no_pages_def)

text \<open>C13: What is known of a page never changes. Its run, kind, text and the instants it is measured from stay;
  the first delivery and the first acknowledgement stand; it is sent at most five times, and a
  receipt counts one attempt more.\<close>
theorem pages_keep_their_history:
  assumes "(page_step w)\<^sup>*\<^sup>* d d'" "fresh_pages w" "pages_ok (escalation_rows (pages d))"
    and "r \<in> set (escalation_rows (pages d))" "r' \<in> set (escalation_rows (pages d'))" "es_id r' = es_id r"
  shows "page_facts r' = page_facts r \<and>
    (es_deliveredAt r \<noteq> None \<longrightarrow>
      es_deliveredAt r' = es_deliveredAt r \<and> es_notifyLatencyMs r' = es_notifyLatencyMs r) \<and>
    (es_acknowledgedAt r \<noteq> None \<longrightarrow>
      es_acknowledgedAt r' = es_acknowledgedAt r \<and> es_acknowledgedById r' = es_acknowledgedById r) \<and>
    es_deliveryAttempts r \<le> es_deliveryAttempts r' \<and> es_deliveryAttempts r' \<le> MAX_DELIVERY_ATTEMPTS + 1"
proof (intro conjI)
  have "distinct (map es_id (escalation_rows (pages d)))" using assms(3) by (simp add: pages_ok_def)
  then have later: "later_page r r'"
    using page_history.row_under_key[OF desk_steps[OF assms(1-3)] _ assms(4-6)] by blast
  then show "page_facts r' = page_facts r" by (simp add: later_page_def)
  show "es_deliveredAt r \<noteq> None \<longrightarrow>
      es_deliveredAt r' = es_deliveredAt r \<and> es_notifyLatencyMs r' = es_notifyLatencyMs r"
    using later by (simp add: later_page_def told_def)
  show "es_acknowledgedAt r \<noteq> None \<longrightarrow>
      es_acknowledgedAt r' = es_acknowledgedAt r \<and> es_acknowledgedById r' = es_acknowledgedById r"
    using later by (simp add: later_page_def)
  have "page_ok r'" using page_steps_ok[OF assms(1-3)] assms(5) by (auto simp: pages_ok_def)
  then show "es_deliveryAttempts r \<le> es_deliveryAttempts r'" "es_deliveryAttempts r' \<le> MAX_DELIVERY_ATTEMPTS + 1"
    using later by (auto simp: later_page_def page_ok_def split: if_splits)
qed

definition acknowledged_page :: escalation_row where
  "acknowledged_page = acknowledge_row ''ana'' 1500 (dispatched_row PUSH ''token'' 1100 stalled_page)"

lemma acknowledged_ok: "pages_ok [acknowledged_page]"
  by (simp add: pages_ok_def one_each_def page_ok_def told_def pending_def acknowledged_page_def acknowledge_row_def
      dispatched_row_def stalled_page_def new_escalation_def MAX_DELIVERY_ATTEMPTS_def)

lemma resolved_step:
  "(page_step page_world)\<^sup>*\<^sup>* (page_desk_of [acknowledged_page])
     ((page_desk_of [acknowledged_page])\<lparr>pages := snd (resolveStale [''r1''] (pages (page_desk_of [acknowledged_page])))\<rparr>)"
  by (rule r_into_rtranclp, rule page_step.stale)

theorem pages_keep_their_history_witness:
  "es_acknowledgedById (hd (escalation_rows (snd (resolveStale [''r1''] (pages (page_desk_of [acknowledged_page])))))) = Some ''ana''"
proof -
  let ?st = "snd (resolveStale [''r1''] (pages (page_desk_of [acknowledged_page])))"
  have rows: "escalation_rows ?st = [acknowledged_page]" by code_simp
  have by_ana: "es_acknowledgedById acknowledged_page = Some ''ana''" "es_acknowledgedAt acknowledged_page \<noteq> None"
    by (simp_all add: acknowledged_page_def acknowledge_row_def)
  have "es_acknowledgedById acknowledged_page = es_acknowledgedById acknowledged_page"
    using pages_keep_their_history[OF resolved_step page_world_fresh, of acknowledged_page acknowledged_page]
      acknowledged_ok rows by_ana by (simp add: page_desk_of_def)
  then show ?thesis unfolding rows using by_ana by simp
qed

section \<open>Telling somebody\<close>





lemma send_target [simp]: "so_targetId (push_send w payload s) = ps_id s"
  by (simp add: push_send_def split: vendor_answer.split)






definition phone :: push_subscription where
  "phone = \<lparr>ps_id = ''phone'', ps_userId = ''ana'', ps_endpoint = ''https://push/1'', ps_keys = (''k'', ''a''),
     ps_userAgent = None, ps_failureCount = 0, ps_lastSuccessAt = None, ps_lastFailureAt = None, ps_createdAt = 0\<rparr>"

definition push_world :: dispatch_world where
  "push_world = \<lparr>dw_runs = [], dw_appUrl = ''https://app'', dw_receiptTimeoutMs = 300000,
     dw_receipt = (\<lambda>i n. i @ decimal n), dw_pushConfigured = True, dw_push = (\<lambda>s p. Vendor_answered 201),
     dw_webhookUrl = [], dw_webhook = (\<lambda>p. Vendor_threw None ''offline'')\<rparr>"


section \<open>The latencies shown\<close>

lemma sorted_rank:
  fixes xs :: "int list"
  assumes "sorted xs" "k < length xs"
  shows "k + 1 \<le> length (filter (\<lambda>x. x \<le> xs ! k) xs)" "length (filter (\<lambda>x. x < xs ! k) xs) \<le> k"
proof -
  let ?v = "xs ! k"
  have split: "xs = take (k + 1) xs @ drop (k + 1) xs" "xs = take k xs @ drop k xs" by simp_all
  have "x \<le> ?v" if "x \<in> set (take (k + 1) xs)" for x
    using that assms by (auto simp: in_set_conv_nth sorted_nth_mono)
  then have "filter (\<lambda>x. x \<le> ?v) (take (k + 1) xs) = take (k + 1) xs" by (intro filter_True) auto
  then have "k + 1 \<le> length (filter (\<lambda>x. x \<le> ?v) (take (k + 1) xs))" using assms(2) by simp
  also have "\<dots> \<le> length (filter (\<lambda>x. x \<le> ?v) xs)"
    by (subst (2) split(1)) (simp del: append_take_drop_id)
  finally show "k + 1 \<le> length (filter (\<lambda>x. x \<le> ?v) xs)" .
  have "\<not> x < ?v" if "x \<in> set (drop k xs)" for x
    using that assms by (auto simp: in_set_conv_nth sorted_nth_mono not_less)
  then have "filter (\<lambda>x. x < ?v) (drop k xs) = []" by (simp add: filter_empty_conv)
  then have "length (filter (\<lambda>x. x < ?v) xs) = length (filter (\<lambda>x. x < ?v) (take k xs))"
    by (subst split(2)) (simp del: append_take_drop_id)
  also have "\<dots> \<le> k" using length_filter_le[of "\<lambda>x. x < ?v" "take k xs"] by simp
  finally show "length (filter (\<lambda>x. x < ?v) xs) \<le> k" .
qed

text \<open>A percentile is the nearest rank. For a fraction of at most one, the value reported is a sample; at
  least that share of the samples is no larger, and less than that share is smaller.\<close>
theorem percentile_is_nearest_rank:
  assumes "samples \<noteq> []" "0 < fraction" "fraction \<le> 1"
  defines "v \<equiv> percentile (js_sort (by_key id) samples) fraction"
  shows "v \<in> set samples"
    and "fraction * of_nat (length samples) \<le> of_nat (length (filter (\<lambda>x. x \<le> v) samples))"
    and "of_nat (length (filter (\<lambda>x. x < v) samples)) < fraction * of_nat (length samples)"
proof -
  let ?s = "js_sort (by_key id) samples" and ?n = "of_nat (length samples) :: rat"
  have mset: "mset ?s = mset samples" by simp
  have len: "length ?s = length samples" using mset by (metis size_mset)
  have counts: "length (filter P ?s) = length (filter P samples)" for P
    using mset by (metis mset_filter size_mset)
  define rank where "rank = nat \<lceil>fraction * ?n\<rceil>"
  have n: "0 < ?n" using assms(1) by simp
  have "fraction * ?n \<le> ?n" using assms(3) n by (simp add: mult_le_cancel_right1)
  then have le: "rank \<le> length samples" unfolding rank_def by (simp add: ceiling_le_iff nat_le_iff)
  have ge: "1 \<le> rank" unfolding rank_def using assms(2) n by (simp add: Suc_le_eq)
  have of_rank: "of_nat rank = (of_int \<lceil>fraction * ?n\<rceil> :: rat)"
    unfolding rank_def using assms(2) n by (simp add: order_less_imp_le)
  have v: "v = ?s ! (rank - 1)" unfolding v_def percentile_def len using le ge by (simp add: rank_def)
  have k: "rank - 1 < length ?s" using le ge len by simp
  have "sorted ?s" using key_sort_sorted[of id samples] by simp
  note rank = sorted_rank[OF this k, folded v]
  show "v \<in> set samples" using nth_mem[OF k] v mset by (metis set_mset_mset)
  have "fraction * ?n \<le> of_nat rank" unfolding of_rank by simp
  also have "\<dots> \<le> of_nat (length (filter (\<lambda>x. x \<le> v) samples))" using rank(1) ge counts by simp
  finally show "fraction * ?n \<le> of_nat (length (filter (\<lambda>x. x \<le> v) samples))" .
  have "of_nat (length (filter (\<lambda>x. x < v) samples)) \<le> (of_nat (rank - 1) :: rat)" using rank(2) counts by simp
  also have "\<dots> = of_nat rank - 1" using ge by (simp add: of_nat_diff)
  also have "\<dots> < fraction * ?n" unfolding of_rank by linarith
  finally show "of_nat (length (filter (\<lambda>x. x < v) samples)) < fraction * ?n" .
qed

theorem percentile_is_nearest_rank_witness:
  "percentile (js_sort (by_key id) [900, 40, 300]) (9 / 10) \<in> {900, 40, 300}"
  using percentile_is_nearest_rank(1)[of "[900, 40, 300]" "9 / 10"] by simp

section \<open>What modelling showed\<close>

text \<open>
  A receipt that arrives after a human acknowledged the page puts it back to delivered, so the run
  counts as unattended again and the next problem of its kind is taken for a duplicate.
\<close>

lemma late_receipt_undoes_acknowledgement:
  "map es_status (escalation_rows (snd (recordReceipt push_world ''token'' 1600
     (no_pages\<lparr>escalation_rows := [acknowledged_page]\<rparr>)))) = [Es_delivered]"
  "raise_result.rz_deduplicated (the (fst (raiseFrom page_world 2000 [stalled_action]
     (snd (recordReceipt push_world ''token'' 1600 (no_pages\<lparr>escalation_rows := [acknowledged_page]\<rparr>)))))) = 1"
  by code_simp+

text \<open>
  The webhook is not sent the receipt, so what it took is never confirmed: each expiry sends the
  same page again until the attempts run out, and the page ends as failed.
\<close>

definition webhook_world :: dispatch_world where
  "webhook_world = push_world\<lparr>dw_webhookUrl := ''https://hook'', dw_webhook := (\<lambda>p. Vendor_answered 200)\<rparr>"

definition passes :: "dispatch_world \<Rightarrow> instant list \<Rightarrow> page_desk \<Rightarrow> page_desk" where
  "passes w ticks d = fold (\<lambda>t d. snd (dispatchPending w t d)) ticks d"

lemma webhook_pages_five_times:
  "map (\<lambda>r. (es_status r, es_deliveryAttempts r))
     (escalation_rows (pages (passes webhook_world [0, 400000, 400001, 800002, 800003, 1200004, 1200005, 1600006, 1600007, 2000008]
        (page_desk_of [stalled_page])))) = [(Es_failed, 5)]"
  by code_simp

text \<open>
  One page tried five times while the push service is down takes the phone off the list, and no pass
  asks it again once the service is back.
\<close>

definition outage_world :: dispatch_world where
  "outage_world = push_world\<lparr>dw_push := (\<lambda>s p. Vendor_threw (Some 503) ''unavailable'')\<rparr>"

lemma outage_drops_the_phone:
  "targets (devices (passes outage_world [0, 60000, 120000, 180000, 240000]
     ((page_desk_of [stalled_page])\<lparr>devices := [phone]\<rparr>))) = []"
  by code_simp

end
