(* ===== verification/Run_Poller.thy ===== *)
theory Run_Poller
  imports Escalations Run_Events Quota Budget Work_Orders
begin

text \<open>
  The poller (\<open>runners/run-poller.service.ts\<close>): it holds the handles of the runs this process
  submitted, carries what a runner reports into the tables, stops what passed its wall clock or its
  budget, and marks the live runs nobody holds a handle for. What the runner, the validator and
  the quota table do is a parameter; the database answers, and the clock stands still in one tick.
\<close>

section \<open>The seam and the state\<close>

record run_handle =
  rh_runnerKey :: string
  rh_externalId :: string
  rh_workOrderIdentity :: string

datatype runner_run_status = Rr_running | Rr_blocked | Rr_succeeded | Rr_failed | Rr_unknown

record run_poll_result =
  rp_status :: runner_run_status
  rp_events :: "json list"
  rp_quota :: "runner_quota_observation list"

text \<open>The sentences written to \<open>attentionReason\<close>, with what they interpolate.\<close>

datatype poll_text =
    Deadline_passed deadline_verdict
  | Deadline_cancelled deadline_verdict
  | Deadline_refused deadline_verdict string
  | Budget_passed overrun_verdict
  | Budget_already_finished overrun_verdict
  | Budget_no_handle overrun_verdict
  | Budget_cancelled overrun_verdict
  | Budget_refused overrun_verdict string

record poll_world =
  pw_now :: instant
  pw_defaultTimeoutMinutes :: "rat option"
  pw_graceMinutes :: rat
  pw_poll :: "run_handle \<Rightarrow> string + run_poll_result" \<comment> \<open>or it throws\<close>
  pw_cancel :: "run_handle \<Rightarrow> string option" \<comment> \<open>the error it throws\<close>
  pw_check :: "json \<Rightarrow> validation_failure list + event_payload"
  pw_emit :: "event_payload \<Rightarrow> string \<times> string"
  pw_storable :: "window_key \<Rightarrow> bool"
  pw_escalations :: escalation_world
  pw_say :: "poll_text \<Rightarrow> string"

record poll_state =
  tracked :: "(string \<times> run_handle) list" \<comment> \<open>the \<open>Map\<close>, in insertion order\<close>
  deadlineEnforced :: "string list"
  budgetEnforced :: "string list"
  cancelled_handles :: "run_handle list" \<comment> \<open>what \<open>cancel\<close> was called on\<close>
  polled_orders :: "stored_work_order list"
  polled_store :: run_store
  polled_windows :: "quota_window list"
  polled_pages :: escalation_state

record poll_tick_result =
  pt_polled :: nat
  pt_eventsIngested :: nat
  pt_duplicates :: nat
  pt_lost :: nat
  pt_failed :: nat
  pt_timedOut :: nat
  pt_overBudget :: nat
  pt_quotaWindows :: nat

definition LIVE_STATUSES :: "run_status list" where
  "LIVE_STATUSES = [Run_running, Run_stalled, Run_blocked]"

definition POLL_INTERVAL_MS :: int where "POLL_INTERVAL_MS = 15000"
definition POLL_BATCH_SIZE :: nat where "POLL_BATCH_SIZE = 50"

definition LOST_HANDLE_REASON :: string where
  "LOST_HANDLE_REASON =
     ''The runner handle was lost (most likely an API restart). Nothing is polling this run; re-run it from its pinned base commit.''"

definition live_run :: "run_row \<Rightarrow> bool" where
  "live_run r \<longleftrightarrow> run_status r \<in> set LIVE_STATUSES"

definition on_polled :: "(run_store \<Rightarrow> run_store) \<Rightarrow> poll_state \<Rightarrow> poll_state" where
  "on_polled f st = st\<lparr>polled_store := f (polled_store st)\<rparr>"

definition write_live :: "string \<Rightarrow> (run_row \<Rightarrow> run_row) \<Rightarrow> poll_state \<Rightarrow> poll_state" where
  "write_live rid f =
     on_polled (\<lambda>s. s\<lparr>runs := snd (update_many (\<lambda>r. run_id r = rid \<and> live_run r) f (runs s))\<rparr>)"

section \<open>Handles\<close>

text \<open>\<open>Map.set\<close>: a key that is there keeps its place.\<close>

definition track :: "string \<Rightarrow> run_handle \<Rightarrow> poll_state \<Rightarrow> poll_state" where
  "track rid h st =
     st\<lparr>tracked := (if rid \<in> fst ` set (tracked st)
                    then map (\<lambda>(i, g). if i = rid then (i, h) else (i, g)) (tracked st)
                    else tracked st @ [(rid, h)])\<rparr>"

definition forget :: "string \<Rightarrow> poll_state \<Rightarrow> poll_state" where
  "forget rid st =
     st\<lparr>tracked := filter (\<lambda>(i, h). i \<noteq> rid) (tracked st),
        deadlineEnforced := filter (\<lambda>i. i \<noteq> rid) (deadlineEnforced st),
        budgetEnforced := filter (\<lambda>i. i \<noteq> rid) (budgetEnforced st)\<rparr>"

definition record_reason :: "poll_world \<Rightarrow> string \<Rightarrow> poll_text \<Rightarrow> poll_state \<Rightarrow> poll_state" where
  "record_reason w rid text = write_live rid (\<lambda>r. r\<lparr>run_attentionReason := Some (pw_say w text)\<rparr>)"

definition lose :: "run_row \<Rightarrow> run_row" where
  "lose r = r\<lparr>run_status := Run_stalled, run_attentionReason := Some LOST_HANDLE_REASON\<rparr>"

definition markLost :: "string \<Rightarrow> poll_state \<Rightarrow> poll_state" where
  "markLost rid = write_live rid lose"

definition call_cancel :: "poll_world \<Rightarrow> run_handle \<Rightarrow> poll_state \<Rightarrow> string option \<times> poll_state" where
  "call_cancel w h st = (pw_cancel w h, st\<lparr>cancelled_handles := cancelled_handles st @ [h]\<rparr>)"

section \<open>The wall clock\<close>

definition order_timeout :: "stored_work_order list \<Rightarrow> run_row \<Rightarrow> rat option" where
  "order_timeout orders r =
     Option.bind (find (\<lambda>o'. sw_identity o' = wo_identity (run_workOrder r)) orders) sw_wallClockTimeoutMinutes"

definition deadline_of :: "poll_world \<Rightarrow> stored_work_order list \<Rightarrow> run_row \<Rightarrow> deadline_verdict" where
  "deadline_of w orders r =
     decideDeadline
       \<lparr>di_startedAt = run_startedAt r, timeoutMinutes = order_timeout orders r,
        defaultTimeoutMinutes = pw_defaultTimeoutMinutes w, graceMinutes = pw_graceMinutes w\<rparr> (pw_now w)"

definition cancelForDeadline :: "poll_world \<Rightarrow> string \<Rightarrow> deadline_verdict \<Rightarrow> poll_state \<Rightarrow> poll_state" where
  "cancelForDeadline w rid v st =
    (let st = record_reason w rid (Deadline_passed v)
                (st\<lparr>deadlineEnforced := List.insert rid (deadlineEnforced st)\<rparr>)
     in case map_of (tracked st) rid of
          None \<Rightarrow> st
        | Some h \<Rightarrow>
            (case call_cancel w h st of
               (None, st) \<Rightarrow> record_reason w rid (Deadline_cancelled v) st
             | (Some why, st) \<Rightarrow> record_reason w rid (Deadline_refused v why) st))"

definition enforce_deadline ::
  "poll_world \<Rightarrow> run_row \<Rightarrow> poll_tick_result \<times> poll_state \<Rightarrow> poll_tick_result \<times> poll_state" where
  "enforce_deadline w r acc =
    (let (res, st) = acc
     in case deadline_of w (polled_orders st) r of
          In_time limit passed \<Rightarrow> (res, st)
        | Overdue a b c d \<Rightarrow>
            (res\<lparr>pt_timedOut := pt_timedOut res + 1\<rparr>, cancelForDeadline w (run_id r) (Overdue a b c d) st))"

definition deadline_candidates :: "poll_state \<Rightarrow> run_row list" where
  "deadline_candidates st =
     filter (\<lambda>r. run_id r \<in> fst ` set (tracked st) \<and> run_id r \<notin> set (deadlineEnforced st) \<and> live_run r)
       (runs (polled_store st))"

definition enforceDeadlines :: "poll_world \<Rightarrow> poll_tick_result \<times> poll_state \<Rightarrow> poll_tick_result \<times> poll_state" where
  "enforceDeadlines w acc = fold (enforce_deadline w) (deadline_candidates (snd acc)) acc"

section \<open>The budget\<close>

definition stopForBudget :: "poll_world \<Rightarrow> string \<Rightarrow> overrun_verdict \<Rightarrow> poll_state \<Rightarrow> poll_text \<times> poll_state" where
  "stopForBudget w rid v st =
    (case map_of (tracked st) rid of
       None \<Rightarrow> (Budget_no_handle v, st)
     | Some h \<Rightarrow>
         (case call_cancel w h st of
            (None, st) \<Rightarrow> (Budget_cancelled v, st)
          | (Some why, st) \<Rightarrow> (Budget_refused v why, st)))"

text \<open>The action as it is built: cast to the type, without a place and without evidence.\<close>

definition budget_action :: "string \<Rightarrow> string \<Rightarrow> raised_action" where
  "budget_action rid reason =
     \<lparr>ra_type = Act_escalate, ra_runId = Some rid, ra_kind = Some Esc_budget_exceeded,
      ra_reason = Free_text reason, ra_place = None, ra_evidence = None, ra_progressStoppedAt = None,
      ra_detectionSource = Some ''control-plane''\<rparr>"

text \<open>The first component says whether it returned.\<close>

definition enforceBudget ::
  "poll_world \<Rightarrow> string \<Rightarrow> bool \<Rightarrow> poll_tick_result \<times> poll_state \<Rightarrow> bool \<times> poll_tick_result \<times> poll_state" where
  "enforceBudget w rid runIsLive acc =
    (let (res, st) = acc
     in if rid \<in> set (budgetEnforced st) then (True, res, st)
        else case find (\<lambda>r. run_id r = rid) (runs (polled_store st)) of
          None \<Rightarrow> (True, res, st)
        | Some r \<Rightarrow>
            (case decideBudgetOverrun
                    \<lparr>oi_costUsd = run_costUsd r, oi_ceilingUsd = wo_budgetCeilingUsd (run_workOrder r),
                     oi_runIsLive = runIsLive\<rparr> of
               Not_over \<Rightarrow> (True, res, st)
             | Over cost cap past stoppable \<Rightarrow>
                 let v = Over cost cap past stoppable;
                     res = res\<lparr>pt_overBudget := pt_overBudget res + 1\<rparr>;
                     st = record_reason w rid (Budget_passed v)
                            (st\<lparr>budgetEnforced := List.insert rid (budgetEnforced st)\<rparr>);
                     (outcome, st) = (if stoppable then stopForBudget w rid v st
                                      else (Budget_already_finished v, st));
                     st = record_reason w rid outcome st;
                     (raised, book) = raiseFrom (pw_escalations w) (pw_now w)
                                        [budget_action rid (pw_say w outcome)] (polled_pages st)
                 in (raised \<noteq> None, res, st\<lparr>polled_pages := book\<rparr>)))"

section \<open>One run\<close>

text \<open>Ingestion of what was handed back, and the budget check after it; the first component says
  whether ingestion returned. A budget check that throws is counted and not passed on.\<close>

definition take_events ::
  "poll_world \<Rightarrow> string \<Rightarrow> run_poll_result \<Rightarrow> poll_tick_result \<times> poll_state \<Rightarrow> bool \<times> poll_tick_result \<times> poll_state" where
  "take_events w rid answer acc =
    (let (res, st) = acc
     in if rp_events answer = [] then (True, res, st)
        else case ingest (pw_check w) (pw_emit w) rid (rp_events answer) (polled_store st) of
          (store, Inl e) \<Rightarrow> (False, res, st\<lparr>polled_store := store\<rparr>)
        | (store, Inr got) \<Rightarrow>
            (let res = res\<lparr>pt_eventsIngested := pt_eventsIngested res + accepted got,
                           pt_duplicates := pt_duplicates res + duplicates got\<rparr>;
                 (returned, res, st) =
                   enforceBudget w rid (rp_status answer = Rr_running) (res, st\<lparr>polled_store := store\<rparr>)
             in (True, if returned then res else res\<lparr>pt_failed := pt_failed res + 1\<rparr>, st)))"

definition pollOne ::
  "poll_world \<Rightarrow> string \<times> run_handle \<Rightarrow> poll_tick_result \<times> poll_state \<Rightarrow> poll_tick_result \<times> poll_state" where
  "pollOne w entry acc =
    (let (rid, h) = entry; (res, st) = acc; failed = (\<lambda>res. res\<lparr>pt_failed := pt_failed res + 1\<rparr>)
     in case pw_poll w h of
          Inl e \<Rightarrow> (failed res, st)
        | Inr answer \<Rightarrow>
            (let (windows, book) =
                   (if rp_quota answer = [] then (0, polled_windows st)
                    else record_quota (pw_storable w) (rp_quota answer) (polled_windows st));
                 res = res\<lparr>pt_polled := pt_polled res + 1, pt_quotaWindows := pt_quotaWindows res + windows\<rparr>;
                 (returned, res, st) = take_events w rid answer (res, st\<lparr>polled_windows := book\<rparr>)
             in if \<not> returned then (failed res, st)
                else case rp_status answer of
                  Rr_unknown \<Rightarrow> (res\<lparr>pt_lost := pt_lost res + 1\<rparr>, markLost rid (forget rid st))
                | Rr_succeeded \<Rightarrow> (res, forget rid st)
                | Rr_failed \<Rightarrow> (res, forget rid st)
                | _ \<Rightarrow> (res, st)))"

section \<open>A tick\<close>

definition reconcile_one ::
  "run_row \<Rightarrow> poll_tick_result \<times> poll_state \<Rightarrow> poll_tick_result \<times> poll_state" where
  "reconcile_one r acc =
    (let (res, st) = acc
     in if run_id r \<in> fst ` set (tracked st) then (res, st)
        else if run_status r = Run_stalled \<and> run_attentionReason r = Some LOST_HANDLE_REASON then (res, st)
        else (res\<lparr>pt_lost := pt_lost res + 1\<rparr>, markLost (run_id r) st))"

definition reconcileUntracked :: "poll_tick_result \<times> poll_state \<Rightarrow> poll_tick_result \<times> poll_state" where
  "reconcileUntracked acc =
     fold reconcile_one (take POLL_BATCH_SIZE (filter live_run (runs (polled_store (snd acc))))) acc"

definition no_polls :: poll_tick_result where
  "no_polls = \<lparr>pt_polled = 0, pt_eventsIngested = 0, pt_duplicates = 0, pt_lost = 0, pt_failed = 0,
     pt_timedOut = 0, pt_overBudget = 0, pt_quotaWindows = 0\<rparr>"

definition poll_tick :: "poll_world \<Rightarrow> poll_state \<Rightarrow> poll_tick_result \<times> poll_state" where
  "poll_tick w st =
    (let (res, st) = enforceDeadlines w (no_polls, st)
     in reconcileUntracked (fold (pollOne w) (take POLL_BATCH_SIZE (tracked st)) (res, st)))"

end
