(* ===== verification/Run_Poller_Properties.thy ===== *)
theory Run_Poller_Properties
  imports Run_Poller Run_Executor Escalation_Lifecycle
begin

text \<open>
  What a tick of the poller leaves behind: no live run that nobody watches without saying so, each
  run past its wall clock cancelled once, and an overrun stopped; and what modelling it showed.
\<close>

section \<open>Watching\<close>

lemma write_live_parts [simp]:
  "tracked (write_live rid f st) = tracked st" "deadlineEnforced (write_live rid f st) = deadlineEnforced st"
  "cancelled_handles (write_live rid f st) = cancelled_handles st"
  "polled_orders (write_live rid f st) = polled_orders st" "polled_pages (write_live rid f st) = polled_pages st"
  "runs (polled_store (write_live rid f st)) =
     map (\<lambda>r. if run_id r = rid \<and> live_run r then f r else r) (runs (polled_store st))"
  by (simp_all add: write_live_def on_polled_def)

lemma lose_facts [simp]:
  "live_run (lose r)" "run_id (lose r) = run_id r" "run_status (lose r) = Run_stalled"
  "run_attentionReason (lose r) = Some LOST_HANDLE_REASON"
  by (simp_all add: lose_def live_run_def LIVE_STATUSES_def)

definition known_lost :: "run_row \<Rightarrow> bool" where
  "known_lost r \<longleftrightarrow> run_status r = Run_stalled \<and> run_attentionReason r = Some LOST_HANDLE_REASON"

definition lost_among :: "string set \<Rightarrow> run_row \<Rightarrow> run_row" where
  "lost_among ids r = (if run_id r \<in> ids \<and> live_run r then lose r else r)"

lemma lost_among_facts [simp]:
  "live_run (lost_among ids r) = live_run r" "run_id (lost_among ids r) = run_id r"
  by (auto simp: lost_among_def)

lemma lose_idem [simp]: "lose (lose r) = lose r"
  by (simp add: lose_def)

lemma lost_among_insert: "(if run_id r = i \<and> live_run r then lose (lost_among ids r) else lost_among ids r) =
    lost_among (insert i ids) r"
  by (auto simp: lost_among_def)

text \<open>The sweep in closed form: the untracked rows of the batch not yet said to be lost become so.\<close>

lemma reconcile_closed:
  fixes st :: poll_state
  defines "ids \<equiv> \<lambda>L. {run_id r | r. r \<in> set L \<and> run_id r \<notin> fst ` set (tracked st) \<and> \<not> known_lost r}"
  shows "tracked (snd (fold reconcile_one L (res, st))) = tracked st \<and>
    runs (polled_store (snd (fold reconcile_one L (res, st)))) = map (lost_among (ids L)) (runs (polled_store st))"
  unfolding ids_def
proof (induction L arbitrary: res st)
  case Nil
  show ?case by (simp add: lost_among_def map_idI)
next
  case (Cons r L)
  let ?U = "\<lambda>L. {run_id r | r. r \<in> set L \<and> run_id r \<notin> fst ` set (tracked st) \<and> \<not> known_lost r}"
  show ?case
  proof (cases "run_id r \<in> fst ` set (tracked st) \<or> known_lost r")
    case True
    then have "?U (r # L) = ?U L" by auto
    moreover from True have "reconcile_one r (res, st) = (res, st)"
      by (auto simp: reconcile_one_def known_lost_def)
    ultimately show ?thesis using Cons[of res st] by simp
  next
    case False
    then have U: "?U (r # L) = insert (run_id r) (?U L)" by auto
    let ?res = "res\<lparr>pt_lost := pt_lost res + 1\<rparr>" and ?st = "markLost (run_id r) st"
    have one: "reconcile_one r (res, st) = (?res, ?st)"
      using False by (auto simp: reconcile_one_def known_lost_def)
    have tr: "tracked ?st = tracked st" by (simp add: markLost_def)
    have "map (lost_among (?U L)) (runs (polled_store ?st)) = map (lost_among (insert (run_id r) (?U L))) (runs (polled_store st))"
      by (auto simp: markLost_def lost_among_def)
    with Cons[of ?res ?st] show ?thesis unfolding U fold_simps one tr by simp
  qed
qed

text \<open>C15: No live run goes unwatched in silence. After a tick, of the live runs one batch covers each is either
  one this process holds a handle for, or is stalled with the sentence that says nobody does.\<close>
theorem no_live_run_goes_unwatched:
  assumes "poll_tick w st = (res, st')"
    and "r \<in> set (take POLL_BATCH_SIZE (filter live_run (runs (polled_store st'))))"
  shows "run_id r \<in> fst ` set (tracked st') \<or>
    run_status r = Run_stalled \<and> run_attentionReason r = Some LOST_HANDLE_REASON"
proof -
  obtain res1 st1 where last: "(res, st') = reconcileUntracked (res1, st1)"
    using assms(1) by (auto simp: poll_tick_def case_prod_unfold) (metis prod.collapse)
  let ?L = "take POLL_BATCH_SIZE (filter live_run (runs (polled_store st1)))"
  let ?I = "{run_id r | r. r \<in> set ?L \<and> run_id r \<notin> fst ` set (tracked st1) \<and> \<not> known_lost r}"
  have closed: "tracked st' = tracked st1" "runs (polled_store st') = map (lost_among ?I) (runs (polled_store st1))"
    using last reconcile_closed[of ?L res1 st1] unfolding reconcileUntracked_def by (metis snd_conv)+
  have "filter live_run (map (lost_among ?I) rs) = map (lost_among ?I) (filter live_run rs)" for rs
    by (induction rs) auto
  then have "take POLL_BATCH_SIZE (filter live_run (runs (polled_store st'))) = map (lost_among ?I) ?L"
    unfolding closed by (simp add: take_map)
  with assms(2) obtain s where s: "s \<in> set ?L" "r = lost_among ?I s" by auto
  have live: "live_run s" using s(1) by (auto dest: in_set_takeD)
  show ?thesis
  proof (cases "run_id s \<in> fst ` set (tracked st1) \<or> known_lost s")
    case True
    then show ?thesis unfolding s(2) closed(1) using live by (auto simp: lost_among_def known_lost_def)
  next
    case False
    then have "run_id s \<in> ?I" using s(1) by blast
    then show ?thesis unfolding s(2) using live by (simp add: lost_among_def)
  qed
qed

definition watched :: "run_status \<Rightarrow> run_row" where
  "watched status =
    \<lparr>run_id = ''r1'', run_runnerKey = CLAUDE_CODE_LOCAL,
     run_workOrder = \<lparr>wo_identity = ''o/n#7@c1.1'', wo_repository = ''o/n'', wo_issueNumber = 7,
       wo_branch = ''b'', wo_budgetCeilingUsd = Some 5\<rparr>,
     run_capability = None, run_status = status, run_runnerVersion = ''1'', run_attemptCount = 1,
     run_startedAt = 0, run_endedAt = None, run_lastEventAt = None, run_resumesAt = None,
     run_attentionReason = None, run_costUsd = Some 7, run_tokensInput = None, run_tokensOutput = None,
     run_headCommit = None, run_pullRequestUrl = None, run_pullRequestNumber = None\<rparr>"

definition a_handle :: run_handle where
  "a_handle = \<lparr>rh_runnerKey = CLAUDE_CODE_LOCAL, rh_externalId = ''p1'', rh_workOrderIdentity = ''o/n#7@c1.1''\<rparr>"

definition poller :: "(string \<times> run_handle) list \<Rightarrow> run_row list \<Rightarrow> poll_state" where
  "poller handles rows =
    \<lparr>tracked = handles, deadlineEnforced = [], budgetEnforced = [], cancelled_handles = [], polled_orders = [],
     polled_store = \<lparr>runs = rows, events = [], attempts = []\<rparr>, polled_windows = [],
     polled_pages = \<lparr>escalation_rows = [], detected_samples = [], notified_samples = []\<rparr>\<rparr>"

definition quiet_poll :: poll_world where
  "quiet_poll =
    \<lparr>pw_now = 18000000, pw_defaultTimeoutMinutes = Some 60, pw_graceMinutes = 2,
     pw_poll = (\<lambda>h. Inr \<lparr>rp_status = Rr_blocked, rp_events = [], rp_quota = []\<rparr>), pw_cancel = (\<lambda>h. None),
     pw_check = (\<lambda>j. Inl []), pw_emit = (\<lambda>e. ([], [])), pw_storable = (\<lambda>k. True),
     pw_escalations = \<lparr>ew_newId = (\<lambda>rows. concat (map es_id rows) @ ''+''), ew_storable = (\<lambda>r. True)\<rparr>,
     pw_say = (\<lambda>t. ''said'')\<rparr>"

lemma unheld_tick:
  "poll_tick quiet_poll (poller [] [watched Run_blocked]) =
     (no_polls\<lparr>pt_lost := 1\<rparr>, poller [] [lose (watched Run_blocked)])"
  by code_simp

theorem no_live_run_goes_unwatched_witness:
  "run_status (lose (watched Run_blocked)) = Run_stalled"
  using no_live_run_goes_unwatched[OF unheld_tick, of "lose (watched Run_blocked)"]
  by (simp add: poller_def POLL_BATCH_SIZE_def)

section \<open>The wall clock\<close>

definition is_overdue :: "poll_world \<Rightarrow> stored_work_order list \<Rightarrow> run_row \<Rightarrow> bool" where
  "is_overdue w orders r \<longleftrightarrow> (case deadline_of w orders r of In_time a b \<Rightarrow> False | Overdue a b c d \<Rightarrow> True)"

text \<open>What the wall clock reads of a run.\<close>

definition clock_terms where
  "clock_terms r = (run_id r, run_status r, run_startedAt r, run_workOrder r)"

lemma clock_termsD:
  assumes "clock_terms r' = clock_terms r"
  shows "run_id r' = run_id r" "live_run r' = live_run r" "is_overdue w orders r' = is_overdue w orders r"
  using assms by (simp_all add: clock_terms_def live_run_def is_overdue_def deadline_of_def order_timeout_def)

lemma cancel_deadline_parts:
  assumes "map_of (tracked st) rid = Some h"
  shows "tracked (cancelForDeadline w rid v st) = tracked st"
    "polled_orders (cancelForDeadline w rid v st) = polled_orders st"
    "deadlineEnforced (cancelForDeadline w rid v st) = List.insert rid (deadlineEnforced st)"
    "cancelled_handles (cancelForDeadline w rid v st) = cancelled_handles st @ [h]"
    "map clock_terms (runs (polled_store (cancelForDeadline w rid v st))) =
      map clock_terms (runs (polled_store st))"
  using assms
  by (auto simp: cancelForDeadline_def Let_def record_reason_def call_cancel_def clock_terms_def split: option.split)

lemma deadline_fold:
  fixes w :: poll_world
  assumes "\<And>r. r \<in> set L \<Longrightarrow> map_of (tracked st) (run_id r) \<noteq> None"
  shows "let late = filter (is_overdue w (polled_orders st)) L; st' = snd (fold (enforce_deadline w) L (res, st))
    in tracked st' = tracked st \<and> polled_orders st' = polled_orders st \<and>
    set (deadlineEnforced st') = set (deadlineEnforced st) \<union> run_id ` set late \<and>
    cancelled_handles st' = cancelled_handles st @ map (\<lambda>r. the (map_of (tracked st) (run_id r))) late \<and>
    map clock_terms (runs (polled_store st')) = map clock_terms (runs (polled_store st))"
  using assms
proof (induction L arbitrary: res st)
  case (Cons r L)
  obtain h where h: "map_of (tracked st) (run_id r) = Some h" using Cons.prems[of r] by auto
  show ?case
  proof (cases "deadline_of w (polled_orders st) r")
    case (In_time a b)
    then have "enforce_deadline w r (res, st) = (res, st)" "\<not> is_overdue w (polled_orders st) r"
      by (simp_all add: enforce_deadline_def is_overdue_def)
    with Cons.IH[of st res] Cons.prems show ?thesis by (simp add: Let_def)
  next
    case (Overdue a b c d)
    let ?st = "cancelForDeadline w (run_id r) (Overdue a b c d) st"
    let ?res = "res\<lparr>pt_timedOut := pt_timedOut res + 1\<rparr>"
    have one: "enforce_deadline w r (res, st) = (?res, ?st)" "is_overdue w (polled_orders st) r"
      using Overdue by (simp_all add: enforce_deadline_def is_overdue_def)
    note parts = cancel_deadline_parts[OF h, of w "Overdue a b c d"]
    have "\<And>s. s \<in> set L \<Longrightarrow> map_of (tracked ?st) (run_id s) \<noteq> None" using Cons.prems parts(1) by simp
    from Cons.IH[of ?st ?res, OF this] show ?thesis
      unfolding fold_simps one(1) Let_def parts(1-4) using parts(5) one(2) h by auto
  qed
qed simp

text \<open>C14: The wall clock is enforced exactly, and once. The sweep calls cancel on the handles of those runs it
  holds, that are live, past their own or the default limit and the grace, and not cancelled before,
  each one time and in order; it remembers them, and changes no run's status.\<close>
theorem deadlines_cancel_exactly:
  assumes "enforceDeadlines w (res, st) = (res', st')"
  shows "cancelled_handles st' = cancelled_handles st @
      map (\<lambda>r. the (map_of (tracked st) (run_id r))) (filter (is_overdue w (polled_orders st)) (deadline_candidates st)) \<and>
    set (deadlineEnforced st') = set (deadlineEnforced st) \<union>
      run_id ` set (filter (is_overdue w (polled_orders st)) (deadline_candidates st)) \<and>
    filter (is_overdue w (polled_orders st')) (deadline_candidates st') = [] \<and>
    map run_status (runs (polled_store st')) = map run_status (runs (polled_store st))"
proof (intro conjI)
  have "map_of (tracked st) (run_id r) \<noteq> None" if "r \<in> set (deadline_candidates st)" for r
    using that by (auto simp: deadline_candidates_def map_of_eq_None_iff)
  note parts = deadline_fold[where L = "deadline_candidates st" and st = st and res = res and w = w, OF this]
  have st': "st' = snd (fold (enforce_deadline w) (deadline_candidates st) (res, st))"
    using assms by (simp add: enforceDeadlines_def)
  note parts = parts[unfolded Let_def, folded st']
  show "cancelled_handles st' = cancelled_handles st @
      map (\<lambda>r. the (map_of (tracked st) (run_id r))) (filter (is_overdue w (polled_orders st)) (deadline_candidates st))"
    and enforced: "set (deadlineEnforced st') = set (deadlineEnforced st) \<union>
      run_id ` set (filter (is_overdue w (polled_orders st)) (deadline_candidates st))"
    using parts by simp_all
  have "map run_status rs = map (fst \<circ> snd) (map clock_terms rs)" for rs
    by (simp add: comp_def clock_terms_def)
  with parts show "map run_status (runs (polled_store st')) = map run_status (runs (polled_store st))" by metis
  have rows: "\<exists>r \<in> set (runs (polled_store st)). clock_terms r' = clock_terms r"
    if "r' \<in> set (runs (polled_store st'))" for r'
  proof -
    have "clock_terms r' \<in> clock_terms ` set (runs (polled_store st))"
      using that parts by (metis image_eqI set_map)
    then show ?thesis by auto
  qed
  have "\<not> is_overdue w (polled_orders st') r'" if "r' \<in> set (deadline_candidates st')" for r'
  proof
    assume late: "is_overdue w (polled_orders st') r'"
    from that have r': "r' \<in> set (runs (polled_store st'))" "run_id r' \<in> fst ` set (tracked st')"
        "run_id r' \<notin> set (deadlineEnforced st')" "live_run r'"
      by (simp_all add: deadline_candidates_def)
    obtain r where r: "r \<in> set (runs (polled_store st))" "clock_terms r' = clock_terms r" using rows[OF r'(1)] by blast
    note same = clock_termsD[OF r(2)]
    have "r \<in> set (filter (is_overdue w (polled_orders st)) (deadline_candidates st))"
      using r(1) r'(2-4) late parts unfolding same deadline_candidates_def by auto
    then show False using enforced r'(3) unfolding same by blast
  qed
  then show "filter (is_overdue w (polled_orders st')) (deadline_candidates st') = []"
    by (simp add: filter_empty_conv)
qed

lemma deadline_tick:
  "enforceDeadlines quiet_poll (no_polls, poller [(''r1'', a_handle)] [watched Run_blocked]) =
     (no_polls\<lparr>pt_timedOut := 1\<rparr>,
      (poller [(''r1'', a_handle)] [(watched Run_blocked)\<lparr>run_attentionReason := Some ''said''\<rparr>])
        \<lparr>deadlineEnforced := [''r1''], cancelled_handles := [a_handle]\<rparr>)"
  by code_simp

theorem deadlines_cancel_exactly_witness:
  "filter (is_overdue quiet_poll []) (deadline_candidates
     ((poller [(''r1'', a_handle)] [(watched Run_blocked)\<lparr>run_attentionReason := Some ''said''\<rparr>])
        \<lparr>deadlineEnforced := [''r1''], cancelled_handles := [a_handle]\<rparr>)) = []"
proof -
  note parts = deadlines_cancel_exactly[OF deadline_tick, THEN conjunct2, THEN conjunct2, THEN conjunct1]
  then show ?thesis by (simp add: poller_def)
qed

section \<open>The budget\<close>

lemma budget_action_throws:
  assumes "\<not> (\<exists>r \<in> set (escalation_rows st). outstanding (Some rid) Esc_budget_exceeded r)"
  shows "raiseFrom w now [budget_action rid reason] st = (None, st)"
  using assms
  by (simp add: raiseFrom_def raise_one_def escalation_of_def summarize_def budget_action_def kind_of_def)

lemma stop_parts [simp]:
  "polled_pages (snd (stopForBudget w rid v st)) = polled_pages st"
  "budgetEnforced (snd (stopForBudget w rid v st)) = budgetEnforced st"
  "map_of (tracked st) rid = Some h \<Longrightarrow> h \<in> set (cancelled_handles (snd (stopForBudget w rid v st)))"
  by (auto simp: stopForBudget_def call_cancel_def split: option.split)

lemma write_live_budget [simp]: "budgetEnforced (write_live rid f st) = budgetEnforced st"
  by (simp add: write_live_def on_polled_def)

text \<open>C16: An overrun is stopped, and nobody is paged. When a run has reported more than its order's ceiling and
  no page about that is outstanding, the check remembers it and cancels the run if it is live and
  held; but the action it hands to \<open>raiseFrom\<close> has no evidence, so the call throws, no escalation is
  written, and as the run counts as acted on no later tick raises one.\<close>
theorem overrun_stops_but_pages_nobody:
  assumes "enforceBudget w rid live (res, st) = (returned, res', st')"
    and "find (\<lambda>r. run_id r = rid) (runs (polled_store st)) = Some r" "rid \<notin> set (budgetEnforced st)"
    and "decideBudgetOverrun \<lparr>oi_costUsd = run_costUsd r, oi_ceilingUsd = wo_budgetCeilingUsd (run_workOrder r),
        oi_runIsLive = live\<rparr> = Over cost cap past stoppable"
    and "\<not> (\<exists>p \<in> set (escalation_rows (polled_pages st)). outstanding (Some rid) Esc_budget_exceeded p)"
  shows "\<not> returned \<and> polled_pages st' = polled_pages st \<and> rid \<in> set (budgetEnforced st') \<and>
    (\<forall>h. stoppable \<longrightarrow> map_of (tracked st) rid = Some h \<longrightarrow> h \<in> set (cancelled_handles st')) \<and>
    enforceBudget w rid live (res', st') = (True, res', st')"
proof (intro conjI allI impI)
  let ?st0 = "st\<lparr>budgetEnforced := List.insert rid (budgetEnforced st)\<rparr>"
  let ?st1 = "record_reason w rid (Budget_passed (Over cost cap past stoppable)) ?st0"
  let ?stop = "if stoppable then stopForBudget w rid (Over cost cap past stoppable) ?st1
      else (Budget_already_finished (Over cost cap past stoppable), ?st1)"
  define out where "out = fst ?stop"
  define st2 where "st2 = snd ?stop"
  have stop: "?stop = (out, st2)" by (simp add: out_def st2_def)
  have st2: "polled_pages st2 = polled_pages st" "budgetEnforced st2 = List.insert rid (budgetEnforced st)"
    by (simp_all add: st2_def record_reason_def)
  let ?f = "\<lambda>r. r\<lparr>run_attentionReason := Some (pw_say w out)\<rparr>"
  have keep: "(write_live rid ?f st2)\<lparr>polled_pages := polled_pages st\<rparr> = write_live rid ?f st2"
    using st2(1) by (cases st2) (simp add: write_live_def on_polled_def)
  have "enforceBudget w rid live (res, st) =
      (False, res\<lparr>pt_overBudget := pt_overBudget res + 1\<rparr>, write_live rid ?f st2)"
    unfolding enforceBudget_def Let_def prod.case assms(2)
    using assms(3) by (simp add: assms(4) stop record_reason_def[of w rid out] st2 budget_action_throws[OF assms(5)] keep)
  with assms(1) have res: "\<not> returned" "st' = write_live rid ?f st2" by simp_all
  show "\<not> returned" by (rule res(1))
  show "polled_pages st' = polled_pages st" unfolding res(2) by (simp add: st2)
  show enforced: "rid \<in> set (budgetEnforced st')" unfolding res(2) by (simp add: st2)
  show "h \<in> set (cancelled_handles st')" if "stoppable" "map_of (tracked st) rid = Some h" for h
    using that unfolding res(2) st2_def by (simp add: record_reason_def)
  show "enforceBudget w rid live (res', st') = (True, res', st')" using enforced by (simp add: enforceBudget_def)
qed

lemma overrun_tick:
  "enforceBudget quiet_poll ''r1'' True (no_polls, poller [(''r1'', a_handle)] [watched Run_running]) =
     (False, no_polls\<lparr>pt_overBudget := 1\<rparr>,
      (poller [(''r1'', a_handle)] [(watched Run_running)\<lparr>run_attentionReason := Some ''said''\<rparr>])
        \<lparr>budgetEnforced := [''r1''], cancelled_handles := [a_handle]\<rparr>)"
  by code_simp

theorem overrun_stops_but_pages_nobody_witness:
  "escalation_rows (polled_pages (snd (snd
     (enforceBudget quiet_poll ''r1'' True (no_polls, poller [(''r1'', a_handle)] [watched Run_running]))))) = []"
proof -
  have over: "decideBudgetOverrun \<lparr>oi_costUsd = run_costUsd (watched Run_running),
      oi_ceilingUsd = wo_budgetCeilingUsd (run_workOrder (watched Run_running)), oi_runIsLive = True\<rparr> =
      Over 7 5 (to_cents 2) True"
    by (simp add: watched_def decideBudgetOverrun_def)
  show ?thesis
    using overrun_stops_but_pages_nobody[OF overrun_tick _ _ over]
    unfolding overrun_tick by (simp add: poller_def watched_def)
qed

section \<open>What modelling showed\<close>

text \<open>
  A run parked on a usage limit needs no handle to be resumed, but after a restart the first tick
  marks it stalled, and the resume is refused from then on.
\<close>

lemma restart_strands_parked_runs:
  assumes "runs (exec_store st) = runs (polled_store (snd (poll_tick quiet_poll (poller [] [watched Run_blocked]))))"
    and "xw_autoResume w"
  shows "resumeParkedRun w ''r1'' st = (Some (Rs_refused (Not_parked (Some Run_stalled))), st)"
  using assms unfolding unheld_tick by (simp add: resumeParkedRun_def poller_def watched_def)

text \<open>
  The time a run is parked counts against its wall clock: a run blocked at its start is cancelled for
  having run for the whole park, and the mark stays when it is resumed, so that its second attempt
  has no wall clock at all.
\<close>

lemma parked_time_is_run_time:
  "deadline_of quiet_poll [] (watched Run_blocked) = Overdue 60 62 300 2"
  "deadline_candidates (track ''r1'' a_handle
     ((snd (enforceDeadlines quiet_poll (no_polls, poller [(''r1'', a_handle)] [watched Run_blocked])))
        \<lparr>polled_store := \<lparr>runs = [watched Run_running], events = [], attempts = []\<rparr>\<rparr>)) = []"
  by code_simp+

end
