(* ===== verification/Steering_Parser.thy ===== *)
theory Steering_Parser
  imports Js_Text "HOL-Library.Sublist"
begin

text \<open>
  An operator's sentence read without a model (\<open>steering/steering-instruction.parser.ts\<close>): the tokens
  the pattern \<open>TOKEN\<close> finds, the run of words that arms a bare number, and the intent.
\<close>

section \<open>Tokens\<close>

definition repository_char :: "char \<Rightarrow> bool" where
  "repository_char c \<longleftrightarrow> word_char c \<or> c = CHR ''.'' \<or> c = CHR ''-''"

definition ascii_letter :: "char \<Rightarrow> bool" where
  "ascii_letter c \<longleftrightarrow> lower_letter (lower_char c)"

definition qualified_ref :: pattern where
  "qualified_ref = seqs [capture (many1 repository_char), lit ''/'', capture (many1 repository_char), lit ''#'',
     capture (many1 digit)]"

definition bare_ref :: pattern where "bare_ref = seqs [lit ''#'', capture (many1 digit)]"
definition bare_number :: pattern where "bare_number = capture (many1 digit)"

definition plain_word :: pattern where
  "plain_word = capture (seqs [one ascii_letter, many (\<lambda>c. ascii_letter c \<or> c = CHR 0x27 \<or> c = CHR ''-'')])"

definition separator :: pattern where "separator = capture (one (\<lambda>c. c = CHR '','' \<or> c = CHR ''&''))"

datatype steering_token =
    Reference "(string \<times> string) option" string string \<comment> \<open>owner and name, the digits, the match\<close>
  | Bare_number string
  | A_word string
  | Separator

text \<open>The first alternative that matches at a position, and where it ends.\<close>

definition token_at :: "string \<Rightarrow> string \<Rightarrow> (steering_token \<times> string \<times> string) option" where
  "token_at b a =
    (case qualified_ref (b, a, []) of
       (b', a', g) # rest \<Rightarrow> Some (Reference (Some (g ! 0, g ! 1)) (g ! 2) (take (length a - length a') a), b', a')
     | [] \<Rightarrow>
    (case bare_ref (b, a, []) of
       (b', a', g) # rest \<Rightarrow> Some (Reference None (g ! 0) (take (length a - length a') a), b', a')
     | [] \<Rightarrow>
    (case bare_number (b, a, []) of
       (b', a', g) # rest \<Rightarrow> Some (Bare_number (g ! 0), b', a')
     | [] \<Rightarrow>
    (case plain_word (b, a, []) of
       (b', a', g) # rest \<Rightarrow> Some (A_word (g ! 0), b', a')
     | [] \<Rightarrow>
    (case separator (b, a, []) of
       (b', a', g) # rest \<Rightarrow> Some (Separator, b', a')
     | [] \<Rightarrow> None)))))"

function tokens_from :: "string \<Rightarrow> string \<Rightarrow> steering_token list" where
  "tokens_from b [] = []"
| "tokens_from b (c # a) =
    (case token_at b (c # a) of
       Some (t, b', a') \<Rightarrow> if length a' \<le> length a then t # tokens_from b' a' else tokens_from (c # b) a
     | None \<Rightarrow> tokens_from (c # b) a)"
  by pat_completeness auto
termination by (relation "measure (\<lambda>(b, a). length a)") auto

section \<open>The vocabulary\<close>

definition READY_VERBS :: "string list" where
  "READY_VERBS = [''work'', ''working'', ''do'', ''run'', ''start'', ''dispatch'', ''release'', ''resume'',
     ''unhold'', ''unblock'', ''ready'', ''focus'', ''prioritize'', ''prioritise'', ''build'', ''tackle'']"

definition HOLD_VERBS :: "string list" where
  "HOLD_VERBS = [''hold'', ''pause'', ''stop'', ''halt'', ''freeze'', ''park'', ''suspend'']"

definition EXCLUSIVE_WORDS :: "string list" where
  "EXCLUSIVE_WORDS = [''only'', ''just'', ''exclusively'', ''solely'']"

definition SCOPE_NOUNS :: "string list" where
  "SCOPE_NOUNS = [''issue'', ''issues'', ''epic'', ''epics'', ''number'', ''numbers'', ''item'', ''items'',
     ''ticket'', ''tickets'']"

definition FILLERS :: "string list" where
  "FILLERS = [''the'', ''a'', ''an'', ''and'', ''to'', ''of'', ''for'', ''on'', ''please'', ''all'', ''these'',
     ''those'', ''them'', ''my'', ''our'', ''in'', ''at'', ''is'', ''are'', ''be'', ''up'', ''with'']"

definition ELSE_PHRASES :: "pattern list" where
  "ELSE_PHRASES =
    [seqs [word_boundary, either (lit ''everything'') (either (lit ''anything'') (lit ''all'')), many1 js_space,
           lit ''else'', word_boundary],
     seqs [word_boundary, lit ''the'', many1 js_space, lit ''rest'', word_boundary],
     seqs [word_boundary, lit ''all'', many1 js_space, maybe (seqs [lit ''the'', many1 js_space]), lit ''other'',
           up_to 1 (\<lambda>c. c = CHR ''s''), word_boundary],
     seqs [word_boundary, lit ''nothing'', many1 js_space, lit ''else'', word_boundary]]"

section \<open>What a sentence says\<close>

datatype steering_intent = Intends_ready | Intends_hold
datatype else_intent = Else_unready | Else_hold
datatype target_kind = Issue_target | Epic_target

record parsed_target =
  tg_kind :: target_kind
  tg_repository :: "(string \<times> string) option"
  tg_number :: nat
  tg_reference :: string

datatype steering_ambiguity = Two_verbs | No_known_verb | No_number_named

datatype steering_note =
    Hold_restricts_nothing
  | Read_exclusively else_intent
  | Read_as steering_intent
  | Number_not_read nat

record parsed_instruction =
  pi_intent :: steering_intent
  pi_exclusive :: bool
  pi_elseIntent :: else_intent
  pi_targets :: "parsed_target list"
  pi_ignoredNumbers :: "nat list"
  pi_confident :: bool
  pi_ambiguity :: "steering_ambiguity option"
  pi_notes :: "steering_note list"

record reading =
  armed :: bool
  leadKind :: target_kind
  sawReady :: bool
  sawHold :: bool
  sawExclusiveWord :: bool
  read_targets :: "parsed_target list"
  read_ignored :: "nat list"

definition digits_number :: "string \<Rightarrow> nat" where
  "digits_number ds = nat (digits_value 10 ds)"

definition read_word :: "string \<Rightarrow> reading \<Rightarrow> reading" where
  "read_word word r =
    (let r = r\<lparr>sawReady := sawReady r \<or> word \<in> set READY_VERBS, sawHold := sawHold r \<or> word \<in> set HOLD_VERBS,
               sawExclusiveWord := sawExclusiveWord r \<or> word \<in> set EXCLUSIVE_WORDS\<rparr>
     in if word = ''epic'' \<or> word = ''epics'' then r\<lparr>leadKind := Epic_target, armed := True\<rparr>
        else if word \<in> set READY_VERBS \<or> word \<in> set HOLD_VERBS \<or> word \<in> set EXCLUSIVE_WORDS \<or> word \<in> set SCOPE_NOUNS
        then r\<lparr>leadKind := Issue_target, armed := True\<rparr>
        else if word \<in> set FILLERS then r
        else r\<lparr>armed := False, leadKind := Issue_target\<rparr>)"

fun read_token :: "steering_token \<Rightarrow> reading \<Rightarrow> reading" where
  "read_token (Reference repo ds raw) r =
     r\<lparr>read_targets := read_targets r @
         [\<lparr>tg_kind = leadKind r, tg_repository = repo, tg_number = digits_number ds, tg_reference = raw\<rparr>],
       armed := True\<rparr>"
| "read_token (Bare_number ds) r =
     (if armed r
      then r\<lparr>read_targets := read_targets r @
               [\<lparr>tg_kind = leadKind r, tg_repository = None, tg_number = digits_number ds, tg_reference = ds\<rparr>]\<rparr>
      else r\<lparr>read_ignored := read_ignored r @ [digits_number ds]\<rparr>)"
| "read_token Separator r = r"
| "read_token (A_word word) r = read_word word r"

definition nothing_read :: reading where
  "nothing_read = \<lparr>armed = False, leadKind = Issue_target, sawReady = False, sawHold = False,
     sawExclusiveWord = False, read_targets = [], read_ignored = []\<rparr>"

text \<open>The key joins the parts with an empty owner and name for a bare number.\<close>

definition target_key :: "parsed_target \<Rightarrow> target_kind \<times> string \<times> nat" where
  "target_key t =
     (tg_kind t, (case tg_repository t of None \<Rightarrow> ''/'' | Some (owner, name) \<Rightarrow> owner @ ''/'' @ name), tg_number t)"

fun dedupe_from :: "(target_kind \<times> string \<times> nat) list \<Rightarrow> parsed_target list \<Rightarrow> parsed_target list" where
  "dedupe_from seen [] = []"
| "dedupe_from seen (t # ts) =
    (if target_key t \<in> set seen then dedupe_from seen ts else t # dedupe_from (target_key t # seen) ts)"

definition dedupe :: "parsed_target list \<Rightarrow> parsed_target list" where
  "dedupe ts = dedupe_from [] ts"

definition intent_of :: "reading \<Rightarrow> bool \<Rightarrow> steering_intent \<times> steering_ambiguity option" where
  "intent_of r sawElse =
    (if sawReady r \<and> sawHold r then (Intends_ready, if sawElse then None else Some Two_verbs)
     else if sawHold r then (Intends_hold, None)
     else if sawReady r then (Intends_ready, None)
     else if \<not> sawExclusiveWord r then (Intends_ready, Some No_known_verb)
     else (Intends_ready, None))"

definition parseSteeringInstruction :: "string \<Rightarrow> parsed_instruction" where
  "parseSteeringInstruction instruction =
    (let text = to_lower instruction;
         r = fold read_token (tokens_from [] text) nothing_read;
         sawElse = list_ex (\<lambda>p. search p [] text) ELSE_PHRASES;
         (intent, unclear) = intent_of r sawElse;
         ambiguity = (if read_targets r = [] \<and> unclear = None then Some No_number_named else unclear);
         restrictive = (sawExclusiveWord r \<or> sawElse);
         elseIntent = (if sawElse \<and> sawHold r then Else_hold else Else_unready);
         exclusive = (restrictive \<and> intent \<noteq> Intends_hold);
         confident = (ambiguity = None \<and> read_targets r \<noteq> [])
     in \<lparr>pi_intent = intent, pi_exclusive = exclusive, pi_elseIntent = elseIntent,
         pi_targets = dedupe (read_targets r), pi_ignoredNumbers = read_ignored r, pi_confident = confident,
         pi_ambiguity = ambiguity,
         pi_notes =
           (if restrictive \<and> intent = Intends_hold then [Hold_restricts_nothing] else []) @
           (if confident then [if exclusive then Read_exclusively elseIntent else Read_as intent] else []) @
           map Number_not_read (read_ignored r)\<rparr>)"

section \<open>Nothing is read that is not written\<close>

lemma many_from_text: "(b', a', g') \<in> set (many_from P b a g) \<Longrightarrow> g' = g \<and> (\<exists>u. a = u @ a' \<and> list_all P u)"
proof (induction P b a g rule: many_from.induct)
  case (2 P b c a g)
  show ?case
  proof (cases "P c \<and> (b', a', g') \<in> set (many_from P (c # b) a g)")
    case True
    with 2 obtain u where "g' = g" "a = u @ a'" "list_all P u" by auto
    with True show ?thesis by (intro conjI exI[of _ "c # u"]) simp_all
  next
    case False
    with 2(2) have "a' = c # a" "g' = g" by (auto split: if_splits)
    then show ?thesis by (intro conjI exI[of _ "[]"]) simp_all
  qed
qed simp

lemma many1_text:
  assumes "(b', a', g') \<in> set (many1 P (b, a, g))"
  shows "g' = g \<and> (\<exists>u. a = u @ a' \<and> u \<noteq> [] \<and> list_all P u)"
proof (cases a)
  case (Cons c s)
  with assms have c: "P c" "(b', a', g') \<in> set (many_from P (c # b) s g)"
    by (auto simp: many1_def many_def split: if_splits)
  from many_from_text[OF c(2)] obtain u where "g' = g" "s = u @ a'" "list_all P u" by auto
  with c(1) Cons show ?thesis by (intro conjI exI[of _ "c # u"]) simp_all
qed (use assms in \<open>simp add: many1_def\<close>)

lemma capture_text:
  assumes "(b', a', g') \<in> set (capture r (b, a, g))"
  obtains h where "(b', a', h) \<in> set (r (b, a, g))" "g' = h @ [take (length a - length a') a]"
  using assms by (auto simp: capture_def)

lemma capture_many1_text:
  assumes "(b', a', g') \<in> set (capture (many1 P) (b, a, g))"
  shows "\<exists>u. a = u @ a' \<and> g' = g @ [u] \<and> u \<noteq> [] \<and> list_all P u"
  using assms by (rule capture_text) (auto dest!: many1_text)

lemma lit_text: "(b', a', g') \<in> set (lit s (b, a, g)) \<Longrightarrow> g' = g \<and> a = s @ a'"
proof (induction s arbitrary: b a g)
  case (Cons c s)
  then show ?case by (cases a) (auto simp: lit_def split: if_splits)
qed (simp add: lit_def)

definition repository_name :: "string \<Rightarrow> bool" where
  "repository_name s \<longleftrightarrow> s \<noteq> [] \<and> list_all repository_char s"

definition reference_text :: "string \<Rightarrow> (string \<times> string) option \<Rightarrow> string \<Rightarrow> bool" where
  "reference_text raw repo ds \<longleftrightarrow> ds \<noteq> [] \<and> list_all digit ds \<and>
     (case repo of None \<Rightarrow> raw = ''#'' @ ds
      | Some (owner, name) \<Rightarrow> repository_name owner \<and> repository_name name \<and> raw = owner @ ''/'' @ name @ ''#'' @ ds)"

lemma bare_ref_text:
  assumes "(b', a', g) \<in> set (bare_ref (b, a, []))"
  shows "\<exists>ds. g = [ds] \<and> a = (''#'' @ ds) @ a' \<and> ds \<noteq> [] \<and> list_all digit ds"
  using assms by (auto simp: bare_ref_def dest!: lit_text capture_many1_text)

lemma qualified_ref_text:
  assumes "(b', a', g) \<in> set (qualified_ref (b, a, []))"
  shows "\<exists>owner name ds. g = [owner, name, ds] \<and> a = (owner @ ''/'' @ name @ ''#'' @ ds) @ a' \<and> ds \<noteq> [] \<and> list_all digit ds \<and>
    repository_name owner \<and> repository_name name"
  using assms by (auto simp: qualified_ref_def repository_name_def dest!: lit_text capture_many1_text)

text \<open>What a token says stands in the text, and what is left follows it.\<close>

fun token_text :: "steering_token \<Rightarrow> string \<Rightarrow> bool" where
  "token_text (Reference repo ds raw) s \<longleftrightarrow> sublist raw s \<and> reference_text raw repo ds"
| "token_text (Bare_number ds) s \<longleftrightarrow> sublist ds s \<and> ds \<noteq> [] \<and> list_all digit ds"
| "token_text _ s \<longleftrightarrow> True"

lemma token_text_prepend: "token_text t s \<Longrightarrow> token_text t (u @ s)"
  by (cases t) (auto simp: sublist_def, (metis append.assoc)+)

lemma token_at_cases:
  assumes "token_at b a = Some (t, b', a')"
  obtains (slashed) g rest where "qualified_ref (b, a, []) = (b', a', g) # rest"
      "t = Reference (Some (g ! 0, g ! 1)) (g ! 2) (take (length a - length a') a)"
  | (bare) g rest where "bare_ref (b, a, []) = (b', a', g) # rest"
      "t = Reference None (g ! 0) (take (length a - length a') a)"
  | (number) g rest where "bare_number (b, a, []) = (b', a', g) # rest" "t = Bare_number (g ! 0)"
  | (word) g rest where "plain_word (b, a, []) = (b', a', g) # rest" "t = A_word (g ! 0)"
  | (comma) g rest where "separator (b, a, []) = (b', a', g) # rest" "t = Separator"
  using assms unfolding token_at_def by (auto split: list.splits prod.splits)

lemma token_at_text:
  assumes "token_at b a = Some (t, b', a')"
  shows "token_text t a \<and> (\<exists>u. a = u @ a')"
  using assms
proof (cases rule: token_at_cases)
  case (slashed g rest)
  then have "(b', a', g) \<in> set (qualified_ref (b, a, []))" by simp
  from qualified_ref_text[OF this] obtain owner name ds where
    g: "g = [owner, name, ds]" "a = (owner @ ''/'' @ name @ ''#'' @ ds) @ a'" "ds \<noteq> []" "list_all digit ds"
      "repository_name owner" "repository_name name" by auto
  have "take (length a - length a') a = owner @ ''/'' @ name @ ''#'' @ ds" unfolding g(2) by simp
  with g slashed(2) show ?thesis by (auto simp: reference_text_def intro: sublist_append_rightI)
next
  case (bare g rest)
  then have "(b', a', g) \<in> set (bare_ref (b, a, []))" by simp
  from bare_ref_text[OF this] obtain ds where
    g: "g = [ds]" "a = (''#'' @ ds) @ a'" "ds \<noteq> []" "list_all digit ds" by auto
  have "take (length a - length a') a = ''#'' @ ds" unfolding g(2) by simp
  with g bare(2) show ?thesis by (auto simp: reference_text_def)
next
  case (number g rest)
  then have "(b', a', g) \<in> set (capture (many1 digit) (b, a, []))" by (simp add: bare_number_def)
  from capture_many1_text[OF this] number(2) show ?thesis by auto
next
  case (word g rest)
  then have "(b', a', g) \<in> set (capture (seqs [one ascii_letter, many (\<lambda>c. ascii_letter c \<or> c = CHR 0x27 \<or> c = CHR ''-'')]) (b, a, []))"
    by (simp add: plain_word_def)
  then obtain h where "(b', a', h) \<in> set (seqs [one ascii_letter, many (\<lambda>c. ascii_letter c \<or> c = CHR 0x27 \<or> c = CHR ''-'')] (b, a, []))"
    by (rule capture_text)
  then have "\<exists>u. a = u @ a'" by (cases a) (auto simp: many_def split: if_splits dest!: many_from_text)
  with word(2) show ?thesis by simp
next
  case (comma g rest)
  then have "(b', a', g) \<in> set (capture (one (\<lambda>c. c = CHR '','' \<or> c = CHR ''&'')) (b, a, []))"
    by (simp add: separator_def)
  then obtain h where "(b', a', h) \<in> set (one (\<lambda>c. c = CHR '','' \<or> c = CHR ''&'') (b, a, []))" by (rule capture_text)
  then have "\<exists>u. a = u @ a'" by (cases a) (auto split: if_splits)
  with comma(2) show ?thesis by simp
qed

lemma tokens_text: "t \<in> set (tokens_from b a) \<Longrightarrow> token_text t a"
proof (induction b a rule: tokens_from.induct)
  case (2 b c a)
  show ?case
  proof (cases "token_at b (c # a)")
    case None
    then have "token_text t a" using 2 by simp
    then show ?thesis using token_text_prepend[of t a "[c]"] by simp
  next
    case (Some found)
    obtain s b' a' where found: "found = (s, b', a')" by (cases found)
    note Some = Some[unfolded found]
    obtain u where u: "token_text s (c # a)" "c # a = u @ a'" using token_at_text[OF Some] by blast
    show ?thesis
    proof (cases "length a' \<le> length a")
      case True
      with 2(2)[OF Some refl refl True] "2.prems" Some have "t = s \<or> token_text t a'" by auto
      then show ?thesis using u token_text_prepend[of t a' u] by auto
    next
      case False
      with 2(3)[OF Some refl refl False] "2.prems" Some have "token_text t a" by simp
      then show ?thesis using token_text_prepend[of t a "[c]"] by simp
    qed
  qed
qed simp

definition target_text :: "string \<Rightarrow> parsed_target \<Rightarrow> bool" where
  "target_text s t \<longleftrightarrow> sublist (tg_reference t) s \<and>
     (\<exists>ds. ds \<noteq> [] \<and> list_all digit ds \<and> tg_number t = digits_number ds \<and>
        (case tg_repository t of
           None \<Rightarrow> tg_reference t = ds \<or> tg_reference t = ''#'' @ ds
         | Some (owner, name) \<Rightarrow> repository_name owner \<and> repository_name name \<and>
             tg_reference t = owner @ ''/'' @ name @ ''#'' @ ds))"

lemma read_word_targets [simp]: "read_targets (read_word word r) = read_targets r"
  by (simp add: read_word_def Let_def)

lemma read_token_text:
  "token_text tok s \<Longrightarrow> \<forall>t \<in> set (read_targets r). target_text s t \<Longrightarrow>
   \<forall>t \<in> set (read_targets (read_token tok r)). target_text s t"
  by (cases tok) (auto simp: target_text_def reference_text_def split: option.splits)

lemma read_tokens_text:
  "\<forall>tok \<in> set toks. token_text tok s \<Longrightarrow> \<forall>t \<in> set (read_targets r). target_text s t \<Longrightarrow>
   \<forall>t \<in> set (read_targets (fold read_token toks r)). target_text s t"
proof (induction toks arbitrary: r)
  case (Cons tok toks)
  then have "\<forall>t \<in> set (read_targets (read_token tok r)). target_text s t" by (intro read_token_text) simp_all
  with Cons show ?case by simp
qed simp

lemma dedupe_from_subset: "set (dedupe_from seen ts) \<subseteq> set ts"
  by (induction ts arbitrary: seen) auto

lemma dedupe_from_keys:
  "distinct (map target_key (dedupe_from seen ts)) \<and> (\<forall>t \<in> set (dedupe_from seen ts). target_key t \<notin> set seen) \<and>
   target_key ` set ts \<subseteq> set seen \<union> target_key ` set (dedupe_from seen ts)"
proof (induction ts arbitrary: seen)
  case (Cons t ts)
  show ?case
  proof (cases "target_key t \<in> set seen")
    case True
    then show ?thesis using Cons[of seen] by auto
  next
    case False
    then show ?thesis using Cons[of "target_key t # seen"] by auto
  qed
qed simp

lemma parsed_targets:
  "pi_targets (parseSteeringInstruction s) = dedupe (read_targets (fold read_token (tokens_from [] (to_lower s)) nothing_read))"
  by (simp add: parseSteeringInstruction_def Let_def case_prod_unfold)

text \<open>What a token names: the kind the words before it lead to, the repository and the number.\<close>

fun names :: "reading \<Rightarrow> steering_token \<Rightarrow> (target_kind \<times> (string \<times> string) option \<times> nat) option" where
  "names r (Reference repo ds raw) = Some (leadKind r, repo, digits_number ds)"
| "names r (Bare_number ds) = (if armed r then Some (leadKind r, None, digits_number ds) else None)"
| "names r (A_word w) = None"
| "names r Separator = None"

definition named_by :: "parsed_target \<Rightarrow> target_kind \<times> (string \<times> string) option \<times> nat" where
  "named_by t = (tg_kind t, tg_repository t, tg_number t)"

lemma read_token_names:
  "named_by ` set (read_targets (read_token tok r)) = named_by ` set (read_targets r) \<union> set_option (names r tok)"
  by (cases tok) (auto simp: named_by_def)

lemma read_tokens_names:
  "x \<in> named_by ` set (read_targets (fold read_token toks r)) \<longleftrightarrow>
   x \<in> named_by ` set (read_targets r) \<or>
   (\<exists>before tok after. toks = before @ tok # after \<and> names (fold read_token before r) tok = Some x)"
proof (induction toks arbitrary: r)
  case (Cons tok toks)
  have "(\<exists>before tok' after. tok # toks = before @ tok' # after \<and> names (fold read_token before r) tok' = Some x) \<longleftrightarrow>
      names r tok = Some x \<or>
      (\<exists>before tok' after. toks = before @ tok' # after \<and> names (fold read_token before (read_token tok r)) tok' = Some x)"
    (is "?l \<longleftrightarrow> ?r")
  proof
    assume ?l
    then obtain before tok' after where split: "tok # toks = before @ tok' # after"
      "names (fold read_token before r) tok' = Some x" by blast
    then show ?r by (cases before) auto
  next
    assume ?r
    then show ?l
    proof (elim disjE exE conjE)
      assume "names r tok = Some x"
      then show ?l by (intro exI[of _ "[]"] exI[of _ tok] exI[of _ toks]) simp
    next
      fix before tok' after
      assume "toks = before @ tok' # after" "names (fold read_token before (read_token tok r)) tok' = Some x"
      then show ?l by (intro exI[of _ "tok # before"] exI[of _ tok'] exI[of _ after]) simp
    qed
  qed
  then show ?case using Cons.IH[of "read_token tok r"] read_token_names[of tok r] by auto
qed simp

text \<open>The key of the duplicates tells targets apart: no name of a repository has a slash.\<close>

lemma no_slash: "repository_name s \<Longrightarrow> CHR ''/'' \<notin> set s"
proof -
  have "\<not> repository_char (CHR ''/'')" by code_simp
  then show "repository_name s \<Longrightarrow> CHR ''/'' \<notin> set s" unfolding repository_name_def list_all_iff by blast
qed

lemma slash_splits:
  assumes "repository_name a" "repository_name c" "a @ ''/'' @ b = c @ ''/'' @ d"
  shows "a = c \<and> b = d"
proof -
  have "takeWhile (\<lambda>x. x \<noteq> CHR ''/'') (s @ ''/'' @ t) = s" if "repository_name s" for s t
    using no_slash[OF that] by (subst takeWhile_append2) auto
  then have "a = c" using assms by metis
  then show ?thesis using assms(3) by simp
qed

lemma target_key_named:
  assumes "target_text s t" "target_text s' t'" "target_key t = target_key t'"
  shows "named_by t = named_by t'"
proof -
  have apart: "''/'' \<noteq> a @ ''/'' @ b" if ok: "repository_name a" for a b
  proof -
    obtain c u where a: "a = c # u" using ok by (cases a) (simp_all add: repository_name_def)
    then have "c \<noteq> CHR ''/''" using no_slash[OF ok] by auto
    then show ?thesis unfolding a by simp
  qed
  have names: "repository_name a \<and> repository_name b" if "tg_repository u = Some (a, b)" "target_text s'' u" for u a b s''
    using that by (auto simp: target_text_def)
  have parts: "tg_kind t = tg_kind t'" "tg_number t = tg_number t'" using assms(3) by (simp_all add: target_key_def)
  have "tg_repository t = tg_repository t'"
  proof (cases "tg_repository t")
    case None
    show ?thesis
    proof (cases "tg_repository t'")
      case (Some p)
      obtain a b where p: "p = (a, b)" by fastforce
      have "''/'' = a @ ''/'' @ b" using assms(3) None Some p by (simp add: target_key_def)
      with apart[OF conjunct1[OF names[OF Some[unfolded p] assms(2)]], of b] show ?thesis by (rule notE)
    qed (use None in simp)
  next
    case (Some p)
    obtain a b where p: "p = (a, b)" by fastforce
    note t = Some[unfolded p]
    show ?thesis
    proof (cases "tg_repository t'")
      case None
      have "''/'' = a @ ''/'' @ b" using assms(3) None t by (simp add: target_key_def)
      with apart[OF conjunct1[OF names[OF t assms(1)]], of b] show ?thesis by (rule notE)
    next
      case (Some q)
      obtain c d where q: "q = (c, d)" by fastforce
      note t' = Some[unfolded q]
      have "a @ ''/'' @ b = c @ ''/'' @ d" using assms(3) t t' by (simp add: target_key_def)
      from slash_splits[OF conjunct1[OF names[OF t assms(1)]] conjunct1[OF names[OF t' assms(2)]] this]
      show ?thesis using t t' by simp
    qed
  qed
  with parts show ?thesis by (simp add: named_by_def)
qed

end
