(* ===== verification/Epic_Children.thy ===== *)
theory Epic_Children
  imports Labels Js_Text Runner_Types
begin

text \<open>
  What an epic lists (\<open>github/read/epic-body-children.ts\<close>, \<open>github/read/epic-children.service.ts\<close>): the
  task list under a child heading of its body, and the walk from an epic to the issues it names, one
  level or more, with GitHub's own sub-issues preferred. GitHub's answers are parameters.
\<close>

section \<open>An epic's body\<close>

fun split_lines_from :: "string \<Rightarrow> string \<Rightarrow> string list" where
  "split_lines_from line [] = [rev line]"
| "split_lines_from line (c # s) =
    (if c = CHR 0x0A then rev line # split_lines_from [] s
     else if c = CHR 0x0D \<and> s \<noteq> [] \<and> hd s = CHR 0x0A then rev line # split_lines_from [] (tl s)
     else split_lines_from (c # line) s)"

definition split_lines :: "string \<Rightarrow> string list" where
  "split_lines s = split_lines_from [] s"

definition FENCE :: pattern where
  "FENCE = seqs [at_start, many js_space, either (lit ''```'') (lit ''~~~'')]"

text \<open>\<open>.+?\<close> offers the same ends as \<open>.+\<close>, shortest first.\<close>

definition HEADING :: pattern where
  "HEADING = seqs [at_start, capture (seqs [one (\<lambda>c. c = CHR ''#''), up_to 5 (\<lambda>c. c = CHR ''#'')]), many1 js_space,
     capture (\<lambda>cur. rev (many1 dot cur)), many js_space, at_end]"

definition TASK_ITEM :: pattern where
  "TASK_ITEM = seqs [at_start, up_to 3 js_space, one (\<lambda>c. c \<in> set ''-*+''), many1 js_space, lit ''['',
     one (\<lambda>c. c \<in> set '' xX''), lit '']'', many js_space, capture (many dot), at_end]"

definition slug_part :: "char \<Rightarrow> bool" where
  "slug_part c \<longleftrightarrow> word_char c \<or> c = CHR ''.'' \<or> c = CHR ''-''"

definition url_reference :: pattern where
  "url_reference = seqs [lit ''http'', up_to 1 (\<lambda>c. c = CHR ''s''), lit ''://github.com/'', capture (many1 slug_part),
     lit ''/'', capture (many1 slug_part), lit ''/issues/'', capture (many1 digit)]"

definition slug_reference :: pattern where
  "slug_reference = seqs [capture (many1 slug_part), lit ''/'', capture (many1 slug_part), lit ''#'', capture (many1 digit)]"

definition hash_reference :: pattern where
  "hash_reference = (\<lambda>(b, a, g).
     if b \<noteq> [] \<and> (word_char (hd b) \<or> hd b = CHR ''/'') then []
     else seqs [lit ''#'', capture (many1 digit), word_boundary] (b, a, g))"

record parsed_child_ref =
  pc_repository :: "(string \<times> string) option"
  pc_number :: int
  pc_raw :: string

text \<open>The leftmost match of the three alternatives, in their order at each position.\<close>

definition reference_at :: "string \<Rightarrow> string \<Rightarrow> ((string \<times> string) option \<times> int) option" where
  "reference_at b a =
    (case url_reference (b, a, []) @ slug_reference (b, a, []) of
       (b', a', g) # rest \<Rightarrow> Some (Some (g ! 0, g ! 1), digits_value 10 (g ! 2))
     | [] \<Rightarrow> (case hash_reference (b, a, []) of
                (b', a', g) # rest \<Rightarrow> Some (None, digits_value 10 (g ! 0))
              | [] \<Rightarrow> None))"

fun find_reference :: "string \<Rightarrow> string \<Rightarrow> ((string \<times> string) option \<times> int) option" where
  "find_reference b [] = None"
| "find_reference b (c # a) = (case reference_at b (c # a) of Some r \<Rightarrow> Some r | None \<Rightarrow> find_reference (c # b) a)"

definition firstReference :: "string \<Rightarrow> parsed_child_ref option" where
  "firstReference text =
    (case find_reference [] text of
       Some (repo, n) \<Rightarrow> if n \<le> 0 then None else Some \<lparr>pc_repository = repo, pc_number = n, pc_raw = text\<rparr>
     | None \<Rightarrow> None)"

definition isChildHeading :: "string \<Rightarrow> bool" where
  "isChildHeading text \<longleftrightarrow>
     to_lower (rev (dropWhile (\<lambda>c. c = CHR '':'' \<or> c = CHR ''.'' \<or> js_space c)
        (rev (js_trim (filter (\<lambda>c. c \<notin> set ''*_`'') text)))))
     \<in> {''child'', ''children'', ''child work'', ''child issues''}"

text \<open>The lines of the section, once its heading is found at a level; fenced lines end nothing.\<close>

fun section_lines :: "nat \<Rightarrow> bool \<Rightarrow> string list \<Rightarrow> string list" where
  "section_lines level fenced [] = []"
| "section_lines level fenced (l # ls) =
    (if FENCE ([], l, []) \<noteq> [] then l # section_lines level (\<not> fenced) ls
     else if fenced then l # section_lines level fenced ls
     else case exec_whole HEADING l of
       Some g \<Rightarrow> if length (g ! 0) \<le> level then [] else l # section_lines level fenced ls
     | None \<Rightarrow> l # section_lines level fenced ls)"

fun find_section :: "bool \<Rightarrow> string list \<Rightarrow> (string list \<times> string) option" where
  "find_section fenced [] = None"
| "find_section fenced (l # ls) =
    (if FENCE ([], l, []) \<noteq> [] then find_section (\<not> fenced) ls
     else if fenced then find_section fenced ls
     else case exec_whole HEADING l of
       Some g \<Rightarrow>
         if isChildHeading (g ! 1) then Some (section_lines (length (g ! 0)) False ls, js_trim (g ! 1))
         else find_section fenced ls
     | None \<Rightarrow> find_section fenced ls)"

definition extractChildSection :: "string \<Rightarrow> (string list \<times> string) option" where
  "extractChildSection body = find_section False (split_lines body)"

record parsed_epic_body =
  pb_sectionFound :: bool
  pb_heading :: "string option"
  pb_refs :: "parsed_child_ref list"
  pb_unparsed :: "string list"

definition child_key :: "parsed_child_ref \<Rightarrow> string \<times> int" where
  "child_key r = ((case pc_repository r of None \<Rightarrow> ''/'' | Some (owner, name) \<Rightarrow> owner @ ''/'' @ name), pc_number r)"

definition read_item :: "string \<Rightarrow> parsed_child_ref list \<times> string list \<Rightarrow> parsed_child_ref list \<times> string list" where
  "read_item line acc =
    (let (refs, unparsed) = acc
     in case exec_whole TASK_ITEM line of
          None \<Rightarrow> acc
        | Some g \<Rightarrow>
            let text = js_trim (hd g)
            in if text = [] then acc
               else case firstReference text of
                 None \<Rightarrow> (refs, unparsed @ [text])
               | Some r \<Rightarrow> if child_key r \<in> child_key ` set refs then acc else (refs @ [r], unparsed))"

definition parseEpicBodyChildren :: "string option \<Rightarrow> parsed_epic_body" where
  "parseEpicBodyChildren body =
    (case Option.bind body extractChildSection of
       None \<Rightarrow> \<lparr>pb_sectionFound = False, pb_heading = None, pb_refs = [], pb_unparsed = []\<rparr>
     | Some (ls, title) \<Rightarrow>
         let (refs, unparsed) = fold read_item ls ([], [])
         in \<lparr>pb_sectionFound = True, pb_heading = Some title, pb_refs = refs, pb_unparsed = unparsed\<rparr>)"

section \<open>The walk\<close>

text \<open>A read of GitHub: an answer, a \<open>GitHubNotFoundError\<close>, or any other error, which propagates.\<close>

datatype 'a reply = Got 'a | Missing string | Broken string

record epic_world =
  ep_getIssue :: "repo_ref \<Rightarrow> int \<Rightarrow> normalized_issue reply"
  ep_listSubIssues :: "repo_ref \<Rightarrow> int \<Rightarrow> normalized_issue list reply"

definition MAX_EPIC_DEPTH :: nat where "MAX_EPIC_DEPTH = 5"

datatype epic_source = Sub_issues_api | Issue_body

datatype native_silence =
    No_sub_issues
  | Lookup_404 string
  | No_child_section native_silence

definition issueRef :: "repo_ref \<Rightarrow> int \<Rightarrow> string" where
  "issueRef repo n = repo_owner repo @ ''/'' @ repo_name repo @ ''#'' @ decimal (nat n)"

definition issue_url_repo :: pattern where
  "issue_url_repo = seqs [at_start, lit ''http'', up_to 1 (\<lambda>c. c = CHR ''s''), lit ''://'', many1 (\<lambda>c. c \<noteq> CHR ''/''), lit ''/'',
     capture (many1 slug_part), lit ''/'', capture (many1 slug_part), lit ''/'', either (lit ''issues'') (lit ''pull''), lit ''/'',
     many1 digit]"

definition repoFromIssueUrl :: "string \<Rightarrow> repo_ref option" where
  "repoFromIssueUrl url = map_option (\<lambda>g. \<lparr>repo_owner = g ! 0, repo_name = g ! 1\<rparr>) (exec_whole issue_url_repo url)"

record epic_child =
  ec_repo :: repo_ref
  ec_number :: int
  ec_ref :: string
  ec_title :: "string option"
  ec_state :: "issue_state option" \<comment> \<open>None is \<open>unknown\<close>\<close>
  ec_isPullRequest :: bool
  ec_source :: epic_source
  ec_depth :: nat
  ec_namedBy :: string
  ec_unreadable :: bool

datatype skip_cause = Skip_self | Skip_cycle | Skip_duplicate

record frontier_node =
  fn_repo :: repo_ref
  fn_number :: int
  fn_ref :: string
  fn_body :: "string option"

record named_ref =
  nr_repo :: repo_ref
  nr_number :: int
  nr_ref :: string
  nr_issue :: "normalized_issue option"

record named_children =
  nc_refs :: "named_ref list"
  nc_source :: epic_source
  nc_nativeUnavailable :: "native_silence option"
  nc_unparsed :: "string list"

text \<open>Left is an error that propagates.\<close>

definition childrenOf :: "epic_world \<Rightarrow> frontier_node \<Rightarrow> string + named_children" where
  "childrenOf w node =
    (let from_body = (\<lambda>silence.
           let parsed = parseEpicBodyChildren (fn_body node)
           in Inr \<lparr>nc_refs = map (\<lambda>r.
                     let repo = (case pc_repository r of None \<Rightarrow> fn_repo node
                                 | Some (owner, name) \<Rightarrow> \<lparr>repo_owner = owner, repo_name = name\<rparr>)
                     in \<lparr>nr_repo = repo, nr_number = pc_number r, nr_ref = issueRef repo (pc_number r), nr_issue = None\<rparr>)
                     (pb_refs parsed),
                   nc_source = Issue_body,
                   nc_nativeUnavailable = Some (if pb_sectionFound parsed then silence else No_child_section silence),
                   nc_unparsed = pb_unparsed parsed\<rparr>)
     in case ep_listSubIssues w (fn_repo node) (fn_number node) of
          Broken e \<Rightarrow> Inl e
        | Missing why \<Rightarrow> from_body (Lookup_404 why)
        | Got subs \<Rightarrow>
            if subs = [] then from_body No_sub_issues
            else Inr \<lparr>nc_refs = map (\<lambda>issue.
                        let repo = get_or (fn_repo node) (repoFromIssueUrl (ni_url issue))
                        in \<lparr>nr_repo = repo, nr_number = ni_number issue, nr_ref = issueRef repo (ni_number issue),
                            nr_issue = Some issue\<rparr>) subs,
                      nc_source = Sub_issues_api, nc_nativeUnavailable = None, nc_unparsed = []\<rparr>)"

definition tryGetIssue :: "epic_world \<Rightarrow> repo_ref \<Rightarrow> int \<Rightarrow> string + normalized_issue option" where
  "tryGetIssue w repo n =
    (case ep_getIssue w repo n of Got i \<Rightarrow> Inr (Some i) | Missing why \<Rightarrow> Inr None | Broken e \<Rightarrow> Inl e)"

record epic_walk =
  wk_children :: "epic_child list"
  wk_skipped :: "(string \<times> string \<times> skip_cause) list"
  wk_unparsed :: "(string \<times> string) list"
  wk_source :: "epic_source option"
  wk_nativeUnavailable :: "native_silence option"
  wk_seen :: "string list"
  wk_next :: "frontier_node list"

fun fold_sum :: "('a \<Rightarrow> 'b \<Rightarrow> 'e + 'b) \<Rightarrow> 'a list \<Rightarrow> 'b \<Rightarrow> 'e + 'b" where
  "fold_sum f [] b = Inr b"
| "fold_sum f (x # xs) b = (case f x b of Inl e \<Rightarrow> Inl e | Inr b' \<Rightarrow> fold_sum f xs b')"

definition skip_why :: "string \<Rightarrow> string \<Rightarrow> string \<Rightarrow> skip_cause" where
  "skip_why epicRef namedBy ref = (if ref = namedBy then Skip_self else if ref = epicRef then Skip_cycle else Skip_duplicate)"

definition add_child ::
  "epic_world \<Rightarrow> string \<Rightarrow> nat \<Rightarrow> bool \<Rightarrow> frontier_node \<Rightarrow> epic_source \<Rightarrow> named_ref \<Rightarrow> epic_walk \<Rightarrow> string + epic_walk" where
  "add_child w epicRef depth deeper node source r acc =
    (if nr_ref r \<in> set (wk_seen acc)
     then Inr (acc\<lparr>wk_skipped := wk_skipped acc @ [(nr_ref r, fn_ref node, skip_why epicRef (fn_ref node) (nr_ref r))]\<rparr>)
     else case (case nr_issue r of Some i \<Rightarrow> Inr (Some i) | None \<Rightarrow> tryGetIssue w (nr_repo r) (nr_number r)) of
       Inl e \<Rightarrow> Inl e
     | Inr issue \<Rightarrow>
         Inr (acc\<lparr>wk_seen := nr_ref r # wk_seen acc,
                  wk_children := wk_children acc @
                    [\<lparr>ec_repo = nr_repo r, ec_number = nr_number r, ec_ref = nr_ref r,
                      ec_title = map_option ni_title issue, ec_state = map_option ni_state issue,
                      ec_isPullRequest = (case issue of None \<Rightarrow> False | Some i \<Rightarrow> isPullRequest i), ec_source = source,
                      ec_depth = depth, ec_namedBy = fn_ref node, ec_unreadable = (issue = None)\<rparr>],
                  wk_next := wk_next acc @
                    (case issue of
                       Some i \<Rightarrow> if deeper \<and> \<not> isPullRequest i
                                 then [\<lparr>fn_repo = nr_repo r, fn_number = nr_number r, fn_ref = nr_ref r, fn_body = ni_body i\<rparr>]
                                 else []
                     | None \<Rightarrow> [])\<rparr>))"

definition expand_node ::
  "epic_world \<Rightarrow> string \<Rightarrow> nat \<Rightarrow> bool \<Rightarrow> frontier_node \<Rightarrow> epic_walk \<Rightarrow> string + epic_walk" where
  "expand_node w epicRef depth deeper node acc =
    (case childrenOf w node of
       Inl e \<Rightarrow> Inl e
     | Inr named \<Rightarrow>
         fold_sum (add_child w epicRef depth deeper node (nc_source named)) (nc_refs named)
           (acc\<lparr>wk_source := (if fn_ref node = epicRef then (if nc_refs named = [] then None else Some (nc_source named))
                              else wk_source acc),
                wk_nativeUnavailable := (if fn_ref node = epicRef then nc_nativeUnavailable named else wk_nativeUnavailable acc),
                wk_unparsed := wk_unparsed acc @ map (\<lambda>item. (fn_ref node, item)) (nc_unparsed named)\<rparr>))"

text \<open>One level after the other; the number is the levels left.\<close>

fun walk :: "epic_world \<Rightarrow> string \<Rightarrow> nat \<Rightarrow> nat \<Rightarrow> epic_walk \<Rightarrow> string + epic_walk" where
  "walk w epicRef 0 depth acc = Inr acc"
| "walk w epicRef (Suc n) depth acc =
    (if wk_next acc = [] then Inr acc
     else case fold_sum (expand_node w epicRef depth (0 < n)) (wk_next acc) (acc\<lparr>wk_next := []\<rparr>) of
       Inl e \<Rightarrow> Inl e
     | Inr acc' \<Rightarrow> walk w epicRef n (depth + 1) acc')"

record epic_resolution =
  er_ref :: string
  er_title :: string
  er_children :: "epic_child list"
  er_source :: "epic_source option"
  er_maxDepth :: nat
  er_skipped :: "(string \<times> string \<times> skip_cause) list"
  er_nativeUnavailable :: "native_silence option"
  er_unparsed :: "(string \<times> string) list"

definition clamp_depth :: "int option \<Rightarrow> nat" where
  "clamp_depth d = nat (min (max (get_or 1 d) 1) (int MAX_EPIC_DEPTH))"

definition resolve_epic :: "epic_world \<Rightarrow> repo_ref \<Rightarrow> int \<Rightarrow> int option \<Rightarrow> epic_resolution reply" where
  "resolve_epic w repo n depth =
    (case ep_getIssue w repo n of
       Missing why \<Rightarrow> Missing why
     | Broken e \<Rightarrow> Broken e
     | Got epic \<Rightarrow>
         let epicRef = issueRef repo n; maxDepth = clamp_depth depth;
             start = \<lparr>wk_children = [], wk_skipped = [], wk_unparsed = [], wk_source = None, wk_nativeUnavailable = None,
                      wk_seen = [epicRef], wk_next = [\<lparr>fn_repo = repo, fn_number = n, fn_ref = epicRef, fn_body = ni_body epic\<rparr>]\<rparr>
         in case walk w epicRef maxDepth 1 start of
              Inl e \<Rightarrow> Broken e
            | Inr fin \<Rightarrow>
                Got \<lparr>er_ref = epicRef, er_title = ni_title epic, er_children = wk_children fin, er_source = wk_source fin,
                     er_maxDepth = maxDepth, er_skipped = wk_skipped fin,
                     er_nativeUnavailable = wk_nativeUnavailable fin, er_unparsed = wk_unparsed fin\<rparr>)"

end
