(* ===== verification/Steering.thy ===== *)
theory Steering
  imports Steering_Parser Epic_Children
begin

text \<open>
  An instruction as a proposed diff of labels, and the diff applied (\<open>steering/steering.service.ts\<close>).
  GitHub is the map from a repository and a number to the issue as the read boundary normalises it;
  a repository's name is case-insensitive there. A write may be recorded only, or throw.
\<close>

section \<open>GitHub as the service sees it\<close>

definition slug_of :: "repo_ref \<Rightarrow> string" where
  "slug_of r = repo_owner r @ ''/'' @ repo_name r"

definition slug_key :: "repo_ref \<Rightarrow> string" where
  "slug_key r = to_lower (slug_of r)"

type_synonym issue_map = "string \<times> int \<Rightarrow> normalized_issue reply"

record steering_world =
  sg_epics :: epic_world
  sg_list :: "string \<Rightarrow> int list" \<comment> \<open>the numbers of a repository's open issues marked ready, as listed\<close>
  sg_projects :: "string list"
  sg_writesEnabled :: bool
  sg_throws :: "string \<Rightarrow> int \<Rightarrow> string \<Rightarrow> bool"
  sg_nowMs :: instant

definition get_issue :: "issue_map \<Rightarrow> repo_ref \<Rightarrow> int \<Rightarrow> normalized_issue reply" where
  "get_issue hub repo n = hub (slug_key repo, n)"

definition list_ready :: "steering_world \<Rightarrow> issue_map \<Rightarrow> repo_ref \<Rightarrow> normalized_issue list" where
  "list_ready w hub repo =
     List.map_filter (\<lambda>n. case get_issue hub repo n of
        Got i \<Rightarrow> if ni_state i = Issue_open \<and> INPUT_READY \<in> set (inputLabels i) then Some i else None
      | _ \<Rightarrow> None) (sg_list w (slug_key repo))"

section \<open>Requests and results\<close>

record registered_repository =
  rg_repo :: repo_ref
  rg_projectId :: "string option"

record propose_input =
  po_instruction :: string
  po_repository :: "repo_ref option" \<comment> \<open>the slug, split\<close>
  po_project :: "string option" \<comment> \<open>\<open>none\<close> is the repositories in no project\<close>
  po_allRepositories :: bool
  po_maxDepth :: "int option"

datatype scope_stated = Stated_repository string | Stated_no_project | Stated_project string | Stated_all

record steering_scope =
  sc_stated :: "scope_stated option"
  sc_resolution :: "repo_ref list"
  sc_sweep :: "repo_ref list option"

datatype unresolved_reason =
    Issue_not_found | Issue_closed_already | Is_pull_request | Repository_not_registered
  | Ambiguous_repository | Ambiguous_scope | Empty_scope | Unreadable | Needs_interpretation

record unresolved_reference =
  un_reference :: string
  un_reason :: unresolved_reason

record scoped_issue =
  si_ref :: string
  si_repo :: repo_ref
  si_number :: int
  si_title :: string
  si_inputLabels :: "string list"

datatype operation_reason = Already_so | Work_to_do | Work_to_hold | Else_held | Else_restricted

record steering_operation =
  op_ref :: string
  op_repo :: repo_ref
  op_number :: int
  op_title :: string
  op_add :: "string list"
  op_remove :: "string list"
  op_observed :: "string list"
  op_reason :: operation_reason
  op_named :: bool

record epic_resolved =
  el_ref :: string
  el_title :: string
  el_source :: "epic_source option"
  el_maxDepth :: nat
  el_childrenFound :: nat
  el_nativeUnavailable :: "native_silence option"

record blast_radius =
  br_issuesAffected :: nat
  br_named :: nat
  br_collateral :: nat
  br_labelsAdded :: nat
  br_labelsRemoved :: nat
  br_unreadied :: nat
  br_readied :: nat
  br_held :: nat
  br_destructive :: bool

record steering_proposal =
  sp_proposedAt :: instant
  sp_expiresAt :: instant
  sp_parsed :: parsed_instruction
  sp_repositories :: "string list"
  sp_candidatesConsidered :: nat
  sp_epics :: "epic_resolved list"
  sp_operations :: "steering_operation list"
  sp_blastRadius :: blast_radius
  sp_unresolved :: "unresolved_reference list"

datatype steering_error = Repository_unknown string | Project_unknown string | Github_failed string | Proposal_expired int

definition PROPOSAL_TTL_MINUTES :: int where "PROPOSAL_TTL_MINUTES = 30"

section \<open>Scope\<close>

definition isRegistered :: "repo_ref \<Rightarrow> registered_repository list \<Rightarrow> bool" where
  "isRegistered repo registered \<longleftrightarrow> (\<exists>c \<in> set registered. slug_key (rg_repo c) = slug_key repo)"

definition resolveScope ::
  "steering_world \<Rightarrow> propose_input \<Rightarrow> registered_repository list \<Rightarrow> steering_error + steering_scope" where
  "resolveScope w dto registered =
    (case po_repository dto of
       Some repo \<Rightarrow>
         if isRegistered repo registered
         then Inr \<lparr>sc_stated = Some (Stated_repository (slug_of repo)), sc_resolution = [repo], sc_sweep = Some [repo]\<rparr>
         else Inl (Repository_unknown (slug_of repo))
     | None \<Rightarrow>
    (case po_project dto of
       Some p \<Rightarrow>
         if p \<noteq> ''none'' \<and> p \<notin> set (sg_projects w) then Inl (Project_unknown p)
         else let wanted = (if p = ''none'' then None else Some p);
                  inScope = map rg_repo (filter (\<lambda>r. rg_projectId r = wanted) registered)
              in Inr \<lparr>sc_stated = Some (if wanted = None then Stated_no_project else Stated_project p),
                      sc_resolution = inScope, sc_sweep = Some inScope\<rparr>
     | None \<Rightarrow>
         let everything = map rg_repo registered
         in if po_allRepositories dto
            then Inr \<lparr>sc_stated = Some Stated_all, sc_resolution = everything, sc_sweep = Some everything\<rparr>
            else Inr \<lparr>sc_stated = None, sc_resolution = everything,
                      sc_sweep = (if length registered > 1 then None else Some everything)\<rparr>))"

definition repositoryFor ::
  "parsed_target \<Rightarrow> steering_scope \<Rightarrow> registered_repository list \<Rightarrow> unresolved_reference + repo_ref" where
  "repositoryFor target scope registered =
    (let failed = (\<lambda>why. Inl \<lparr>un_reference = tg_reference target, un_reason = why\<rparr>)
     in case tg_repository target of
          Some (owner, name) \<Rightarrow>
            let repo = \<lparr>repo_owner = owner, repo_name = name\<rparr>
            in if isRegistered repo registered then Inr repo else failed Repository_not_registered
        | None \<Rightarrow>
            (case sc_resolution scope of
               [repo] \<Rightarrow> Inr repo
             | [] \<Rightarrow> failed (if sc_stated scope = None then Repository_not_registered else Empty_scope)
             | _ \<Rightarrow> failed Ambiguous_repository))"

section \<open>Issues in scope\<close>

record resolving =
  rs_scoped :: "scoped_issue list" \<comment> \<open>the \<open>Map\<close> by reference, in insertion order\<close>
  rs_unresolved :: "unresolved_reference list"
  rs_epics :: "epic_resolved list"

definition unresolved_as :: "string \<Rightarrow> unresolved_reason \<Rightarrow> resolving \<Rightarrow> resolving" where
  "unresolved_as ref why r = r\<lparr>rs_unresolved := rs_unresolved r @ [\<lparr>un_reference = ref, un_reason = why\<rparr>]\<rparr>"

definition set_scoped :: "scoped_issue \<Rightarrow> scoped_issue list \<Rightarrow> scoped_issue list" where
  "set_scoped s xs =
    (if si_ref s \<in> si_ref ` set xs then map (\<lambda>x. if si_ref x = si_ref s then s else x) xs else xs @ [s])"

definition resolveIssue ::
  "issue_map \<Rightarrow> repo_ref \<Rightarrow> int \<Rightarrow> string \<Rightarrow> resolving \<Rightarrow> steering_error + resolving" where
  "resolveIssue hub repo n reference r =
    (case get_issue hub repo n of
       Broken e \<Rightarrow> Inl (Github_failed e)
     | Missing why \<Rightarrow> Inr (unresolved_as reference Issue_not_found r)
     | Got issue \<Rightarrow>
         Inr (if isPullRequest issue then unresolved_as reference Is_pull_request r
              else if ni_state issue \<noteq> Issue_open then unresolved_as reference Issue_closed_already r
              else r\<lparr>rs_scoped := set_scoped
                      \<lparr>si_ref = issueRef repo n, si_repo = repo, si_number = ni_number issue, si_title = ni_title issue,
                       si_inputLabels = inputLabels issue\<rparr> (rs_scoped r)\<rparr>))"

definition resolve_child :: "issue_map \<Rightarrow> epic_child \<Rightarrow> resolving \<Rightarrow> steering_error + resolving" where
  "resolve_child hub c r =
    (if ec_unreadable c then Inr (unresolved_as (ec_ref c) Unreadable r)
     else if ec_isPullRequest c then Inr (unresolved_as (ec_ref c) Is_pull_request r)
     else if ec_state c \<noteq> Some Issue_open then Inr (unresolved_as (ec_ref c) Issue_closed_already r)
     else resolveIssue hub (ec_repo c) (ec_number c) (ec_ref c) r)"

definition resolveEpic ::
  "steering_world \<Rightarrow> issue_map \<Rightarrow> int option \<Rightarrow> repo_ref \<Rightarrow> int \<Rightarrow> string \<Rightarrow> resolving \<Rightarrow> steering_error + resolving" where
  "resolveEpic w hub depth repo n reference r =
    (case resolve_epic (sg_epics w) repo n depth of
       Broken e \<Rightarrow> Inl (Github_failed e)
     | Missing why \<Rightarrow> Inr (unresolved_as reference Issue_not_found r)
     | Got found \<Rightarrow>
         fold_sum (resolve_child hub) (er_children found)
           (r\<lparr>rs_epics := rs_epics r @
               [\<lparr>el_ref = er_ref found, el_title = er_title found, el_source = er_source found,
                 el_maxDepth = er_maxDepth found, el_childrenFound = length (er_children found),
                 el_nativeUnavailable = er_nativeUnavailable found\<rparr>]\<rparr>))"

definition resolve_target ::
  "steering_world \<Rightarrow> issue_map \<Rightarrow> propose_input \<Rightarrow> steering_scope \<Rightarrow> registered_repository list \<Rightarrow> parsed_target \<Rightarrow>
   resolving \<Rightarrow> steering_error + resolving" where
  "resolve_target w hub dto scope registered target r =
    (case repositoryFor target scope registered of
       Inl u \<Rightarrow> Inr (r\<lparr>rs_unresolved := rs_unresolved r @ [u]\<rparr>)
     | Inr repo \<Rightarrow>
         if tg_kind target = Epic_target
         then resolveEpic w hub (po_maxDepth dto) repo (int (tg_number target)) (tg_reference target) r
         else resolveIssue hub repo (int (tg_number target)) (tg_reference target) r)"

section \<open>Operations\<close>

definition namedOperation :: "parsed_instruction \<Rightarrow> scoped_issue \<Rightarrow> steering_operation" where
  "namedOperation parsed s =
    (let has = (\<lambda>l. l \<in> set (si_inputLabels s));
         (add, remove) =
           (if pi_intent parsed = Intends_ready
            then (if has INPUT_READY then [] else [INPUT_READY], if has INPUT_HOLD then [INPUT_HOLD] else [])
            else (if has INPUT_HOLD then [] else [INPUT_HOLD], []))
     in \<lparr>op_ref = si_ref s, op_repo = si_repo s, op_number = si_number s, op_title = si_title s, op_add = add,
         op_remove = remove, op_observed = si_inputLabels s,
         op_reason = (if add = [] \<and> remove = [] then Already_so
                      else if pi_intent parsed = Intends_ready then Work_to_do else Work_to_hold),
         op_named = True\<rparr>)"

definition else_operation :: "parsed_instruction \<Rightarrow> repo_ref \<Rightarrow> normalized_issue \<Rightarrow> steering_operation" where
  "else_operation parsed repo issue =
    (let holds = (INPUT_HOLD \<in> set (inputLabels issue))
     in \<lparr>op_ref = issueRef repo (ni_number issue), op_repo = repo, op_number = ni_number issue, op_title = ni_title issue,
         op_add = (if pi_elseIntent parsed = Else_hold \<and> \<not> holds then [INPUT_HOLD] else []),
         op_remove = [INPUT_READY], op_observed = inputLabels issue,
         op_reason = (if pi_elseIntent parsed = Else_hold then Else_held else Else_restricted), op_named = False\<rparr>)"

definition sweep_repository ::
  "steering_world \<Rightarrow> issue_map \<Rightarrow> parsed_instruction \<Rightarrow> scoped_issue list \<Rightarrow> repo_ref \<Rightarrow> steering_operation list" where
  "sweep_repository w hub parsed scoped repo =
     map (else_operation parsed repo)
       (filter (\<lambda>i. issueRef repo (ni_number i) \<notin> si_ref ` set scoped) (list_ready w hub repo))"

definition changing :: "steering_operation \<Rightarrow> bool" where
  "changing o' \<longleftrightarrow> op_add o' \<noteq> [] \<or> op_remove o' \<noteq> []"

definition blastRadius :: "steering_operation list \<Rightarrow> blast_radius" where
  "blastRadius operations =
    (let cs = filter changing operations; count = (\<lambda>P. length (filter P cs));
         removed = sum_list (map (\<lambda>o'. length (op_remove o')) cs)
     in \<lparr>br_issuesAffected = length cs, br_named = count op_named, br_collateral = count (\<lambda>o'. \<not> op_named o'),
         br_labelsAdded = sum_list (map (\<lambda>o'. length (op_add o')) cs), br_labelsRemoved = removed,
         br_unreadied = count (\<lambda>o'. INPUT_READY \<in> set (op_remove o')),
         br_readied = count (\<lambda>o'. INPUT_READY \<in> set (op_add o')),
         br_held = count (\<lambda>o'. INPUT_HOLD \<in> set (op_add o')), br_destructive = (0 < removed)\<rparr>)"

text \<open>The sweep: the repositories it reports, what it considered, its operations, and its refusal.\<close>

definition sweep_everything_else ::
  "steering_world \<Rightarrow> issue_map \<Rightarrow> propose_input \<Rightarrow> parsed_instruction \<Rightarrow> steering_scope \<Rightarrow> scoped_issue list \<Rightarrow>
   repo_ref list \<times> nat \<times> steering_operation list \<times> unresolved_reference list" where
  "sweep_everything_else w hub dto parsed scope scoped =
    (let inView = get_or (sc_resolution scope) (sc_sweep scope);
         refused = (\<lambda>why. [\<lparr>un_reference = po_instruction dto, un_reason = why\<rparr>])
     in if pi_exclusive parsed \<and> pi_intent parsed = Intends_ready
        then (case sc_sweep scope of
                None \<Rightarrow> ([], 0, [], refused Ambiguous_scope)
              | Some [] \<Rightarrow> (inView, 0, [], refused Empty_scope)
              | Some repos \<Rightarrow>
                  (inView, sum_list (map (\<lambda>r. length (list_ready w hub r)) repos),
                   concat (map (sweep_repository w hub parsed scoped) repos), []))
        else (inView, 0, [], []))"

definition propose ::
  "steering_world \<Rightarrow> issue_map \<Rightarrow> registered_repository list \<Rightarrow> propose_input \<Rightarrow> steering_error + steering_proposal" where
  "propose w hub registered dto =
    (let parsed = parseSteeringInstruction (po_instruction dto)
     in case resolveScope w dto registered of
          Inl e \<Rightarrow> Inl e
        | Inr scope \<Rightarrow>
            (case fold_sum (resolve_target w hub dto scope registered) (pi_targets parsed)
                    \<lparr>rs_scoped = [],
                     rs_unresolved = (if pi_confident parsed then []
                       else [\<lparr>un_reference = po_instruction dto, un_reason = Needs_interpretation\<rparr>]),
                     rs_epics = []\<rparr> of
               Inl e \<Rightarrow> Inl e
             | Inr r \<Rightarrow>
                 let (repos, considered, others, refused) = sweep_everything_else w hub dto parsed scope (rs_scoped r);
                     operations = map (namedOperation parsed) (rs_scoped r) @ others
                 in Inr \<lparr>sp_proposedAt = sg_nowMs w,
                         sp_expiresAt = sg_nowMs w + PROPOSAL_TTL_MINUTES * 60000, sp_parsed = parsed,
                         sp_repositories = map slug_of repos, sp_candidatesConsidered = considered,
                         sp_epics = rs_epics r, sp_operations = operations,
                         sp_blastRadius = blastRadius operations, sp_unresolved = rs_unresolved r @ refused\<rparr>))"

section \<open>Applying\<close>

text \<open>An operation as the client sends it back.\<close>

record requested_operation =
  rq_repo :: repo_ref
  rq_number :: int
  rq_add :: "string list"
  rq_remove :: "string list"
  rq_observed :: "string list"

definition as_requested :: "steering_operation \<Rightarrow> requested_operation" where
  "as_requested o' = \<lparr>rq_repo = op_repo o', rq_number = op_number o', rq_add = op_add o', rq_remove = op_remove o',
     rq_observed = op_observed o'\<rparr>"

datatype skipped_reason =
    Skipped_drift "(string \<times> bool \<times> bool) list" | Skipped_not_found | Skipped_closed
  | Skipped_pull_request | Skipped_not_registered

record label_write =
  lw_label :: string
  lw_adds :: bool
  lw_performed :: bool
  lw_noop :: bool

record applied_operation =
  ao_ref :: string
  ao_add :: "string list"
  ao_remove :: "string list"
  ao_writes :: "label_write list"

definition driftBetween :: "string list \<Rightarrow> string list \<Rightarrow> (string \<times> bool \<times> bool) list" where
  "driftBetween observed current =
     map (\<lambda>l. (l, l \<in> set observed, l \<in> set current))
       (filter (\<lambda>l. (l \<in> set observed) \<noteq> (l \<in> set current))
         (js_sort code_unit_compare (remdups (observed @ current))))"

definition with_label :: "string \<Rightarrow> string list \<Rightarrow> string list" where
  "with_label l ls = (if l \<in> set ls then ls else ls @ [l])"

text \<open>\<open>addLabel\<close> and \<open>removeLabel\<close> on the issue: recorded only while writes are off; None is a throw.\<close>

definition write_label ::
  "steering_world \<Rightarrow> repo_ref \<Rightarrow> int \<Rightarrow> bool \<Rightarrow> string \<Rightarrow> issue_map \<Rightarrow> (label_write \<times> issue_map) option" where
  "write_label w repo n adds l hub =
    (if \<not> sg_writesEnabled w then Some (\<lparr>lw_label = l, lw_adds = adds, lw_performed = False, lw_noop = False\<rparr>, hub)
     else if sg_throws w (slug_key repo) n l then None
     else case get_issue hub repo n of
       Got i \<Rightarrow>
         Some (\<lparr>lw_label = l, lw_adds = adds, lw_performed = True, lw_noop = (\<not> adds \<and> l \<notin> set (inputLabels i))\<rparr>,
               hub((slug_key repo, n) := Got (i\<lparr>inputLabels :=
                 (if adds then with_label l (inputLabels i) else filter (\<lambda>x. x \<noteq> l) (inputLabels i))\<rparr>)))
     | _ \<Rightarrow> None)"

fun write_labels ::
  "steering_world \<Rightarrow> repo_ref \<Rightarrow> int \<Rightarrow> (bool \<times> string) list \<Rightarrow> issue_map \<Rightarrow> label_write list option \<times> issue_map" where
  "write_labels w repo n [] hub = (Some [], hub)"
| "write_labels w repo n ((adds, l) # ls) hub =
    (case write_label w repo n adds l hub of
       None \<Rightarrow> (None, hub)
     | Some (wr, hub) \<Rightarrow>
         (case write_labels w repo n ls hub of
            (None, hub) \<Rightarrow> (None, hub)
          | (Some wrs, hub) \<Rightarrow> (Some (wr # wrs), hub)))"

record apply_state =
  as_hub :: issue_map
  as_applied :: "applied_operation list"
  as_skipped :: "(string \<times> skipped_reason) list"

text \<open>Whether it returned, and the state it left.\<close>

definition apply_one ::
  "steering_world \<Rightarrow> registered_repository list \<Rightarrow> requested_operation \<Rightarrow> apply_state \<Rightarrow> bool \<times> apply_state" where
  "apply_one w registered o' st =
    (let repo = rq_repo o'; n = rq_number o'; ref = issueRef repo n;
         skip = (\<lambda>why. (True, st\<lparr>as_skipped := as_skipped st @ [(ref, why)]\<rparr>))
     in if \<not> isRegistered repo registered then skip Skipped_not_registered
        else case get_issue (as_hub st) repo n of
          Broken e \<Rightarrow> (False, st)
        | Missing why \<Rightarrow> skip Skipped_not_found
        | Got issue \<Rightarrow>
            if isPullRequest issue then skip Skipped_pull_request
            else if ni_state issue \<noteq> Issue_open then skip Skipped_closed
            else let drift = driftBetween (rq_observed o') (inputLabels issue)
                 in if drift \<noteq> [] then skip (Skipped_drift drift)
                    else case write_labels w repo n (map (Pair True) (rq_add o') @ map (Pair False) (rq_remove o')) (as_hub st) of
                      (None, hub) \<Rightarrow> (False, st\<lparr>as_hub := hub\<rparr>)
                    | (Some writes, hub) \<Rightarrow>
                        (True, st\<lparr>as_hub := hub,
                                  as_applied := as_applied st @
                                    [\<lparr>ao_ref = ref, ao_add = rq_add o', ao_remove = rq_remove o', ao_writes = writes\<rparr>]\<rparr>))"

fun apply_all ::
  "steering_world \<Rightarrow> registered_repository list \<Rightarrow> requested_operation list \<Rightarrow> apply_state \<Rightarrow> bool \<times> apply_state" where
  "apply_all w registered [] st = (True, st)"
| "apply_all w registered (o' # ops) st =
    (case apply_one w registered o' st of
       (False, st) \<Rightarrow> (False, st)
     | (True, st) \<Rightarrow> apply_all w registered ops st)"

record apply_result =
  ar_applied :: "applied_operation list"
  ar_skipped :: "(string \<times> skipped_reason) list"
  ar_labelWritten :: bool
  ar_operationsRequested :: nat
  ar_labelWrites :: nat
  ar_labelWritesPerformed :: nat

record audit_event =
  ae_actor :: string
  ae_instruction :: string
  ae_result :: apply_result

text \<open>The result or what it threw, with GitHub and the audit events as it left them.\<close>

definition apply_steering ::
  "steering_world \<Rightarrow> registered_repository list \<Rightarrow> string \<Rightarrow> string \<Rightarrow> instant \<Rightarrow> requested_operation list \<Rightarrow>
   issue_map \<times> audit_event list \<Rightarrow> (steering_error + apply_result) \<times> issue_map \<times> audit_event list" where
  "apply_steering w registered actor instruction proposedAt operations st =
    (let (hub, audit) = st; age = (of_int (sg_nowMs w - proposedAt) / 60000 :: rat)
     in if of_int PROPOSAL_TTL_MINUTES < age then (Inl (Proposal_expired (math_round age)), hub, audit)
        else case apply_all w registered operations \<lparr>as_hub = hub, as_applied = [], as_skipped = []\<rparr> of
          (False, fin) \<Rightarrow> (Inl (Github_failed []), as_hub fin, audit)
        | (True, fin) \<Rightarrow>
            let writes = concat (map ao_writes (as_applied fin)); performed = length (filter lw_performed writes);
                result = \<lparr>ar_applied = as_applied fin, ar_skipped = as_skipped fin, ar_labelWritten = (0 < performed),
                          ar_operationsRequested = length operations, ar_labelWrites = length writes,
                          ar_labelWritesPerformed = performed\<rparr>
            in (Inr result, as_hub fin, audit @ [\<lparr>ae_actor = actor, ae_instruction = instruction, ae_result = result\<rparr>]))"

end
