(* ===== verification/Steering_Properties.thy ===== *)
theory Steering_Properties
  imports Steering
begin

text \<open>
  What steering promises: targets that are written in the instruction, an epic's children named once
  and never itself, a proposal that is the difference between GitHub and the instruction, and an
  application that changes the confirmed labels of the confirmed issues and nothing else.
\<close>

section \<open>Writing labels\<close>

definition relabel :: "(bool \<times> string) list \<Rightarrow> string list \<Rightarrow> string list" where
  "relabel = fold (\<lambda>(adds, l) ls. if adds then with_label l ls else filter (\<lambda>x. x \<noteq> l) ls)"

lemma relabel_simps [simp]:
  "relabel [] ls = ls"
  "relabel ((adds, l) # ws) ls = relabel ws (if adds then with_label l ls else filter (\<lambda>x. x \<noteq> l) ls)"
  by (simp_all add: relabel_def)

lemma set_with_label [simp]: "set (with_label l ls) = insert l (set ls)"
  by (auto simp: with_label_def)

lemma relabel_bounds:
  "set (relabel ws ls) \<subseteq> set ls \<union> {l. (True, l) \<in> set ws}"
  "set ls - {l. (False, l) \<in> set ws} \<subseteq> set (relabel ws ls)"
proof (induction ws arbitrary: ls)
  case (Cons wr ws)
  obtain adds l where wr: "wr = (adds, l)" by fastforce
  { case 1 show ?case using Cons(1)[of "if adds then with_label l ls else filter (\<lambda>x. x \<noteq> l) ls"] wr by auto }
  { case 2 show ?case using Cons(2)[of "if adds then with_label l ls else filter (\<lambda>x. x \<noteq> l) ls"] wr by auto }
qed simp_all

lemma relabel_adds_removes:
  "set (relabel (map (Pair True) as @ map (Pair False) rs) ls) = (set ls \<union> set as) - set rs"
proof -
  have adds: "relabel (map (Pair True) as @ ws) ls = relabel ws (relabel (map (Pair True) as) ls)" for ws
    by (simp add: relabel_def)
  have "set (relabel (map (Pair True) as) ls) = set ls \<union> set as" by (induction as arbitrary: ls) auto
  moreover have "set (relabel (map (Pair False) rs) ls') = set ls' - set rs" for ls'
    by (induction rs arbitrary: ls') auto
  ultimately show ?thesis unfolding adds by simp
qed

lemma write_labels_effect:
  assumes "write_labels w repo n ws hub = (r, hub')" "hub (slug_key repo, n) = Got i"
  shows "\<exists>k \<le> length ws. hub' = hub((slug_key repo, n) := Got (i\<lparr>inputLabels := relabel (take k ws) (inputLabels i)\<rparr>)) \<and>
    (r \<noteq> None \<and> sg_writesEnabled w \<longrightarrow> k = length ws) \<and> (\<not> sg_writesEnabled w \<longrightarrow> k = 0)"
  using assms
proof (induction ws arbitrary: hub i r hub')
  case Nil
  then show ?case by (intro exI[of _ 0]) (simp add: fun_upd_idem)
next
  case (Cons wr ws)
  obtain adds l where wr: "wr = (adds, l)" by fastforce
  let ?k = "(slug_key repo, n)"
  show ?case
  proof (cases "write_label w repo n adds l hub")
    case None
    then have "sg_writesEnabled w" "r = None" "hub' = hub"
      using Cons.prems(1) wr by (auto simp: write_label_def split: if_splits)
    then show ?thesis using Cons.prems(2) by (intro exI[of _ 0]) (simp add: fun_upd_idem)
  next
    case (Some res)
    obtain x hub1 where res: "res = (x, hub1)" by fastforce
    obtain r1 where r1: "write_labels w repo n ws hub1 = (r1, hub')" "r \<noteq> None \<longrightarrow> r1 \<noteq> None"
      using Cons.prems(1) Some wr res by (auto split: prod.splits option.splits)
    show ?thesis
    proof (cases "sg_writesEnabled w")
      case True
      let ?i = "i\<lparr>inputLabels := (if adds then with_label l (inputLabels i) else filter (\<lambda>x. x \<noteq> l) (inputLabels i))\<rparr>"
      have hub1: "hub1 = hub(?k := Got ?i)"
        using Some True Cons.prems(2) res by (auto simp: write_label_def get_issue_def split: if_splits)
      have "hub1 ?k = Got ?i" unfolding hub1 by simp
      from Cons.IH[OF r1(1) this] True obtain k where k: "k \<le> length ws"
        "hub' = hub1(?k := Got (?i\<lparr>inputLabels := relabel (take k ws) (inputLabels ?i)\<rparr>))"
        "r1 \<noteq> None \<longrightarrow> k = length ws" by blast
      show ?thesis
      proof (intro exI[of _ "Suc k"] conjI)
        show "hub' = hub(?k := Got (i\<lparr>inputLabels := relabel (take (Suc k) (wr # ws)) (inputLabels i)\<rparr>))"
          unfolding k(2) hub1 wr by simp
      qed (use k r1(2) True in auto)
    next
      case False
      then have "hub1 = hub" using Some res by (simp add: write_label_def)
      with Cons.IH[OF r1(1)] Cons.prems(2) False show ?thesis by auto
    qed
  qed
qed

section \<open>Applying\<close>

definition concerns :: "string \<Rightarrow> int \<Rightarrow> requested_operation \<Rightarrow> bool" where
  "concerns k n o' \<longleftrightarrow> slug_key (rq_repo o') = k \<and> rq_number o' = n"

text \<open>The labels an issue may gain and lose by a request, and the operation that saw it as it was.\<close>

definition may_relabel ::
  "registered_repository list \<Rightarrow> requested_operation list \<Rightarrow> normalized_issue \<Rightarrow> string list \<Rightarrow> bool" where
  "may_relabel registered ops i ls \<longleftrightarrow>
     \<not> isPullRequest i \<and> ni_state i = Issue_open \<and>
     (\<forall>l \<in> set ls. l \<in> set (inputLabels i) \<or> (\<exists>o' \<in> set ops. l \<in> set (rq_add o'))) \<and>
     (\<forall>l \<in> set (inputLabels i). l \<in> set ls \<or> (\<exists>o' \<in> set ops. l \<in> set (rq_remove o'))) \<and>
     (\<exists>o' \<in> set ops. isRegistered (rq_repo o') registered \<and> set (rq_observed o') = set (inputLabels i))"

lemma no_drift_iff: "driftBetween observed current = [] \<longleftrightarrow> set observed = set current"
  by (auto simp: driftBetween_def filter_empty_conv)

lemma apply_one_effect:
  assumes "apply_one w registered o' st = (returned, st')"
  shows "as_hub st' key = as_hub st key \<or> sg_writesEnabled w \<and> concerns (fst key) (snd key) o' \<and>
    (\<exists>i ls. as_hub st key = Got i \<and> as_hub st' key = Got (i\<lparr>inputLabels := ls\<rparr>) \<and> may_relabel registered [o'] i ls)"
proof (cases "as_hub st' = as_hub st")
  case False
  let ?k = "(slug_key (rq_repo o'), rq_number o')"
  let ?ws = "map (Pair True) (rq_add o') @ map (Pair False) (rq_remove o')"
  obtain i r where i: "isRegistered (rq_repo o') registered" "as_hub st ?k = Got i" "\<not> isPullRequest i" "ni_state i = Issue_open"
      "set (rq_observed o') = set (inputLabels i)" "write_labels w (rq_repo o') (rq_number o') ?ws (as_hub st) = (r, as_hub st')"
    using assms False unfolding apply_one_def Let_def get_issue_def
    by (auto simp: no_drift_iff split: if_splits reply.splits prod.splits option.splits)
  obtain k where k: "as_hub st' = (as_hub st)(?k := Got (i\<lparr>inputLabels := relabel (take k ?ws) (inputLabels i)\<rparr>))"
      "\<not> sg_writesEnabled w \<longrightarrow> k = 0"
    using write_labels_effect[OF i(6,2)] by blast
  have on: "sg_writesEnabled w" using k False i(2) by (cases "k = 0") (auto simp: fun_upd_idem)
  have "{l. (True, l) \<in> set (take k ?ws)} \<subseteq> set (rq_add o')" "{l. (False, l) \<in> set (take k ?ws)} \<subseteq> set (rq_remove o')"
    by (auto dest: in_set_takeD)
  then have "may_relabel registered [o'] i (relabel (take k ?ws) (inputLabels i))"
    using i relabel_bounds[where ws = "take k ?ws" and ls = "inputLabels i"] unfolding may_relabel_def by auto
  then show ?thesis using i(2) on unfolding k(1) by (cases "key = ?k") (auto simp: concerns_def)
qed simp

lemma may_relabel_mono:
  assumes "may_relabel registered ops i ls" "set ops \<subseteq> set ops'"
  shows "may_relabel registered ops' i ls"
  using assms unfolding may_relabel_def by (meson subsetD)

lemma may_relabel_then:
  assumes "may_relabel registered ops i ls" "may_relabel registered ops' (i\<lparr>inputLabels := ls\<rparr>) ls'"
  shows "may_relabel registered (ops @ ops') i ls'"
  using assms unfolding may_relabel_def by (auto 0 3)

lemma apply_all_effect:
  assumes "apply_all w registered ops st = (returned, st')"
  shows "as_hub st' key = as_hub st key \<or> sg_writesEnabled w \<and>
    (\<exists>i ls. as_hub st key = Got i \<and> as_hub st' key = Got (i\<lparr>inputLabels := ls\<rparr>) \<and>
       may_relabel registered (filter (concerns (fst key) (snd key)) ops) i ls)"
  using assms
proof (induction ops arbitrary: st)
  case (Cons o' ops)
  obtain ok st1 where one: "apply_one w registered o' st = (ok, st1)" by fastforce
  let ?mine = "filter (concerns (fst key) (snd key)) (o' # ops)"
  note first = apply_one_effect[OF one, of key]
  show ?case
  proof (cases ok)
    case False
    then have "st' = st1" using Cons.prems one by simp
    then show ?thesis using first may_relabel_mono[of registered "[o']" _ _ ?mine] by (auto; blast)
  next
    case True
    then have "apply_all w registered ops st1 = (returned, st')" using Cons.prems one by simp
    note rest = Cons.IH[OF this]
    show ?thesis
    proof (cases "as_hub st1 key = as_hub st key")
      case True
      then show ?thesis using rest may_relabel_mono[of registered "filter (concerns (fst key) (snd key)) ops" _ _ ?mine]
        by (auto; blast)
    next
      case changed: False
      with first obtain i ls where i: "sg_writesEnabled w" "concerns (fst key) (snd key) o'" "as_hub st key = Got i"
        "as_hub st1 key = Got (i\<lparr>inputLabels := ls\<rparr>)" "may_relabel registered [o'] i ls" by auto
      show ?thesis
      proof (cases "as_hub st' key = as_hub st1 key")
        case True
        then show ?thesis using i may_relabel_mono[OF i(5), of ?mine] by auto
      next
        case False
        with rest i(4) obtain ls' where "as_hub st' key = Got (i\<lparr>inputLabels := ls'\<rparr>)"
          "may_relabel registered (filter (concerns (fst key) (snd key)) ops) (i\<lparr>inputLabels := ls\<rparr>) ls'" by auto
        then show ?thesis using may_relabel_then[OF i(5)] i(1-3) by fastforce
      qed
    qed
  qed
qed simp

text \<open>C17: Only what was confirmed is changed. If an issue is not the same after a steering request, returned
  or thrown, then writes are on, the proposal was no older than thirty minutes, the issue was open
  and no pull request, in a registered repository, only its labels differ, only by what the request
  adds and removes on it, and one of the request's operations had seen exactly the labels it had.\<close>
theorem apply_touches_only_confirmed:
  assumes "apply_steering w registered actor instruction proposedAt ops (hub, audit) = (res, hub', audit')"
    and "hub' (k, n) \<noteq> hub (k, n)"
  shows "sg_writesEnabled w \<and> sg_nowMs w - proposedAt \<le> PROPOSAL_TTL_MINUTES * 60000 \<and>
    (\<exists>i ls. hub (k, n) = Got i \<and> hub' (k, n) = Got (i\<lparr>inputLabels := ls\<rparr>) \<and>
       may_relabel registered (filter (concerns k n) ops) i ls)"
proof -
  let ?st = "\<lparr>as_hub = hub, as_applied = [], as_skipped = []\<rparr>"
  have fresh: "\<not> of_int PROPOSAL_TTL_MINUTES < (of_int (sg_nowMs w - proposedAt) / 60000 :: rat)"
    using assms by (auto simp: apply_steering_def Let_def)
  then obtain returned st' where run: "apply_all w registered ops ?st = (returned, st')" "as_hub st' = hub'"
    using assms(1) by (auto simp: apply_steering_def Let_def split: prod.splits bool.splits)
  have "(of_int (sg_nowMs w - proposedAt) :: rat) \<le> of_int (PROPOSAL_TTL_MINUTES * 60000)" using fresh by simp
  then have "sg_nowMs w - proposedAt \<le> PROPOSAL_TTL_MINUTES * 60000" by (simp only: of_int_le_iff)
  then show ?thesis using apply_all_effect[OF run(1), of "(k, n)"] assms(2) run(2) by auto
qed

section \<open>What is answered\<close>

lemma apply_one_answers:
  assumes "apply_one w registered o' st = (True, st')"
  shows "\<exists>dn sk. as_applied st' = as_applied st @ dn \<and> as_skipped st' = as_skipped st @ sk \<and>
    length dn + length sk = 1"
  using assms unfolding apply_one_def Let_def
  by (auto split: if_splits reply.splits prod.splits option.splits)

lemma apply_all_answers:
  assumes "apply_all w registered ops st = (True, st')"
  shows "\<exists>dn sk. as_applied st' = as_applied st @ dn \<and> as_skipped st' = as_skipped st @ sk \<and>
    length dn + length sk = length ops"
  using assms
proof (induction ops arbitrary: st)
  case (Cons o' ops)
  obtain st1 where one: "apply_one w registered o' st = (True, st1)" "apply_all w registered ops st1 = (True, st')"
    using Cons.prems by (auto split: prod.splits bool.splits)
  then show ?case using apply_one_answers[OF one(1)] Cons.IH[OF one(2)] by (elim exE) force
qed simp

lemma apply_all_append:
  "apply_all w registered (xs @ ys) st =
    (case apply_all w registered xs st of (False, st) \<Rightarrow> (False, st) | (True, st) \<Rightarrow> apply_all w registered ys st)"
  by (induction xs arbitrary: st) (auto split: prod.splits bool.splits)

lemma apply_one_confirmed:
  assumes "apply_one w registered o' st = (True, st')" "sg_writesEnabled w" "isRegistered (rq_repo o') registered"
    and "as_hub st (slug_key (rq_repo o'), rq_number o') = Got i" "\<not> isPullRequest i" "ni_state i = Issue_open"
    and "set (rq_observed o') = set (inputLabels i)"
  shows "\<exists>ls a. as_hub st' (slug_key (rq_repo o'), rq_number o') = Got (i\<lparr>inputLabels := ls\<rparr>) \<and>
    set ls = (set (inputLabels i) \<union> set (rq_add o')) - set (rq_remove o') \<and>
    a \<in> set (as_applied st') \<and> ao_ref a = issueRef (rq_repo o') (rq_number o')"
proof -
  let ?ws = "map (Pair True) (rq_add o') @ map (Pair False) (rq_remove o')"
  have open_issue: "get_issue (as_hub st) (rq_repo o') (rq_number o') = Got i" using assms(4) by (simp add: get_issue_def)
  obtain r hub' where wrote: "write_labels w (rq_repo o') (rq_number o') ?ws (as_hub st) = (r, hub')" by fastforce
  have out: "r \<noteq> None" "as_hub st' = hub'"
      "\<exists>a \<in> set (as_applied st'). ao_ref a = issueRef (rq_repo o') (rq_number o')"
    using assms(1) unfolding apply_one_def Let_def open_issue wrote
    by (simp_all add: assms(3,5,6,7) no_drift_iff split: option.splits) auto
  have "hub' = (as_hub st)((slug_key (rq_repo o'), rq_number o') := Got (i\<lparr>inputLabels := relabel ?ws (inputLabels i)\<rparr>))"
    using write_labels_effect[OF wrote assms(4)] out(1) assms(2) by auto
  then show ?thesis using out(2,3) relabel_adds_removes[of "rq_add o'" "rq_remove o'" "inputLabels i"] by auto
qed

lemma apply_all_confirmed:
  assumes "apply_all w registered ops st = (True, st')" "sg_writesEnabled w" "filter (concerns k n) ops = [o']"
    and "isRegistered (rq_repo o') registered" "as_hub st (k, n) = Got i" "\<not> isPullRequest i" "ni_state i = Issue_open"
    and "set (rq_observed o') = set (inputLabels i)"
  shows "\<exists>ls a. as_hub st' (k, n) = Got (i\<lparr>inputLabels := ls\<rparr>) \<and>
    set ls = (set (inputLabels i) \<union> set (rq_add o')) - set (rq_remove o') \<and>
    a \<in> set (as_applied st') \<and> ao_ref a = issueRef (rq_repo o') n"
proof -
  obtain before after where ops: "ops = before @ o' # after" "filter (concerns k n) before = []"
      "filter (concerns k n) after = []" "concerns k n o'"
    using assms(3) unfolding filter_eq_Cons_iff by (metis filter_empty_conv)
  obtain st1 where st1: "apply_all w registered before st = (True, st1)" "apply_all w registered (o' # after) st1 = (True, st')"
    using assms(1) unfolding ops(1) apply_all_append by (auto split: prod.splits bool.splits)
  obtain st2 where st2: "apply_one w registered o' st1 = (True, st2)" "apply_all w registered after st2 = (True, st')"
    using st1(2) by (auto split: prod.splits bool.splits)
  have still: "as_hub st1 (k, n) = as_hub st (k, n)" "as_hub st' (k, n) = as_hub st2 (k, n)"
    using apply_all_effect[OF st1(1), of "(k, n)"] apply_all_effect[OF st2(2), of "(k, n)"] ops(2,3)
    by (auto simp: may_relabel_def)
  have key: "slug_key (rq_repo o') = k" "rq_number o' = n" using ops(4) by (simp_all add: concerns_def)
  obtain ls a where "as_hub st2 (k, n) = Got (i\<lparr>inputLabels := ls\<rparr>)"
      "set ls = (set (inputLabels i) \<union> set (rq_add o')) - set (rq_remove o')" "a \<in> set (as_applied st2)"
      "ao_ref a = issueRef (rq_repo o') n"
    using apply_one_confirmed[OF st2(1) assms(2,4), unfolded key, of i] assms(5-8) still(1) by auto
  then show ?thesis using apply_all_answers[OF st2(2)] still(2) by fastforce
qed

text \<open>A request that returns has answered everything. Each operation was applied or skipped with a reason,
  one audit event names the actor, the words and the result, and with writes on an operation that is
  alone on a registered, open issue whose labels are as it saw them leaves it with exactly those
  labels, plus those it adds, less those it removes, and is reported as applied.\<close>
theorem confirmed_operations_take_effect:
  assumes "apply_steering w registered actor instruction proposedAt ops (hub, audit) = (Inr result, hub', audit')"
  shows "length (ar_applied result) + length (ar_skipped result) = length ops \<and>
    audit' = audit @ [\<lparr>ae_actor = actor, ae_instruction = instruction, ae_result = result\<rparr>] \<and>
    (\<forall>o' i. sg_writesEnabled w \<longrightarrow> filter (concerns (slug_key (rq_repo o')) (rq_number o')) ops = [o'] \<longrightarrow>
       isRegistered (rq_repo o') registered \<longrightarrow> hub (slug_key (rq_repo o'), rq_number o') = Got i \<longrightarrow>
       \<not> isPullRequest i \<longrightarrow> ni_state i = Issue_open \<longrightarrow> set (rq_observed o') = set (inputLabels i) \<longrightarrow>
       (\<exists>ls. hub' (slug_key (rq_repo o'), rq_number o') = Got (i\<lparr>inputLabels := ls\<rparr>) \<and>
         set ls = (set (inputLabels i) \<union> set (rq_add o')) - set (rq_remove o')) \<and>
       issueRef (rq_repo o') (rq_number o') \<in> ao_ref ` set (ar_applied result))"
proof -
  let ?st = "\<lparr>as_hub = hub, as_applied = [], as_skipped = []\<rparr>"
  obtain st' where run: "apply_all w registered ops ?st = (True, st')" "as_hub st' = hub'"
      "ar_applied result = as_applied st'" "ar_skipped result = as_skipped st'"
      "audit' = audit @ [\<lparr>ae_actor = actor, ae_instruction = instruction, ae_result = result\<rparr>]"
    using assms by (auto simp: apply_steering_def Let_def split: prod.splits bool.splits if_splits)
  show ?thesis
  proof (intro conjI allI impI)
    show "length (ar_applied result) + length (ar_skipped result) = length ops"
      using apply_all_answers[OF run(1)] run(3,4) by auto
    fix o' i
    assume "sg_writesEnabled w" "filter (concerns (slug_key (rq_repo o')) (rq_number o')) ops = [o']"
      "isRegistered (rq_repo o') registered" "hub (slug_key (rq_repo o'), rq_number o') = Got i"
      "\<not> isPullRequest i" "ni_state i = Issue_open" "set (rq_observed o') = set (inputLabels i)"
    note applied = apply_all_confirmed[OF run(1) this(1-3), of i, simplified, OF this(4-7)]
    show "\<exists>ls. hub' (slug_key (rq_repo o'), rq_number o') = Got (i\<lparr>inputLabels := ls\<rparr>) \<and>
        set ls = (set (inputLabels i) \<union> set (rq_add o')) - set (rq_remove o')"
      using applied run(2) by auto
    show "issueRef (rq_repo o') (rq_number o') \<in> ao_ref ` set (ar_applied result)"
      using applied run(3) by force
  qed (rule run(5))
qed

section \<open>What is read\<close>

text \<open>C20: Nothing is read that is not written, and nothing that is named is lost. Each target of an
  instruction is text of the lower-cased instruction: a number, \<open>#\<close> and a number, or \<open>owner/name#\<close> and a
  number, with that repository and that number's digits. No two targets agree in kind, repository
  and number; and the targets are, in these three, exactly what the tokens of the instruction name:
  every reference with \<open>#\<close>, and every bare number the words before it arm.\<close>
theorem targets_are_written:
  "(\<forall>t \<in> set (pi_targets (parseSteeringInstruction s)). target_text (to_lower s) t) \<and>
   distinct (map (\<lambda>t. (tg_kind t, tg_repository t, tg_number t)) (pi_targets (parseSteeringInstruction s))) \<and>
   (\<forall>kind repo n.
      (\<exists>t \<in> set (pi_targets (parseSteeringInstruction s)). tg_kind t = kind \<and> tg_repository t = repo \<and> tg_number t = n) \<longleftrightarrow>
      (\<exists>before tok after. tokens_from [] (to_lower s) = before @ tok # after \<and>
         names (fold read_token before nothing_read) tok = Some (kind, repo, n)))"
proof -
  define toks where "toks = tokens_from [] (to_lower s)"
  define rd where "rd = read_targets (fold read_token toks nothing_read)"
  have targets: "pi_targets (parseSteeringInstruction s) = dedupe rd" by (simp add: parsed_targets rd_def toks_def)
  have "\<forall>tok \<in> set toks. token_text tok (to_lower s)" by (simp add: toks_def tokens_text)
  then have written: "\<forall>t \<in> set rd. target_text (to_lower s) t"
    unfolding rd_def by (rule read_tokens_text) (simp add: nothing_read_def)
  have keys: "distinct (map target_key (dedupe rd))" "target_key ` set rd \<subseteq> target_key ` set (dedupe rd)"
      "set (dedupe rd) \<subseteq> set rd"
    using dedupe_from_keys[of "[]" rd] dedupe_from_subset[of "[]" rd] by (simp_all add: dedupe_def)
  have "target_key t = target_key t'" if "named_by t = named_by t'" for t t'
    using that by (simp add: target_key_def named_by_def)
  then have once: "distinct (map named_by (dedupe rd))" using keys(1) unfolding distinct_map inj_on_def by metis
  have same: "named_by ` set (dedupe rd) = named_by ` set rd"
  proof
    show "named_by ` set rd \<subseteq> named_by ` set (dedupe rd)"
    proof
      fix x assume "x \<in> named_by ` set rd"
      then obtain t where t: "t \<in> set rd" "x = named_by t" by blast
      then obtain t' where t': "t' \<in> set (dedupe rd)" "target_key t' = target_key t"
        using keys(2) by (metis image_iff subsetD)
      then have "named_by t' = named_by t" using target_key_named written t(1) keys(3) by blast
      then show "x \<in> named_by ` set (dedupe rd)" using t(2) t'(1) by (metis image_eqI)
    qed
  qed (use keys(3) in blast)
  have exact: "x \<in> named_by ` set (dedupe rd) \<longleftrightarrow>
      (\<exists>before tok after. toks = before @ tok # after \<and> names (fold read_token before nothing_read) tok = Some x)" for x
    using same read_tokens_names[of x toks nothing_read] unfolding rd_def
    by (simp only:) (simp add: nothing_read_def)
  have "(\<exists>t \<in> set (dedupe rd). tg_kind t = kind \<and> tg_repository t = repo \<and> tg_number t = n) \<longleftrightarrow>
      (\<exists>before tok after. toks = before @ tok # after \<and>
         names (fold read_token before nothing_read) tok = Some (kind, repo, n))" for kind repo n
    using exact[of "(kind, repo, n)"] unfolding image_iff by (simp add: named_by_def eq_commute)
  then show ?thesis unfolding targets toks_def[symmetric]
    using once written keys(3) by (auto simp: named_by_def[abs_def])
qed

section \<open>One issue, one reference\<close>

text \<open>
  The service compares references as they are spelled; GitHub takes two spellings of a repository's
  name that differ in case for the same. The issue a reference means is its key.
\<close>

definition issue_key :: "repo_ref \<Rightarrow> int \<Rightarrow> string \<times> int" where
  "issue_key repo n = (slug_key repo, n)"

definition one_spelling :: "repo_ref set \<Rightarrow> bool" where
  "one_spelling repos \<longleftrightarrow> (\<forall>r \<in> repos. \<forall>r' \<in> repos. slug_key r = slug_key r' \<longrightarrow> slug_of r = slug_of r')"

lemma one_spelling_ref:
  assumes "one_spelling repos" "r \<in> repos" "r' \<in> repos" "issue_key r n = issue_key r' n'"
  shows "issueRef r n = issueRef r' n'"
proof -
  have key: "slug_key r = slug_key r'" "n = n'" using assms(4) by (simp_all add: issue_key_def)
  have "slug_of r = slug_of r'" using assms(1-3) key(1) unfolding one_spelling_def by blast
  moreover have "issueRef x m = slug_of x @ ''#'' @ decimal (nat m)" for x m by (simp add: issueRef_def slug_of_def)
  ultimately show ?thesis using key(2) by metis
qed

lemma distinct_map_coarser:
  assumes "distinct (map g xs)" "\<And>x y. x \<in> set xs \<Longrightarrow> y \<in> set xs \<Longrightarrow> f x = f y \<Longrightarrow> g x = g y"
  shows "distinct (map f xs)"
proof -
  have "inj_on f (set xs)" using assms unfolding distinct_map inj_on_def by meson
  then show ?thesis using assms(1) by (simp add: distinct_map)
qed

lemma refs_keys_distinct:
  assumes "one_spelling repos" "distinct (map ref xs)" "\<And>x. x \<in> set xs \<Longrightarrow> repo x \<in> repos"
    "\<And>x. x \<in> set xs \<Longrightarrow> ref x = issueRef (repo x) (num x)"
  shows "distinct (map (\<lambda>x. issue_key (repo x) (num x)) xs)"
  using assms(2)
proof (rule distinct_map_coarser)
  fix x y assume "x \<in> set xs" "y \<in> set xs" "issue_key (repo x) (num x) = issue_key (repo y) (num y)"
  then have "issueRef (repo x) (num x) = issueRef (repo y) (num y)" using assms(3) by (intro one_spelling_ref[OF assms(1)])
  then show "ref x = ref y" using \<open>x \<in> set xs\<close> \<open>y \<in> set xs\<close> assms(4) by simp
qed

section \<open>What an epic names\<close>







lemma fold_sum_invariant:
  assumes "fold_sum f xs b = Inr b'" "P b" "\<And>x b b'. x \<in> set xs \<Longrightarrow> P b \<Longrightarrow> f x b = Inr b' \<Longrightarrow> P b'"
  shows "P b'"
  using assms
proof (induction xs arbitrary: b)
  case (Cons x xs)
  then obtain c where "f x b = Inr c" "fold_sum f xs c = Inr b'" by (auto split: sum.splits)
  with Cons.IH[of c] Cons.prems(2,3) show ?case by (metis list.set_intros)
qed simp








section \<open>Proposing\<close>

text \<open>GitHub answers with the issue that was asked for.\<close>

definition answers_as_asked :: "issue_map \<Rightarrow> bool" where
  "answers_as_asked hub \<longleftrightarrow> (\<forall>k n i. hub (k, n) = Got i \<longrightarrow> ni_number i = n)"

definition scoped_ok :: "issue_map \<Rightarrow> resolving \<Rightarrow> bool" where
  "scoped_ok hub r \<longleftrightarrow> distinct (map si_ref (rs_scoped r)) \<and>
     (\<forall>s \<in> set (rs_scoped r). si_ref s = issueRef (si_repo s) (si_number s) \<and>
        (\<exists>i. get_issue hub (si_repo s) (si_number s) = Got i \<and> \<not> isPullRequest i \<and> ni_state i = Issue_open \<and>
           si_inputLabels s = inputLabels i))"

lemma set_scoped_refs: "map si_ref (set_scoped s xs) = (if si_ref s \<in> si_ref ` set xs then map si_ref xs else map si_ref xs @ [si_ref s])"
  by (auto simp: set_scoped_def)

lemma set_scoped_in: "x \<in> set (set_scoped s xs) \<Longrightarrow> x = s \<or> x \<in> set xs"
  by (auto simp: set_scoped_def split: if_splits)

lemma resolveIssue_ok:
  assumes "resolveIssue hub repo n reference r = Inr r'" "scoped_ok hub r" "answers_as_asked hub"
  shows "scoped_ok hub r'"
proof (cases "rs_scoped r' = rs_scoped r")
  case True
  then show ?thesis using assms(2) by (simp add: scoped_ok_def)
next
  case False
  then obtain i where i: "get_issue hub repo n = Got i" "\<not> isPullRequest i" "ni_state i = Issue_open"
      "rs_scoped r' = set_scoped \<lparr>si_ref = issueRef repo n, si_repo = repo, si_number = ni_number i, si_title = ni_title i,
         si_inputLabels = inputLabels i\<rparr> (rs_scoped r)"
    using assms(1) by (auto simp: resolveIssue_def unresolved_as_def split: reply.splits if_splits)
  have "ni_number i = n" using assms(3) i(1) by (auto simp: answers_as_asked_def get_issue_def)
  then show ?thesis
    using assms(2) i(1-3) unfolding scoped_ok_def i(4) set_scoped_refs by (auto dest!: set_scoped_in)
qed

lemma resolve_child_ok:
  "resolve_child hub c r = Inr r' \<Longrightarrow> scoped_ok hub r \<Longrightarrow> answers_as_asked hub \<Longrightarrow> scoped_ok hub r'"
  by (auto simp: resolve_child_def unresolved_as_def scoped_ok_def split: if_splits dest: resolveIssue_ok[unfolded scoped_ok_def])

lemma resolve_target_ok:
  assumes "resolve_target w hub dto scope registered t r = Inr r'" "scoped_ok hub r" "answers_as_asked hub"
  shows "scoped_ok hub r'"
proof (cases "rs_scoped r' = rs_scoped r")
  case True
  then show ?thesis using assms(2) by (simp add: scoped_ok_def)
next
  case False
  then obtain repo where repo: "repositoryFor t scope registered = Inr repo"
    using assms(1) by (auto simp: resolve_target_def split: sum.splits)
  show ?thesis
  proof (cases "tg_kind t = Epic_target")
    case True
    with assms(1) repo False obtain found where
      found: "resolve_epic (sg_epics w) repo (int (tg_number t)) (po_maxDepth dto) = Got found"
      by (auto simp: resolve_target_def resolveEpic_def unresolved_as_def split: reply.splits)
    have run: "fold_sum (resolve_child hub) (er_children found) (r\<lparr>rs_epics := rs_epics r @
        [\<lparr>el_ref = er_ref found, el_title = er_title found, el_source = er_source found, el_maxDepth = er_maxDepth found,
          el_childrenFound = length (er_children found), el_nativeUnavailable = er_nativeUnavailable found\<rparr>]\<rparr>) = Inr r'"
      using assms(1) repo True found by (simp add: resolve_target_def resolveEpic_def)
    show ?thesis
      by (rule fold_sum_invariant[OF run]) (use assms(2) in \<open>auto simp: scoped_ok_def dest: resolve_child_ok[OF _ _ assms(3), unfolded scoped_ok_def]\<close>)
  next
    case False
    then show ?thesis using assms repo resolveIssue_ok by (simp add: resolve_target_def)
  qed
qed

text \<open>What an instruction wants of an issue's labels.\<close>

definition wanted :: "parsed_instruction \<Rightarrow> bool \<Rightarrow> string set \<Rightarrow> bool" where
  "wanted parsed named ls \<longleftrightarrow>
     (if named then (if pi_intent parsed = Intends_ready then INPUT_READY \<in> ls \<and> INPUT_HOLD \<notin> ls else INPUT_HOLD \<in> ls)
      else INPUT_READY \<notin> ls \<and> (pi_elseIntent parsed = Else_hold \<longrightarrow> INPUT_HOLD \<in> ls))"

text \<open>A diff against the labels the issue has now, no larger than it need be.\<close>

definition current_diff :: "issue_map \<Rightarrow> parsed_instruction \<Rightarrow> steering_operation \<Rightarrow> bool" where
  "current_diff hub parsed o' \<longleftrightarrow>
     (\<exists>i. get_issue hub (op_repo o') (op_number o') = Got i \<and> ni_state i = Issue_open \<and>
        (op_named o' \<longrightarrow> \<not> isPullRequest i) \<and> op_observed o' = inputLabels i) \<and>
     op_ref o' = issueRef (op_repo o') (op_number o') \<and>
     set (op_add o') \<inter> set (op_observed o') = {} \<and> set (op_remove o') \<subseteq> set (op_observed o') \<and>
     set (op_add o') \<union> set (op_remove o') \<subseteq> {INPUT_READY, INPUT_HOLD} \<and>
     wanted parsed (op_named o') ((set (op_observed o') \<union> set (op_add o')) - set (op_remove o'))"

lemma ready_is_not_hold [simp]: "INPUT_READY \<noteq> INPUT_HOLD" "INPUT_HOLD \<noteq> INPUT_READY"
  by (simp_all add: INPUT_READY_def INPUT_HOLD_def)

lemma named_is_current:
  assumes "scoped_ok hub r" "s \<in> set (rs_scoped r)"
  shows "current_diff hub parsed (namedOperation parsed s)"
proof -
  obtain i where "get_issue hub (si_repo s) (si_number s) = Got i" "\<not> isPullRequest i" "ni_state i = Issue_open"
      "si_inputLabels s = inputLabels i" "si_ref s = issueRef (si_repo s) (si_number s)"
    using assms by (auto simp: scoped_ok_def)
  then show ?thesis
    by (auto simp: current_diff_def namedOperation_def Let_def wanted_def split: prod.splits)
qed

lemma other_is_current:
  assumes "o' \<in> set (sweep_repository w hub parsed scoped repo)" "answers_as_asked hub"
  shows "current_diff hub parsed o' \<and> op_repo o' = repo \<and> \<not> op_named o' \<and> op_ref o' \<notin> si_ref ` set scoped"
proof -
  obtain i where i: "i \<in> set (list_ready w hub repo)" "issueRef repo (ni_number i) \<notin> si_ref ` set scoped"
      "o' = else_operation parsed repo i"
    using assms(1) by (auto simp: sweep_repository_def)
  then obtain n where "get_issue hub repo n = Got i" "ni_state i = Issue_open" "INPUT_READY \<in> set (inputLabels i)"
    by (auto simp: list_ready_def List.map_filter_def split: reply.splits if_splits)
  moreover from this(1) have "ni_number i = n" using assms(2) by (auto simp: answers_as_asked_def get_issue_def)
  ultimately show ?thesis using i(2,3) by (auto simp: current_diff_def else_operation_def Let_def wanted_def)
qed

lemma sweep_stated:
  "resolveScope w dto registered = Inr scope \<Longrightarrow> sc_sweep scope = Some repos \<Longrightarrow>
   sc_stated scope \<noteq> None \<or> length registered \<le> 1"
  by (auto simp: resolveScope_def Let_def split: option.splits if_splits)

lemma others_swept:
  assumes "o' \<in> set (fst (snd (snd (sweep_everything_else w hub dto parsed scope scoped))))" "answers_as_asked hub"
  shows "\<exists>repos. pi_exclusive parsed \<and> pi_intent parsed = Intends_ready \<and> sc_sweep scope = Some repos \<and>
      op_repo o' \<in> set repos \<and> current_diff hub parsed o' \<and> \<not> op_named o' \<and> op_ref o' \<notin> si_ref ` set scoped"
  using assms(1) other_is_current[OF _ assms(2)] unfolding sweep_everything_else_def Let_def
  by (auto split: if_splits option.splits list.splits; blast)

lemma propose_parts:
  assumes "propose w hub registered dto = Inr p" "answers_as_asked hub"
  obtains scope r where "resolveScope w dto registered = Inr scope" "scoped_ok hub r"
    "sp_operations p = map (namedOperation (sp_parsed p)) (rs_scoped r) @
       fst (snd (snd (sweep_everything_else w hub dto (sp_parsed p) scope (rs_scoped r))))"
proof -
  define parsed where "parsed = parseSteeringInstruction (po_instruction dto)"
  obtain scope r0 r where r: "resolveScope w dto registered = Inr scope"
      "fold_sum (resolve_target w hub dto scope registered) (pi_targets parsed) r0 = Inr r" "rs_scoped r0 = []"
      "sp_operations p = map (namedOperation parsed) (rs_scoped r) @
         fst (snd (snd (sweep_everything_else w hub dto parsed scope (rs_scoped r))))" "sp_parsed p = parsed"
    using assms(1) unfolding propose_def Let_def parsed_def[symmetric]
    by (auto split: sum.splits prod.splits)
  have "scoped_ok hub r0" using r(3) by (simp add: scoped_ok_def)
  then have "scoped_ok hub r"
    by (rule fold_sum_invariant[OF r(2)]) (rule resolve_target_ok[OF _ _ assms(2)])
  with that r show thesis by blast
qed

lemma proposal_current:
  assumes "propose w hub registered dto = Inr p" "answers_as_asked hub" "o' \<in> set (sp_operations p)"
  shows "current_diff hub (sp_parsed p) o'"
  using assms(1,2)
proof (rule propose_parts)
  fix scope r
  assume "scoped_ok hub r" "sp_operations p = map (namedOperation (sp_parsed p)) (rs_scoped r) @
    fst (snd (snd (sweep_everything_else w hub dto (sp_parsed p) scope (rs_scoped r))))"
  then show ?thesis using assms(3) named_is_current others_swept[OF _ assms(2)] by fastforce
qed

lemma namedOperation_parts [simp]:
  "op_named (namedOperation parsed s)" "op_ref (namedOperation parsed s) = si_ref s"
  by (simp_all add: namedOperation_def Let_def split: prod.splits)

text \<open>C18: A proposal is the difference. Each operation is against the labels an open issue has now, adds and
  removes only ready and hold, nothing that is already so, and leaves what the instruction wants. No
  reference is named twice, and one that was swept is none of those named; as long as the operations
  spell each repository in one way, the same holds of the issues (\<open>named_issue_is_swept\<close> and
  \<open>issue_is_named_twice\<close> are what happens otherwise). A swept one is there only when the instruction is
  exclusive and asks for work, and lies in the repositories of a scope that was stated, or of the
  only one registered.\<close>
theorem proposal_is_the_difference:
  assumes "propose w hub registered dto = Inr p" "answers_as_asked hub"
  shows "(\<forall>o' \<in> set (sp_operations p). current_diff hub (sp_parsed p) o') \<and>
    distinct (map op_ref (filter op_named (sp_operations p))) \<and>
    (\<forall>o' \<in> set (sp_operations p). \<not> op_named o' \<longrightarrow>
       op_ref o' \<notin> op_ref ` set (filter op_named (sp_operations p)) \<and>
       pi_exclusive (sp_parsed p) \<and> pi_intent (sp_parsed p) = Intends_ready \<and>
       (\<exists>scope repos. resolveScope w dto registered = Inr scope \<and> sc_sweep scope = Some repos \<and> op_repo o' \<in> set repos \<and>
          (sc_stated scope \<noteq> None \<or> length registered \<le> 1))) \<and>
    (one_spelling (op_repo ` set (sp_operations p)) \<longrightarrow>
       distinct (map (\<lambda>o'. issue_key (op_repo o') (op_number o')) (filter op_named (sp_operations p))) \<and>
       (\<forall>o' \<in> set (sp_operations p). \<forall>named \<in> set (sp_operations p). \<not> op_named o' \<longrightarrow> op_named named \<longrightarrow>
          issue_key (op_repo o') (op_number o') \<noteq> issue_key (op_repo named) (op_number named)))"
proof -
  obtain scope r where r: "resolveScope w dto registered = Inr scope" "scoped_ok hub r"
    "sp_operations p = map (namedOperation (sp_parsed p)) (rs_scoped r) @
       fst (snd (snd (sweep_everything_else w hub dto (sp_parsed p) scope (rs_scoped r))))"
    using assms by (rule propose_parts)
  let ?others = "fst (snd (snd (sweep_everything_else w hub dto (sp_parsed p) scope (rs_scoped r))))"
  note other = others_swept[OF _ assms(2), of _ w dto "sp_parsed p" scope "rs_scoped r"]
  have "filter op_named ?others = []" using other by (auto simp: filter_empty_conv)
  then have named: "filter op_named (sp_operations p) = map (namedOperation (sp_parsed p)) (rs_scoped r)"
    unfolding r(3) by (simp add: filter_map comp_def)
  have refs: "map op_ref (filter op_named (sp_operations p)) = map si_ref (rs_scoped r)"
    unfolding named by (simp add: comp_def)
  then have images: "op_ref ` set (filter op_named (sp_operations p)) = si_ref ` set (rs_scoped r)"
    by (metis set_map)
  have swept: "o' \<in> set ?others" if "o' \<in> set (sp_operations p)" "\<not> op_named o'" for o'
    using that unfolding r(3) by auto
  have ref: "op_ref o' = issueRef (op_repo o') (op_number o')" if "o' \<in> set (sp_operations p)" for o'
    using proposal_current[OF assms that] by (simp add: current_diff_def)
  have once: "distinct (map op_ref (filter op_named (sp_operations p)))" unfolding refs using r(2) by (simp add: scoped_ok_def)
  have keys: "distinct (map (\<lambda>o'. issue_key (op_repo o') (op_number o')) (filter op_named (sp_operations p))) \<and>
      (\<forall>o' \<in> set (sp_operations p). \<forall>named \<in> set (sp_operations p). \<not> op_named o' \<longrightarrow> op_named named \<longrightarrow>
        issue_key (op_repo o') (op_number o') \<noteq> issue_key (op_repo named) (op_number named))"
    if one: "one_spelling (op_repo ` set (sp_operations p))"
  proof
    show "distinct (map (\<lambda>o'. issue_key (op_repo o') (op_number o')) (filter op_named (sp_operations p)))"
      by (rule refs_keys_distinct[OF one once]) (simp_all add: ref)
    show "\<forall>o' \<in> set (sp_operations p). \<forall>named \<in> set (sp_operations p). \<not> op_named o' \<longrightarrow> op_named named \<longrightarrow>
        issue_key (op_repo o') (op_number o') \<noteq> issue_key (op_repo named) (op_number named)"
    proof (intro ballI impI notI)
      fix o' named
      assume ops: "o' \<in> set (sp_operations p)" "named \<in> set (sp_operations p)" "\<not> op_named o'" "op_named named"
        and same: "issue_key (op_repo o') (op_number o') = issue_key (op_repo named) (op_number named)"
      have "op_ref o' = op_ref named"
        using one_spelling_ref[OF one _ _ same] ops(1,2) ref by simp
      then show False using other[OF swept[OF ops(1,3)]] ops(2,4) unfolding images[symmetric] by auto
    qed
  qed
  show ?thesis
  proof (intro conjI)
    show "\<forall>o' \<in> set (sp_operations p). current_diff hub (sp_parsed p) o'" using proposal_current[OF assms] by blast
    show "distinct (map op_ref (filter op_named (sp_operations p)))" by (rule once)
    show "one_spelling (op_repo ` set (sp_operations p)) \<longrightarrow>
       distinct (map (\<lambda>o'. issue_key (op_repo o') (op_number o')) (filter op_named (sp_operations p))) \<and>
       (\<forall>o' \<in> set (sp_operations p). \<forall>named \<in> set (sp_operations p). \<not> op_named o' \<longrightarrow> op_named named \<longrightarrow>
          issue_key (op_repo o') (op_number o') \<noteq> issue_key (op_repo named) (op_number named))"
      using keys by (rule impI)
  qed (unfold images, use other[OF swept] r(1) sweep_stated[OF r(1)] in blast)
qed

text \<open>C19: A confirmed proposal comes true. If a proposal's own operations are confirmed while GitHub is as it
  was, writes are on and nothing throws, every issue the proposal has one operation about, in a
  registered repository and no pull request, has the labels the instruction wants.\<close>
theorem confirmed_proposal_comes_true:
  assumes "propose w hub registered dto = Inr p" "answers_as_asked hub"
    and "apply_steering w' registered actor instruction proposedAt (map as_requested (sp_operations p)) (hub, audit) =
      (Inr result, hub', audit')" "sg_writesEnabled w'"
    and "filter (concerns (slug_key (op_repo o')) (op_number o')) (map as_requested (sp_operations p)) = [as_requested o']"
    and "o' \<in> set (sp_operations p)" "isRegistered (op_repo o') registered"
    and "get_issue hub (op_repo o') (op_number o') = Got i" "\<not> isPullRequest i"
  shows "\<exists>i'. get_issue hub' (op_repo o') (op_number o') = Got i' \<and>
    wanted (sp_parsed p) (op_named o') (set (inputLabels i'))"
proof -
  have diff: "op_observed o' = inputLabels i" "ni_state i = Issue_open"
      "wanted (sp_parsed p) (op_named o') ((set (op_observed o') \<union> set (op_add o')) - set (op_remove o'))"
    using proposal_current[OF assms(1,2,6)] assms(8) by (auto simp: current_diff_def)
  have parts: "rq_repo (as_requested o') = op_repo o'" "rq_number (as_requested o') = op_number o'"
      "rq_add (as_requested o') = op_add o'" "rq_remove (as_requested o') = op_remove o'"
      "rq_observed (as_requested o') = op_observed o'"
    by (simp_all add: as_requested_def)
  from confirmed_operations_take_effect[OF assms(3)] obtain ls where
    "hub' (slug_key (op_repo o'), op_number o') = Got (i\<lparr>inputLabels := ls\<rparr>)"
    "set ls = (set (inputLabels i) \<union> set (op_add o')) - set (op_remove o')"
    using assms(4,5,7,8,9) diff(1,2) unfolding get_issue_def
    by (elim conjE allE[of _ "as_requested o'"] allE[of _ i]) (auto simp: parts)
  then show ?thesis using diff(1,3) by (auto simp: get_issue_def)
qed

section \<open>A small GitHub\<close>

definition app :: repo_ref where "app = \<lparr>repo_owner = ''acme'', repo_name = ''app''\<rparr>"

definition an_issue :: "int \<Rightarrow> string list \<Rightarrow> normalized_issue" where
  "an_issue n ls = \<lparr>ni_number = n, ni_title = ''t'', ni_body = None, ni_state = Issue_open, ni_author = None, ni_labels = [],
     inputLabels = ls, unknownInputLabels = [], ignoredLabels = [], observedMirrorLabels = [], isPullRequest = False,
     ni_url = [], ni_createdAt = 0, ni_updatedAt = 0\<rparr>"

text \<open>Two open issues; 12 is marked ready and 13 as given.\<close>

definition small_hub :: "string list \<Rightarrow> issue_map" where
  "small_hub ls = (\<lambda>(k, n). if k = ''acme/app'' \<and> n = 12 then Got (an_issue 12 [INPUT_READY])
     else if k = ''acme/app'' \<and> n = 13 then Got (an_issue 13 ls) else Missing [])"

definition small_epics :: epic_world where
  "small_epics = \<lparr>ep_getIssue = (\<lambda>repo n. Got (an_issue n [])),
     ep_listSubIssues = (\<lambda>repo n. if n = 1 then Got [an_issue 2 [], an_issue 1 []] else Got [])\<rparr>"

definition small_world :: "(string \<Rightarrow> int \<Rightarrow> string \<Rightarrow> bool) \<Rightarrow> steering_world" where
  "small_world throws = \<lparr>sg_epics = small_epics, sg_list = (\<lambda>k. [12, 13]), sg_projects = [], sg_writesEnabled = True,
     sg_throws = throws, sg_nowMs = 60000\<rparr>"

definition app_registered :: "repo_ref \<Rightarrow> registered_repository list" where
  "app_registered repo = [\<lparr>rg_repo = repo, rg_projectId = None\<rparr>]"

definition asks :: "string \<Rightarrow> propose_input" where
  "asks text' = \<lparr>po_instruction = text', po_repository = None, po_project = None, po_allRepositories = False,
     po_maxDepth = None\<rparr>"

definition proposed :: "string list \<Rightarrow> repo_ref \<Rightarrow> string \<Rightarrow> (string \<times> string list \<times> string list \<times> bool) list" where
  "proposed ls repo text' =
    (case propose (small_world (\<lambda>k n l. False)) (small_hub ls) (app_registered repo) (asks text') of
       Inl e \<Rightarrow> []
     | Inr p \<Rightarrow> map (\<lambda>o'. (op_ref o', op_add o', op_remove o', op_named o')) (sp_operations p))"

definition calm :: steering_world where
  "calm = small_world (\<lambda>k n l. False)"

definition confirms :: "int \<Rightarrow> string list \<Rightarrow> string list \<Rightarrow> string list \<Rightarrow> requested_operation" where
  "confirms n add remove observed =
     \<lparr>rq_repo = app, rq_number = n, rq_add = add, rq_remove = remove, rq_observed = observed\<rparr>"

definition applied_to :: "steering_world \<Rightarrow> requested_operation list \<Rightarrow>
   (steering_error + apply_result) \<times> issue_map \<times> audit_event list" where
  "applied_to w ops = apply_steering w (app_registered app) ''ana'' ''words'' 0 ops (small_hub [], [])"

definition labels_of :: "issue_map \<Rightarrow> int \<Rightarrow> string list" where
  "labels_of hub n = (case get_issue hub app n of Got i \<Rightarrow> inputLabels i | _ \<Rightarrow> [])"

theorem apply_touches_only_confirmed_witness:
  "\<exists>i ls. small_hub [] (''acme/app'', 13) = Got i \<and>
     may_relabel (app_registered app) (filter (concerns ''acme/app'' 13) [confirms 13 [INPUT_READY] [] []]) i ls"
proof -
  let ?out = "applied_to calm [confirms 13 [INPUT_READY] [] []]"
  have "labels_of (fst (snd ?out)) 13 \<noteq> labels_of (small_hub []) 13" by code_simp
  then have "fst (snd ?out) (''acme/app'', 13) \<noteq> small_hub [] (''acme/app'', 13)"
    by (auto simp: labels_of_def get_issue_def slug_key_def slug_of_def app_def to_lower_def lower_char_def)
  moreover have "apply_steering calm (app_registered app) ''ana'' ''words'' 0 [confirms 13 [INPUT_READY] [] []] (small_hub [], []) =
      (fst ?out, fst (snd ?out), snd (snd ?out))" by (simp add: applied_to_def)
  ultimately show ?thesis using apply_touches_only_confirmed by blast
qed

theorem targets_are_written_witness:
  "\<exists>t \<in> set (pi_targets (parseSteeringInstruction ''only a/b#12 c/d#12'')). tg_repository t = Some (''c'', ''d'')"
proof -
  have toks: "tokens_from [] (to_lower ''only a/b#12 c/d#12'') =
      [A_word ''only'', Reference (Some (''a'', ''b'')) ''12'' ''a/b#12''] @
      Reference (Some (''c'', ''d'')) ''12'' ''c/d#12'' # []" by code_simp
  show ?thesis
    using targets_are_written[of "''only a/b#12 c/d#12''", THEN conjunct2, THEN conjunct2] toks names.simps(1)
    by metis
qed



lemma small_answers: "answers_as_asked (small_hub ls)"
  by (simp add: answers_as_asked_def small_hub_def an_issue_def)

definition only_12 :: steering_proposal where
  "only_12 = (case propose calm (small_hub [INPUT_READY]) (app_registered app) (asks ''only #12'') of Inr p \<Rightarrow> p)"

lemma only_12: "propose calm (small_hub [INPUT_READY]) (app_registered app) (asks ''only #12'') = Inr only_12"
proof -
  have "\<not> isl (propose calm (small_hub [INPUT_READY]) (app_registered app) (asks ''only #12''))" by code_simp
  then show ?thesis by (auto simp: only_12_def split: sum.splits)
qed

theorem proposal_is_the_difference_witness:
  "pi_exclusive (sp_parsed only_12) \<and> map op_named (sp_operations only_12) = [True, False]"
proof -
  have named: "map op_named (sp_operations only_12) = [True, False]" by code_simp
  then have "\<exists>o' \<in> set (sp_operations only_12). \<not> op_named o'" by (cases "sp_operations only_12") auto
  then show ?thesis using proposal_is_the_difference[OF only_12 small_answers] named by blast
qed

theorem confirmed_proposal_comes_true_witness:
  "\<exists>i'. get_issue (fst (snd (apply_steering calm (app_registered app) ''ana'' ''only #12'' 60000
      (map as_requested (sp_operations only_12)) (small_hub [INPUT_READY], [])))) app 13 = Got i' \<and>
    wanted (sp_parsed only_12) False (set (inputLabels i'))"
proof -
  let ?out = "apply_steering calm (app_registered app) ''ana'' ''only #12'' 60000
      (map as_requested (sp_operations only_12)) (small_hub [INPUT_READY], [])"
  let ?o = "sp_operations only_12 ! 1"
  have "\<not> isl (fst ?out)" by code_simp
  then have "?out = (Inr (projr (fst ?out)), fst (snd ?out), snd (snd ?out))" by (cases "fst ?out"; cases ?out) auto
  moreover have "sg_writesEnabled calm" by (simp add: calm_def small_world_def)
  moreover have "filter (concerns (slug_key (op_repo ?o)) (op_number ?o)) (map as_requested (sp_operations only_12)) = [as_requested ?o]"
    by code_simp
  moreover have "1 < length (sp_operations only_12)" by code_simp
  then have "?o \<in> set (sp_operations only_12)" by (rule nth_mem)
  moreover have parts: "op_repo ?o = app" "op_number ?o = 13" "op_named ?o = False" by code_simp+
  moreover have "isRegistered app (app_registered app)" by (simp add: isRegistered_def app_registered_def)
  moreover have "get_issue (small_hub [INPUT_READY]) app 13 = Got (an_issue 13 [INPUT_READY])" by code_simp
  moreover have "\<not> isPullRequest (an_issue 13 [INPUT_READY])" by (simp add: an_issue_def)
  ultimately show ?thesis
    using confirmed_proposal_comes_true[OF only_12 small_answers, where o' = ?o] by metis
qed

section \<open>What modelling showed\<close>

text \<open>
  The service compares references with the spelling they came in, and the parser lower-cases the
  instruction: a repository registered in capitals is named in small letters, and the issue that was
  named is also swept. Applied, it loses the label it was named to keep.
\<close>

lemma named_issue_is_swept:
  "proposed [] \<lparr>repo_owner = ''Acme'', repo_name = ''app''\<rparr> ''only Acme/app#12'' =
     [(''acme/app#12'', [], [], True), (''Acme/app#12'', [], [INPUT_READY], False)]"
  by code_simp

text \<open>An issue named both with its repository and without is named twice.\<close>

lemma issue_is_named_twice:
  "proposed [] \<lparr>repo_owner = ''Acme'', repo_name = ''app''\<rparr> ''start acme/app#13 #13'' =
     [(''acme/app#13'', [INPUT_READY], [], True), (''Acme/app#13'', [INPUT_READY], [], True)]"
  by code_simp

text \<open>
  So it is with an epic whose list spells its repository in another way: an issue is a child twice,
  and the epic its own child.
\<close>

definition spelled_epic :: epic_world where
  "spelled_epic = \<lparr>ep_getIssue = (\<lambda>repo n. Got ((an_issue n [])\<lparr>ni_body := Some
       (''# Children'' @ [CHR 0x0A] @ ''- [ ] #2'' @ [CHR 0x0A] @ ''- [ ] ACME/app#2'' @ [CHR 0x0A] @ ''- [ ] ACME/app#1'')\<rparr>)),
     ep_listSubIssues = (\<lambda>repo n. Got [])\<rparr>"

lemma epic_lists_itself:
  "(case resolve_epic spelled_epic app 1 None of Got found \<Rightarrow> map ec_ref (er_children found)) =
     [''acme/app#2'', ''ACME/app#2'', ''ACME/app#1'']"
  by code_simp

text \<open>A sentence without a number is not read with confidence, and sweeps all the same.\<close>

lemma unread_instruction_sweeps:
  "pi_confident (parseSteeringInstruction ''just do auth'') = False"
  "proposed [INPUT_READY] app ''just do auth'' =
     [(''acme/app#12'', [], [INPUT_READY], False), (''acme/app#13'', [], [INPUT_READY], False)]"
  by code_simp+

text \<open>A negation is not read, and a count is read as an issue.\<close>

lemma negation_is_not_read:
  "proposed [] app ''do not start #13'' = [(''acme/app#13'', [INPUT_READY], [], True)]"
  by code_simp

lemma count_is_an_issue:
  "map tg_number (pi_targets (parseSteeringInstruction ''hold the 3 issues 10, 11'')) = [3, 10, 11]"
  by code_simp

text \<open>A write that throws ends the request: labels are written, and no audit event says so.\<close>

lemma throwing_apply_is_not_audited:
  "(let (res, hub, audit) = applied_to (small_world (\<lambda>k n l. n = 12))
        [confirms 13 [INPUT_READY] [] [], confirms 12 [] [INPUT_READY] [INPUT_READY]]
    in (isl res, labels_of hub 13, audit)) = (True, [INPUT_READY], [])"
  by code_simp

end
