(* ===== verification/Spec2Isabelle.thy ===== *)
theory Spec2Isabelle
  imports Reconciler_Properties Dispatch_Properties Run_Event_Properties Watchdog_Properties
    Budget_Properties Autonomy_Properties Promotion_Properties Quota_Properties
    Work_Order_Properties Run_Executor_Properties Escalation_Properties Run_Poller_Properties
    Steering_Properties
begin

text \<open>
  A verification development for the Opifex control plane (\<open>src/apps/api/src\<close>): the policies that
  decide what is worked on, by which runner, for how much money, and when a run is stopped, parked,
  woken or handed to a human. The code keeps these policies in pure functions over plain data, with
  services around them that read and write the database; the theories follow that shape, definition
  by function, and the properties are about what the functions compute and what the services leave
  in the tables.

  Parts, and where they are modelled:

  \<^item> \<open>Opifex_Prelude\<close>: money as exact rationals, instants as integers (milliseconds), \<open>Math.round\<close>,
    \<open>Array.prototype.sort\<close> with a comparator (the locale \<open>js_comparator\<close>: what a consistent
    comparator gives), optional values, searching lists.
  \<^item> \<open>Runner_Types\<close> (\<open>runners/runner.types.ts\<close>): the capability manifest and the vocabulary of needs,
    tiers and quota observations.
  \<^item> \<open>Labels\<close> (\<open>github/labels\<close>, \<open>github/read\<close>): the closed sets of input and mirror labels, the
    labels nobody will act on, the read boundary that normalises an issue, and who applied a label.
  \<^item> \<open>Projection\<close> (\<open>reconciler/projection\<close>, parts of \<open>reconciler/reconciler.service.ts\<close>): from what was
    observed to what should be true of each issue.
  \<^item> \<open>Actions\<close>, \<open>Diff_Engine\<close> (\<open>reconciler/diff\<close>, \<open>watchdog/watchdog.actions.ts\<close>): the actions that bring the
    one to the other.
  \<^item> \<open>Dispatch_Policy\<close> (\<open>dispatch/dispatch-policy.ts\<close>): which runner gets a work order.
  \<^item> \<open>Run_Store\<close>, \<open>Run_Events\<close> (\<open>prisma/schema.prisma\<close>, \<open>run-events\<close>): the tables of runs, events and
    attempts, the queries on them, and the ingestion of a runner's reports.
  \<^item> \<open>Watchdog\<close>, \<open>Check_Coverage\<close>, \<open>Watchdog_Sweep\<close> (\<open>watchdog\<close>): silence, loops and parked runs; what
    each check is worth on a run; and the sweep over the tables.
  \<^item> \<open>Budget\<close> (\<open>budget\<close>): the hard spend ceiling and the service that holds it, the ledger, the admission
    of an order, and the two limits of a running one.
  \<^item> \<open>Action_Classes\<close>, \<open>Never_Trustable\<close> (\<open>supervisor/action-classes.ts\<close>, \<open>autonomy\<close>): the taxonomy of what
    may be proposed, the effects of an action, and the effects nothing may permit.
  \<^item> \<open>Row_History\<close>, \<open>Trust_Grants\<close>, \<open>Approvals\<close> (\<open>trust\<close>, \<open>approvals\<close>): what a table promises about a row over
    time (the locale \<open>row_history\<close>, interpreted on the grants and on the approvals); the standing
    grants and every operation on them; the gate an action passes, the decision of a human, the
    timeout sweep, the backfill, supersession and the approval rates.
  \<^item> \<open>Keyed_Buckets\<close>, \<open>Decision_Log\<close> (\<open>supervisor/decision-log\<close>): a map filled bucket by bucket; what a
    supervisor run leaves behind, the human's review of a proposal, and the rates per class.
  \<^item> \<open>Promotion_Policy\<close>, \<open>Promotion\<close>, \<open>Promotion_Ladder\<close> (\<open>promotion\<close>): the rules of the ladder; the
    evidence, the hourly evaluation, demotion by hand, the grants it suspends and the reads; and the
    ladder under any interleaving of its operations with those of the approvals, grants and the log.
  \<^item> \<open>Quota\<close>, \<open>Dispatch_Service\<close> (\<open>quota\<close>, \<open>dispatch/dispatch.service.ts\<close>): the vendor's windows, what is
    kept of them and the position they give; the blocked runs as a second signal, their resolution,
    the manifest read from JSON, and the decision over the pool so loaded.
  \<^item> \<open>Js_Text\<close>: a string as the source handles it, \<open>trim\<close>, \<open>split\<close>, decimal numbers, and the patterns the
    source matches with, as backtracking matchers that list every way to match in the engine's order.
  \<^item> \<open>Work_Orders\<close> (\<open>work-orders/work-order-identity.ts\<close>, \<open>acceptance-criteria.ts\<close>,
    \<open>work-order-generator.ts\<close>, \<open>work-order-rehydrate.ts\<close>): identity and branch of an order, the gate on
    its criteria, its generation, and the stored row read back.
  \<^item> \<open>Issue_Projection\<close> (\<open>work-orders/issue-projection.ts\<close>, \<open>work-order-projection.service.ts\<close>, the
    section parser of \<open>github/write/issue-conformance.ts\<close>): the body of an issue read into an order, and
    the rows a pass over a repository writes or holds.
  \<^item> \<open>Run_Executor\<close> (\<open>dispatch/run-executor.service.ts\<close>, \<open>dispatch/dispatch-queue.service.ts\<close>,
    \<open>reconciler/execute/resume.executor.ts\<close>): the dispatch of an order with its recovery, the drain of
    the queue, and the resume of a parked run through every gate.
  \<^item> \<open>Escalations\<close>, \<open>Escalation_Dispatch\<close>, \<open>Escalation_Lifecycle\<close> (\<open>escalations\<close>, \<open>notifications\<close>): the
    records of what a human must know, raised once per problem; the pass that sends them to devices
    or the webhook and takes receipts; and the table under any interleaving of what writes it.
  \<^item> \<open>Run_Poller\<close> (\<open>runners/run-poller.service.ts\<close>): the tick that carries a runner's reports into the
    tables, enforces the wall clock and the budget, and marks the live runs nobody holds.
  \<^item> \<open>Steering_Parser\<close>, \<open>Epic_Children\<close>, \<open>Steering\<close> (\<open>steering\<close>, \<open>github/read/epic-children.service.ts\<close>,
    \<open>epic-body-children.ts\<close>): an operator's sentence read by the source's patterns, the issues an epic
    names level by level, the diff of labels proposed, and the diff applied with its audit event.

  How they interact. A tick reads GitHub through the boundary of \<open>Labels\<close>, projects the observation
  (\<open>projectDesiredState\<close>), diffs it (\<open>computeActions\<close>) and adds what the watchdog's \<open>sweep\<close> ordered;
  the watchdog and the ingestion share the tables of \<open>Run_Store\<close>, the ledger sums them, and the
  admission of \<open>Budget\<close> and the routing of \<open>Dispatch_Policy\<close> decide on a dispatch. An action the
  supervisor proposes enters at \<open>gate\<close>: the effects check with the ceiling of \<open>Budget\<close>, then the grants,
  then a request that a human or the clock answers; answering may create a grant. The answers and the
  reviews of the decision log are the evidence of \<open>gatherEvidence\<close>; a demotion suspends the grants the
  gate would have used. \<open>decide_dispatch\<close> hands the routing a pool made of the runner rows, the runs of
  \<open>Run_Store\<close> and the windows of \<open>Quota\<close>. \<open>projectWorkOrders\<close> turns ready issues into rows; \<open>drain\<close> rehydrates
  the due rows, admits each through \<open>decideSpendAdmission\<close>, routes it through \<open>decide_dispatch\<close> and
  creates the run the ingestion then advances; a parked run the watchdog orders resumed comes back
  through \<open>execute_resumes\<close>, which asks the projection for the issue's intent first. Between ticks
  \<open>poll_tick\<close> feeds the ingestion and may cancel; what a tick or the poller escalates becomes a row by
  \<open>raiseFrom\<close> and a message by \<open>dispatchPending\<close>. An operator's sentence becomes input labels by
  \<open>propose\<close> and \<open>apply_steering\<close>, which the next tick's boundary reads.

  The lemmas. Each theory of a component ends with the lemmas its properties rest on: what a loop
  computes in closed form, what an operation leaves alone, an operation of the tables as a map over
  rows. The properties are in the \<open>_Properties\<close> theories, each with a witness at a concrete input.
  \<open>Reconciler_Properties\<close>: what stops, starts and releases work, that one tick of label actions is
  enough, that order and mirror labels do not matter. \<open>Dispatch_Properties\<close>: who may be chosen, when
  somebody is, who is best, that the order of the pool does not matter, and that a queued order says
  why. \<open>Run_Event_Properties\<close>: ingestion is all or nothing, refines a transition of one run, is
  idempotent, keeps the totals. \<open>Watchdog_Properties\<close>: the detectors exactly, what a sweep may write and
  order, and the invariant of deliveries and sweeps interleaved in any order. \<open>Budget_Properties\<close>: when an
  order is admitted, and that an admitted one keeps the ledger within the ceiling.
  \<open>Autonomy_Properties\<close>: forbidden effects are refused whatever stands, when an action runs with nobody
  asked, the invariants of the grants and the approvals under every interleaving, and the bounds of a
  renewal and of a charge. \<open>Promotion_Properties\<close>: what the evidence counts, when a rung moves, that a
  promotion was earned, that a hand demotion holds and stops what ran unattended. \<open>Quota_Properties\<close>:
  what the meter says, what a batch becomes and the table keeps, how a manifest is read, and that no
  order goes to a runner either signal says is out. \<open>Work_Order_Properties\<close>: an issue's order is written
  once under any sequence of passes, a stored row rehydrates into the order it was written from, a hold
  reaches the row, an identity reads back. \<open>Run_Executor_Properties\<close>: what a dispatch can leave behind,
  that draining the queue keeps the spend ceiling, that what is submitted is what was stored, that a
  resume passes every gate, and that a held issue's run stays parked. \<open>Escalation_Properties\<close>: a problem
  is on record and queued once, a page keeps its history, a device that answers is told, a percentile
  is a sample. \<open>Run_Poller_Properties\<close>: no live run goes unwatched in silence, the wall clock cancels
  exactly, and what becomes of an overrun. \<open>Steering_Properties\<close>: what is read stands in the sentence, an
  epic's children are new, a proposal is the difference between GitHub and the sentence, and applying
  it changes what was confirmed, makes it true and touches nothing else. References are compared as they
  are spelled, as in the source, while GitHub folds case: what that leaves of the issues is stated apart,
  with \<open>one_spelling\<close>.

  Parameters, for code that is not under \<open>src\<close>: \<open>String.prototype.localeCompare\<close> (the locale
  \<open>collation\<close> states what is relied on, interpreted on the order by code units), the JSON-schema
  validator and the telemetry emitter of the ingestion, GitHub's answers (functions into a sum, since a
  read may fail), the random number generator of the parking (a number in \<open>[0, 1)\<close> per run), the
  clock, and of the executor the world it calls (\<open>exec_world\<close>, and likewise of the poller and the dispatcher: which writes and which submissions fail,
  which identifiers are given). The clock stands still within one call of these. Database queries are list operations on the tables in insertion order; rows that tie in an
  \<open>orderBy\<close> are in that order, which the database does not promise, and no property rests on it.

  Conventions. The prose a function renders is a datatype with a constructor per template and the
  values it interpolates. Money and durations are exact where the code uses doubles, and rounded
  where it rounds; strings are ASCII. No function needs fuel: every loop of the modelled code is a
  recursion on a list, but for \<open>raise_until_met\<close>, whose measure is what is still missing of a count
  known to be enough, \<open>tokens_from\<close>, whose measure is the text left, and \<open>walk\<close>, a recursion on the levels left.

  Not modelled: HTTP, paging, retries and persistence around the policies (the row loaders and the
  leases of the reconciler, the label and comment writers), the JSON document of a work order, the
  registry of operator settings, the read models of the cockpit, authentication, storage,
  the daily brief, the runner process and the web client, which are I/O, library calls or rendering.
\<close>

end
